(* ===== verification/Prelude.thy ===== *)
theory Prelude
  imports Complex_Main "HOL-Library.Char_ord" "HOL-Library.List_Lexorder"
begin

text \<open>
  The shared base of the development: exceptions as values, the effect type of stateful
  code, its sequencing operators, and the two proof principles every stateful component
  uses, a frame relation kept by each step (locale \<open>frame\<close>) and pre- and
  postconditions (\<open>hoare\<close>).
\<close>

section \<open>Exceptions\<close>

text \<open>
  The exceptions the modelled code raises or catches by class. \<open>TikaError\<close> carries the
  \<open>terminal\<close> flag; every other exception is caught as \<open>Exception\<close> only, so its class
  name and its text are what a handler can see of it.
\<close>

datatype exc =
    EmbeddingUnavailableError string
  | TikaError string bool
  | PyError string string

fun exc_str :: "exc \<Rightarrow> string" where
  "exc_str (EmbeddingUnavailableError m) = m"
| "exc_str (TikaError m terminal) = m"
| "exc_str (PyError c m) = m"

fun exc_name :: "exc \<Rightarrow> string" where
  "exc_name (EmbeddingUnavailableError m) = ''EmbeddingUnavailableError''"
| "exc_name (TikaError m terminal) = ''TikaError''"
| "exc_name (PyError c m) = c"

section \<open>Effects\<close>

text \<open>
  A stateful operation takes the state and returns its outcome, \<open>Inl\<close> an exception or
  \<open>Inr\<close> a value, together with the new state. The state survives an exception: what was
  written before the raise stays written, as in the program.
\<close>

type_synonym ('s, 'a) eff = "'s \<Rightarrow> (exc + 'a) \<times> 's"

definition ret :: "'a \<Rightarrow> ('s, 'a) eff" where
  "ret x s = (Inr x, s)"

definition raise :: "exc \<Rightarrow> ('s, 'a) eff" where
  "raise e s = (Inl e, s)"

definition bindE :: "('s, 'a) eff \<Rightarrow> ('a \<Rightarrow> ('s, 'b) eff) \<Rightarrow> ('s, 'b) eff" where
  "bindE m f s = (case m s of (Inl e, t) \<Rightarrow> (Inl e, t) | (Inr x, t) \<Rightarrow> f x t)"

definition seqE :: "('s, 'a) eff \<Rightarrow> ('s, 'b) eff \<Rightarrow> ('s, 'b) eff" where
  "seqE m k = bindE m (\<lambda>_. k)"

definition whenE :: "bool \<Rightarrow> ('s, unit) eff \<Rightarrow> ('s, unit) eff" where
  "whenE b m = (if b then m else ret ())"

definition gets :: "('s \<Rightarrow> 'a) \<Rightarrow> ('s, 'a) eff" where
  "gets f s = (Inr (f s), s)"

definition modify :: "('s \<Rightarrow> 's) \<Rightarrow> ('s, unit) eff" where
  "modify f s = (Inr (), f s)"

definition of_sum :: "exc + 'a \<Rightarrow> ('s, 'a) eff" where
  "of_sum r s = (r, s)"

text \<open>\<open>try: m except: h\<close>, the handler running in the state the exception left.\<close>

definition catchE :: "('s, 'a) eff \<Rightarrow> (exc \<Rightarrow> ('s, 'a) eff) \<Rightarrow> ('s, 'a) eff" where
  "catchE m h s = (case m s of (Inl e, t) \<Rightarrow> h e t | (Inr x, t) \<Rightarrow> (Inr x, t))"

primrec for_each :: "'a list \<Rightarrow> ('a \<Rightarrow> ('s, unit) eff) \<Rightarrow> ('s, unit) eff" where
  "for_each [] body = ret ()"
| "for_each (x # xs) body = seqE (body x) (for_each xs body)"

lemmas eff_defs = ret_def raise_def bindE_def seqE_def whenE_def gets_def modify_def
  of_sum_def catchE_def

section \<open>Frames: a relation every step keeps\<close>

text \<open>
  \<open>steps R m\<close>: whatever the outcome of \<open>m\<close>, the state before and the state after are
  related by \<open>R\<close>. For a reflexive and transitive \<open>R\<close> the property composes along the
  operators, so a whole handler is proved from its calls.
\<close>

definition steps :: "('s \<Rightarrow> 's \<Rightarrow> bool) \<Rightarrow> ('s, 'a) eff \<Rightarrow> bool" where
  "steps R m \<longleftrightarrow> (\<forall>s. R s (snd (m s)))"

lemma stepsI [intro?]: "(\<And>s. R s (snd (m s))) \<Longrightarrow> steps R m"
  by (simp add: steps_def)

lemma stepsD: "steps R m \<Longrightarrow> R s (snd (m s))"
  by (simp add: steps_def)

lemma steps_mono: "steps R m \<Longrightarrow> (\<And>s t. R s t \<Longrightarrow> R' s t) \<Longrightarrow> steps R' m"
  by (simp add: steps_def)

locale frame =
  fixes R :: "'s \<Rightarrow> 's \<Rightarrow> bool"
  assumes frame_refl: "R s s"
    and frame_trans: "R s t \<Longrightarrow> R t u \<Longrightarrow> R s u"
begin

lemma steps_ret: "steps R (ret x)"
  by (simp add: steps_def ret_def frame_refl)

lemma steps_raise: "steps R (raise e)"
  by (simp add: steps_def raise_def frame_refl)

lemma steps_gets: "steps R (gets f)"
  by (simp add: steps_def gets_def frame_refl)

lemma steps_of_sum: "steps R (of_sum r)"
  by (simp add: steps_def of_sum_def frame_refl)

lemma steps_modify: "(\<And>s. R s (f s)) \<Longrightarrow> steps R (modify f)"
  by (simp add: steps_def modify_def)

lemma steps_bindE:
  assumes "steps R m" and "\<And>x. steps R (f x)"
  shows "steps R (bindE m f)"
proof
  fix s
  have 1: "R s (snd (m s))" using assms(1) by (rule stepsD)
  show "R s (snd (bindE m f s))"
  proof (cases "m s")
    case (Pair r t)
    then show ?thesis
      using 1 assms(2)
      by (cases r) (auto simp: bindE_def steps_def intro: frame_trans)
  qed
qed

lemma steps_seqE: "steps R m \<Longrightarrow> steps R k \<Longrightarrow> steps R (seqE m k)"
  by (simp add: seqE_def steps_bindE)

lemma steps_whenE: "(b \<Longrightarrow> steps R m) \<Longrightarrow> steps R (whenE b m)"
  by (simp add: whenE_def steps_ret)

lemma steps_if: "(b \<Longrightarrow> steps R m) \<Longrightarrow> (\<not> b \<Longrightarrow> steps R k) \<Longrightarrow> steps R (if b then m else k)"
  by simp

lemma steps_catchE:
  assumes "steps R m" and "\<And>e. steps R (h e)"
  shows "steps R (catchE m h)"
proof
  fix s
  have 1: "R s (snd (m s))" using assms(1) by (rule stepsD)
  show "R s (snd (catchE m h s))"
  proof (cases "m s")
    case (Pair r t)
    then show ?thesis
      using 1 assms(2)
      by (cases r) (auto simp: catchE_def steps_def intro: frame_trans)
  qed
qed

lemma steps_for_each: "(\<And>x. x \<in> set xs \<Longrightarrow> steps R (body x)) \<Longrightarrow> steps R (for_each xs body)"
  by (induction xs) (simp_all add: steps_ret steps_seqE)

lemma steps_option:
  "(x = None \<Longrightarrow> steps R m) \<Longrightarrow> (\<And>y. x = Some y \<Longrightarrow> steps R (f y)) \<Longrightarrow>
   steps R (case x of None \<Rightarrow> m | Some y \<Rightarrow> f y)"
  by (cases x) simp_all

lemma steps_sum:
  "(\<And>e. x = Inl e \<Longrightarrow> steps R (f e)) \<Longrightarrow> (\<And>y. x = Inr y \<Longrightarrow> steps R (g y)) \<Longrightarrow>
   steps R (case x of Inl e \<Rightarrow> f e | Inr y \<Rightarrow> g y)"
  by (cases x) simp_all

lemmas steps_rules = steps_ret steps_raise steps_gets steps_of_sum steps_bindE steps_seqE
  steps_whenE steps_if steps_catchE steps_for_each steps_option steps_sum

end

section \<open>Pre- and postconditions\<close>

text \<open>
  \<open>hoare P m Q E\<close>: from a state with \<open>P\<close>, a normal return satisfies \<open>Q\<close> (value and
  state) and an exception satisfies \<open>E\<close>.
\<close>

definition hoare :: "('s \<Rightarrow> bool) \<Rightarrow> ('s, 'a) eff \<Rightarrow> ('a \<Rightarrow> 's \<Rightarrow> bool) \<Rightarrow> (exc \<Rightarrow> 's \<Rightarrow> bool) \<Rightarrow> bool" where
  "hoare P m Q E \<longleftrightarrow>
     (\<forall>s. P s \<longrightarrow> (case m s of (Inl e, t) \<Rightarrow> E e t | (Inr x, t) \<Rightarrow> Q x t))"

lemma hoareI:
  "(\<And>s e t. P s \<Longrightarrow> m s = (Inl e, t) \<Longrightarrow> E e t) \<Longrightarrow>
   (\<And>s x t. P s \<Longrightarrow> m s = (Inr x, t) \<Longrightarrow> Q x t) \<Longrightarrow> hoare P m Q E"
  by (auto simp: hoare_def split: prod.split sum.split)

lemma hoare_InrD: "hoare P m Q E \<Longrightarrow> P s \<Longrightarrow> m s = (Inr x, t) \<Longrightarrow> Q x t"
  by (auto simp: hoare_def split: prod.splits sum.splits)

lemma hoare_InlD: "hoare P m Q E \<Longrightarrow> P s \<Longrightarrow> m s = (Inl e, t) \<Longrightarrow> E e t"
  by (auto simp: hoare_def split: prod.splits sum.splits)

lemma hoare_conseq:
  assumes h: "hoare P' m Q' E'"
    and p: "\<And>s. P s \<Longrightarrow> P' s"
    and q: "\<And>x s. Q' x s \<Longrightarrow> Q x s"
    and e: "\<And>e s. E' e s \<Longrightarrow> E e s"
  shows "hoare P m Q E"
proof (rule hoareI)
  fix s err t
  assume "P s" and "m s = (Inl err, t)"
  then show "E err t" by (rule e [OF hoare_InlD [OF h p]])
next
  fix s x t
  assume "P s" and "m s = (Inr x, t)"
  then show "Q x t" by (rule q [OF hoare_InrD [OF h p]])
qed

lemma hoare_ret: "(\<And>s. P s \<Longrightarrow> Q x s) \<Longrightarrow> hoare P (ret x) Q E"
  by (simp add: hoare_def ret_def)

lemma hoare_raise: "(\<And>s. P s \<Longrightarrow> E e s) \<Longrightarrow> hoare P (raise e) Q E"
  by (simp add: hoare_def raise_def)

lemma hoare_gets: "(\<And>s. P s \<Longrightarrow> Q (f s) s) \<Longrightarrow> hoare P (gets f) Q E"
  by (simp add: hoare_def gets_def)

lemma hoare_modify: "(\<And>s. P s \<Longrightarrow> Q () (f s)) \<Longrightarrow> hoare P (modify f) Q E"
  by (simp add: hoare_def modify_def)

lemma bindE_Inr:
  "bindE m f s = (Inr y, u) \<longleftrightarrow> (\<exists>x t. m s = (Inr x, t) \<and> f x t = (Inr y, u))"
  by (auto simp: bindE_def split: prod.splits sum.splits)

lemma bindE_Inl:
  "bindE m f s = (Inl e, u) \<longleftrightarrow>
     m s = (Inl e, u) \<or> (\<exists>x t. m s = (Inr x, t) \<and> f x t = (Inl e, u))"
  by (auto simp: bindE_def split: prod.splits sum.splits)

lemma hoare_bindE:
  assumes m: "hoare P m Q' E" and f: "\<And>x. hoare (Q' x) (f x) Q E"
  shows "hoare P (bindE m f) Q E"
proof (rule hoareI)
  fix s e t
  assume p: "P s" and "bindE m f s = (Inl e, t)"
  then consider "m s = (Inl e, t)" | x u where "m s = (Inr x, u)" "f x u = (Inl e, t)"
    by (auto simp: bindE_Inl)
  then show "E e t"
    by cases (blast intro: hoare_InlD [OF m p] hoare_InlD [OF f] hoare_InrD [OF m p])+
next
  fix s y t
  assume p: "P s" and "bindE m f s = (Inr y, t)"
  then obtain x u where "m s = (Inr x, u)" "f x u = (Inr y, t)"
    by (auto simp: bindE_Inr)
  then show "Q y t" by (blast intro: hoare_InrD [OF f] hoare_InrD [OF m p])
qed

lemma hoare_seqE:
  "hoare P m (\<lambda>_. Q') E \<Longrightarrow> hoare Q' k Q E \<Longrightarrow> hoare P (seqE m k) Q E"
  by (simp add: seqE_def hoare_bindE)

lemma hoare_whenE:
  "(b \<Longrightarrow> hoare P m (\<lambda>_. Q) E) \<Longrightarrow> (\<And>s. \<not> b \<Longrightarrow> P s \<Longrightarrow> Q s) \<Longrightarrow> hoare P (whenE b m) (\<lambda>_. Q) E"
  by (simp add: whenE_def hoare_ret)

lemma hoare_if:
  "(b \<Longrightarrow> hoare P m Q E) \<Longrightarrow> (\<not> b \<Longrightarrow> hoare P k Q E) \<Longrightarrow> hoare P (if b then m else k) Q E"
  by simp

lemma seqE_Inr:
  "seqE m k s = (Inr y, u) \<longleftrightarrow> (\<exists>x t. m s = (Inr x, t) \<and> k t = (Inr y, u))"
  by (simp add: seqE_def bindE_Inr)

lemma seqE_Inl:
  "seqE m k s = (Inl e, u) \<longleftrightarrow>
     m s = (Inl e, u) \<or> (\<exists>x t. m s = (Inr x, t) \<and> k t = (Inl e, u))"
  by (simp add: seqE_def bindE_Inl)

lemma ret_eq [simp]: "ret x s = (r, t) \<longleftrightarrow> r = Inr x \<and> t = s"
  by (auto simp: ret_def)

lemma raise_eq [simp]: "raise e s = (r, t) \<longleftrightarrow> r = Inl e \<and> t = s"
  by (auto simp: raise_def)

lemma gets_eq [simp]: "gets f s = (r, t) \<longleftrightarrow> r = Inr (f s) \<and> t = s"
  by (auto simp: gets_def)

lemma modify_eq [simp]: "modify f s = (r, t) \<longleftrightarrow> r = Inr () \<and> t = f s"
  by (auto simp: modify_def)

lemma of_sum_eq [simp]: "of_sum x s = (r, t) \<longleftrightarrow> r = x \<and> t = s"
  by (auto simp: of_sum_def)

lemmas eff_InrE = bindE_Inr seqE_Inr

section \<open>Lists and numbers\<close>

lemma zero_less_max_Suc [simp]: "0 < max (Suc 0) n"
  by (simp add: max_def)

lemma set_take_drop_subset: "x \<in> set (take n (drop i xs)) \<Longrightarrow> x \<in> set xs"
  by (meson in_set_dropD in_set_takeD)

lemma filter_eq_NilD: "filter P xs = [] \<Longrightarrow> x \<in> set xs \<Longrightarrow> \<not> P x"
  by (induction xs) (auto split: if_splits)

lemma find_filter: "find P (filter Q xs) = find (\<lambda>x. P x \<and> Q x) xs"
  by (induction xs) auto

lemma find_append: "find P (xs @ ys) = (case find P xs of None \<Rightarrow> find P ys | Some x \<Rightarrow> Some x)"
  by (induction xs) auto

lemma concat_filter_Nil: "concat (filter (\<lambda>xs. xs \<noteq> []) xss) = concat xss"
  by (induction xss) auto

end
