(* ===== verification/PyStr.thy ===== *)
theory PyStr
  imports Prelude
begin

text \<open>
  The string operations of Python's \<open>str\<close> the code uses. A HOL \<open>char\<close> stands for the
  Unicode code point with its number, so texts are modelled over the Latin-1 range
  U+0000 to U+00FF; \<open>is_space\<close> and \<open>py_lower\<close> agree with \<open>str.isspace\<close> and
  \<open>str.lower\<close> there.
\<close>

section \<open>Characters\<close>

abbreviation NL :: char where "NL \<equiv> CHR 0x0A"

definition is_space :: "char \<Rightarrow> bool" where
  "is_space c = (let n = (of_char c :: nat) in
     (9 \<le> n \<and> n \<le> 13) \<or> (28 \<le> n \<and> n \<le> 32) \<or> n = 133 \<or> n = 160)"

definition is_digit :: "char \<Rightarrow> bool" where
  "is_digit c = (let n = (of_char c :: nat) in 48 \<le> n \<and> n \<le> 57)"

definition char_lower :: "char \<Rightarrow> char" where
  "char_lower c = (let n = (of_char c :: nat) in
     if (65 \<le> n \<and> n \<le> 90) \<or> (192 \<le> n \<and> n \<le> 222 \<and> n \<noteq> 215) then char_of (n + 32) else c)"

definition py_lower :: "string \<Rightarrow> string" where
  "py_lower s = map char_lower s"

lemma is_space_NL [simp]: "is_space NL"
  by (simp add: is_space_def)

section \<open>Stripping, splitting, joining\<close>

definition py_lstrip :: "string \<Rightarrow> string" where
  "py_lstrip s = dropWhile is_space s"

definition py_rstrip :: "string \<Rightarrow> string" where
  "py_rstrip s = rev (dropWhile is_space (rev s))"

definition py_strip :: "string \<Rightarrow> string" where
  "py_strip s = py_rstrip (py_lstrip s)"

text \<open>\<open>s.lstrip(chars)\<close> and \<open>s.strip(chars)\<close> for one character.\<close>

definition lstrip_char :: "char \<Rightarrow> string \<Rightarrow> string" where
  "lstrip_char c s = dropWhile (\<lambda>d. d = c) s"

definition strip_char :: "char \<Rightarrow> string \<Rightarrow> string" where
  "strip_char c s = rev (dropWhile (\<lambda>d. d = c) (rev (dropWhile (\<lambda>d. d = c) s)))"

text \<open>\<open>s.split()\<close>: the maximal runs of non-whitespace. The first argument holds the run
  being read, reversed.\<close>

fun wsplit :: "string \<Rightarrow> string \<Rightarrow> string list" where
  "wsplit acc [] = (if acc = [] then [] else [rev acc])"
| "wsplit acc (c # cs) =
     (if is_space c then (if acc = [] then wsplit [] cs else rev acc # wsplit [] cs)
      else wsplit (c # acc) cs)"

definition py_split :: "string \<Rightarrow> string list" where
  "py_split s = wsplit [] s"

text \<open>\<open>sep.join(xs)\<close>.\<close>

fun py_join :: "string \<Rightarrow> string list \<Rightarrow> string" where
  "py_join sep [] = []"
| "py_join sep [x] = x"
| "py_join sep (x # y # zs) = x @ sep @ py_join sep (y # zs)"

text \<open>\<open>s.split(c)\<close> for one character, \<open>s.split(c, 1)[0]\<close> and \<open>s.rsplit(c, 1)[-1]\<close>.\<close>

fun split_char :: "char \<Rightarrow> string \<Rightarrow> string list" where
  "split_char c [] = [[]]"
| "split_char c (d # ds) =
     (if d = c then [] # split_char c ds
      else (case split_char c ds of [] \<Rightarrow> [[d]] | p # ps \<Rightarrow> (d # p) # ps))"

definition before_char :: "char \<Rightarrow> string \<Rightarrow> string" where
  "before_char c s = takeWhile (\<lambda>d. d \<noteq> c) s"

definition after_last :: "char \<Rightarrow> string \<Rightarrow> string" where
  "after_last c s = rev (takeWhile (\<lambda>d. d \<noteq> c) (rev s))"

text \<open>\<open>s.startswith(p)\<close> and \<open>p in s\<close>.\<close>

definition starts_with :: "string \<Rightarrow> string \<Rightarrow> bool" where
  "starts_with p s \<longleftrightarrow> take (length p) s = p"

fun contains :: "string \<Rightarrow> string \<Rightarrow> bool" where
  "contains p [] = (p = [])"
| "contains p (c # cs) = (starts_with p (c # cs) \<or> contains p cs)"

definition replace_char :: "char \<Rightarrow> string \<Rightarrow> string \<Rightarrow> string" where
  "replace_char c r s = concat (map (\<lambda>d. if d = c then r else [d]) s)"

section \<open>Numbers as text\<close>

definition digit_char :: "nat \<Rightarrow> char" where
  "digit_char d = char_of (48 + d)"

fun str_of_nat :: "nat \<Rightarrow> string" where
  "str_of_nat n = (if n < 10 then [digit_char n] else str_of_nat (n div 10) @ [digit_char (n mod 10)])"

declare str_of_nat.simps [simp del]

definition str_of_int :: "int \<Rightarrow> string" where
  "str_of_int i = (if i < 0 then CHR ''-'' # str_of_nat (nat (- i)) else str_of_nat (nat i))"

definition str_of_bool :: "bool \<Rightarrow> string" where
  "str_of_bool b = (if b then ''True'' else ''False'')"

section \<open>Words of a text\<close>

lemma wsplit_space_mid:
  "is_space c \<Longrightarrow> wsplit acc (a @ c # b) = wsplit acc a @ wsplit [] b"
  by (induction a arbitrary: acc) auto

lemma py_split_space_mid: "is_space c \<Longrightarrow> py_split (a @ c # b) = py_split a @ py_split b"
  by (simp add: py_split_def wsplit_space_mid)

lemma py_split_Nil [simp]: "py_split [] = []"
  by (simp add: py_split_def)

lemma py_split_spaces [simp]: "(\<And>c. c \<in> set ws \<Longrightarrow> is_space c) \<Longrightarrow> py_split ws = []"
  unfolding py_split_def by (induction ws) auto

lemma py_split_Cons_space: "is_space c \<Longrightarrow> py_split (c # s) = py_split s"
  by (simp add: py_split_def)

lemma py_split_append_space:
  "ws \<noteq> [] \<Longrightarrow> (\<And>c. c \<in> set ws \<Longrightarrow> is_space c) \<Longrightarrow>
   py_split (a @ ws @ b) = py_split a @ py_split b"
proof (induction ws arbitrary: a)
  case Nil
  then show ?case by simp
next
  case (Cons w ws)
  show ?case
  proof (cases "ws = []")
    case True
    with Cons.prems show ?thesis by (simp add: py_split_space_mid)
  next
    case False
    with Cons.IH [of "[]"] Cons.prems have "py_split (ws @ b) = py_split b" by simp
    then show ?thesis using Cons.prems(2) [of w] by (simp add: py_split_space_mid)
  qed
qed

lemma py_split_lspaces:
  "(\<And>c. c \<in> set ws \<Longrightarrow> is_space c) \<Longrightarrow> py_split (ws @ b) = py_split b"
  by (cases "ws = []") (use py_split_append_space [of ws "[]" b] in auto)

lemma py_split_rspaces:
  "(\<And>c. c \<in> set ws \<Longrightarrow> is_space c) \<Longrightarrow> py_split (a @ ws) = py_split a"
  by (cases "ws = []") (use py_split_append_space [of ws a "[]"] in auto)

lemma py_split_lstrip [simp]: "py_split (py_lstrip s) = py_split s"
proof -
  have "py_split (takeWhile is_space s @ dropWhile is_space s) = py_split (dropWhile is_space s)"
    by (rule py_split_lspaces) (metis set_takeWhileD)
  then show ?thesis by (simp add: py_lstrip_def)
qed

lemma rstrip_decomp: "s = py_rstrip s @ rev (takeWhile is_space (rev s))"
  by (metis py_rstrip_def rev_append rev_rev_ident takeWhile_dropWhile_id)

lemma py_split_rstrip [simp]: "py_split (py_rstrip s) = py_split s"
proof -
  have "py_split (py_rstrip s @ rev (takeWhile is_space (rev s))) = py_split (py_rstrip s)"
    by (rule py_split_rspaces) (metis set_rev set_takeWhileD)
  then show ?thesis using rstrip_decomp [of s] by simp
qed

lemma py_split_strip [simp]: "py_split (py_strip s) = py_split s"
  by (simp add: py_strip_def)

lemma wsplit_eq_Nil: "wsplit acc s = [] \<longleftrightarrow> acc = [] \<and> (\<forall>c \<in> set s. is_space c)"
  by (induction s arbitrary: acc) auto

lemma py_split_eq_Nil: "py_split s = [] \<longleftrightarrow> (\<forall>c \<in> set s. is_space c)"
  by (simp add: py_split_def wsplit_eq_Nil)

lemma py_rstrip_eq_Nil: "py_rstrip s = [] \<longleftrightarrow> (\<forall>c \<in> set s. is_space c)"
  by (simp add: py_rstrip_def)

lemma py_lstrip_eq_Nil: "py_lstrip s = [] \<longleftrightarrow> (\<forall>c \<in> set s. is_space c)"
  by (simp add: py_lstrip_def)

lemma py_strip_eq_Nil: "py_strip s = [] \<longleftrightarrow> (\<forall>c \<in> set s. is_space c)"
  by (metis py_split_eq_Nil py_rstrip_eq_Nil py_split_lstrip py_strip_def)

lemma py_strip_words: "py_strip s \<noteq> [] \<longleftrightarrow> py_split s \<noteq> []"
  by (simp add: py_strip_eq_Nil py_split_eq_Nil)

text \<open>A word is a non-empty run without whitespace, and splitting it gives it back.\<close>

definition is_word :: "string \<Rightarrow> bool" where
  "is_word w \<longleftrightarrow> w \<noteq> [] \<and> (\<forall>c \<in> set w. \<not> is_space c)"

lemma wsplit_words:
  "(\<forall>c \<in> set acc. \<not> is_space c) \<Longrightarrow> w \<in> set (wsplit acc s) \<Longrightarrow> is_word w"
proof (induction acc s rule: wsplit.induct)
  case (1 acc)
  then show ?case by (auto simp: is_word_def split: if_splits)
next
  case (2 acc c cs)
  then show ?case by (cases "is_space c") (auto simp: is_word_def split: if_splits)
qed

lemma py_split_is_word: "w \<in> set (py_split s) \<Longrightarrow> is_word w"
  unfolding py_split_def by (rule wsplit_words [of "[]"]) auto

lemma wsplit_word:
  "(\<forall>c \<in> set w. \<not> is_space c) \<Longrightarrow> acc @ w \<noteq> [] \<Longrightarrow> wsplit acc w = [rev acc @ w]"
  by (induction w arbitrary: acc) auto

lemma py_split_word: "is_word w \<Longrightarrow> py_split w = [w]"
  by (simp add: py_split_def is_word_def wsplit_word)

lemma py_split_join:
  assumes "sep \<noteq> []" and "\<And>c. c \<in> set sep \<Longrightarrow> is_space c"
  shows "py_split (py_join sep xs) = concat (map py_split xs)"
  using assms
proof (induction sep xs rule: py_join.induct)
  case (3 sep x y zs)
  have "py_split (x @ sep @ py_join sep (y # zs)) = py_split x @ py_split (py_join sep (y # zs))"
    using "3.prems" by (rule py_split_append_space)
  with "3.IH" [OF "3.prems"] show ?case by simp
qed simp_all

lemma concat_map_words: "(\<And>w. w \<in> set ws \<Longrightarrow> is_word w) \<Longrightarrow> concat (map py_split ws) = ws"
  by (induction ws) (auto simp: py_split_word)

lemma py_split_unwords:
  "(\<And>w. w \<in> set ws \<Longrightarrow> is_word w) \<Longrightarrow> py_split (py_join '' '' ws) = ws"
  by (subst py_split_join) (auto simp: is_space_def concat_map_words)

text \<open>A name in single quotes, as the messages have it.\<close>

definition quoted :: "string \<Rightarrow> string" where
  "quoted s = [CHR 0x27] @ s @ [CHR 0x27]"

end
