(* ===== verification/Schema.thy ===== *)
theory Schema
  imports PyStr
begin

text \<open>
  The validated job catalog of \<open>src/src/catalog/schema.py\<close> and the settings of
  \<open>src/src/config.py\<close>: one record per pydantic model, the field and model validators as
  Boolean checks, and the derived values (\<open>every_seconds\<close>, \<open>secret_env_names\<close>,
  \<open>source_uri\<close>). Record fields carry a prefix because HOL fields are global names.
\<close>

section \<open>JSON values\<close>

datatype jval =
    JNull
  | JBool bool
  | JInt int
  | JFloat rat
  | JStr string
  | JList "jval list"
  | JObj "(string \<times> jval) list"

section \<open>Sources\<close>

text \<open>One constructor per source class, its own fields in order; secret fields hold the
  referenced environment name.\<close>

datatype source_kind =
    S3Source (bucket: string) (s3_prefix: string) (provider: string) (region: string)
      (endpoint: string) (access_key_id: "string option") (secret_access_key: "string option")
  | WebdavSource string string string "string option"
  | SftpSource string int string "string option" "string option" string
  | SmbSource string string string "string option" string
  | FtpSource string int string "string option" string bool
  | LocalSource string
  | GdriveSource "string option" "string option" string
  | AzureBlobSource string string "string option" "string option" string
  | HttpSource string

record source =
  src_label :: string
  src_rclone_flags :: "string list"
  src_kind :: source_kind

fun kind_type :: "source_kind \<Rightarrow> string" where
  "kind_type (S3Source b p pr r e a s) = ''s3''"
| "kind_type (WebdavSource u v us p) = ''webdav''"
| "kind_type (SftpSource h p u pw k pa) = ''sftp''"
| "kind_type (SmbSource h s u p pa) = ''smb''"
| "kind_type (FtpSource h p u pw pa t) = ''ftp''"
| "kind_type (LocalSource p) = ''local''"
| "kind_type (GdriveSource s t r) = ''gdrive''"
| "kind_type (AzureBlobSource a c k s p) = ''azureblob''"
| "kind_type (HttpSource u) = ''http''"

fun local_path :: "source_kind \<Rightarrow> string option" where
  "local_path (LocalSource p) = Some p"
| "local_path k = None"

text \<open>\<open>_SourceBase.secret_env_names\<close>: the secret fields that are set, with their names.\<close>

fun secret_fields :: "source_kind \<Rightarrow> (string \<times> string option) list" where
  "secret_fields (S3Source b p pr r e a s) = [(''access_key_id'', a), (''secret_access_key'', s)]"
| "secret_fields (WebdavSource u v us p) = [(''password'', p)]"
| "secret_fields (SftpSource h p u pw k pa) = [(''password'', pw), (''key_file'', k)]"
| "secret_fields (SmbSource h s u p pa) = [(''password'', p)]"
| "secret_fields (FtpSource h p u pw pa t) = [(''password'', pw)]"
| "secret_fields (LocalSource p) = []"
| "secret_fields (GdriveSource s t r) = [(''service_account_json'', s), (''token'', t)]"
| "secret_fields (AzureBlobSource a c k s p) = [(''key'', k), (''sas_url'', s)]"
| "secret_fields (HttpSource u) = []"

definition secret_env_names :: "source \<Rightarrow> (string \<times> string) list" where
  "secret_env_names s =
     [(f, the v). (f, v) \<leftarrow> secret_fields (src_kind s), v \<noteq> None]"

section \<open>Job sections\<close>

record filters_config =
  flt_include :: "string list"
  flt_exclude :: "string list"
  flt_max_file_bytes :: "int option"

record target_config =
  tgt_collection :: string
  tgt_connection :: string
  tgt_acl_tags :: "string list"
  tgt_extra_payload :: "(string \<times> jval) list"

datatype startup_policy = Never | IfMissed | Always

record schedule_config =
  sch_cron :: "string option"
  sch_every :: "string option"
  sch_timezone :: "string option"
  sch_jitter_seconds :: nat
  sch_misfire_grace_seconds :: nat
  sch_run_on_startup :: startup_policy

datatype strategy = StratAuto | StratMarkdown | StratParagraph | StratSheetRows | StratSlide

fun strategy_str :: "strategy \<Rightarrow> string" where
  "strategy_str StratAuto = ''auto''"
| "strategy_str StratMarkdown = ''markdown''"
| "strategy_str StratParagraph = ''paragraph''"
| "strategy_str StratSheetRows = ''sheet_rows''"
| "strategy_str StratSlide = ''slide''"

record chunking_config =
  chk_strategy :: strategy
  chk_words :: nat
  chk_overlap :: nat

record embedding_config =
  emb_model :: "string option"
  emb_batch_size :: "int option"

record safety_config =
  saf_max_delete_ratio :: rat
  saf_empty_source_guard :: bool

datatype mode = Full | Append | Upsert
datatype full_scope = ScopeJob | ScopeCollection
datatype append_probe = ProbeAuto | ProbeState | ProbeQdrant

record job =
  job_id :: string
  job_enabled :: bool
  job_description :: string
  job_source :: source
  job_filters :: filters_config
  job_target :: target_config
  job_mode :: mode
  job_full_scope :: full_scope
  job_append_probe :: append_probe
  job_schedule :: schedule_config
  job_chunking :: chunking_config
  job_embedding :: embedding_config
  job_safety :: safety_config
  job_mcp_allow_full :: bool
  job_expand_embedded :: bool
  job_source_template :: string

text \<open>The settings, in the order of the class.\<close>

record settings =
  set_embedding_api_url :: string
  set_embedding_api_key :: string
  set_embed_meta_collection :: string
  set_rbac_acl_collection :: string
  set_embed_batch_size :: int
  set_embed_retries :: int
  set_embed_concurrency :: int
  set_embed_rps :: rat
  set_connections_file :: string
  set_connections_secret :: string
  set_secrets_file :: string
  set_jobs_file :: string
  set_jobs_file_legacy :: string
  set_jobs_reload_interval :: int
  set_tika_url :: string
  set_tika_timeout :: rat
  set_tika_ocr_language :: string
  set_tika_pdf_ocr_strategy :: string
  set_tika_sniff_unknown :: bool
  set_min_chars_per_page :: int
  set_max_file_bytes :: int
  set_sheet_rows :: int
  set_max_concurrent_jobs :: int
  set_timezone :: string
  set_misfire_grace :: int
  set_cron_jitter :: int
  set_lock_timeout :: rat
  set_run_history_limit :: int
  set_shutdown_grace :: rat
  set_rest_auth :: string
  set_api_token :: string
  set_http_host :: string
  set_http_port :: int
  set_mcp_path :: string
  set_metrics_enabled :: bool
  set_metrics_auth :: bool
  set_log_level :: string
  set_oidc_issuer :: string
  set_oidc_audience :: string
  set_oidc_operator_role :: string
  set_oidc_jwks_cache_ttl :: int
  set_state_dir :: string
  set_cache_dir :: string
  set_local_dir :: string

abbreviation job_collection :: "job \<Rightarrow> string" where
  "job_collection j \<equiv> tgt_collection (job_target j)"

abbreviation job_label :: "job \<Rightarrow> string" where
  "job_label j \<equiv> src_label (job_source j)"

abbreviation is_local :: "job \<Rightarrow> bool" where
  "is_local j \<equiv> local_path (src_kind (job_source j)) \<noteq> None"

section \<open>Validators\<close>

definition is_slug_start :: "char \<Rightarrow> bool" where
  "is_slug_start c = (let n = (of_char c :: nat) in is_digit c \<or> (97 \<le> n \<and> n \<le> 122))"

text \<open>\<open>SLUG_PATTERN\<close>, \<open>^[a-z0-9][a-z0-9_-]{0,63}$\<close> (pydantic's regular expressions match
  \<open>$\<close> at the very end only).\<close>

definition is_slug :: "string \<Rightarrow> bool" where
  "is_slug s \<longleftrightarrow> s \<noteq> [] \<and> length s \<le> 64 \<and> is_slug_start (hd s) \<and>
     (\<forall>c \<in> set s. is_slug_start c \<or> c = CHR ''_'' \<or> c = CHR ''-'')"

definition RESERVED_PAYLOAD_KEYS :: "string list" where
  "RESERVED_PAYLOAD_KEYS = [''text'', ''source'', ''ingest_job'', ''ingest_run'', ''acl_tags'']"

definition no_reserved_keys :: "(string \<times> jval) list \<Rightarrow> bool" where
  "no_reserved_keys extra \<longleftrightarrow> (\<forall>k \<in> set (map fst extra). k \<notin> set RESERVED_PAYLOAD_KEYS)"

text \<open>\<open>_EVERY_RE\<close>, \<open>^(\d+)(s|m|h|d)$\<close>: digits, one unit, and the end (or a final newline).\<close>

fun every_factor :: "char \<Rightarrow> nat option" where
  "every_factor c =
     (if c = CHR ''s'' then Some 1 else if c = CHR ''m'' then Some 60
      else if c = CHR ''h'' then Some 3600 else if c = CHR ''d'' then Some 86400 else None)"

definition digit_val :: "char \<Rightarrow> nat" where
  "digit_val c = of_char c - 48"

definition nat_of_digits :: "string \<Rightarrow> nat" where
  "nat_of_digits s = foldl (\<lambda>n c. 10 * n + digit_val c) 0 s"

definition parse_every :: "string \<Rightarrow> nat option" where
  "parse_every s =
     (let ds = takeWhile is_digit s; r = dropWhile is_digit s in
      if ds = [] then None
      else (case r of
              [] \<Rightarrow> None
            | u # e \<Rightarrow> if e = [] \<or> e = [NL]
                       then map_option (\<lambda>f. nat_of_digits ds * f) (every_factor u) else None))"

definition schedule_valid :: "schedule_config \<Rightarrow> bool" where
  "schedule_valid s \<longleftrightarrow> \<not> (sch_cron s \<noteq> None \<and> sch_every s \<noteq> None) \<and>
     (case sch_every s of None \<Rightarrow> True | Some e \<Rightarrow> parse_every e \<noteq> None)"

definition every_seconds :: "schedule_config \<Rightarrow> nat option" where
  "every_seconds s = (case sch_every s of None \<Rightarrow> None | Some e \<Rightarrow> parse_every e)"

definition is_manual_only :: "schedule_config \<Rightarrow> bool" where
  "is_manual_only s \<longleftrightarrow> sch_cron s = None \<and> sch_every s = None"

definition chunking_valid :: "chunking_config \<Rightarrow> bool" where
  "chunking_valid c \<longleftrightarrow> 1 \<le> chk_words c \<and> chk_overlap c < chk_words c"

definition template_valid :: "string \<Rightarrow> bool" where
  "template_valid t \<longleftrightarrow> contains ''{rel_path}'' t \<and> contains ''{label}'' t"

text \<open>\<open>COLLECTION_PATTERN\<close>, \<open>^[a-zA-Z0-9][a-zA-Z0-9._-]{0,127}$\<close>.\<close>

definition is_alnum_ascii :: "char \<Rightarrow> bool" where
  "is_alnum_ascii c = (let n = (of_char c :: nat) in is_slug_start c \<or> (65 \<le> n \<and> n \<le> 90))"

definition is_collection_name :: "string \<Rightarrow> bool" where
  "is_collection_name s \<longleftrightarrow> s \<noteq> [] \<and> length s \<le> 128 \<and> is_alnum_ascii (hd s) \<and>
     (\<forall>c \<in> set s. is_alnum_ascii c \<or> c = CHR ''.'' \<or> c = CHR ''_'' \<or> c = CHR ''-'')"

text \<open>The declared minimum lengths and port ranges.\<close>

definition is_port :: "int \<Rightarrow> bool" where
  "is_port p \<longleftrightarrow> 1 \<le> p \<and> p \<le> 65535"

fun source_kind_valid :: "source_kind \<Rightarrow> bool" where
  "source_kind_valid (S3Source b p pr r e a s) = (b \<noteq> [])"
| "source_kind_valid (WebdavSource u v us p) = (u \<noteq> [])"
| "source_kind_valid (SftpSource h p u pw k pa) = (h \<noteq> [] \<and> is_port p)"
| "source_kind_valid (SmbSource h s u p pa) = (h \<noteq> [] \<and> s \<noteq> [])"
| "source_kind_valid (FtpSource h p u pw pa t) = (h \<noteq> [] \<and> is_port p)"
| "source_kind_valid (LocalSource p) = (p \<noteq> [])"
| "source_kind_valid (GdriveSource s t r) = True"
| "source_kind_valid (AzureBlobSource a c k s p) = (a \<noteq> [] \<and> c \<noteq> [])"
| "source_kind_valid (HttpSource u) = (u \<noteq> [])"

definition target_valid :: "target_config \<Rightarrow> bool" where
  "target_valid t \<longleftrightarrow> is_collection_name (tgt_collection t) \<and> is_slug (tgt_connection t) \<and>
     no_reserved_keys (tgt_extra_payload t)"

definition at_least_one :: "int option \<Rightarrow> bool" where
  "at_least_one v = (case v of None \<Rightarrow> True | Some i \<Rightarrow> 1 \<le> i)"

definition safety_valid :: "safety_config \<Rightarrow> bool" where
  "safety_valid s \<longleftrightarrow> 0 \<le> saf_max_delete_ratio s \<and> saf_max_delete_ratio s \<le> 1"

definition job_valid :: "job \<Rightarrow> bool" where
  "job_valid j \<longleftrightarrow> is_slug (job_id j) \<and> is_slug (job_label j) \<and> source_kind_valid (src_kind (job_source j)) \<and>
     at_least_one (flt_max_file_bytes (job_filters j)) \<and> target_valid (job_target j) \<and>
     schedule_valid (job_schedule j) \<and> chunking_valid (job_chunking j) \<and>
     at_least_one (emb_batch_size (job_embedding j)) \<and> safety_valid (job_safety j) \<and>
     template_valid (job_source_template j)"

section \<open>Source URIs\<close>

lemma dropWhile_Cons_shorter: "b # rest = dropWhile P (c # cs) \<Longrightarrow> length rest < Suc (Suc (length cs))"
  using length_dropWhile_le [of P "c # cs"] by (metis Suc_le_lessD length_Cons less_SucI)

text \<open>
  \<open>str.format\<close> with keyword arguments: doubled braces are literal, a field is looked up by
  name. A field with a conversion, a format specification, an attribute or an index is
  outside the model and gives its own exception.
\<close>

function py_format :: "(string \<Rightarrow> string option) \<Rightarrow> string \<Rightarrow> exc + string" where
  "py_format args [] = Inr []"
| "py_format args (c # cs) =
     (if c = CHR ''{'' then
        (case cs of
           [] \<Rightarrow> Inl (PyError ''ValueError'' ''Single '{' encountered in format string'')
         | d # ds \<Rightarrow>
             if d = CHR ''{'' then map_sum id (\<lambda>r. CHR ''{'' # r) (py_format args ds)
             else
               (let name = takeWhile (\<lambda>x. x \<noteq> CHR ''}'' \<and> x \<noteq> CHR ''{'') cs;
                    r = dropWhile (\<lambda>x. x \<noteq> CHR ''}'' \<and> x \<noteq> CHR ''{'') cs
                in case r of
                     [] \<Rightarrow> Inl (PyError ''ValueError'' ''expected '}' before end of string'')
                   | b # rest \<Rightarrow>
                       if b \<noteq> CHR ''}''
                       then Inl (PyError ''ValueError'' ''unexpected '{' in field name'')
                       else if \<exists>x \<in> set name. x = CHR ''!'' \<or> x = CHR '':'' \<or> x = CHR ''.'' \<or> x = CHR ''[''
                       then Inl (PyError ''FormatFieldOutsideModel'' name)
                       else (case args name of
                               None \<Rightarrow> Inl (PyError ''KeyError'' name)
                             | Some v \<Rightarrow> map_sum id (\<lambda>t. v @ t) (py_format args rest))))
      else if c = CHR ''}'' then
        (case cs of
           [] \<Rightarrow> Inl (PyError ''ValueError'' ''Single '}' encountered in format string'')
         | d # ds \<Rightarrow>
             if d = CHR ''}'' then map_sum id (\<lambda>r. CHR ''}'' # r) (py_format args ds)
             else Inl (PyError ''ValueError'' ''Single '}' encountered in format string''))
      else map_sum id (\<lambda>r. c # r) (py_format args cs))"
  by pat_completeness auto

termination
  by (relation "measure (\<lambda>(args, s). length s)")
    (simp_all del: dropWhile.simps takeWhile.simps add: dropWhile_Cons_shorter)

definition source_uri :: "job \<Rightarrow> string \<Rightarrow> exc + string" where
  "source_uri j rel_path =
     py_format (\<lambda>name. if name = ''scheme'' then Some (kind_type (src_kind (job_source j)))
                       else if name = ''label'' then Some (job_label j)
                       else if name = ''rel_path'' then Some rel_path else None)
       (job_source_template j)"

definition default_template :: string where
  "default_template = ''{scheme}://{label}/{rel_path}''"

definition source_prefix :: "job \<Rightarrow> exc + string" where
  "source_prefix j = source_uri j []"


section \<open>What the schema guarantees\<close>

lemma nat_of_digits_snoc: "nat_of_digits (ds @ [c]) = 10 * nat_of_digits ds + digit_val c"
  by (simp add: nat_of_digits_def)

lemma digit_char_props: "d < 10 \<Longrightarrow> is_digit (digit_char d) \<and> digit_val (digit_char d) = d"
  by (simp add: is_digit_def digit_char_def digit_val_def of_char_of Let_def)

lemma str_of_nat_digits:
  "str_of_nat n \<noteq> [] \<and> (\<forall>c \<in> set (str_of_nat n). is_digit c) \<and> nat_of_digits (str_of_nat n) = n"
proof (induction n rule: str_of_nat.induct)
  case (1 n)
  show ?case
  proof (cases "n < 10")
    case True
    then show ?thesis
      using digit_char_props [OF True] by (simp add: str_of_nat.simps [of n] nat_of_digits_def)
  next
    case False
    with "1.IH" digit_char_props [of "n mod 10"] show ?thesis
      by (simp add: str_of_nat.simps [of n] nat_of_digits_snoc)
  qed
qed

lemma str_of_nat_inj: "str_of_nat m = str_of_nat n \<longleftrightarrow> m = n"
  by (metis str_of_nat_digits)

lemma str_of_nat_all_digits: "c \<in> set (str_of_nat n) \<Longrightarrow> is_digit c"
  using str_of_nat_digits by blast

text \<open>The interval syntax round-trips: a schedule written as a decimal count and one of
  the units s, m, h, d is read back as that many seconds, and passes the schedule check.\<close>

theorem every_seconds_roundtrip:
  assumes "every_factor u = Some f" and "sch_cron s = None" and "sch_every s = Some (str_of_nat n @ [u])"
  shows "every_seconds s = Some (n * f) \<and> schedule_valid s"
proof -
  have u: "\<not> is_digit u" using assms(1) by (auto simp: is_digit_def split: if_splits)
  have "takeWhile is_digit (str_of_nat n @ [u]) = str_of_nat n"
    and "dropWhile is_digit (str_of_nat n @ [u]) = [u]"
    using u str_of_nat_digits [of n] by (simp_all add: takeWhile_append2 dropWhile_append2)
  then have "parse_every (str_of_nat n @ [u]) = Some (n * f)"
    using str_of_nat_digits [of n] assms(1) by (simp add: parse_every_def Let_def)
  with assms(2,3) show ?thesis by (simp add: every_seconds_def schedule_valid_def)
qed

theorem every_seconds_roundtrip_witness:
  "every_seconds \<lparr>sch_cron = None, sch_every = Some (str_of_nat 15 @ ''m''), sch_timezone = None,
     sch_jitter_seconds = 30, sch_misfire_grace_seconds = 300, sch_run_on_startup = IfMissed\<rparr> = Some 900"
  using every_seconds_roundtrip [of "CHR ''m''" 60 "\<lparr>sch_cron = None,
     sch_every = Some (str_of_nat 15 @ ''m''), sch_timezone = None, sch_jitter_seconds = 30,
     sch_misfire_grace_seconds = 300, sch_run_on_startup = IfMissed\<rparr>" 15]
  by simp

text \<open>The default template spells out as scheme, label and relative path.\<close>

lemma source_uri_default:
  "job_source_template j = default_template \<Longrightarrow>
   source_uri j r = Inr (kind_type (src_kind (job_source j)) @ ''://'' @ job_label j @ ''/'' @ r)"
  by (simp add: source_uri_def default_template_def)

lemma source_prefix_default:
  "job_source_template j = default_template \<Longrightarrow> source_prefix j = Inr p \<Longrightarrow> source_uri j r = Inr (p @ r)"
  by (simp add: source_prefix_def source_uri_default)

lemma slug_no_slash: "is_slug s \<Longrightarrow> CHR ''/'' \<notin> set s"
  by (auto simp: is_slug_def is_slug_start_def is_digit_def)

lemma slug_no_bar: "is_slug s \<Longrightarrow> CHR ''|'' \<notin> set s"
  by (auto simp: is_slug_def is_slug_start_def is_digit_def)

lemma append_sep_inj:
  assumes "c \<notin> set a" and "c \<notin> set b" and "a @ c # x = b @ c # y"
  shows "a = b \<and> x = y"
  using assms
proof (induction a arbitrary: b)
  case Nil
  then show ?case by (cases b) auto
next
  case (Cons d a)
  then show ?case by (cases b) auto
qed

lemma kind_type_no_colon: "CHR '':'' \<notin> set (kind_type k)"
  by (cases k) auto

text \<open>Under the default template a source URI determines the source type, the label and
  the relative path: two jobs whose labels differ never produce the same \<open>source\<close>, which
  is what unique labels per collection are checked for.\<close>

theorem source_uri_default_inj:
  assumes "job_source_template j = default_template" and "job_source_template k = default_template"
    and "is_slug (job_label j)" and "is_slug (job_label k)"
    and "source_uri j r = source_uri k q"
  shows "kind_type (src_kind (job_source j)) = kind_type (src_kind (job_source k)) \<and>
    job_label j = job_label k \<and> r = q"
proof -
  have eq: "kind_type (src_kind (job_source j)) @ CHR '':'' # ''//'' @ job_label j @ ''/'' @ r =
      kind_type (src_kind (job_source k)) @ CHR '':'' # ''//'' @ job_label k @ ''/'' @ q"
    using assms(5) by (simp add: source_uri_default [OF assms(1)] source_uri_default [OF assms(2)])
  from append_sep_inj [OF kind_type_no_colon kind_type_no_colon eq]
  have 1: "kind_type (src_kind (job_source j)) = kind_type (src_kind (job_source k))"
    and "job_label j @ CHR ''/'' # r = job_label k @ CHR ''/'' # q" by simp_all
  with append_sep_inj [OF slug_no_slash [OF assms(3)] slug_no_slash [OF assms(4)]]
  show ?thesis by blast
qed


section \<open>A sample job\<close>

text \<open>A local upsert job with the schema's defaults, the concrete input of the witnesses.\<close>

definition sample_job :: job where
  "sample_job = \<lparr>job_id = ''acme'', job_enabled = True, job_description = [],
     job_source = \<lparr>src_label = ''docs'', src_rclone_flags = [], src_kind = LocalSource ''/data/local''\<rparr>,
     job_filters = \<lparr>flt_include = [], flt_exclude = [], flt_max_file_bytes = None\<rparr>,
     job_target = \<lparr>tgt_collection = ''kb'', tgt_connection = ''primary'', tgt_acl_tags = [],
       tgt_extra_payload = []\<rparr>,
     job_mode = Upsert, job_full_scope = ScopeJob, job_append_probe = ProbeAuto,
     job_schedule = \<lparr>sch_cron = None, sch_every = None, sch_timezone = None,
       sch_jitter_seconds = 30, sch_misfire_grace_seconds = 300, sch_run_on_startup = IfMissed\<rparr>,
     job_chunking = \<lparr>chk_strategy = StratAuto, chk_words = 400, chk_overlap = 50\<rparr>,
     job_embedding = \<lparr>emb_model = Some ''m'', emb_batch_size = None\<rparr>,
     job_safety = \<lparr>saf_max_delete_ratio = 1 / 4, saf_empty_source_guard = True\<rparr>,
     job_mcp_allow_full = False, job_expand_embedded = False,
     job_source_template = default_template\<rparr>"

definition sample_settings :: settings where
  "sample_settings = \<lparr>set_embedding_api_url = ''http://litellm:4000/v1'', set_embedding_api_key = [],
     set_embed_meta_collection = ''_collection_meta'', set_rbac_acl_collection = ''_rbac_acl'',
     set_embed_batch_size = 32, set_embed_retries = 3, set_embed_concurrency = 2, set_embed_rps = 0,
     set_connections_file = ''/config/connections.yaml'', set_connections_secret = ''s3cret'',
     set_secrets_file = ''/config/catalog/secrets.yaml'', set_jobs_file = ''/config/catalog/jobs.yaml'',
     set_jobs_file_legacy = ''/config/jobs.yaml'', set_jobs_reload_interval = 30,
     set_tika_url = ''http://qdrant-ingest-tika:9998'', set_tika_timeout = 300,
     set_tika_ocr_language = ''deu+eng'', set_tika_pdf_ocr_strategy = ''auto'',
     set_tika_sniff_unknown = False, set_min_chars_per_page = 100, set_max_file_bytes = 209715200,
     set_sheet_rows = 40, set_max_concurrent_jobs = 2, set_timezone = ''UTC'', set_misfire_grace = 300,
     set_cron_jitter = 30, set_lock_timeout = 60, set_run_history_limit = 200, set_shutdown_grace = 30,
     set_rest_auth = ''token'', set_api_token = [], set_http_host = ''0.0.0.0'', set_http_port = 8300,
     set_mcp_path = ''/mcp'', set_metrics_enabled = True, set_metrics_auth = True,
     set_log_level = ''INFO'', set_oidc_issuer = [], set_oidc_audience = ''mcp-qdrant-ingest'',
     set_oidc_operator_role = ''qdrant-ingest-operator'', set_oidc_jwks_cache_ttl = 3600,
     set_state_dir = ''/data/state'', set_cache_dir = ''/data/cache'', set_local_dir = ''/data/local''\<rparr>"

lemma sample_job_valid: "job_valid sample_job"
  by code_simp

lemma sample_job_simps [simp]:
  "job_id sample_job = ''acme''" "job_label sample_job = ''docs''"
  "job_collection sample_job = ''kb''" "job_source_template sample_job = default_template"
  "job_target sample_job = \<lparr>tgt_collection = ''kb'', tgt_connection = ''primary'', tgt_acl_tags = [],
       tgt_extra_payload = []\<rparr>"
  "src_kind (job_source sample_job) = LocalSource ''/data/local''"
  "job_safety sample_job = \<lparr>saf_max_delete_ratio = 1 / 4, saf_empty_source_guard = True\<rparr>"
  "job_mode sample_job = Upsert" "job_full_scope sample_job = ScopeJob"
  by (simp_all add: sample_job_def)

theorem source_uri_default_inj_witness:
  "source_uri (sample_job\<lparr>job_id := ''b''\<rparr>) ''a.md'' = Inr ''local://docs/a.md'' \<and>
   job_label sample_job = job_label (sample_job\<lparr>job_id := ''b''\<rparr>)"
proof -
  have l: "is_slug (job_label sample_job)" by code_simp
  have e: "source_uri sample_job ''a.md'' = Inr ''local://docs/a.md''"
    "source_uri (sample_job\<lparr>job_id := ''b''\<rparr>) ''a.md'' = Inr ''local://docs/a.md''"
    by (simp_all add: source_uri_default)
  show ?thesis
    using source_uri_default_inj [of sample_job "sample_job\<lparr>job_id := ''b''\<rparr>" "''a.md''" "''a.md''"] l e
    by simp
qed

text \<open>The template check accepts a template whose placeholders are escaped: with
  \<open>{{label}}{{rel_path}}\<close> the job passes validation, and every file of the job gets one and
  the same \<open>source\<close>.\<close>

theorem template_check_accepts_escaped:
  "template_valid ''{{label}}{{rel_path}}'' \<and>
   source_uri (j\<lparr>job_source_template := ''{{label}}{{rel_path}}''\<rparr>) r = Inr ''{label}{rel_path}''"
proof
  show "template_valid ''{{label}}{{rel_path}}''" by code_simp
qed (simp add: source_uri_def)

end
