(* ===== verification/StateDb.thy ===== *)
theory StateDb
  imports Schema "HOL-Library.Multiset"
begin

text \<open>
  The state database, \<open>src/src/state/db.py\<close> with the row models of
  \<open>src/src/state/models.py\<close>: one record per row type, a table as the list of its rows in
  row-id order, and one definition per method of \<open>StateStore\<close>. Every write method is one
  transaction of the code, so it is one step here. Text comparisons are the BINARY collation
  (lexicographic in the code points), and rows that compare equal keep their row-id order.
  The interface \<open>doc_store\<close> states what the runner relies on.
\<close>

section \<open>Rows\<close>

datatype doc_status = Indexed | SkippedNoText | SkippedTooLarge | SkippedUnsupported
  | FailedExtract | FailedEmbed

datatype run_status = Running | Success | Failed | Interrupted | AbortedGuard | AbortedLock

datatype run_trigger = TrigCron | TrigRest | TrigMcp | TrigUi | TrigStartup

datatype run_phase = Syncing | Scanning | Embedding | CleaningUp

datatype level = Info | Warning | Error

text \<open>The words the database and the clients see.\<close>

fun status_str :: "doc_status \<Rightarrow> string" where
  "status_str Indexed = ''indexed''"
| "status_str SkippedNoText = ''skipped_no_text''"
| "status_str SkippedTooLarge = ''skipped_too_large''"
| "status_str SkippedUnsupported = ''skipped_unsupported''"
| "status_str FailedExtract = ''failed_extract''"
| "status_str FailedEmbed = ''failed_embed''"

definition DOCUMENT_STATUSES :: "doc_status list" where
  "DOCUMENT_STATUSES = [Indexed, SkippedNoText, SkippedTooLarge, SkippedUnsupported, FailedExtract, FailedEmbed]"

fun mode_str :: "mode \<Rightarrow> string" where
  "mode_str Append = ''append''"
| "mode_str Upsert = ''upsert''"
| "mode_str Full = ''full''"

fun scope_str :: "full_scope \<Rightarrow> string" where
  "scope_str ScopeJob = ''job''"
| "scope_str ScopeCollection = ''collection''"

fun run_status_str :: "run_status \<Rightarrow> string" where
  "run_status_str Running = ''running''"
| "run_status_str Success = ''success''"
| "run_status_str Failed = ''failed''"
| "run_status_str Interrupted = ''interrupted''"
| "run_status_str AbortedGuard = ''aborted_guard''"
| "run_status_str AbortedLock = ''aborted_lock''"

fun trigger_str :: "run_trigger \<Rightarrow> string" where
  "trigger_str TrigCron = ''cron''"
| "trigger_str TrigRest = ''manual_rest''"
| "trigger_str TrigMcp = ''manual_mcp''"
| "trigger_str TrigUi = ''manual_ui''"
| "trigger_str TrigStartup = ''startup''"

fun phase_str :: "run_phase \<Rightarrow> string" where
  "phase_str Syncing = ''syncing''"
| "phase_str Scanning = ''scanning''"
| "phase_str Embedding = ''embedding''"
| "phase_str CleaningUp = ''cleaning up''"

definition RUN_STATUSES :: "run_status list" where
  "RUN_STATUSES = [Running, Success, Failed, Interrupted, AbortedGuard, AbortedLock]"

text \<open>The primary key of \<open>documents\<close> is the job id with the source.\<close>

record document_row =
  doc_job :: string
  doc_collection :: string
  doc_source :: string
  doc_rel_path :: string
  doc_size :: int
  doc_mtime_ns :: int
  doc_content_sha :: string
  doc_params_sha :: string
  doc_status :: doc_status
  doc_last_run :: string
  doc_indexed_at :: string
  doc_text_sha :: "string option"
  doc_media_type :: "string option"
  doc_chunk_count :: int
  doc_last_error :: "string option"

record run_row =
  run_id :: string
  run_job_id :: string
  run_mode :: mode
  run_trigger :: run_trigger
  run_started_at :: string
  run_status :: run_status
  run_full_scope :: "full_scope option"
  run_finished_at :: "string option"
  run_sync_status :: "string option"
  run_sync_stderr_tail :: "string option"
  run_files_seen :: int
  run_docs_indexed :: int
  run_docs_unchanged :: int
  run_docs_skipped_changed :: int
  run_docs_failed :: int
  run_docs_deleted :: int
  run_chunks_upserted :: int
  run_bytes_read :: int
  run_embed_calls :: int
  run_error :: "string option"
  run_dry_run :: bool
  run_files_done :: int
  run_phase :: "run_phase option"
  run_current :: "string option"

record run_event =
  ev_run :: string
  ev_seq :: int
  ev_ts :: string
  ev_level :: level
  ev_source :: "string option"
  ev_message :: string

record db =
  db_documents :: "document_row list"
  db_runs :: "run_row list"
  db_events :: "run_event list"

definition empty_db :: db where
  "empty_db = \<lparr>db_documents = [], db_runs = [], db_events = []\<rparr>"

abbreviation doc_key :: "document_row \<Rightarrow> string \<times> string" where
  "doc_key d \<equiv> (doc_job d, doc_source d)"

section \<open>What the statements use of SQL\<close>

text \<open>\<open>LIMIT n\<close> (a negative limit is none), \<open>OFFSET n\<close> (a negative offset is zero), and
  \<open>ORDER BY key DESC\<close>.\<close>

definition sql_limit :: "int \<Rightarrow> 'a list \<Rightarrow> 'a list" where
  "sql_limit n xs = (if n < 0 then xs else take (nat n) xs)"

definition sql_offset :: "int \<Rightarrow> 'a list \<Rightarrow> 'a list" where
  "sql_offset n xs = drop (nat n) xs"

definition order_desc :: "('a \<Rightarrow> string) \<Rightarrow> 'a list \<Rightarrow> 'a list" where
  "order_desc key xs = rev (sort_key key (rev xs))"

text \<open>The case folding of \<open>LIKE\<close> and \<open>NOCASE\<close> is over ASCII only.\<close>

definition ascii_lower :: "char \<Rightarrow> char" where
  "ascii_lower c = (let n = (of_char c :: nat) in if 65 \<le> n \<and> n \<le> 90 then char_of (n + 32) else c)"

definition nocase :: "string \<Rightarrow> string" where
  "nocase s = map ascii_lower s"

text \<open>\<open>text LIKE pattern ESCAPE '\'\<close>.\<close>

function sql_like :: "string \<Rightarrow> string \<Rightarrow> bool" where
  "sql_like [] s = (s = [])"
| "sql_like (d # p) s =
     (if d = CHR ''%'' then
        sql_like p s \<or> (case s of [] \<Rightarrow> False | c # cs \<Rightarrow> sql_like (d # p) cs)
      else if d = CHR ''_'' then (case s of [] \<Rightarrow> False | c # cs \<Rightarrow> sql_like p cs)
      else if d = CHR 0x5C then
        (case p of [] \<Rightarrow> False
         | e # q \<Rightarrow> (case s of [] \<Rightarrow> False
                     | c # cs \<Rightarrow> ascii_lower c = ascii_lower e \<and> sql_like q cs))
      else (case s of [] \<Rightarrow> False | c # cs \<Rightarrow> ascii_lower c = ascii_lower d \<and> sql_like p cs))"
  by pat_completeness auto
termination
  by (relation "measure (\<lambda>(p, s). length p + length s)") auto

declare sql_like.simps(2) [simp del]

definition escape_like :: "string \<Rightarrow> string" where
  "escape_like q =
     replace_char CHR ''_'' [CHR 0x5C, CHR ''_'']
       (replace_char CHR ''%'' [CHR 0x5C, CHR ''%'']
         (replace_char CHR 0x5C [CHR 0x5C, CHR 0x5C] q))"

section \<open>Documents\<close>

definition get_document :: "db \<Rightarrow> string \<Rightarrow> string \<Rightarrow> document_row option" where
  "get_document db j s = find (\<lambda>d. doc_key d = (j, s)) (db_documents db)"

definition upsert_document :: "document_row \<Rightarrow> db \<Rightarrow> db" where
  "upsert_document d db =
     db\<lparr>db_documents := filter (\<lambda>e. doc_key e \<noteq> doc_key d) (db_documents db) @ [d]\<rparr>"

definition delete_document :: "string \<Rightarrow> string \<Rightarrow> db \<Rightarrow> db" where
  "delete_document j s db =
     db\<lparr>db_documents := filter (\<lambda>d. doc_key d \<noteq> (j, s)) (db_documents db)\<rparr>"

definition delete_documents_for_job :: "string \<Rightarrow> db \<Rightarrow> nat \<times> db" where
  "delete_documents_for_job j db =
     (length (filter (\<lambda>d. doc_job d = j) (db_documents db)),
      db\<lparr>db_documents := filter (\<lambda>d. doc_job d \<noteq> j) (db_documents db)\<rparr>)"

definition delete_documents_for_collection :: "string \<Rightarrow> db \<Rightarrow> nat \<times> db" where
  "delete_documents_for_collection c db =
     (length (filter (\<lambda>d. doc_collection d = c) (db_documents db)),
      db\<lparr>db_documents := filter (\<lambda>d. doc_collection d \<noteq> c) (db_documents db)\<rparr>)"

definition list_documents :: "db \<Rightarrow> string \<Rightarrow> document_row list" where
  "list_documents db j = sort_key doc_source (filter (\<lambda>d. doc_job d = j) (db_documents db))"

definition list_sources :: "db \<Rightarrow> string \<Rightarrow> string set" where
  "list_sources db j = doc_source ` set (filter (\<lambda>d. doc_job d = j) (db_documents db))"

definition count_documents :: "db \<Rightarrow> string \<Rightarrow> nat" where
  "count_documents db j = length (filter (\<lambda>d. doc_job d = j) (db_documents db))"

definition document_totals :: "db \<Rightarrow> string \<Rightarrow> nat \<times> int" where
  "document_totals db j =
     (let ds = filter (\<lambda>d. doc_job d = j) (db_documents db) in
      (length ds, sum_list (map doc_chunk_count ds)))"

text \<open>\<open>GROUP BY status\<close>: the statuses in the order of their names, without empty groups.\<close>

definition count_documents_by_status :: "db \<Rightarrow> string \<Rightarrow> (doc_status \<times> nat) list" where
  "count_documents_by_status db j =
     filter (\<lambda>(s, n). 0 < n)
       (map (\<lambda>s. (s, length (filter (\<lambda>d. doc_job d = j \<and> doc_status d = s) (db_documents db))))
         [FailedEmbed, FailedExtract, Indexed, SkippedNoText, SkippedTooLarge, SkippedUnsupported])"

text \<open>\<open>_document_filter\<close>: the \<open>WHERE\<close> clause as the predicate it denotes; an empty query
  string adds no clause.\<close>

definition document_filter ::
  "string \<Rightarrow> doc_status option \<Rightarrow> string option \<Rightarrow> string option \<Rightarrow> document_row \<Rightarrow> bool" where
  "document_filter j status query run d \<longleftrightarrow>
     doc_job d = j \<and>
     (case status of None \<Rightarrow> True | Some s \<Rightarrow> doc_status d = s) \<and>
     (case run of None \<Rightarrow> True | Some r \<Rightarrow> doc_last_run d = r) \<and>
     (case query of None \<Rightarrow> True
      | Some q \<Rightarrow> q = [] \<or> sql_like (''%'' @ escape_like q @ ''%'') (doc_rel_path d))"

definition count_documents_filtered ::
  "db \<Rightarrow> string \<Rightarrow> doc_status option \<Rightarrow> string option \<Rightarrow> string option \<Rightarrow> nat" where
  "count_documents_filtered db j status query run =
     length (filter (document_filter j status query run) (db_documents db))"

datatype page_order = ByPath | ByRecent

fun order_rows :: "page_order \<Rightarrow> document_row list \<Rightarrow> document_row list" where
  "order_rows ByPath ds = sort_key (\<lambda>d. nocase (doc_rel_path d)) (sort_key doc_source ds)"
| "order_rows ByRecent ds = order_desc doc_indexed_at (sort_key doc_source ds)"

definition list_documents_page ::
  "db \<Rightarrow> string \<Rightarrow> doc_status option \<Rightarrow> string option \<Rightarrow> string option \<Rightarrow> page_order \<Rightarrow> int \<Rightarrow> int \<Rightarrow>
   document_row list" where
  "list_documents_page db j status query run order limit offset =
     sql_limit limit (sql_offset offset
       (order_rows order (filter (document_filter j status query run) (db_documents db))))"

record orphan =
  orph_job_id :: string
  orph_collection :: string
  orph_state_rows :: nat

definition orphan_summary :: "db \<Rightarrow> string set \<Rightarrow> orphan list" where
  "orphan_summary db known =
     map (\<lambda>(j, c). \<lparr>orph_job_id = j, orph_collection = c,
            orph_state_rows = length (filter (\<lambda>d. doc_job d = j \<and> doc_collection d = c) (db_documents db))\<rparr>)
       (filter (\<lambda>(j, c). j \<notin> known)
         (sort_key fst (sort_key snd
           (remdups (map (\<lambda>d. (doc_job d, doc_collection d)) (db_documents db))))))"

section \<open>Runs\<close>

definition create_run :: "run_row \<Rightarrow> db \<Rightarrow> (exc + unit) \<times> db" where
  "create_run r db =
     (if run_id r \<in> run_id ` set (db_runs db)
      then (Inl (PyError ''IntegrityError'' ''UNIQUE constraint failed: runs.run_id''), db)
      else (Inr (), db\<lparr>db_runs := db_runs db @ [r]\<rparr>))"

text \<open>The columns \<open>UPDATE runs SET\<close> does not name keep their values.\<close>

definition set_run :: "run_row \<Rightarrow> run_row \<Rightarrow> run_row" where
  "set_run r old = r\<lparr>run_job_id := run_job_id old, run_trigger := run_trigger old,
     run_started_at := run_started_at old\<rparr>"

definition update_run :: "run_row \<Rightarrow> db \<Rightarrow> db" where
  "update_run r db =
     db\<lparr>db_runs := map (\<lambda>q. if run_id q = run_id r then set_run r q else q) (db_runs db)\<rparr>"

definition get_run :: "db \<Rightarrow> string \<Rightarrow> run_row option" where
  "get_run db rid = find (\<lambda>r. run_id r = rid) (db_runs db)"

definition list_runs ::
  "db \<Rightarrow> string option \<Rightarrow> run_status option \<Rightarrow> int \<Rightarrow> string option \<Rightarrow> run_row list" where
  "list_runs db j status limit since =
     sql_limit limit (order_desc run_started_at
       (filter (\<lambda>r. (case j of None \<Rightarrow> True | Some x \<Rightarrow> run_job_id r = x) \<and>
                    (case status of None \<Rightarrow> True | Some x \<Rightarrow> run_status r = x) \<and>
                    (case since of None \<Rightarrow> True | Some x \<Rightarrow> run_started_at r \<ge> x)) (db_runs db)))"

definition last_successful_run :: "db \<Rightarrow> string \<Rightarrow> run_row option" where
  "last_successful_run db j =
     (case sql_limit 1 (order_desc run_started_at
             (filter (\<lambda>r. run_job_id r = j \<and> run_status r = Success) (db_runs db))) of
        [] \<Rightarrow> None | r # _ \<Rightarrow> Some r)"

definition interrupt_run :: "string \<Rightarrow> run_row \<Rightarrow> run_row" where
  "interrupt_run now r =
     r\<lparr>run_status := Interrupted, run_finished_at := Some now,
       run_error := (case run_error r of None \<Rightarrow> Some ''interrupted by restart'' | Some e \<Rightarrow> Some e)\<rparr>"

definition reconcile_interrupted_runs :: "string \<Rightarrow> db \<Rightarrow> nat \<times> db" where
  "reconcile_interrupted_runs now db =
     (length (filter (\<lambda>r. run_status r = Running) (db_runs db)),
      db\<lparr>db_runs := map (\<lambda>r. if run_status r = Running then interrupt_run now r else r) (db_runs db)\<rparr>)"

definition drop_run :: "string \<Rightarrow> db \<Rightarrow> db" where
  "drop_run rid db =
     db\<lparr>db_events := filter (\<lambda>e. ev_run e \<noteq> rid) (db_events db),
       db_runs := filter (\<lambda>r. run_id r \<noteq> rid) (db_runs db)\<rparr>"

definition stale_runs :: "string \<Rightarrow> int \<Rightarrow> db \<Rightarrow> string list" where
  "stale_runs j keep db =
     map run_id (sql_limit (- 1) (sql_offset keep
       (order_desc run_started_at (filter (\<lambda>r. run_job_id r = j) (db_runs db)))))"

definition prune_runs :: "string \<Rightarrow> int \<Rightarrow> db \<Rightarrow> nat \<times> db" where
  "prune_runs j keep db =
     (let stale = stale_runs j keep db in (length stale, fold drop_run stale db))"

text \<open>\<open>delete_runs\<close>: the half-open range of start times, never a running run.\<close>

definition in_range :: "string \<Rightarrow> string option \<Rightarrow> string option \<Rightarrow> run_row \<Rightarrow> bool" where
  "in_range j since until r \<longleftrightarrow>
     run_job_id r = j \<and>
     (case since of None \<Rightarrow> True | Some t \<Rightarrow> run_started_at r \<ge> t) \<and>
     (case until of None \<Rightarrow> True | Some t \<Rightarrow> run_started_at r < t)"

record delete_report =
  rep_matched :: nat
  rep_matched_events :: nat
  rep_deleted_runs :: nat
  rep_deleted_events :: nat
  rep_skipped_running :: nat

definition delete_runs ::
  "string \<Rightarrow> string option \<Rightarrow> string option \<Rightarrow> bool \<Rightarrow> db \<Rightarrow> delete_report \<times> db" where
  "delete_runs j since until dry_run db =
     (let deletable = (\<lambda>r. in_range j since until r \<and> run_status r \<noteq> Running);
          ids = map run_id (filter deletable (db_runs db));
          runs = length ids;
          events = length (filter (\<lambda>e. ev_run e \<in> set ids) (db_events db));
          running = length (filter (\<lambda>r. in_range j since until r \<and> run_status r = Running) (db_runs db))
      in if dry_run
         then (\<lparr>rep_matched = runs, rep_matched_events = events, rep_deleted_runs = 0,
                 rep_deleted_events = 0, rep_skipped_running = running\<rparr>, db)
         else (\<lparr>rep_matched = runs, rep_matched_events = events, rep_deleted_runs = runs,
                 rep_deleted_events = events, rep_skipped_running = running\<rparr>,
               db\<lparr>db_events := filter (\<lambda>e. ev_run e \<notin> set ids) (db_events db),
                 db_runs := filter (\<lambda>r. \<not> deletable r) (db_runs db)\<rparr>))"

section \<open>Run events\<close>

definition next_seq :: "string \<Rightarrow> db \<Rightarrow> int" where
  "next_seq rid db = fold max (map ev_seq (filter (\<lambda>e. ev_run e = rid) (db_events db))) 0 + 1"

definition add_event :: "string \<Rightarrow> string \<Rightarrow> level \<Rightarrow> string \<Rightarrow> string option \<Rightarrow> db \<Rightarrow> db" where
  "add_event now rid lvl message src db =
     db\<lparr>db_events := db_events db @
       [\<lparr>ev_run = rid, ev_seq = next_seq rid db, ev_ts = now, ev_level = lvl, ev_source = src,
         ev_message = message\<rparr>]\<rparr>"

definition list_events :: "db \<Rightarrow> string \<Rightarrow> run_event list" where
  "list_events db rid = sort_key ev_seq (filter (\<lambda>e. ev_run e = rid) (db_events db))"

section \<open>The interface the runner uses\<close>

text \<open>A store of document rows keyed by job and source: what a lookup returns after a write
  or a deletion, and which sources are listed.\<close>

locale doc_store =
  fixes look :: "'d \<Rightarrow> string \<Rightarrow> string \<Rightarrow> document_row option"
    and put :: "document_row \<Rightarrow> 'd \<Rightarrow> 'd"
    and del :: "string \<Rightarrow> string \<Rightarrow> 'd \<Rightarrow> 'd"
    and srcs :: "'d \<Rightarrow> string \<Rightarrow> string set"
  assumes look_put: "look (put d t) j s = (if doc_key d = (j, s) then Some d else look t j s)"
    and look_del: "look (del j s t) k u = (if k = j \<and> u = s then None else look t k u)"
    and srcs_look: "srcs t j = {s. look t j s \<noteq> None}"
    and look_key: "look t j s = Some d \<Longrightarrow> doc_key d = (j, s)"
begin

lemma srcs_put: "srcs (put d t) j = (if doc_job d = j then insert (doc_source d) (srcs t j) else srcs t j)"
  by (auto simp: srcs_look look_put)

lemma srcs_del: "srcs (del j s t) k = (if k = j then srcs t k - {s} else srcs t k)"
  by (auto simp: srcs_look look_del)

lemma look_dels:
  "look (fold (del j) xs t) k u = (if k = j \<and> u \<in> set xs then None else look t k u)"
  by (induction xs arbitrary: t) (auto simp: look_del)

lemma put_again: "look (put d (put d t)) j s = look (put d t) j s"
  by (simp add: look_put)

lemma look_in_srcs: "s \<in> srcs t j \<longleftrightarrow> (\<exists>d. look t j s = Some d \<and> doc_job d = j \<and> doc_source d = s)"
  by (auto simp: srcs_look dest: look_key)

end

lemma find_filter_notin: "(\<And>x. P x \<Longrightarrow> Q x) \<Longrightarrow> find P (filter Q xs) = find P xs"
  by (induction xs) auto

lemma find_filter_none: "(\<And>x. P x \<Longrightarrow> \<not> Q x) \<Longrightarrow> find P (filter Q xs) = None"
  by (induction xs) auto

lemma get_document_upsert:
  "get_document (upsert_document d db) j s = (if doc_key d = (j, s) then Some d else get_document db j s)"
proof (cases "doc_key d = (j, s)")
  case True
  then have "find (\<lambda>e. doc_key e = (j, s)) (filter (\<lambda>e. doc_key e \<noteq> doc_key d) (db_documents db)) = None"
    by (intro find_filter_none) auto
  with True show ?thesis by (simp add: get_document_def upsert_document_def find_append)
next
  case False
  then have "find (\<lambda>e. doc_key e = (j, s)) (filter (\<lambda>e. doc_key e \<noteq> doc_key d) (db_documents db)) =
      find (\<lambda>e. doc_key e = (j, s)) (db_documents db)"
    by (intro find_filter_notin) auto
  with False show ?thesis
    by (auto simp: get_document_def upsert_document_def find_append split: option.split)
qed

lemma get_document_delete:
  "get_document (delete_document j s db) k u = (if k = j \<and> u = s then None else get_document db k u)"
proof (cases "k = j \<and> u = s")
  case True
  then show ?thesis by (auto simp: get_document_def delete_document_def find_None_iff)
next
  case False
  then have "find (\<lambda>d. doc_key d = (k, u)) (filter (\<lambda>d. doc_key d \<noteq> (j, s)) (db_documents db)) =
      find (\<lambda>d. doc_key d = (k, u)) (db_documents db)"
    by (intro find_filter_notin) auto
  with False show ?thesis by (auto simp: get_document_def delete_document_def)
qed

lemma list_sources_get: "list_sources db j = {s. get_document db j s \<noteq> None}"
  by (auto simp: list_sources_def get_document_def find_None_iff)

lemma get_document_key: "get_document db j s = Some d \<Longrightarrow> doc_key d = (j, s)"
  by (auto simp: get_document_def find_Some_iff)

interpretation docs: doc_store get_document upsert_document delete_document list_sources
  by unfold_locales
    (auto simp: get_document_upsert get_document_delete list_sources_get dest: get_document_key)

lemma get_document_forget_job:
  "get_document (snd (delete_documents_for_job j db)) k s = (if k = j then None else get_document db k s)"
proof (cases "k = j")
  case True
  then show ?thesis by (auto simp: get_document_def delete_documents_for_job_def find_None_iff)
next
  case False
  then show ?thesis
    by (auto simp: get_document_def delete_documents_for_job_def intro: find_filter_notin)
qed

section \<open>The invariant of the database\<close>

text \<open>The primary keys, and event numbers that start at one.\<close>

definition db_ok :: "db \<Rightarrow> bool" where
  "db_ok db \<longleftrightarrow> distinct (map doc_key (db_documents db)) \<and> distinct (map run_id (db_runs db)) \<and>
     distinct (map (\<lambda>e. (ev_run e, ev_seq e)) (db_events db)) \<and> (\<forall>e \<in> set (db_events db). 1 \<le> ev_seq e)"

lemma distinct_map_filterI: "distinct (map f xs) \<Longrightarrow> distinct (map f (filter P xs))"
  by (rule distinct_map_filter)

lemma next_seq_greater: "e \<in> set (db_events db) \<Longrightarrow> ev_run e = rid \<Longrightarrow> ev_seq e < next_seq rid db"
proof -
  have "x \<in> set xs \<Longrightarrow> x \<le> fold max xs a" for x a :: int and xs
    by (simp add: Max.set_eq_fold [symmetric])
  then show "e \<in> set (db_events db) \<Longrightarrow> ev_run e = rid \<Longrightarrow> ev_seq e < next_seq rid db"
    by (force simp: next_seq_def)
qed

lemma next_seq_pos: "1 \<le> next_seq rid db"
proof -
  have "a \<le> fold max xs a" for a :: int and xs
    by (simp add: Max.set_eq_fold [symmetric])
  then show ?thesis by (simp add: next_seq_def)
qed

lemma run_id_set_run [simp]: "run_id (set_run r q) = run_id r"
  by (simp add: set_run_def)

lemma map_run_id_update: "map run_id (db_runs (update_run r db)) = map run_id (db_runs db)"
  by (auto simp: update_run_def)

lemma db_ok_add_event: "db_ok db \<Longrightarrow> db_ok (add_event now rid lvl m src db)"
  using next_seq_greater next_seq_pos by (fastforce simp: db_ok_def add_event_def)

lemma db_ok_drop_run: "db_ok db \<Longrightarrow> db_ok (drop_run rid db)"
  by (simp add: db_ok_def drop_run_def distinct_map_filterI)

lemma db_ok_fold_drop: "db_ok db \<Longrightarrow> db_ok (fold drop_run rids db)"
  by (induction rids arbitrary: db) (simp_all add: db_ok_drop_run)

text \<open>C40: The database invariant: one document row per job and source, one row per run id,
  one event per run and number. Every write method of the store keeps it.\<close>

theorem db_ok_preserved:
  assumes "db_ok db"
  shows "db_ok (upsert_document d db) \<and> db_ok (delete_document j s db) \<and>
    db_ok (snd (delete_documents_for_job j db)) \<and> db_ok (snd (delete_documents_for_collection c db)) \<and>
    db_ok (snd (create_run r db)) \<and> db_ok (update_run r db) \<and>
    db_ok (snd (reconcile_interrupted_runs now db)) \<and> db_ok (snd (prune_runs j keep db)) \<and>
    db_ok (snd (delete_runs j since until dry db)) \<and> db_ok (add_event now rid lvl m src db)"
proof (intro conjI)
  show "db_ok (update_run r db)"
    using assms map_run_id_update [of r db] by (simp add: db_ok_def) (simp add: update_run_def)
  have "map run_id (db_runs (snd (reconcile_interrupted_runs now db))) = map run_id (db_runs db)"
    by (auto simp: reconcile_interrupted_runs_def interrupt_run_def)
  with assms show "db_ok (snd (reconcile_interrupted_runs now db))"
    by (simp add: db_ok_def) (simp add: reconcile_interrupted_runs_def)
  show "db_ok (snd (prune_runs j keep db))"
    using assms by (simp add: prune_runs_def Let_def db_ok_fold_drop)
  show "db_ok (add_event now rid lvl m src db)" using assms by (rule db_ok_add_event)
qed (use assms in \<open>auto simp: db_ok_def upsert_document_def delete_document_def
      delete_documents_for_job_def delete_documents_for_collection_def create_run_def
      delete_runs_def Let_def distinct_map_filterI\<close>)

text \<open>A database with three runs of one job, one of them running, for the witnesses.\<close>

definition sample_run :: "string \<Rightarrow> string \<Rightarrow> run_status \<Rightarrow> run_row" where
  "sample_run rid started st = \<lparr>run_id = rid, run_job_id = ''acme'', run_mode = Upsert,
     run_trigger = TrigCron, run_started_at = started, run_status = st, run_full_scope = None,
     run_finished_at = None, run_sync_status = None, run_sync_stderr_tail = None,
     run_files_seen = 0, run_docs_indexed = 0, run_docs_unchanged = 0,
     run_docs_skipped_changed = 0, run_docs_failed = 0, run_docs_deleted = 0,
     run_chunks_upserted = 0, run_bytes_read = 0, run_embed_calls = 0, run_error = None,
     run_dry_run = False, run_files_done = 0, run_phase = None, run_current = None\<rparr>"

definition sample_db :: db where
  "sample_db = add_event ''t'' ''r3'' Info ''m'' None (add_event ''t'' ''r1'' Info ''m'' None
     (empty_db\<lparr>db_runs := [sample_run ''r1'' ''2026-01-01'' Success,
        sample_run ''r2'' ''2026-01-02'' Failed, sample_run ''r3'' ''2026-01-03'' Running]\<rparr>))"

lemma sample_db_ok: "db_ok sample_db"
  by code_simp

theorem db_ok_preserved_witness:
  "db_ok (snd (prune_runs ''acme'' 1 sample_db)) \<and> db_ok (add_event ''t'' ''r1'' Info ''m'' None sample_db)"
  using db_ok_preserved [OF sample_db_ok, where j = "''acme''" and keep = 1 and now = "''t''" and
      rid = "''r1''" and lvl = Info and m = "''m''" and src = None]
  by blast

section \<open>Run history\<close>

text \<open>Deleting run history never touches a running run, a run outside the range or the
  events of either; it removes as many runs and events as it reports, and a dry run removes
  nothing and matches exactly what the real call deletes.\<close>

theorem delete_runs_safe:
  assumes "db_ok db" and "delete_runs j since until dry db = (rep, db')"
  shows "filter (\<lambda>r. run_status r = Running \<or> \<not> in_range j since until r) (db_runs db') =
      filter (\<lambda>r. run_status r = Running \<or> \<not> in_range j since until r) (db_runs db) \<and>
    (\<forall>e \<in> set (db_events db). \<forall>r \<in> set (db_runs db). ev_run e = run_id r \<longrightarrow>
      run_status r = Running \<or> \<not> in_range j since until r \<longrightarrow> e \<in> set (db_events db')) \<and>
    length (db_runs db) = length (db_runs db') + rep_deleted_runs rep \<and>
    length (db_events db) = length (db_events db') + rep_deleted_events rep \<and>
    (dry \<longrightarrow> db' = db) \<and>
    rep_matched rep = rep_deleted_runs (fst (delete_runs j since until False db)) \<and>
    rep_matched_events rep = rep_deleted_events (fst (delete_runs j since until False db))"
proof -
  define D where "D = (\<lambda>r. in_range j since until r \<and> run_status r \<noteq> Running)"
  define ids where "ids = map run_id (filter D (db_runs db))"
  have keep: "run_id r \<notin> set ids" if "r \<in> set (db_runs db)" "\<not> D r" for r
  proof
    assume "run_id r \<in> set ids"
    then obtain q where "q \<in> set (db_runs db)" "D q" "run_id q = run_id r" by (auto simp: ids_def)
    moreover from \<open>db_ok db\<close> have "inj_on run_id (set (db_runs db))"
      by (simp add: db_ok_def distinct_map)
    ultimately show False using that by (metis inj_onD)
  qed
  have len: "length xs = length (filter (\<lambda>x. \<not> P x) xs) + length (filter P xs)" for P :: "'x \<Rightarrow> bool" and xs
    using sum_length_filter_compl [of P xs] by simp
  have fst_real: "rep_deleted_runs (fst (delete_runs j since until False db)) = length ids"
    "rep_deleted_events (fst (delete_runs j since until False db)) =
       length (filter (\<lambda>e. ev_run e \<in> set ids) (db_events db))"
    by (simp_all add: delete_runs_def Let_def ids_def D_def)
  show ?thesis
  proof (cases dry)
    case True
    with assms(2) fst_real show ?thesis
      by (auto simp: delete_runs_def Let_def ids_def D_def)
  next
    case False
    with assms(2) have db': "db_runs db' = filter (\<lambda>r. \<not> D r) (db_runs db)"
      "db_events db' = filter (\<lambda>e. ev_run e \<notin> set ids) (db_events db)"
      and rep: "rep_matched rep = length ids" "rep_deleted_runs rep = length ids"
        "rep_matched_events rep = length (filter (\<lambda>e. ev_run e \<in> set ids) (db_events db))"
        "rep_deleted_events rep = length (filter (\<lambda>e. ev_run e \<in> set ids) (db_events db))"
      by (auto simp: delete_runs_def Let_def ids_def D_def)
    have "filter (\<lambda>r. run_status r = Running \<or> \<not> in_range j since until r) (db_runs db') =
        filter (\<lambda>r. run_status r = Running \<or> \<not> in_range j since until r) (db_runs db)"
      unfolding db' by (simp add: D_def) (rule filter_cong; auto)
    moreover have "e \<in> set (db_events db')"
      if "e \<in> set (db_events db)" "r \<in> set (db_runs db)" "ev_run e = run_id r" "\<not> D r" for e r
      using keep [OF that(2,4)] that by (simp add: db')
    moreover have "length (db_runs db) = length (db_runs db') + length ids"
      unfolding db' ids_def using len [of "db_runs db" D] by simp
    moreover have "length (db_events db) =
        length (db_events db') + length (filter (\<lambda>e. ev_run e \<in> set ids) (db_events db))"
      unfolding db' by (rule len)
    ultimately show ?thesis using False fst_real rep by (auto simp: D_def)
  qed
qed

theorem delete_runs_safe_witness:
  "rep_deleted_runs (fst (delete_runs ''acme'' None None False sample_db)) = 2 \<and>
   length (db_runs sample_db) =
     length (db_runs (snd (delete_runs ''acme'' None None False sample_db))) + 2"
proof -
  have n: "rep_deleted_runs (fst (delete_runs ''acme'' None None False sample_db)) = 2" by code_simp
  obtain rep db' where d: "delete_runs ''acme'' None None False sample_db = (rep, db')" by fastforce
  from delete_runs_safe [OF sample_db_ok d] n d show ?thesis by simp
qed

lemma fold_drop_run:
  "fold drop_run rids db = db\<lparr>db_events := filter (\<lambda>e. ev_run e \<notin> set rids) (db_events db),
     db_runs := filter (\<lambda>r. run_id r \<notin> set rids) (db_runs db)\<rparr>"
  by (induction rids arbitrary: db) (simp_all add: drop_run_def conj_commute)

lemma filter_order_desc: "filter P (order_desc f xs) = order_desc f (filter P xs)"
  by (simp add: order_desc_def rev_filter [symmetric] filter_sort)

lemma set_order_desc [simp]: "set (order_desc f xs) = set xs"
  by (simp add: order_desc_def)

lemma length_order_desc [simp]: "length (order_desc f xs) = length xs"
  by (simp add: order_desc_def)

lemma distinct_order_desc: "distinct (map g (order_desc f xs)) \<longleftrightarrow> distinct (map g xs)"
proof -
  have "mset (order_desc f xs) = mset xs" by (simp add: order_desc_def)
  then have "mset (map g (order_desc f xs)) = mset (map g xs)" by simp
  then show ?thesis by (rule mset_eq_imp_distinct_iff)
qed

lemma filter_notin_drop:
  assumes "distinct (map f xs)"
  shows "filter (\<lambda>x. f x \<notin> f ` set (drop n xs)) xs = take n xs"
proof -
  have d: "distinct (map f (take n xs) @ map f (drop n xs))"
    using assms by (metis append_take_drop_id map_append)
  then have "filter (\<lambda>x. f x \<notin> f ` set (drop n xs)) (take n xs @ drop n xs) = take n xs"
    unfolding filter_append by (subst filter_True, fastforce) (auto simp: filter_empty_conv)
  then show ?thesis by simp
qed

text \<open>Pruning keeps the newest \<open>keep\<close> runs of the job, in order, removes the rest with
  their events, and touches neither the runs nor the events of any other job.\<close>

theorem prune_runs_keeps_newest:
  assumes "db_ok db" and "0 \<le> keep" and "prune_runs j keep db = (n, db')"
  shows "order_desc run_started_at (filter (\<lambda>r. run_job_id r = j) (db_runs db')) =
      take (nat keep) (order_desc run_started_at (filter (\<lambda>r. run_job_id r = j) (db_runs db))) \<and>
    filter (\<lambda>r. run_job_id r \<noteq> j) (db_runs db') = filter (\<lambda>r. run_job_id r \<noteq> j) (db_runs db) \<and>
    n = length (filter (\<lambda>r. run_job_id r = j) (db_runs db)) - nat keep \<and>
    (\<forall>rid \<in> run_id ` set (db_runs db').
      filter (\<lambda>e. ev_run e = rid) (db_events db') = filter (\<lambda>e. ev_run e = rid) (db_events db))"
proof -
  let ?L = "order_desc run_started_at (filter (\<lambda>r. run_job_id r = j) (db_runs db))"
  let ?S = "set (stale_runs j keep db)"
  have S: "?S = run_id ` set (drop (nat keep) ?L)"
    by (simp add: stale_runs_def sql_limit_def sql_offset_def)
  have dist: "distinct (map run_id ?L)"
    using assms(1) by (simp add: db_ok_def distinct_order_desc distinct_map_filterI)
  have db': "db_runs db' = filter (\<lambda>r. run_id r \<notin> ?S) (db_runs db)"
    "db_events db' = filter (\<lambda>e. ev_run e \<notin> ?S) (db_events db)" "n = length (stale_runs j keep db)"
    using assms(3) by (auto simp: prune_runs_def Let_def fold_drop_run)
  have inj: "inj_on run_id (set (db_runs db))" using assms(1) by (simp add: db_ok_def distinct_map)
  have other: "run_id r \<notin> ?S" if "r \<in> set (db_runs db)" "run_job_id r \<noteq> j" for r
    using that inj unfolding S by (auto dest!: in_set_dropD dest: inj_onD)
  have "order_desc run_started_at (filter (\<lambda>r. run_job_id r = j) (db_runs db')) =
      filter (\<lambda>r. run_id r \<notin> ?S) ?L"
    by (simp add: db' filter_order_desc conj_commute)
  also have "\<dots> = take (nat keep) ?L" unfolding S by (rule filter_notin_drop [OF dist])
  finally have 1: "order_desc run_started_at (filter (\<lambda>r. run_job_id r = j) (db_runs db')) = take (nat keep) ?L" .
  have 2: "filter (\<lambda>r. run_job_id r \<noteq> j) (db_runs db') = filter (\<lambda>r. run_job_id r \<noteq> j) (db_runs db)"
    unfolding db' filter_filter using other by (auto intro: filter_cong)
  have 3: "n = length (filter (\<lambda>r. run_job_id r = j) (db_runs db)) - nat keep"
    by (simp add: db' stale_runs_def sql_limit_def sql_offset_def)
  have 4: "\<forall>rid \<in> run_id ` set (db_runs db').
      filter (\<lambda>e. ev_run e = rid) (db_events db') = filter (\<lambda>e. ev_run e = rid) (db_events db)"
    by (auto simp: db' intro: filter_cong)
  from 1 2 3 4 show ?thesis by blast
qed

theorem prune_runs_keeps_newest_witness:
  "map run_id (order_desc run_started_at (filter (\<lambda>r. run_job_id r = ''acme'')
     (db_runs (snd (prune_runs ''acme'' 1 sample_db))))) = [''r3'']"
proof -
  obtain n db' where p: "prune_runs ''acme'' 1 sample_db = (n, db')" by fastforce
  have "map run_id (take 1 (order_desc run_started_at
      (filter (\<lambda>r. run_job_id r = ''acme'') (db_runs sample_db)))) = [''r3'']" by code_simp
  then show ?thesis using prune_runs_keeps_newest [OF sample_db_ok _ p] by (simp add: p)
qed

text \<open>After a restart no run is left running: exactly the runs that were are marked
  interrupted, with the time, an error text and the counters they had; every other row and
  all documents and events stay.\<close>

theorem reconcile_leaves_none_running:
  assumes "reconcile_interrupted_runs now db = (n, db')"
  shows "(\<forall>r \<in> set (db_runs db'). run_status r \<noteq> Running) \<and>
    n = length (filter (\<lambda>r. run_status r = Running) (db_runs db)) \<and>
    map run_id (db_runs db') = map run_id (db_runs db) \<and>
    (\<forall>i < length (db_runs db).
      (if run_status (db_runs db ! i) = Running
       then run_status (db_runs db' ! i) = Interrupted \<and> run_finished_at (db_runs db' ! i) = Some now \<and>
         run_error (db_runs db' ! i) \<noteq> None
       else db_runs db' ! i = db_runs db ! i)) \<and>
    db_documents db' = db_documents db \<and> db_events db' = db_events db"
  using assms by (auto simp: reconcile_interrupted_runs_def interrupt_run_def split: option.split)

theorem reconcile_leaves_none_running_witness:
  "run_status (db_runs (snd (reconcile_interrupted_runs ''now'' sample_db)) ! 2) = Interrupted \<and>
   db_runs (snd (reconcile_interrupted_runs ''now'' sample_db)) ! 1 = db_runs sample_db ! 1"
proof -
  obtain n db' where r: "reconcile_interrupted_runs ''now'' sample_db = (n, db')" by fastforce
  have s: "length (db_runs sample_db) = 3" "run_status (db_runs sample_db ! 2) = Running"
    "run_status (db_runs sample_db ! 1) \<noteq> Running" by code_simp+
  from reconcile_leaves_none_running [OF r] have *: "\<forall>i < 3.
      (if run_status (db_runs sample_db ! i) = Running
       then run_status (db_runs db' ! i) = Interrupted \<and> run_finished_at (db_runs db' ! i) = Some ''now'' \<and>
         run_error (db_runs db' ! i) \<noteq> None
       else db_runs db' ! i = db_runs sample_db ! i)" unfolding s by blast
  from spec [OF *, of 2] spec [OF *, of 1] s show ?thesis by (simp add: r)
qed

section \<open>Document pages\<close>

lemma escape_like_Nil [simp]: "escape_like [] = []"
  by (simp add: escape_like_def replace_char_def)

lemma escape_like_Cons:
  "escape_like (c # q) =
     (if c = CHR ''%'' \<or> c = CHR ''_'' \<or> c = CHR 0x5C then [CHR 0x5C, c] else [c]) @ escape_like q"
  by (simp add: escape_like_def replace_char_def)

lemma nocase_Nil [simp]: "nocase [] = []"
  by (simp add: nocase_def)

lemma nocase_Cons [simp]: "nocase (c # s) = ascii_lower c # nocase s"
  by (simp add: nocase_def)

lemma sql_like_percent_end: "sql_like ''%'' s"
  by (induction s) (simp_all add: sql_like.simps(2) [of "CHR ''%''"])

lemma sql_like_escaped_prefix:
  "sql_like (escape_like q @ ''%'') s = starts_with (nocase q) (nocase s)"
proof (induction q arbitrary: s)
  case Nil
  then show ?case by (simp add: sql_like_percent_end starts_with_def)
next
  case (Cons c q)
  show ?case
  proof (cases s)
    case Nil
    then show ?thesis
      by (auto simp: escape_like_Cons sql_like.simps(2) starts_with_def)
  next
    case (Cons d t)
    with Cons.IH [of t] show ?thesis
      by (auto simp: escape_like_Cons sql_like.simps(2) starts_with_def)
  qed
qed

lemma sql_like_escaped: "sql_like (''%'' @ escape_like q @ ''%'') s = contains (nocase q) (nocase s)"
proof (induction s)
  case Nil
  have "sql_like (CHR ''%'' # escape_like q @ ''%'') [] = starts_with (nocase q) []"
    by (simp add: sql_like.simps(2) [of "CHR ''%''"] sql_like_escaped_prefix)
  then show ?case by (cases q) (simp_all add: starts_with_def)
next
  case (Cons c s)
  have "sql_like (CHR ''%'' # escape_like q @ ''%'') (c # s) \<longleftrightarrow>
      starts_with (nocase q) (nocase (c # s)) \<or> sql_like (CHR ''%'' # escape_like q @ ''%'') s"
    by (simp add: sql_like.simps(2) [of "CHR ''%''"] sql_like_escaped_prefix)
  with Cons.IH show ?case by simp
qed

lemma concat_slices:
  "concat (map (\<lambda>i. take k (drop (i * k) xs)) [0..<n]) = take (n * k) xs"
  by (induction n) (simp_all add: take_add add.commute [of k])

lemma set_order_rows [simp]: "set (order_rows order ds) = set ds"
  by (cases order) (simp_all add: order_desc_def)

lemma length_order_rows [simp]: "length (order_rows order ds) = length ds"
  by (cases order) (simp_all add: order_desc_def)

text \<open>Paging is complete: the pages of a listing, put together, are the filtered
  documents in the requested order, as many as the count says, and a document is listed
  under a search text exactly when the text occurs in its path up to ASCII case, with
  \<open>%\<close>, \<open>_\<close> and the backslash in it taken literally.\<close>

theorem list_documents_page_complete:
  assumes "0 < k" and "count_documents_filtered db j status query run \<le> n * k"
  shows "concat (map (\<lambda>i. list_documents_page db j status query run order (int k) (int (i * k))) [0..<n]) =
      order_rows order (filter (document_filter j status query run) (db_documents db)) \<and>
    length (order_rows order (filter (document_filter j status query run) (db_documents db))) =
      count_documents_filtered db j status query run \<and>
    document_filter j status (Some q) run d =
      (document_filter j status None run d \<and> contains (nocase q) (nocase (doc_rel_path d)))"
proof (intro conjI)
  show "concat (map (\<lambda>i. list_documents_page db j status query run order (int k) (int (i * k))) [0..<n]) =
      order_rows order (filter (document_filter j status query run) (db_documents db))"
    unfolding list_documents_page_def sql_limit_def sql_offset_def
    using assms concat_slices [of k "order_rows order (filter (document_filter j status query run) (db_documents db))" n]
    by (simp add: count_documents_filtered_def nat_mult_distrib)
  show "document_filter j status (Some q) run d =
      (document_filter j status None run d \<and> contains (nocase q) (nocase (doc_rel_path d)))"
    using sql_like_escaped [of q "doc_rel_path d"]
    by (cases q) (auto simp: document_filter_def starts_with_def elim: contains.elims)
qed (simp add: count_documents_filtered_def)

definition sample_doc :: "string \<Rightarrow> string \<Rightarrow> document_row" where
  "sample_doc src rel = \<lparr>doc_job = ''acme'', doc_collection = ''kb'', doc_source = src,
     doc_rel_path = rel, doc_size = 1, doc_mtime_ns = 1, doc_content_sha = ''h'',
     doc_params_sha = ''p'', doc_status = Indexed, doc_last_run = ''r1'', doc_indexed_at = ''t'',
     doc_text_sha = None, doc_media_type = None, doc_chunk_count = 1, doc_last_error = None\<rparr>"

theorem list_documents_page_complete_witness:
  "map doc_rel_path (concat (map (\<lambda>i. list_documents_page
       (empty_db\<lparr>db_documents := [sample_doc ''3'' ''C_%.md'', sample_doc ''2'' ''b.md'', sample_doc ''1'' ''A.md'']\<rparr>)
       ''acme'' None None None ByPath (int 2) (int (i * 2))) [0..<2])) = [''A.md'', ''b.md'', ''C_%.md''] \<and>
   document_filter ''acme'' None (Some ''_%'') None (sample_doc ''3'' ''C_%.md'')"
proof -
  let ?db = "empty_db\<lparr>db_documents := [sample_doc ''3'' ''C_%.md'', sample_doc ''2'' ''b.md'', sample_doc ''1'' ''A.md'']\<rparr>"
  have n: "count_documents_filtered ?db ''acme'' None None None \<le> 2 * 2" by code_simp
  have o: "map doc_rel_path (order_rows ByPath (filter (document_filter ''acme'' None None None) (db_documents ?db)))
      = [''A.md'', ''b.md'', ''C_%.md'']" by code_simp
  have q: "document_filter ''acme'' None None None (sample_doc ''3'' ''C_%.md'') \<and>
      contains (nocase ''_%'') (nocase (doc_rel_path (sample_doc ''3'' ''C_%.md'')))" by code_simp
  show ?thesis
    using list_documents_page_complete [OF _ n, where q = "''_%''" and order = ByPath and
        d = "sample_doc ''3'' ''C_%.md''"] o q by simp
qed

end
