(* ===== verification/Qdrant.thy ===== *)
theory Qdrant
  imports Schema "HOL-Library.AList"
begin

text \<open>
  The Qdrant client as the code uses it. The client is third-party code, so it is a record of
  operations over an abstract world \<open>'w\<close>; the locale \<open>qdrant\<close> states the documented
  behaviour the writer relies on, through a view of the collections a world holds: what an
  operation that returns has done, and what an operation that raises may have done. Filters
  are data, with the matching rules of \<open>filter_matches\<close> in \<open>src/tests/fakes/qdrant.py\<close>.
\<close>

section \<open>Points and filters\<close>

text \<open>A payload is a Python dict: keys in insertion order, each once.\<close>

type_synonym payload = "(string \<times> jval) list"

record point =
  pt_id :: string
  pt_vector :: "rat list"
  pt_payload :: payload

text \<open>\<open>FieldCondition(key, match=MatchValue(value))\<close>, and a filter of such conditions.\<close>

datatype condition = FieldMatch string jval

record qfilter =
  qf_must :: "condition list"
  qf_must_not :: "condition list"

fun condition_matches :: "payload \<Rightarrow> condition \<Rightarrow> bool" where
  "condition_matches p (FieldMatch k v) =
     (case map_of p k of
        Some (JList xs) \<Rightarrow> v \<in> set xs
      | Some x \<Rightarrow> x = v
      | None \<Rightarrow> v = JNull)"

fun filter_matches :: "qfilter option \<Rightarrow> payload \<Rightarrow> bool" where
  "filter_matches None p = True"
| "filter_matches (Some f) p =
     ((\<forall>c \<in> set (qf_must f). condition_matches p c) \<and>
      (\<forall>c \<in> set (qf_must_not f). \<not> condition_matches p c))"

section \<open>The client\<close>

record coll_info =
  ci_vectors_size :: nat
  ci_payload_fields :: "string set"

record 'w qclient =
  qc_get_collections :: "('w, string list) eff"
  qc_create_collection :: "string \<Rightarrow> nat \<Rightarrow> ('w, unit) eff"
  qc_delete_collection :: "string \<Rightarrow> ('w, unit) eff"
  qc_get_collection :: "string \<Rightarrow> ('w, coll_info) eff"
  qc_create_payload_index :: "string \<Rightarrow> string \<Rightarrow> ('w, unit) eff"
  qc_upsert :: "string \<Rightarrow> point list \<Rightarrow> ('w, unit) eff"
  qc_delete :: "string \<Rightarrow> qfilter \<Rightarrow> ('w, unit) eff"
  qc_retrieve :: "string \<Rightarrow> string list \<Rightarrow> ('w, point list) eff"
  qc_count :: "string \<Rightarrow> qfilter option \<Rightarrow> ('w, nat) eff"
  qc_facet :: "string \<Rightarrow> string \<Rightarrow> qfilter option \<Rightarrow> nat \<Rightarrow> ('w, (string \<times> nat) list) eff"

section \<open>The view\<close>

type_synonym points = "string \<Rightarrow> (rat list \<times> payload) option"

record coll =
  co_dim :: nat
  co_points :: points
  co_indexes :: "string set"

type_synonym qview = "string \<Rightarrow> coll option"

definition new_coll :: "nat \<Rightarrow> coll" where
  "new_coll d = \<lparr>co_dim = d, co_points = Map.empty, co_indexes = {}\<rparr>"

definition put_point :: "point \<Rightarrow> points \<Rightarrow> points" where
  "put_point p m = m(pt_id p \<mapsto> (pt_vector p, pt_payload p))"

definition upserted :: "point list \<Rightarrow> points \<Rightarrow> points" where
  "upserted ps m = fold put_point ps m"

definition without_matching :: "qfilter \<Rightarrow> points \<Rightarrow> points" where
  "without_matching f m = (\<lambda>i. case m i of
     Some (v, p) \<Rightarrow> if filter_matches (Some f) p then None else Some (v, p) | None \<Rightarrow> None)"

text \<open>A raised write may have been applied to some of the points it names.\<close>

definition between :: "points \<Rightarrow> points \<Rightarrow> points \<Rightarrow> bool" where
  "between a b m \<longleftrightarrow> (\<forall>i. m i = a i \<or> m i = b i)"

definition is_ok :: "exc + 'a \<Rightarrow> bool" where
  "is_ok r = (case r of Inl e \<Rightarrow> False | Inr x \<Rightarrow> True)"

text \<open>The texts a facet reports for a payload key among the points a filter selects, where
  that key holds single texts (a keyword index).\<close>

definition facet_keyword :: "string \<Rightarrow> qfilter option \<Rightarrow> points \<Rightarrow> bool" where
  "facet_keyword key f m \<longleftrightarrow>
     (\<forall>i v p x. m i = Some (v, p) \<longrightarrow> filter_matches f p \<longrightarrow> map_of p key = Some x \<longrightarrow> (\<exists>s. x = JStr s))"

definition facet_values :: "string \<Rightarrow> qfilter option \<Rightarrow> points \<Rightarrow> string set" where
  "facet_values key f m =
     {s. \<exists>i v p. m i = Some (v, p) \<and> filter_matches f p \<and> map_of p key = Some (JStr s)}"

lemma is_ok_simps [simp]: "is_ok (Inr x)" "\<not> is_ok (Inl e)"
  by (simp_all add: is_ok_def)

lemma between_refl [simp]: "between a b a" "between a b b"
  by (simp_all add: between_def)

locale qdrant =
  fixes view :: "'w \<Rightarrow> qview" and client :: "'w qclient"
  assumes view_finite: "view w c = Some co \<Longrightarrow> finite (dom (co_points co))"
    and get_collections_view: "qc_get_collections client w = (rn, w') \<Longrightarrow> view w' = view w"
    and get_collections_names: "qc_get_collections client w = (Inr ns, w') \<Longrightarrow> set ns = dom (view w)"
    and create_collection_new: "view w c = None \<Longrightarrow> qc_create_collection client c d w = (r, w') \<Longrightarrow>
      view w' = (view w)(c \<mapsto> new_coll d) \<or> \<not> is_ok r \<and> view w' = view w"
    and delete_collection_gone: "qc_delete_collection client c w = (r, w') \<Longrightarrow>
      view w' = (view w)(c := None) \<or> \<not> is_ok r \<and> view w' = view w"
    and get_collection_view: "qc_get_collection client c w = (ri, w') \<Longrightarrow> view w' = view w"
    and get_collection_info: "qc_get_collection client c w = (Inr cinf, w') \<Longrightarrow>
      \<exists>co. view w c = Some co \<and> ci_vectors_size cinf = co_dim co \<and> ci_payload_fields cinf = co_indexes co"
    and create_index_missing: "view w c = None \<Longrightarrow> qc_create_payload_index client c fld w = (r, w') \<Longrightarrow>
      view w' = view w \<and> \<not> is_ok r"
    and create_index: "view w c = Some co \<Longrightarrow> qc_create_payload_index client c fld w = (r, w') \<Longrightarrow>
      view w' = (view w)(c \<mapsto> co\<lparr>co_indexes := insert fld (co_indexes co)\<rparr>) \<or> \<not> is_ok r \<and> view w' = view w"
    and upsert_missing: "view w c = None \<Longrightarrow> qc_upsert client c ps w = (r, w') \<Longrightarrow>
      view w' = view w \<and> \<not> is_ok r"
    and upsert_points_view: "view w c = Some co \<Longrightarrow> qc_upsert client c ps w = (r, w') \<Longrightarrow>
      \<exists>m. view w' = (view w)(c \<mapsto> co\<lparr>co_points := m\<rparr>) \<and> between (co_points co) (upserted ps (co_points co)) m \<and>
        (is_ok r \<longrightarrow> m = upserted ps (co_points co))"
    and delete_missing: "view w c = None \<Longrightarrow> qc_delete client c f w = (r, w') \<Longrightarrow>
      view w' = view w \<and> \<not> is_ok r"
    and delete_points_view: "view w c = Some co \<Longrightarrow> qc_delete client c f w = (r, w') \<Longrightarrow>
      \<exists>m. view w' = (view w)(c \<mapsto> co\<lparr>co_points := m\<rparr>) \<and> between (co_points co) (without_matching f (co_points co)) m \<and>
        (is_ok r \<longrightarrow> m = without_matching f (co_points co))"
    and retrieve_view: "qc_retrieve client c ids w = (rp, w') \<Longrightarrow> view w' = view w"
    and retrieve_found: "view w c = Some co \<Longrightarrow> qc_retrieve client c [i] w = (Inr found, w') \<Longrightarrow>
      map (\<lambda>p. (pt_vector p, pt_payload p)) found = (case co_points co i of None \<Rightarrow> [] | Some x \<Rightarrow> [x])"
    and count_view: "qc_count client c fo w = (rc, w') \<Longrightarrow> view w' = view w"
    and count_matching: "view w c = Some co \<Longrightarrow> qc_count client c fo w = (Inr n, w') \<Longrightarrow>
      n = card {i. \<exists>v p. co_points co i = Some (v, p) \<and> filter_matches fo p}"
    and facet_view: "qc_facet client c k fo l w = (rf, w') \<Longrightarrow> view w' = view w"
    and facet_sound: "view w c = Some co \<Longrightarrow> facet_keyword k fo (co_points co) \<Longrightarrow> qc_facet client c k fo l w = (Inr hits, w') \<Longrightarrow>
      fst ` set hits \<subseteq> facet_values k fo (co_points co) \<and>
      (card (facet_values k fo (co_points co)) \<le> l \<longrightarrow>
        fst ` set hits = facet_values k fo (co_points co))"

begin

text \<open>What a failing or succeeding deletion leaves: unmatched points stay as they are.\<close>

lemma delete_points_cases:
  assumes "qc_delete client c f w = (r, w')"
  obtains "view w c = None" and "view w' = view w" and "\<not> is_ok r"
  | co m where "view w c = Some co" and "view w' = (view w)(c \<mapsto> co\<lparr>co_points := m\<rparr>)"
      and "\<And>i v p. co_points co i = Some (v, p) \<Longrightarrow> \<not> filter_matches (Some f) p \<Longrightarrow> m i = Some (v, p)"
      and "\<And>i x. m i = Some x \<Longrightarrow> co_points co i = Some x"
      and "is_ok r \<Longrightarrow> m = without_matching f (co_points co)"
proof (cases "view w c")
  case None
  with assms show ?thesis using delete_missing that(1) by blast
next
  case (Some co)
  from delete_points_view [OF Some assms] obtain m
    where m: "view w' = (view w)(c \<mapsto> co\<lparr>co_points := m\<rparr>)"
      "between (co_points co) (without_matching f (co_points co)) m"
      "is_ok r \<Longrightarrow> m = without_matching f (co_points co)" by blast
  have "m i = Some (v, p)" if "co_points co i = Some (v, p)" "\<not> filter_matches (Some f) p" for i v p
  proof -
    have "without_matching f (co_points co) i = Some (v, p)" using that by (simp add: without_matching_def)
    then show ?thesis using m(2) that(1) unfolding between_def by metis
  qed
  moreover have "co_points co i = Some x" if "m i = Some x" for i x
  proof -
    have "without_matching f (co_points co) i = Some x \<Longrightarrow> co_points co i = Some x"
      by (auto simp: without_matching_def split: option.splits if_splits)
    then show ?thesis using m(2) that unfolding between_def by metis
  qed
  ultimately show ?thesis using that(2) [OF Some m(1)] m(3) by blast
qed

lemma upserted_other: "i \<notin> pt_id ` set ps \<Longrightarrow> upserted ps m i = m i"
  by (induction ps arbitrary: m) (auto simp: upserted_def put_point_def)

lemma upserted_one_of: "upserted ps m i = m i \<or> (\<exists>p \<in> set ps. pt_id p = i \<and> upserted ps m i = Some (pt_vector p, pt_payload p))"
proof (induction ps arbitrary: m)
  case (Cons p ps)
  have step: "upserted (p # ps) m = upserted ps (put_point p m)" by (simp add: upserted_def)
  show ?case
  proof (cases "upserted ps (put_point p m) i = put_point p m i")
    case True
    then show ?thesis by (simp add: step put_point_def)
  next
    case False
    with Cons.IH [of "put_point p m"] show ?thesis by (auto simp: step)
  qed
qed (simp add: upserted_def)

lemma upsert_points_cases:
  assumes "qc_upsert client c ps w = (r, w')"
  obtains "view w c = None" and "view w' = view w" and "\<not> is_ok r"
  | co m where "view w c = Some co" and "view w' = (view w)(c \<mapsto> co\<lparr>co_points := m\<rparr>)"
      and "\<And>i. i \<notin> pt_id ` set ps \<Longrightarrow> m i = co_points co i"
      and "\<And>i. m i = co_points co i \<or> (\<exists>p \<in> set ps. pt_id p = i \<and> m i = Some (pt_vector p, pt_payload p))"
      and "is_ok r \<Longrightarrow> m = upserted ps (co_points co)"
proof (cases "view w c")
  case None
  with assms show ?thesis using upsert_missing that(1) by blast
next
  case (Some co)
  from upsert_points_view [OF Some assms] obtain m
    where m: "view w' = (view w)(c \<mapsto> co\<lparr>co_points := m\<rparr>)"
      "between (co_points co) (upserted ps (co_points co)) m"
      "is_ok r \<Longrightarrow> m = upserted ps (co_points co)" by blast
  have 1: "m i = co_points co i" if "i \<notin> pt_id ` set ps" for i
    using m(2) upserted_other [OF that, of "co_points co"] unfolding between_def by metis
  have 2: "m i = co_points co i \<or> (\<exists>p \<in> set ps. pt_id p = i \<and> m i = Some (pt_vector p, pt_payload p))" for i
    using m(2) upserted_one_of [of ps "co_points co" i] unfolding between_def by metis
  show ?thesis by (rule that(2) [OF Some m(1) 1 2 m(3)])
qed

end

end
