(* ===== verification/Store.thy ===== *)
theory Store
  imports Qdrant
begin

text \<open>
  The Qdrant writer of \<open>src/src/store\<close>: collection lifecycle, the meta record, point ids, and
  the payload-filter scoped writes and deletes, each written over the client parameter. The
  lemmas say which points an operation can touch, whether it returns or raises.
\<close>

section \<open>Ids and the meta record\<close>

text \<open>\<open>uuid.uuid5\<close> is a hash of a namespace and a name; the hash is a parameter.\<close>

type_synonym uuid5_fun = "string \<Rightarrow> string \<Rightarrow> string"

definition NAMESPACE_URL :: string where
  "NAMESPACE_URL = ''6ba7b811-9dad-11d1-80b4-00c04fd430c8''"

definition META_NAMESPACE :: string where
  "META_NAMESPACE = ''9e3a5c2f-8b7d-4f1e-a6b3-2d8c9e4f1a02''"

definition INGEST_NAMESPACE :: "uuid5_fun \<Rightarrow> string" where
  "INGEST_NAMESPACE uuid5 = uuid5 NAMESPACE_URL ''de.fidonis/qdrant-ingest''"

definition point_seed :: "string \<Rightarrow> string \<Rightarrow> nat \<Rightarrow> string" where
  "point_seed jid src chunk_index = jid @ ''|'' @ src @ ''#'' @ str_of_nat chunk_index"

definition point_id :: "uuid5_fun \<Rightarrow> string \<Rightarrow> string \<Rightarrow> nat \<Rightarrow> string" where
  "point_id uuid5 jid src chunk_index = uuid5 (INGEST_NAMESPACE uuid5) (point_seed jid src chunk_index)"

definition meta_point_id :: "uuid5_fun \<Rightarrow> string \<Rightarrow> string" where
  "meta_point_id uuid5 collection_name = uuid5 META_NAMESPACE collection_name"

definition make_meta_point :: "uuid5_fun \<Rightarrow> string \<Rightarrow> string \<Rightarrow> nat \<Rightarrow> point" where
  "make_meta_point uuid5 collection_name embedding_model vector_dimension =
     \<lparr>pt_id = meta_point_id uuid5 collection_name, pt_vector = [0],
      pt_payload = [(''collection'', JStr collection_name), (''embedding_model'', JStr embedding_model),
        (''vector_dimension'', JInt (int vector_dimension))]\<rparr>"

definition PAYLOAD_INDEX_FIELDS :: "string list" where
  "PAYLOAD_INDEX_FIELDS = [''source'', ''ingest_job'', ''ingest_run'', ''acl_tags'']"

section \<open>The writer\<close>

record 'w qwriter =
  qw_client :: "'w qclient"
  qw_meta_collection :: string
  qw_uuid5 :: uuid5_fun

definition ensure_payload_indexes :: "'w qclient \<Rightarrow> string \<Rightarrow> ('w, unit) eff" where
  "ensure_payload_indexes client collection =
     for_each PAYLOAD_INDEX_FIELDS (\<lambda>fld. qc_create_payload_index client collection fld)"

definition ping :: "'w qwriter \<Rightarrow> ('w, bool) eff" where
  "ping wr = catchE (seqE (qc_get_collections (qw_client wr)) (ret True)) (\<lambda>e. ret False)"

text \<open>\<open>wait_ready\<close>; \<open>time.sleep\<close> is an effect on the world.\<close>

primrec wait_ready :: "'w qwriter \<Rightarrow> ('w, unit) eff \<Rightarrow> nat \<Rightarrow> ('w, bool) eff" where
  "wait_ready wr sleep 0 = ret False"
| "wait_ready wr sleep (Suc retries) =
     bindE (ping wr) (\<lambda>up. if up then ret True else seqE sleep (wait_ready wr sleep retries))"

definition collection_names :: "'w qwriter \<Rightarrow> ('w, string set) eff" where
  "collection_names wr = bindE (qc_get_collections (qw_client wr)) (\<lambda>names. ret (set names))"

definition collection_dimension :: "'w qwriter \<Rightarrow> string \<Rightarrow> ('w, nat) eff" where
  "collection_dimension wr collection =
     bindE (qc_get_collection (qw_client wr) collection) (\<lambda>inf. ret (ci_vectors_size inf))"

definition ensure_meta_collection :: "'w qwriter \<Rightarrow> ('w, unit) eff" where
  "ensure_meta_collection wr =
     bindE (collection_names wr) (\<lambda>names.
       whenE (qw_meta_collection wr \<notin> names)
         (qc_create_collection (qw_client wr) (qw_meta_collection wr) 1))"

definition read_meta :: "'w qwriter \<Rightarrow> string \<Rightarrow> ('w, payload option) eff" where
  "read_meta wr collection =
     bindE (qc_retrieve (qw_client wr) (qw_meta_collection wr) [meta_point_id (qw_uuid5 wr) collection])
       (\<lambda>records. ret (case records of [] \<Rightarrow> None
          | p # _ \<Rightarrow> if pt_payload p = [] then None else Some (pt_payload p)))"

text \<open>Python truthiness of a JSON value, and its text for a message (numbers with a fraction
  and containers are left as a marker).\<close>

fun truthy :: "jval \<Rightarrow> bool" where
  "truthy JNull = False"
| "truthy (JBool b) = b"
| "truthy (JInt i) = (i \<noteq> 0)"
| "truthy (JFloat q) = (q \<noteq> 0)"
| "truthy (JStr s) = (s \<noteq> [])"
| "truthy (JList xs) = (xs \<noteq> [])"
| "truthy (JObj kvs) = (kvs \<noteq> [])"

fun jval_text :: "jval \<Rightarrow> string" where
  "jval_text JNull = ''None''"
| "jval_text (JBool b) = str_of_bool b"
| "jval_text (JInt i) = str_of_int i"
| "jval_text (JStr s) = s"
| "jval_text v = ''<value>''"

definition dimension_mismatch :: "string \<Rightarrow> nat \<Rightarrow> string \<Rightarrow> nat \<Rightarrow> exc" where
  "dimension_mismatch collection existing_dim embedding_model vector_dim =
     PyError ''DimensionMismatchError''
       (''collection '' @ quoted collection @ '' has dimension '' @ str_of_nat existing_dim @
        '', but model '' @ quoted embedding_model @ '' produces '' @ str_of_nat vector_dim @
        ''; a full run with full_scope: collection is the supported way to rebuild '' @
        ''the collection with a new dimension'')"

definition model_mismatch :: "string \<Rightarrow> jval \<Rightarrow> string \<Rightarrow> exc" where
  "model_mismatch collection recorded_model embedding_model =
     PyError ''ModelMismatchError''
       (''collection '' @ quoted collection @ '' is recorded with embedding model '' @
        quoted (jval_text recorded_model) @ '', refusing to write with '' @ quoted embedding_model)"

definition check_model :: "string \<Rightarrow> string \<Rightarrow> payload option \<Rightarrow> ('w, unit) eff" where
  "check_model collection embedding_model meta =
     (case meta of None \<Rightarrow> ret ()
      | Some m \<Rightarrow>
          (case map_of m ''embedding_model'' of None \<Rightarrow> ret ()
           | Some recorded_model \<Rightarrow>
               whenE (truthy recorded_model \<and> recorded_model \<noteq> JStr embedding_model)
                 (raise (model_mismatch collection recorded_model embedding_model))))"

definition ensure_collection :: "'w qwriter \<Rightarrow> string \<Rightarrow> nat \<Rightarrow> string \<Rightarrow> ('w, unit) eff" where
  "ensure_collection wr collection vector_dim embedding_model =
     seqE (ensure_meta_collection wr)
     (seqE (bindE (collection_names wr) (\<lambda>names.
        if collection \<notin> names
        then qc_create_collection (qw_client wr) collection vector_dim
        else bindE (collection_dimension wr collection) (\<lambda>existing_dim.
          if existing_dim \<noteq> vector_dim
          then raise (dimension_mismatch collection existing_dim embedding_model vector_dim)
          else bindE (read_meta wr collection) (check_model collection embedding_model))))
     (ensure_payload_indexes (qw_client wr) collection))"

definition recreate_collection :: "'w qwriter \<Rightarrow> string \<Rightarrow> nat \<Rightarrow> ('w, unit) eff" where
  "recreate_collection wr collection vector_dim =
     bindE (collection_names wr) (\<lambda>names.
       seqE (whenE (collection \<in> names) (qc_delete_collection (qw_client wr) collection))
       (seqE (qc_create_collection (qw_client wr) collection vector_dim)
         (ensure_payload_indexes (qw_client wr) collection)))"

definition upsert_meta :: "'w qwriter \<Rightarrow> string \<Rightarrow> string \<Rightarrow> nat \<Rightarrow> ('w, unit) eff" where
  "upsert_meta wr collection embedding_model vector_dim =
     seqE (ensure_meta_collection wr)
       (qc_upsert (qw_client wr) (qw_meta_collection wr)
         [make_meta_point (qw_uuid5 wr) collection embedding_model vector_dim])"

definition upsert_points :: "'w qwriter \<Rightarrow> string \<Rightarrow> point list \<Rightarrow> ('w, unit) eff" where
  "upsert_points wr collection ps = whenE (ps \<noteq> []) (qc_upsert (qw_client wr) collection ps)"

definition job_filter :: "string \<Rightarrow> condition" where
  "job_filter jid = FieldMatch ''ingest_job'' (JStr jid)"

definition source_filter :: "string \<Rightarrow> string \<Rightarrow> qfilter" where
  "source_filter jid src = \<lparr>qf_must = [job_filter jid, FieldMatch ''source'' (JStr src)], qf_must_not = []\<rparr>"

definition delete_by_source :: "'w qwriter \<Rightarrow> string \<Rightarrow> string \<Rightarrow> string \<Rightarrow> ('w, unit) eff" where
  "delete_by_source wr collection jid src = qc_delete (qw_client wr) collection (source_filter jid src)"

definition delete_job_points :: "'w qwriter \<Rightarrow> string \<Rightarrow> string \<Rightarrow> ('w, unit) eff" where
  "delete_job_points wr collection jid =
     qc_delete (qw_client wr) collection \<lparr>qf_must = [job_filter jid], qf_must_not = []\<rparr>"

definition sweep_filter :: "string \<Rightarrow> string option \<Rightarrow> qfilter" where
  "sweep_filter rid jid =
     (let stale = FieldMatch ''ingest_run'' (JStr rid) in
      case jid of
        Some j \<Rightarrow> \<lparr>qf_must = [job_filter j], qf_must_not = [stale]\<rparr>
      | None \<Rightarrow> \<lparr>qf_must = [], qf_must_not = [stale]\<rparr>)"

definition sweep_stale :: "'w qwriter \<Rightarrow> string \<Rightarrow> string \<Rightarrow> string option \<Rightarrow> ('w, unit) eff" where
  "sweep_stale wr collection rid jid = qc_delete (qw_client wr) collection (sweep_filter rid jid)"

definition payload_index_fields :: "'w qwriter \<Rightarrow> string \<Rightarrow> ('w, string set) eff" where
  "payload_index_fields wr collection =
     bindE (qc_get_collection (qw_client wr) collection) (\<lambda>inf. ret (ci_payload_fields inf))"

text \<open>An empty job id counts every point, as the code's truth test does.\<close>

definition count_points :: "'w qwriter \<Rightarrow> string \<Rightarrow> string option \<Rightarrow> ('w, nat) eff" where
  "count_points wr collection jid =
     qc_count (qw_client wr) collection
       (case jid of None \<Rightarrow> None
        | Some j \<Rightarrow> if j = [] then None else Some \<lparr>qf_must = [job_filter j], qf_must_not = []\<rparr>)"

definition FACET_LIMIT :: nat where
  "FACET_LIMIT = 10000"

definition facet_sources :: "'w qwriter \<Rightarrow> string \<Rightarrow> string \<Rightarrow> ('w, string set) eff" where
  "facet_sources wr collection jid =
     bindE (qc_facet (qw_client wr) collection ''source''
              (Some \<lparr>qf_must = [job_filter jid], qf_must_not = []\<rparr>) FACET_LIMIT)
       (\<lambda>hits. ret (set (map fst hits)))"

fun job_point_counts :: "'w qwriter \<Rightarrow> string list \<Rightarrow> string \<Rightarrow> ('w, (string \<times> nat) list) eff" where
  "job_point_counts wr [] jid = ret []"
| "job_point_counts wr (c # cs) jid =
     bindE (count_points wr c (Some jid)) (\<lambda>n.
       bindE (job_point_counts wr cs jid) (\<lambda>rest. ret ((c, n) # rest)))"

end
