(* ===== verification/Chunk.thy ===== *)
theory Chunk
  imports PyStr
begin

text \<open>
  The four chunkers of \<open>src/src/chunk\<close>: paragraph packing with a word-window fallback,
  slides, spreadsheet row groups and heading-aware markdown. A chunker maps a text to
  the list of chunk texts that are embedded. Word and overlap counts are naturals
  (\<open>ChunkingConfig\<close> requires \<open>words \<ge> 1\<close>, \<open>overlap \<ge> 0\<close>); the row count of the
  sheet chunker is an unvalidated setting and stays an integer.
\<close>

definition CHUNKER_VERSION :: nat where
  "CHUNKER_VERSION = 1"

section \<open>Ranges and windows\<close>

text \<open>\<open>range(0, n, step)\<close> for a positive step.\<close>

definition py_range :: "nat \<Rightarrow> nat \<Rightarrow> nat list" where
  "py_range n step = map (\<lambda>k. k * step) [0..<(n + step - 1) div step]"

text \<open>\<open>_word_window\<close> of \<open>chunk/paragraph.py\<close>.\<close>

definition word_window :: "string list \<Rightarrow> nat \<Rightarrow> nat \<Rightarrow> string list" where
  "word_window word_list words overlap =
     (let step = max 1 (words - overlap) in
      map (\<lambda>i. py_join '' '' (take words (drop i word_list)))
        (filter (\<lambda>i. take words (drop i word_list) \<noteq> []) (py_range (length word_list) step)))"

section \<open>Blank-line separated blocks\<close>

lemma length_after_last: "length (after_last c s) \<le> length s"
  by (simp add: after_last_def) (metis length_rev length_takeWhile_le)

text \<open>
  \<open>re.split(r"\n\s*\n", text)\<close>: at a newline, \<open>\s*\<close> takes the whole whitespace run and
  backtracks to the last newline in it; a newline whose run holds no other one does not
  match. The first argument holds the block being read, reversed.
\<close>

function block_split :: "string \<Rightarrow> string \<Rightarrow> string list" where
  "block_split acc [] = [rev acc]"
| "block_split acc (c # cs) =
     (if c = NL \<and> NL \<in> set (takeWhile is_space cs)
      then rev acc # block_split [] (after_last NL (takeWhile is_space cs) @ dropWhile is_space cs)
      else block_split (c # acc) cs)"
  by pat_completeness auto

termination
proof (relation "measure (\<lambda>(acc, s). length s)", simp_all)
  fix cs :: string
  have "length (after_last NL (takeWhile is_space cs)) + length (dropWhile is_space cs)
      \<le> length (takeWhile is_space cs) + length (dropWhile is_space cs)"
    using length_after_last by simp
  also have "\<dots> = length cs"
    by (metis length_append takeWhile_dropWhile_id)
  finally show "length (after_last NL (takeWhile is_space cs)) + length (dropWhile is_space cs)
      < Suc (length cs)" by simp
qed

text \<open>\<open>[p.strip() for p in RE.split(text) if p.strip()]\<close>, shared by paragraphs and slides.\<close>

definition text_blocks :: "string \<Rightarrow> string list" where
  "text_blocks text = map py_strip (filter (\<lambda>p. py_strip p \<noteq> []) (block_split [] text))"

section \<open>Paragraphs\<close>

text \<open>The loop state of \<open>chunk_paragraphs\<close>: \<open>chunks\<close>, \<open>current\<close>, \<open>current_words\<close>.\<close>

type_synonym pack_state = "string list \<times> string list \<times> nat"

definition pack_flush :: "pack_state \<Rightarrow> pack_state" where
  "pack_flush st = (case st of (chunks, current, n) \<Rightarrow>
     if current \<noteq> [] then (chunks @ [py_join [NL, NL] current], [], 0) else (chunks, current, n))"

definition pack_paragraph :: "nat \<Rightarrow> nat \<Rightarrow> string \<Rightarrow> pack_state \<Rightarrow> pack_state" where
  "pack_paragraph words overlap paragraph st =
     (let paragraph_words = py_split paragraph in
      if length paragraph_words > words
      then (case pack_flush st of (chunks, current, n) \<Rightarrow>
              (chunks @ word_window paragraph_words words overlap, current, n))
      else (case (if snd (snd st) + length paragraph_words > words then pack_flush st else st) of
              (chunks, current, n) \<Rightarrow>
                (chunks, current @ [paragraph], n + length paragraph_words)))"

definition chunk_paragraphs :: "string \<Rightarrow> nat \<Rightarrow> nat \<Rightarrow> string list" where
  "chunk_paragraphs text words overlap =
     (let paragraphs = text_blocks text in
      if paragraphs = [] then []
      else fst (pack_flush (fold (pack_paragraph words overlap) paragraphs ([], [], 0))))"

section \<open>Slides\<close>

definition pack_slide :: "nat \<Rightarrow> string \<Rightarrow> pack_state \<Rightarrow> pack_state" where
  "pack_slide words slide st = (case st of (merged, current, n) \<Rightarrow>
     let slide_words = length (py_split slide) in
     if current \<noteq> [] \<and> n + slide_words > words
     then (merged @ [py_join [NL, NL] current], [slide], slide_words)
     else (merged, current @ [slide], n + slide_words))"

definition chunk_slides :: "string \<Rightarrow> nat \<Rightarrow> string option \<Rightarrow> string list" where
  "chunk_slides text words deck_title =
     (let slides = text_blocks text in
      if slides = [] then []
      else let merged = fst (pack_flush (fold (pack_slide words) slides ([], [], 0))) in
        (case deck_title of
           None \<Rightarrow> merged
         | Some t \<Rightarrow> if t = [] then merged else map (\<lambda>chunk. t @ [NL, NL] @ chunk) merged))"

section \<open>Spreadsheets\<close>

definition is_line_break :: "char \<Rightarrow> bool" where
  "is_line_break c = (let n = (of_char c :: nat) in
     (10 \<le> n \<and> n \<le> 13) \<or> (28 \<le> n \<and> n \<le> 30) \<or> n = 133)"

text \<open>\<open>str.splitlines()\<close>; the first argument holds the line being read, reversed.\<close>

fun splitlines_from :: "string \<Rightarrow> string \<Rightarrow> string list" where
  "splitlines_from acc [] = (if acc = [] then [] else [rev acc])"
| "splitlines_from acc [c] =
     (if is_line_break c then [rev acc] else [rev (c # acc)])"
| "splitlines_from acc (c # d # cs) =
     (if c = CHR 0x0D \<and> d = NL then rev acc # splitlines_from [] cs
      else if is_line_break c then rev acc # splitlines_from [] (d # cs)
      else splitlines_from (c # acc) (d # cs))"

definition py_splitlines :: "string \<Rightarrow> string list" where
  "py_splitlines s = splitlines_from [] s"

definition looks_like_row :: "string \<Rightarrow> bool" where
  "looks_like_row line \<longleftrightarrow> (\<exists>c \<in> set line. c = CHR 0x09 \<or> c = CHR '','' \<or> c = CHR '';'')"

definition split_block :: "string \<Rightarrow> string option \<times> string list" where
  "split_block block =
     (let lines = filter (\<lambda>line. py_strip line \<noteq> []) (py_splitlines block) in
      case lines of
        [] \<Rightarrow> (None, [])
      | [l] \<Rightarrow> (None, [l])
      | l0 # l1 # rest \<Rightarrow>
          if \<not> looks_like_row l0 \<and> looks_like_row l1 then (Some (py_strip l0), l1 # rest)
          else (None, lines))"

text \<open>
  \<open>data_rows[i : i + rows_per_chunk] for i in range(0, len(data_rows), rows_per_chunk)\<close>: a
  zero step raises, a negative one gives no group.
\<close>

definition row_groups :: "string list \<Rightarrow> int \<Rightarrow> exc + string list list" where
  "row_groups data_rows rows_per_chunk =
     (if data_rows = [] then Inr [[]]
      else if rows_per_chunk = 0 then Inl (PyError ''ValueError'' ''range() arg 3 must not be zero'')
      else if rows_per_chunk < 0 then Inr []
      else Inr (map (\<lambda>i. take (nat rows_per_chunk) (drop i data_rows))
                 (py_range (length data_rows) (nat rows_per_chunk))))"

definition sheet_chunk :: "string option \<Rightarrow> string \<Rightarrow> string list \<Rightarrow> string" where
  "sheet_chunk name header grp =
     py_join [NL] ((case name of Some n \<Rightarrow> if n = [] then [] else [''sheet: '' @ n] | None \<Rightarrow> [])
                   @ [header] @ grp)"

text \<open>\<open>sheet_name or default_sheet_name\<close>.\<close>

definition or_else :: "string option \<Rightarrow> string option \<Rightarrow> string option" where
  "or_else a b = (case a of Some s \<Rightarrow> if s = [] then b else a | None \<Rightarrow> b)"

fun sheet_blocks :: "string list \<Rightarrow> int \<Rightarrow> string option \<Rightarrow> exc + string list" where
  "sheet_blocks [] rows_per_chunk default_name = Inr []"
| "sheet_blocks (block # blocks) rows_per_chunk default_name =
     (case split_block block of
        (sheet_name, []) \<Rightarrow> sheet_blocks blocks rows_per_chunk default_name
      | (sheet_name, header # data_rows) \<Rightarrow>
          (case row_groups data_rows rows_per_chunk of
             Inl e \<Rightarrow> Inl e
           | Inr groups \<Rightarrow>
               (case sheet_blocks blocks rows_per_chunk default_name of
                  Inl e \<Rightarrow> Inl e
                | Inr rest \<Rightarrow>
                    Inr (map (sheet_chunk (or_else sheet_name default_name) header) groups @ rest))))"

definition chunk_spreadsheet_text :: "string \<Rightarrow> int \<Rightarrow> string option \<Rightarrow> exc + string list" where
  "chunk_spreadsheet_text text rows_per_chunk default_sheet_name =
     sheet_blocks (block_split [] text) rows_per_chunk default_sheet_name"

section \<open>Markdown\<close>

text \<open>\<open>#{1,6} \<close> (one to six hashes and a space) at the start of the text.\<close>

definition heading_at :: "string \<Rightarrow> bool" where
  "heading_at s =
     (let n = length (takeWhile (\<lambda>c. c = CHR ''#'') s) in
      1 \<le> n \<and> n \<le> 6 \<and> take 1 (drop n s) = '' '')"

text \<open>\<open>re.split(r"(?m)^(?=#{1,6} )", text)\<close>: the flag says whether the position starts a line.\<close>

fun md_split :: "string \<Rightarrow> bool \<Rightarrow> string \<Rightarrow> string list" where
  "md_split acc bol [] = [rev acc]"
| "md_split acc bol (c # cs) =
     (if bol \<and> heading_at (c # cs) then rev acc # md_split [c] (c = NL) cs
      else md_split (c # acc) (c = NL) cs)"

definition md_sections :: "string \<Rightarrow> string list" where
  "md_sections text = map py_strip (filter (\<lambda>s. py_strip s \<noteq> []) (md_split [] True text))"

text \<open>\<open>section.partition("\n")\<close>: the first line and what follows it.\<close>

definition first_line :: "string \<Rightarrow> string" where
  "first_line s = takeWhile (\<lambda>c. c \<noteq> NL) s"

definition rest_lines :: "string \<Rightarrow> string" where
  "rest_lines s = drop 1 (dropWhile (\<lambda>c. c \<noteq> NL) s)"

definition section_heading :: "string \<Rightarrow> string" where
  "section_heading s = (if starts_with ''#'' (first_line s) then py_strip (first_line s) else [])"

definition section_body :: "string \<Rightarrow> string list" where
  "section_body s =
     (if starts_with ''#'' (first_line s) then py_split (rest_lines s) else py_split s)"

definition chunk_section :: "nat \<Rightarrow> nat \<Rightarrow> string \<Rightarrow> string list" where
  "chunk_section words overlap sect =
     (if length (py_split sect) \<le> words then [sect]
      else
        let heading = section_heading sect;
            heading_words = py_split heading;
            body_words = section_body sect;
            max_body = max 1 (words - length heading_words);
            step = max 1 (max_body - overlap)
        in map (\<lambda>sub_words. if heading \<noteq> [] then heading @ [NL, NL] @ py_join '' '' sub_words
                            else py_join '' '' sub_words)
             (filter (\<lambda>sub_words. sub_words \<noteq> [])
               (map (\<lambda>i. take max_body (drop i body_words)) (py_range (length body_words) step))))"

definition chunk_markdown :: "string \<Rightarrow> nat \<Rightarrow> nat \<Rightarrow> string list" where
  "chunk_markdown text words overlap =
     (let chunks = concat (map (chunk_section words overlap) (md_sections text)) in
      if chunks = [] then word_window (py_split text) words overlap else chunks)"

text \<open>
  \<open>extract_markdown_title\<close>: \<open>^#{1,6}\s+(.+)$\<close>, searched from the left. At a line start,
  one to six hashes, then the whitespace run, then the rest of that line; when nothing but
  whitespace follows, the run gives back its trailing non-newline part.
\<close>

definition title_match :: "string \<Rightarrow> string option" where
  "title_match s =
     (let n = length (takeWhile (\<lambda>c. c = CHR ''#'') s);
          r = drop n s; ws = takeWhile is_space r; body = dropWhile is_space r
      in if 1 \<le> n \<and> n \<le> 6 \<and> ws \<noteq> []
         then (if body \<noteq> [] then Some (takeWhile (\<lambda>c. c \<noteq> NL) body)
               else if \<exists>i < length ws. 0 < i \<and> ws ! i \<noteq> NL then Some [] else None)
         else None)"

fun title_search :: "bool \<Rightarrow> string \<Rightarrow> string option" where
  "title_search bol [] = None"
| "title_search bol (c # cs) =
     (case (if bol then title_match (c # cs) else None) of
        Some t \<Rightarrow> Some (py_strip t)
      | None \<Rightarrow> title_search (c = NL) cs)"

definition extract_markdown_title :: "string \<Rightarrow> string option" where
  "extract_markdown_title text = title_search True text"


section \<open>Windows cover their list\<close>

lemma py_range_bound: "0 < step \<Longrightarrow> i \<in> set (py_range n step) \<Longrightarrow> i < n"
proof -
  assume s: "0 < step" and "i \<in> set (py_range n step)"
  then obtain k where k: "i = k * step" "k < (n + step - 1) div step"
    by (auto simp: py_range_def)
  have "Suc k * step \<le> (n + step - 1) div step * step"
    using k(2) by (intro mult_le_mono1) simp
  also have "\<dots> \<le> n + step - 1" by simp
  finally show "i < n" using k(1) s by simp
qed

lemma concat_windows:
  "concat (map (\<lambda>k. take step (drop (k * step) xs)) [0..<m]) = take (m * step) xs"
proof (induction m)
  case (Suc m)
  have "take (m * step) xs @ take step (drop (m * step) xs) = take (m * step + step) xs"
    by (simp add: take_add)
  with Suc show ?case by (simp add: add.commute)
qed simp

lemma range_covers: "0 < step \<Longrightarrow> n \<le> (n + step - 1) div step * (step::nat)"
  using div_mult_mod_eq [of "n + step - 1" step] mod_less_divisor [of step "n + step - 1"]
  by linarith

text \<open>Stepping through a list by \<open>step\<close> and taking \<open>step\<close> elements each time gives it back.\<close>

lemma concat_range_windows:
  "0 < step \<Longrightarrow> concat (map (\<lambda>i. take step (drop i xs)) (py_range (length xs) step)) = xs"
  using concat_windows [of step xs] range_covers [of step "length xs"]
  by (simp add: py_range_def comp_def)

lemma in_some_window:
  assumes "0 < step" and "step \<le> w" and "x \<in> set xs"
  shows "\<exists>i \<in> set (py_range (length xs) step). x \<in> set (take w (drop i xs))"
proof -
  have "x \<in> set (concat (map (\<lambda>i. take step (drop i xs)) (py_range (length xs) step)))"
    using assms by (simp add: concat_range_windows)
  then obtain i where i: "i \<in> set (py_range (length xs) step)" "x \<in> set (take step (drop i xs))"
    by auto
  have "set (take step (drop i xs)) \<subseteq> set (take w (drop i xs))"
    using assms(2) by (rule set_take_subset_set_take)
  with i show ?thesis by blast
qed

lemma window_filter:
  "0 < words \<Longrightarrow> 0 < step \<Longrightarrow>
   filter (\<lambda>i. take words (drop i xs) \<noteq> []) (py_range (length xs) step) = py_range (length xs) step"
  by (rule filter_True) (auto dest: py_range_bound)

lemma word_window_eq:
  "0 < words \<Longrightarrow> word_window ws words overlap =
     map (\<lambda>i. py_join '' '' (take words (drop i ws))) (py_range (length ws) (max 1 (words - overlap)))"
  unfolding word_window_def Let_def by (subst window_filter) simp_all

lemma words_of_window:
  "(\<And>w. w \<in> set ws \<Longrightarrow> is_word w) \<Longrightarrow>
   py_split (py_join '' '' (take n (drop i ws))) = take n (drop i ws)"
  by (rule py_split_unwords) (meson in_set_dropD in_set_takeD)

lemma word_window_words:
  "0 < words \<Longrightarrow> (\<And>w. w \<in> set ws \<Longrightarrow> is_word w) \<Longrightarrow>
   map py_split (word_window ws words overlap) =
     map (\<lambda>i. take words (drop i ws)) (py_range (length ws) (max 1 (words - overlap)))"
  by (simp add: word_window_eq words_of_window)

text \<open>Each window starts \<open>step\<close> words after the one before it: the first \<open>step\<close> words of
  the windows, in order, are the whole text.\<close>

lemma word_window_steps:
  assumes "0 < words" and "\<And>w. w \<in> set ws \<Longrightarrow> is_word w"
  shows "concat (map (\<lambda>c. take (max 1 (words - overlap)) (py_split c)) (word_window ws words overlap)) = ws"
proof -
  let ?s = "max 1 (words - overlap)"
  have "map (\<lambda>c. take ?s (py_split c)) (word_window ws words overlap)
      = map (take ?s) (map (\<lambda>i. take words (drop i ws)) (py_range (length ws) ?s))"
    using word_window_words [OF assms, where overlap = overlap]
    by (metis (no_types, lifting) list.map_comp map_eq_conv comp_apply)
  also have "\<dots> = map (\<lambda>i. take ?s (drop i ws)) (py_range (length ws) ?s)"
    using assms(1) by (simp add: min_def)
  finally show ?thesis using concat_range_windows [of ?s ws] by simp
qed

lemma word_window_bound:
  "0 < words \<Longrightarrow> (\<And>w. w \<in> set ws \<Longrightarrow> is_word w) \<Longrightarrow> c \<in> set (word_window ws words overlap) \<Longrightarrow>
   length (py_split c) \<le> words"
  by (auto simp: word_window_eq words_of_window)

lemma word_window_complete:
  assumes "0 < words" and "\<And>w. w \<in> set ws \<Longrightarrow> is_word w"
  shows "(\<Union>c \<in> set (word_window ws words overlap). set (py_split c)) = set ws"
proof
  show "(\<Union>c \<in> set (word_window ws words overlap). set (py_split c)) \<subseteq> set ws"
    using assms by (auto simp: word_window_eq words_of_window dest: in_set_takeD in_set_dropD)
  show "set ws \<subseteq> (\<Union>c \<in> set (word_window ws words overlap). set (py_split c))"
  proof
    fix x assume x: "x \<in> set ws"
    have "0 < max 1 (words - overlap)" and "max 1 (words - overlap) \<le> words"
      using assms(1) by simp_all
    from in_some_window [OF this x]
    obtain i where "i \<in> set (py_range (length ws) (max 1 (words - overlap)))"
        "x \<in> set (take words (drop i ws))" by blast
    then have "py_join '' '' (take words (drop i ws)) \<in> set (word_window ws words overlap)"
        "x \<in> set (py_split (py_join '' '' (take words (drop i ws))))"
      using assms by (simp_all add: word_window_eq words_of_window)
    then show "x \<in> (\<Union>c \<in> set (word_window ws words overlap). set (py_split c))" by blast
  qed
qed

lemma word_window_no_overlap:
  assumes "0 < words" and "\<And>w. w \<in> set ws \<Longrightarrow> is_word w"
  shows "concat (map py_split (word_window ws words 0)) = ws"
proof -
  have m: "max 1 (words - 0) = words" using assms(1) by simp
  have "map py_split (word_window ws words 0)
      = map (\<lambda>i. take words (drop i ws)) (py_range (length ws) words)"
    using word_window_words [OF assms, where overlap = 0] unfolding m .
  then show ?thesis using concat_range_windows [OF assms(1), of ws] by simp
qed

section \<open>Blocks keep the words\<close>

lemma last_newline_decomp:
  assumes "NL \<in> set ws"
  shows "\<exists>pre. ws = pre @ NL # after_last NL ws"
proof -
  obtain ys zs where "ws = ys @ NL # zs" "NL \<notin> set zs"
    using split_list_last [OF assms] by blast
  moreover from this have "after_last NL ws = zs"
    unfolding after_last_def by (simp, subst takeWhile_append2) auto
  ultimately show ?thesis by (intro exI [of _ ys]) simp
qed

lemma block_split_words: "concat (map py_split (block_split acc s)) = py_split (rev acc @ s)"
proof (induction acc s rule: block_split.induct)
  case (2 acc c cs)
  let ?ws = "takeWhile is_space cs" and ?rest = "dropWhile is_space cs"
  show ?case
  proof (cases "c = NL \<and> NL \<in> set ?ws")
    case True
    then obtain pre where pre: "?ws = pre @ NL # after_last NL ?ws"
      using last_newline_decomp by blast
    have sp: "x \<in> set (NL # pre @ [NL]) \<Longrightarrow> is_space x" for x
      using True pre by (metis Un_iff empty_iff insert_iff is_space_NL list.set(1) list.simps(15)
          set_append set_takeWhileD)
    have eq: "c # cs = (NL # pre @ [NL]) @ after_last NL ?ws @ ?rest"
      using True pre by (metis append.assoc append_Cons append_Nil takeWhile_dropWhile_id)
    have "py_split (rev acc @ c # cs) = py_split (rev acc) @ py_split (after_last NL ?ws @ ?rest)"
      unfolding eq by (rule py_split_append_space) (use sp in auto)
    with 2(1) True show ?thesis by simp
  next
    case False
    with 2(2) show ?thesis by auto
  qed
qed simp

lemma concat_split_strip:
  "concat (map py_split (map py_strip (filter (\<lambda>p. py_strip p \<noteq> []) ps))) = concat (map py_split ps)"
  by (induction ps) (auto simp: py_strip_eq_Nil)

lemma text_blocks_words: "concat (map py_split (text_blocks text)) = py_split text"
  by (simp only: text_blocks_def concat_split_strip block_split_words) simp

lemma text_blocks_nonempty: "p \<in> set (text_blocks text) \<Longrightarrow> py_split p \<noteq> []"
  by (auto simp: text_blocks_def py_strip_words)

lemma text_blocks_eq_Nil: "text_blocks s = [] \<longleftrightarrow> py_split s = []"
  using text_blocks_words [of s] text_blocks_nonempty [of _ s]
  by (cases "text_blocks s") auto

section \<open>Packing\<close>

text \<open>Words held by a packing state, in order, and the budget every finished chunk keeps.\<close>

definition packed_words :: "pack_state \<Rightarrow> string list" where
  "packed_words st = (case st of (chunks, current, n) \<Rightarrow>
     concat (map py_split chunks) @ concat (map py_split current))"

definition pack_ok :: "nat \<Rightarrow> pack_state \<Rightarrow> bool" where
  "pack_ok words st \<longleftrightarrow> (case st of (chunks, current, n) \<Rightarrow>
     (\<forall>c \<in> set chunks. length (py_split c) \<le> words) \<and>
     n = length (concat (map py_split current)) \<and> n \<le> words)"

lemma split_join_NL: "py_split (py_join [NL, NL] xs) = concat (map py_split xs)"
  by (rule py_split_join) auto

lemma packed_words_flush [simp]: "packed_words (pack_flush st) = packed_words st"
  by (auto simp: packed_words_def pack_flush_def split_join_NL split: prod.splits)

lemma pack_flush_ok: "pack_ok words st \<Longrightarrow> pack_ok words (pack_flush st)"
  by (auto simp: pack_ok_def pack_flush_def split_join_NL length_concat comp_def split: prod.splits)

lemma pack_flush_empties: "fst (snd (pack_flush st)) = []"
  by (auto simp: pack_flush_def split: prod.splits)

lemma pack_flush_zero: "pack_ok words st \<Longrightarrow> snd (snd (pack_flush st)) = 0"
  by (auto simp: pack_ok_def pack_flush_def split: prod.splits)

lemma pack_paragraph_ok:
  assumes "0 < words" and "pack_ok words st"
  shows "pack_ok words (pack_paragraph words overlap p st)"
proof (cases "length (py_split p) > words")
  case True
  have w: "is_word w" if "w \<in> set (py_split p)" for w using that by (rule py_split_is_word)
  show ?thesis
    using pack_flush_ok [OF assms(2)] True word_window_bound [OF assms(1) w]
    by (auto simp: pack_paragraph_def pack_ok_def Let_def split: prod.splits)
next
  case False
  show ?thesis
    using pack_flush_ok [OF assms(2)] pack_flush_zero [OF assms(2)] pack_flush_empties [of st]
      assms(2) False
    by (auto simp: pack_paragraph_def pack_ok_def Let_def split: prod.splits if_splits)
qed

lemma fold_pack_ok:
  "0 < words \<Longrightarrow> pack_ok words st \<Longrightarrow> pack_ok words (fold (pack_paragraph words overlap) ps st)"
  by (induction ps arbitrary: st) (auto simp: pack_paragraph_ok)

lemma pack_paragraph_words:
  "packed_words (pack_paragraph words overlap p st) = packed_words st @
     (if length (py_split p) > words
      then concat (map py_split (word_window (py_split p) words overlap)) else py_split p)"
  using packed_words_flush [of st] pack_flush_empties [of st]
  by (auto simp: pack_paragraph_def packed_words_def Let_def split: prod.splits if_splits)

lemma pack_paragraph_words_set:
  assumes "0 < words"
  shows "set (packed_words (pack_paragraph words overlap p st)) =
    set (packed_words st) \<union> set (py_split p)"
proof -
  have "(\<Union>c \<in> set (word_window (py_split p) words overlap). set (py_split c)) = set (py_split p)"
    by (rule word_window_complete [OF assms py_split_is_word])
  then show ?thesis by (simp add: pack_paragraph_words)
qed

lemma pack_paragraph_words_seq:
  assumes "0 < words"
  shows "packed_words (pack_paragraph words 0 p st) = packed_words st @ py_split p"
proof -
  have "concat (map py_split (word_window (py_split p) words 0)) = py_split p"
    by (rule word_window_no_overlap [OF assms py_split_is_word])
  then show ?thesis by (simp add: pack_paragraph_words)
qed

lemma fold_pack_words_set:
  "0 < words \<Longrightarrow> set (packed_words (fold (pack_paragraph words overlap) ps st)) =
     set (packed_words st) \<union> set (concat (map py_split ps))"
  by (induction ps arbitrary: st) (auto simp: pack_paragraph_words_set)

lemma fold_pack_words_seq:
  "0 < words \<Longrightarrow> packed_words (fold (pack_paragraph words 0) ps st) =
     packed_words st @ concat (map py_split ps)"
  by (induction ps arbitrary: st) (auto simp: pack_paragraph_words_seq)

lemma pack_result_words: "concat (map py_split (fst (pack_flush st))) = packed_words st"
  using packed_words_flush [of st] pack_flush_empties [of st]
  by (auto simp: packed_words_def split: prod.splits)


section \<open>What the paragraph chunker promises\<close>

lemma pack_ok_init: "pack_ok words ([], [], 0)"
  by (simp add: pack_ok_def)

lemma chunk_paragraphs_fold:
  "chunk_paragraphs s words overlap =
     fst (pack_flush (fold (pack_paragraph words overlap) (text_blocks s) ([], [], 0)))"
  by (cases "text_blocks s = []") (simp_all add: chunk_paragraphs_def pack_flush_def)

text \<open>\<open>chunk_paragraphs\<close> keeps the word budget: with a positive budget no chunk it
  returns has more than \<open>words\<close> words, whatever the paragraph lengths and the overlap.\<close>

theorem chunk_paragraphs_budget:
  assumes "0 < words" and "c \<in> set (chunk_paragraphs s words overlap)"
  shows "length (py_split c) \<le> words"
proof -
  let ?st = "fold (pack_paragraph words overlap) (text_blocks s) ([], [], 0)"
  have "pack_ok words (pack_flush ?st)"
    by (intro pack_flush_ok fold_pack_ok assms(1) pack_ok_init)
  with assms(2) show ?thesis
    by (auto simp: chunk_paragraphs_fold pack_ok_def split: prod.splits)
qed

theorem chunk_paragraphs_budget_witness:
  "''b c'' \<in> set (chunk_paragraphs ''a b c'' 2 1) \<and> length (py_split ''b c'') \<le> 2"
proof -
  have "''b c'' \<in> set (chunk_paragraphs ''a b c'' 2 1)" by code_simp
  then show ?thesis using chunk_paragraphs_budget [of 2 "''b c''" "''a b c''" 1] by simp
qed

text \<open>\<open>chunk_paragraphs\<close> loses and invents no word: the words of the chunks are exactly
  the words of the text, and without overlap they are the text's words in order, each once.\<close>

theorem chunk_paragraphs_complete:
  assumes "0 < words"
  shows "(\<Union>c \<in> set (chunk_paragraphs s words overlap). set (py_split c)) = set (py_split s) \<and>
    concat (map py_split (chunk_paragraphs s words 0)) = py_split s"
proof -
  have "set (concat (map py_split (chunk_paragraphs s words overlap))) = set (py_split s)"
    using assms
    by (simp only: chunk_paragraphs_fold pack_result_words fold_pack_words_set text_blocks_words)
      (simp add: packed_words_def)
  moreover have "concat (map py_split (chunk_paragraphs s words 0)) = py_split s"
    using assms
    by (simp only: chunk_paragraphs_fold pack_result_words fold_pack_words_seq text_blocks_words)
      (simp add: packed_words_def)
  ultimately show ?thesis by simp
qed

theorem chunk_paragraphs_complete_witness:
  "concat (map py_split (chunk_paragraphs ''a b c'' 2 0)) = [''a'', ''b'', ''c'']"
  using chunk_paragraphs_complete [of 2 "''a b c''" 0]
  by (simp add: py_split_def is_space_def)

section \<open>What the slide chunker promises\<close>

lemma pack_slide_words: "packed_words (pack_slide words p st) = packed_words st @ py_split p"
  by (auto simp: pack_slide_def packed_words_def Let_def split_join_NL split: prod.splits)

lemma fold_pack_slide_words:
  "packed_words (fold (pack_slide words) ps st) = packed_words st @ concat (map py_split ps)"
  by (induction ps arbitrary: st) (auto simp: pack_slide_words)

text \<open>A finished slide chunk is one slide, or several within the budget.\<close>

definition slides_ok :: "nat \<Rightarrow> string set \<Rightarrow> pack_state \<Rightarrow> bool" where
  "slides_ok words slides st \<longleftrightarrow> (case st of (merged, current, n) \<Rightarrow>
     (\<forall>c \<in> set merged. c \<in> slides \<or> length (py_split c) \<le> words) \<and>
     n = length (concat (map py_split current)) \<and> (n \<le> words \<or> (\<exists>s \<in> slides. current = [s])))"

lemma pack_slide_ok:
  "slides_ok words S st \<Longrightarrow> p \<in> S \<Longrightarrow> slides_ok words S (pack_slide words p st)"
  by (auto simp: slides_ok_def pack_slide_def Let_def split_join_NL split: prod.splits)

lemma fold_pack_slide_ok:
  "slides_ok words S st \<Longrightarrow> set ps \<subseteq> S \<Longrightarrow> slides_ok words S (fold (pack_slide words) ps st)"
  by (induction ps arbitrary: st) (auto simp: pack_slide_ok)

lemma slides_flush_ok: "slides_ok words S st \<Longrightarrow> slides_ok words S (pack_flush st)"
  by (auto simp: slides_ok_def pack_flush_def split_join_NL split: prod.splits)

text \<open>\<open>chunk_slides\<close> without a deck title keeps every word of the deck in order, never
  splits a slide, and exceeds the word budget only with a slide that is too long by itself.\<close>

theorem chunk_slides_spec:
  "concat (map py_split (chunk_slides s words None)) = py_split s \<and>
   (\<forall>c. c \<in> set (chunk_slides s words None) \<longrightarrow>
      c \<in> set (text_blocks s) \<or> length (py_split c) \<le> words)"
proof -
  let ?st = "fold (pack_slide words) (text_blocks s) ([], [], 0)"
  have eq: "chunk_slides s words None = fst (pack_flush ?st)"
    by (cases "text_blocks s = []") (simp_all add: chunk_slides_def pack_flush_def)
  have "slides_ok words (set (text_blocks s)) (pack_flush ?st)"
    by (intro slides_flush_ok fold_pack_slide_ok) (simp_all add: slides_ok_def)
  then have 2: "\<forall>c. c \<in> set (fst (pack_flush ?st)) \<longrightarrow>
      c \<in> set (text_blocks s) \<or> length (py_split c) \<le> words"
    by (auto simp: slides_ok_def split: prod.splits)
  have "concat (map py_split (fst (pack_flush ?st))) = py_split s"
    by (simp only: pack_result_words fold_pack_slide_words text_blocks_words)
      (simp add: packed_words_def)
  with 2 show ?thesis unfolding eq by blast
qed

theorem chunk_slides_spec_witness:
  "chunk_slides ''a b'' 1 None = [''a b''] \<and>
   (''a b'' \<in> set (text_blocks ''a b'') \<or> length (py_split ''a b'') \<le> 1)"
proof -
  have "chunk_slides ''a b'' 1 None = [''a b'']" by code_simp
  then show ?thesis using chunk_slides_spec [of "''a b''" 1] by simp
qed


section \<open>What the markdown chunker promises\<close>

lemma md_split_words:
  "(bol \<longrightarrow> acc = [] \<or> hd acc = NL) \<Longrightarrow>
   concat (map py_split (md_split acc bol s)) = py_split (rev acc @ s)"
proof (induction acc bol s rule: md_split.induct)
  case (2 acc bol c cs)
  show ?case
  proof (cases "bol \<and> heading_at (c # cs)")
    case True
    with 2(1) have IH: "concat (map py_split (md_split [c] (c = NL) cs)) = py_split (c # cs)"
      by simp
    have "py_split (rev acc @ c # cs) = py_split (rev acc) @ py_split (c # cs)"
    proof (cases acc)
      case (Cons a acc')
      with True "2.prems" have "a = NL" by simp
      with Cons show ?thesis
        using py_split_space_mid [of NL "rev acc'" "c # cs"] py_split_space_mid [of NL "rev acc'" "[]"]
        by simp
    qed simp
    with True IH show ?thesis by simp
  next
    case False
    with 2(2) show ?thesis by auto
  qed
qed simp

lemma md_sections_words: "concat (map py_split (md_sections s)) = py_split s"
  unfolding md_sections_def concat_split_strip by (subst md_split_words) simp_all

lemma section_words: "py_split s = py_split (section_heading s) @ section_body s"
proof (cases "starts_with ''#'' (first_line s)")
  case True
  have "py_split s = py_split (first_line s) @ py_split (rest_lines s)"
  proof (cases "dropWhile (\<lambda>c. c \<noteq> NL) s")
    case Nil
    then have "s = first_line s"
      by (metis append.right_neutral first_line_def takeWhile_dropWhile_id)
    moreover from Nil have "rest_lines s = []" by (simp only: rest_lines_def) simp
    ultimately show ?thesis by simp
  next
    case (Cons d r)
    then have "d = NL" by (simp add: dropWhile_eq_Cons_conv)
    with Cons have "s = first_line s @ NL # rest_lines s"
      by (metis drop_Suc_Cons drop_0 One_nat_def first_line_def rest_lines_def
          takeWhile_dropWhile_id)
    then show ?thesis by (metis is_space_NL py_split_space_mid)
  qed
  with True show ?thesis by (simp add: section_heading_def section_body_def)
next
  case False
  then show ?thesis by (simp add: section_heading_def section_body_def)
qed

lemma section_body_words: "w \<in> set (section_body s) \<Longrightarrow> is_word w"
  by (auto simp: section_body_def split: if_splits dest: py_split_is_word)

lemma sub_chunk_words:
  assumes "\<And>w. w \<in> set sub \<Longrightarrow> is_word w"
  shows "py_split (if heading \<noteq> [] then heading @ [NL, NL] @ py_join '' '' sub else py_join '' '' sub)
    = py_split heading @ sub"
  using py_split_append_space [of "[NL, NL]" heading "py_join '' '' sub"] py_split_unwords [OF assms]
  by auto

text \<open>The body budget of a section: what the heading leaves of the word budget, at least one.\<close>

definition body_budget :: "nat \<Rightarrow> string \<Rightarrow> nat" where
  "body_budget words sect = max 1 (words - length (py_split (section_heading sect)))"

definition body_windows :: "nat \<Rightarrow> nat \<Rightarrow> string \<Rightarrow> string list list" where
  "body_windows words overlap sect =
     (let m = body_budget words sect; body = section_body sect in
      map (\<lambda>i. take m (drop i body)) (py_range (length body) (max 1 (m - overlap))))"

lemma body_windows_nonempty: "[] \<notin> set (body_windows words overlap sect)"
proof
  let ?m = "body_budget words sect" and ?b = "section_body sect"
  have m: "0 < ?m" by (simp add: body_budget_def)
  assume "[] \<in> set (body_windows words overlap sect)"
  then obtain i where "i \<in> set (py_range (length ?b) (max 1 (?m - overlap)))"
      "take ?m (drop i ?b) = []"
    by (auto simp: body_windows_def Let_def)
  with m show False using py_range_bound [of "max 1 (?m - overlap)" i "length ?b"] by simp
qed

lemma chunk_section_words:
  "map py_split (chunk_section words overlap sect) =
     (if length (py_split sect) \<le> words then [py_split sect]
      else map (\<lambda>sub. py_split (section_heading sect) @ sub) (body_windows words overlap sect))"
proof (cases "length (py_split sect) \<le> words")
  case False
  have f: "filter (\<lambda>sub. sub \<noteq> []) (body_windows words overlap sect) = body_windows words overlap sect"
    using body_windows_nonempty [of words overlap sect] by (intro filter_True) auto
  let ?h = "section_heading sect"
  let ?f = "\<lambda>sub. if ?h \<noteq> [] then ?h @ [NL, NL] @ py_join '' '' sub else py_join '' '' sub"
  have "chunk_section words overlap sect = map ?f (body_windows words overlap sect)"
    using False f unfolding chunk_section_def body_windows_def body_budget_def Let_def
    by (simp only: if_False)
  moreover have "py_split (?f sub) = py_split ?h @ sub"
    if "sub \<in> set (body_windows words overlap sect)" for sub
  proof (rule sub_chunk_words)
    show "w \<in> set sub \<Longrightarrow> is_word w" for w
      using that section_body_words
      by (auto simp: body_windows_def Let_def dest: set_take_drop_subset)
  qed
  ultimately show ?thesis using False by simp
qed (simp add: chunk_section_def)

lemma chunk_section_subset:
  "c \<in> set (chunk_section words overlap sect) \<Longrightarrow> set (py_split c) \<subseteq> set (py_split sect)"
proof -
  assume "c \<in> set (chunk_section words overlap sect)"
  then have "py_split c \<in> set (map py_split (chunk_section words overlap sect))" by simp
  then show ?thesis
    using section_words [of sect]
    by (auto simp: chunk_section_words body_windows_def Let_def split: if_splits
        dest: set_take_drop_subset)
qed

lemma chunk_section_complete:
  assumes "length (py_split sect) \<le> words \<or> section_body sect \<noteq> []"
  shows "set (py_split sect) \<subseteq> (\<Union>c \<in> set (chunk_section words overlap sect). set (py_split c))"
proof (cases "length (py_split sect) \<le> words")
  case True
  then show ?thesis by (simp add: chunk_section_def)
next
  case False
  let ?m = "body_budget words sect" and ?b = "section_body sect"
  let ?h = "py_split (section_heading sect)"
  have b: "?b \<noteq> []" using assms False by simp
  have m: "0 < max 1 (?m - overlap)" "max 1 (?m - overlap) \<le> ?m"
    by (simp_all add: body_budget_def)
  have U: "(\<Union>c \<in> set (chunk_section words overlap sect). set (py_split c)) =
      (\<Union>sub \<in> set (body_windows words overlap sect). set ?h \<union> set sub)"
  proof -
    have "(\<Union>c \<in> set (chunk_section words overlap sect). set (py_split c)) =
        (\<Union>ws \<in> set (map py_split (chunk_section words overlap sect)). set ws)" by simp
    with False show ?thesis by (simp add: chunk_section_words)
  qed
  have body: "x \<in> (\<Union>sub \<in> set (body_windows words overlap sect). set sub)" if "x \<in> set ?b" for x
    using in_some_window [OF m that] by (auto simp: body_windows_def Let_def)
  obtain y where "y \<in> set ?b" using b by (meson list.set_sel(1))
  with body have "body_windows words overlap sect \<noteq> []" by fastforce
  with body show ?thesis unfolding U using section_words [of sect] by fastforce
qed

lemma set_concat_chunks:
  "set (concat (map (chunk_section words overlap) ss)) = (\<Union>s \<in> set ss. set (chunk_section words overlap s))"
  by auto

text \<open>\<open>chunk_markdown\<close> invents no word, and it loses none unless a section is a lone
  heading longer than the word budget: if every section fits the budget or has a body, the
  words of the chunks are exactly the words of the text.\<close>

theorem chunk_markdown_complete:
  assumes "0 < words"
    and "\<And>sect. sect \<in> set (md_sections s) \<Longrightarrow>
      length (py_split sect) \<le> words \<or> section_body sect \<noteq> []"
  shows "(\<Union>c \<in> set (chunk_markdown s words overlap). set (py_split c)) = set (py_split s)"
proof (cases "concat (map (chunk_section words overlap) (md_sections s)) = []")
  case True
  have "(\<Union>c \<in> set (word_window (py_split s) words overlap). set (py_split c)) = set (py_split s)"
    by (rule word_window_complete [OF assms(1) py_split_is_word])
  with True show ?thesis by (simp add: chunk_markdown_def Let_def)
next
  case False
  have S: "set (py_split s) = (\<Union>sect \<in> set (md_sections s). set (py_split sect))"
    using md_sections_words [of s] by (metis set_concat set_map image_image)
  have "(\<Union>c \<in> set (chunk_section words overlap sect). set (py_split c)) = set (py_split sect)"
    if "sect \<in> set (md_sections s)" for sect
    using chunk_section_complete [OF assms(2) [OF that]] chunk_section_subset by blast
  then show ?thesis
    using False unfolding S chunk_markdown_def Let_def
    by (simp only: if_False set_concat_chunks) auto
qed

theorem chunk_markdown_complete_witness:
  "(\<Union>c \<in> set (chunk_markdown ''# t\<newline>x y z'' 3 0). set (py_split c)) = set (py_split ''# t\<newline>x y z'')"
proof (rule chunk_markdown_complete)
  have "md_sections ''# t\<newline>x y z'' = [''# t\<newline>x y z'']" by code_simp
  moreover have "section_body ''# t\<newline>x y z'' = [''x'', ''y'', ''z'']" by code_simp
  ultimately show "sect \<in> set (md_sections ''# t\<newline>x y z'') \<Longrightarrow>
      length (py_split sect) \<le> 3 \<or> section_body sect \<noteq> []" for sect by simp
qed simp


text \<open>The condition is needed: a lone heading above the word budget is dropped when another
  section yields a chunk. With a budget of two words the text \<open># a b\<close>, \<open># c\<close> gives the
  single chunk \<open># c\<close>, and the words of the first heading are in no chunk.\<close>

theorem chunk_markdown_drops_long_heading:
  "chunk_markdown ''# a b\<newline># c'' 2 0 = [''# c''] \<and>
   set (py_split ''# a b\<newline># c'') = {''#'', ''a'', ''b'', ''c''}"
  by (intro conjI; code_simp)

section \<open>What the sheet chunker promises\<close>

lemma row_groups_spec:
  assumes "0 < n"
  shows "\<exists>groups. row_groups rows (int n) = Inr groups \<and> groups \<noteq> [] \<and> concat groups = rows \<and>
    (\<forall>g \<in> set groups. length g \<le> n)"
proof (cases "rows = []")
  case False
  let ?g = "map (\<lambda>i. take n (drop i rows)) (py_range (length rows) n)"
  have c: "concat ?g = rows" using assms by (rule concat_range_windows)
  with False have "?g \<noteq> []" by (metis concat.simps(1))
  moreover have "row_groups rows (int n) = Inr ?g"
    using assms False by (simp add: row_groups_def)
  ultimately show ?thesis using c by (intro exI [of _ ?g]) auto
qed (simp add: row_groups_def)

text \<open>\<open>chunk_spreadsheet_text\<close> with a positive row count never fails, and partitions each
  block: the data rows, in order and each once, are distributed over groups of at most
  \<open>rows_per_chunk\<close> rows, and every group becomes one chunk that repeats the sheet name and
  the header row.\<close>

theorem chunk_spreadsheet_text_spec:
  assumes "0 < n"
  shows "\<exists>groups_of.
    (\<forall>rows. groups_of rows \<noteq> [] \<and> concat (groups_of rows) = rows \<and>
       (\<forall>g. g \<in> set (groups_of rows) \<longrightarrow> length g \<le> n)) \<and>
    chunk_spreadsheet_text s (int n) default_name =
      Inr (concat (map (\<lambda>block. case split_block block of
          (sheet_name, []) \<Rightarrow> []
        | (sheet_name, header # rows) \<Rightarrow>
            map (sheet_chunk (or_else sheet_name default_name) header) (groups_of rows))
        (block_split [] s)))"
proof -
  have "\<exists>groups_of. \<forall>rows. row_groups rows (int n) = Inr (groups_of rows) \<and>
      groups_of rows \<noteq> [] \<and> concat (groups_of rows) = rows \<and>
      (\<forall>g \<in> set (groups_of rows). length g \<le> n)"
    using row_groups_spec [OF assms] by metis
  then obtain groups_of where g: "\<And>rows. row_groups rows (int n) = Inr (groups_of rows)"
      "\<And>rows. groups_of rows \<noteq> [] \<and> concat (groups_of rows) = rows \<and>
        (\<forall>g \<in> set (groups_of rows). length g \<le> n)" by blast
  have "sheet_blocks blocks (int n) default_name =
      Inr (concat (map (\<lambda>block. case split_block block of (sheet_name, []) \<Rightarrow> []
        | (sheet_name, header # rows) \<Rightarrow>
            map (sheet_chunk (or_else sheet_name default_name) header) (groups_of rows)) blocks))"
    for blocks
    by (induction blocks) (auto simp: g(1) split: prod.split list.split)
  then show ?thesis
    using g(2) unfolding chunk_spreadsheet_text_def by (intro exI [of _ groups_of]) blast
qed

theorem chunk_spreadsheet_text_spec_witness:
  "\<exists>chunks. chunk_spreadsheet_text ''a,b\<newline>1,2\<newline>3,4'' (int 1) None = Inr chunks"
  using chunk_spreadsheet_text_spec [of 1 "''a,b\<newline>1,2\<newline>3,4''" None] by auto

end
