(* ===== verification/Router.thy ===== *)
theory Router
  imports Chunk Schema
begin

text \<open>
  Extraction routing, \<open>src/src/extract/router.py\<close> and \<open>native.py\<close>, and the change-detection
  hashes of \<open>src/src/engine/modes.py\<close>. Tika, the JSON and YAML libraries, SHA-256 and the
  file system are parameters: the record \<open>extract_env\<close> holds them as effects over the world.
\<close>

section \<open>Paths\<close>

text \<open>\<open>pathlib\<close>: the final component, its suffix and its stem (Python 3.12).\<close>

definition path_name :: "string \<Rightarrow> string" where
  "path_name p = (case rev (filter (\<lambda>s. s \<noteq> [] \<and> s \<noteq> ''.'') (split_char CHR ''/'' p)) of
     [] \<Rightarrow> [] | s # _ \<Rightarrow> s)"

definition name_suffix :: "string \<Rightarrow> string" where
  "name_suffix n =
     (let ext = after_last CHR ''.'' n; i = length n - length ext - 1 in
      if CHR ''.'' \<in> set n \<and> 0 < i \<and> ext \<noteq> [] then CHR ''.'' # ext else [])"

definition path_suffix :: "string \<Rightarrow> string" where
  "path_suffix p = name_suffix (path_name p)"

definition path_stem :: "string \<Rightarrow> string" where
  "path_stem p = (let n = path_name p in take (length n - length (name_suffix n)) n)"

section \<open>Format classes\<close>

datatype format_class = FMarkdown | FPlaintext | FData | FDocument | FSpreadsheetTika
  | FSpreadsheetText | FPresentation | FWeb | FEmail | FImage | FArchive | FUnknown

definition EXTENSION_CLASSES :: "(string \<times> format_class) list" where
  "EXTENSION_CLASSES =
     [(''.md'', FMarkdown), (''.markdown'', FMarkdown), (''.mdx'', FMarkdown),
      (''.txt'', FPlaintext), (''.log'', FPlaintext), (''.rst'', FPlaintext), (''.adoc'', FPlaintext),
      (''.json'', FData), (''.yaml'', FData), (''.yml'', FData),
      (''.pdf'', FDocument), (''.doc'', FDocument), (''.docx'', FDocument), (''.odt'', FDocument),
      (''.rtf'', FDocument), (''.epub'', FDocument),
      (''.xlsx'', FSpreadsheetTika), (''.xls'', FSpreadsheetTika), (''.ods'', FSpreadsheetTika),
      (''.csv'', FSpreadsheetText), (''.tsv'', FSpreadsheetText),
      (''.pptx'', FPresentation), (''.ppt'', FPresentation), (''.odp'', FPresentation),
      (''.html'', FWeb), (''.htm'', FWeb), (''.xml'', FWeb),
      (''.eml'', FEmail), (''.msg'', FEmail),
      (''.png'', FImage), (''.jpg'', FImage), (''.jpeg'', FImage), (''.tiff'', FImage),
      (''.zip'', FArchive), (''.tar'', FArchive), (''.gz'', FArchive), (''.tgz'', FArchive),
      (''.7z'', FArchive)]"

definition NATIVE_CLASSES :: "format_class list" where
  "NATIVE_CLASSES = [FMarkdown, FPlaintext, FData, FSpreadsheetText]"

definition MEDIA_TYPE_CLASSES :: "(string \<times> format_class) list" where
  "MEDIA_TYPE_CLASSES =
     [(''application/pdf'', FDocument), (''wordprocessingml'', FDocument), (''msword'', FDocument),
      (''opendocument.text'', FDocument), (''rtf'', FDocument), (''epub'', FDocument),
      (''spreadsheetml'', FSpreadsheetTika), (''ms-excel'', FSpreadsheetTika),
      (''opendocument.spreadsheet'', FSpreadsheetTika),
      (''presentationml'', FPresentation), (''ms-powerpoint'', FPresentation),
      (''opendocument.presentation'', FPresentation),
      (''text/html'', FWeb), (''xml'', FWeb), (''message/rfc822'', FEmail), (''image/'', FImage),
      (''text/markdown'', FMarkdown), (''text/csv'', FSpreadsheetText), (''text/'', FPlaintext)]"

definition classify :: "string \<Rightarrow> format_class" where
  "classify rel_path =
     (case map_of EXTENSION_CLASSES (py_lower (path_suffix rel_path)) of None \<Rightarrow> FUnknown | Some c \<Rightarrow> c)"

definition class_for_media_type :: "string option \<Rightarrow> format_class" where
  "class_for_media_type media_type =
     (case media_type of None \<Rightarrow> FUnknown
      | Some m \<Rightarrow>
          if m = [] then FUnknown
          else (case find (\<lambda>(needle, c). contains needle (py_lower m)) MEDIA_TYPE_CLASSES of
                  None \<Rightarrow> FUnknown | Some (needle, c) \<Rightarrow> c))"

section \<open>Extraction parameters\<close>

record embedded_document =
  emd_name :: string
  emd_text :: string
  emd_media_type :: "string option"

record extraction_result =
  ext_text :: string
  ext_media_type :: "string option"
  ext_title :: "string option"
  ext_pages :: "int option"
  ext_exceptions :: "string list"
  ext_embedded :: "embedded_document list"

text \<open>The YAML loader raises or returns a document; only \<open>ValueError\<close> and \<open>yaml.YAMLError\<close>
  (and their subclasses, which a handler cannot tell apart) are caught.\<close>

record 'w extract_env =
  ee_tika_extract :: "string \<Rightarrow> string \<Rightarrow> ('w, extraction_result) eff"
  ee_read_text :: "string \<Rightarrow> ('w, string) eff"
  ee_json_pretty :: "string \<Rightarrow> exc + string"
  ee_yaml_load :: "string \<Rightarrow> exc + jval"
  ee_yaml_dump :: "jval \<Rightarrow> exc + string"

definition NATIVE_MEDIA_TYPES :: "(string \<times> string) list" where
  "NATIVE_MEDIA_TYPES =
     [(''.md'', ''text/markdown''), (''.markdown'', ''text/markdown''), (''.mdx'', ''text/markdown''),
      (''.txt'', ''text/plain''), (''.log'', ''text/plain''), (''.rst'', ''text/x-rst''),
      (''.adoc'', ''text/asciidoc''), (''.json'', ''application/json''),
      (''.yaml'', ''application/yaml''), (''.yml'', ''application/yaml''),
      (''.csv'', ''text/csv''), (''.tsv'', ''text/tab-separated-values'')]"

definition native_media_type :: "string \<Rightarrow> string option" where
  "native_media_type suffix = map_of NATIVE_MEDIA_TYPES (py_lower suffix)"

definition parse_failure :: "exc \<Rightarrow> bool" where
  "parse_failure e \<longleftrightarrow> exc_name e = ''ValueError'' \<or> exc_name e = ''YAMLError''"

definition read_data_file :: "'w extract_env \<Rightarrow> string \<Rightarrow> ('w, string) eff" where
  "read_data_file env path =
     bindE (ee_read_text env path) (\<lambda>raw.
       if py_lower (path_suffix path) = ''.json''
       then (case ee_json_pretty env raw of
               Inr t \<Rightarrow> ret t
             | Inl e \<Rightarrow> if parse_failure e then ret raw else raise e)
       else (case ee_yaml_load env raw of
               Inl e \<Rightarrow> if parse_failure e then ret raw else raise e
             | Inr parsed \<Rightarrow> if parsed = JNull then ret raw else of_sum (ee_yaml_dump env parsed)))"

section \<open>Processing one file\<close>

datatype processed_status = POk | PNoText | PUnsupported

record processed_file =
  pf_status :: processed_status
  pf_chunks :: "string list"
  pf_text :: string
  pf_media_type :: "string option"
  pf_title :: string
  pf_format_class :: format_class
  pf_embedded :: "embedded_document list"

definition unsupported :: "string option \<Rightarrow> format_class \<Rightarrow> processed_file" where
  "unsupported media_type c = \<lparr>pf_status = PUnsupported, pf_chunks = [], pf_text = [],
     pf_media_type = media_type, pf_title = [], pf_format_class = c, pf_embedded = []\<rparr>"

definition resolve_strategy :: "strategy \<Rightarrow> format_class \<Rightarrow> strategy" where
  "resolve_strategy s c =
     (if s = StratAuto
      then (if c = FMarkdown then StratMarkdown
            else if c = FSpreadsheetTika \<or> c = FSpreadsheetText then StratSheetRows
            else if c = FPresentation then StratSlide else StratParagraph)
      else s)"

definition chunk_for ::
  "format_class \<Rightarrow> string \<Rightarrow> string \<Rightarrow> chunking_config \<Rightarrow> settings \<Rightarrow> exc + string list" where
  "chunk_for c text title chunking st =
     (case resolve_strategy (chk_strategy chunking) c of
        StratMarkdown \<Rightarrow> Inr (chunk_markdown text (chk_words chunking) (chk_overlap chunking))
      | StratSheetRows \<Rightarrow> chunk_spreadsheet_text text (set_sheet_rows st) None
      | StratSlide \<Rightarrow> Inr (chunk_slides text (chk_words chunking) (if title = [] then None else Some title))
      | _ \<Rightarrow> Inr (chunk_paragraphs text (chk_words chunking) (chk_overlap chunking)))"

text \<open>\<open>len(text) / max(1, pages or 1) < min_chars_per_page\<close>, cross-multiplied: the float
  quotient of the code compares with the integer as the exact one does while both stay below
  \<open>2 ^ 26\<close>.\<close>

definition scanned_pdf :: "format_class \<Rightarrow> string option \<Rightarrow> string \<Rightarrow> int option \<Rightarrow> settings \<Rightarrow> bool" where
  "scanned_pdf c media_type text pages st \<longleftrightarrow>
     c = FDocument \<and>
     (case media_type of None \<Rightarrow> False | Some m \<Rightarrow> contains ''pdf'' (py_lower m)) \<and>
     int (length text) < set_min_chars_per_page st * max 1 (case pages of None \<Rightarrow> 1 | Some n \<Rightarrow> n)"

text \<open>The rest of \<open>process_file\<close>, after the text has been read.\<close>

definition finish_file ::
  "string \<Rightarrow> chunking_config \<Rightarrow> settings \<Rightarrow> format_class \<Rightarrow> extraction_result \<Rightarrow> exc + processed_file" where
  "finish_file rel_path chunking st c ext =
     (let text = ext_text ext;
          resolved_title =
            (case or_else (ext_title ext) (or_else (extract_markdown_title text) None) of
               Some t \<Rightarrow> t | None \<Rightarrow> path_stem rel_path);
          base = \<lparr>pf_status = PNoText, pf_chunks = [], pf_text = text, pf_media_type = ext_media_type ext,
            pf_title = resolved_title, pf_format_class = c, pf_embedded = ext_embedded ext\<rparr>
      in if py_strip text = [] then Inr (base\<lparr>pf_text := []\<rparr>)
         else if scanned_pdf c (ext_media_type ext) text (ext_pages ext) st
         then Inr (base\<lparr>pf_embedded := []\<rparr>)
         else (case chunk_for c text resolved_title chunking st of
                 Inl e \<Rightarrow> Inl e
               | Inr chunks \<Rightarrow>
                   if chunks = [] then Inr base
                   else Inr (base\<lparr>pf_status := POk, pf_chunks := chunks\<rparr>)))"

definition native_result :: "string \<Rightarrow> string option \<Rightarrow> extraction_result" where
  "native_result text media_type = \<lparr>ext_text = text, ext_media_type = media_type, ext_title = None,
     ext_pages = None, ext_exceptions = [], ext_embedded = []\<rparr>"

definition process_file ::
  "'w extract_env \<Rightarrow> string \<Rightarrow> string \<Rightarrow> chunking_config \<Rightarrow> settings \<Rightarrow> ('w, processed_file) eff" where
  "process_file env path rel_path chunking st =
     (let c = classify rel_path; file_name = after_last CHR ''/'' rel_path in
      if c = FArchive then ret (unsupported None c)
      else if c = FUnknown then
        (if \<not> set_tika_sniff_unknown st then ret (unsupported None c)
         else bindE (ee_tika_extract env path file_name) (\<lambda>result.
           let sniffed = class_for_media_type (ext_media_type result) in
           if sniffed = FUnknown \<or> sniffed = FArchive
           then ret (unsupported (ext_media_type result) FUnknown)
           else of_sum (finish_file rel_path chunking st sniffed result)))
      else if c \<in> set NATIVE_CLASSES then
        bindE (if c = FData then read_data_file env path else ee_read_text env path) (\<lambda>text.
          of_sum (finish_file rel_path chunking st c (native_result text (native_media_type (path_suffix path)))))
      else bindE (ee_tika_extract env path file_name) (\<lambda>result.
        of_sum (finish_file rel_path chunking st c result)))"

section \<open>Change-detection hashes\<close>

text \<open>\<open>text.encode("utf-8")\<close> for the modelled characters.\<close>

definition utf8_char :: "char \<Rightarrow> string" where
  "utf8_char c = (let n = (of_char c :: nat) in
     if n < 128 then [c] else [char_of (192 + n div 64), char_of (128 + n mod 64)])"

definition utf8_encode :: "string \<Rightarrow> string" where
  "utf8_encode s = concat (map utf8_char s)"

text \<open>SHA-256 over bytes is the parameter \<open>sha256\<close>.\<close>

definition sha256_text :: "(string \<Rightarrow> string) \<Rightarrow> string \<Rightarrow> string" where
  "sha256_text sha256 text = sha256 (utf8_encode text)"

definition params_parts :: "job \<Rightarrow> settings \<Rightarrow> string \<Rightarrow> string list" where
  "params_parts j st model =
     [model, strategy_str (chk_strategy (job_chunking j)), str_of_nat (chk_words (job_chunking j)),
      str_of_nat (chk_overlap (job_chunking j)), str_of_nat CHUNKER_VERSION,
      set_tika_ocr_language st, set_tika_pdf_ocr_strategy st, str_of_bool (set_tika_sniff_unknown st),
      str_of_int (set_sheet_rows st), str_of_int (set_min_chars_per_page st),
      str_of_bool (job_expand_embedded j)]"

definition job_params_sha :: "(string \<Rightarrow> string) \<Rightarrow> job \<Rightarrow> settings \<Rightarrow> exc + string" where
  "job_params_sha sha256 j st =
     (case emb_model (job_embedding j) of
        None \<Rightarrow> Inl (PyError ''AssertionError'' [])
      | Some model \<Rightarrow> Inr (sha256_text sha256 (py_join ''|'' (params_parts j st model))))"

section \<open>What the router and the hashes promise\<close>

text \<open>Native formats never travel through Tika: for a file whose extension is a native one,
  the outcome and the effect are the same whatever Tika would do.\<close>

theorem native_bypasses_tika:
  assumes "classify rel_path \<in> set NATIVE_CLASSES"
  shows "process_file env path rel_path chunking st w =
    process_file (env\<lparr>ee_tika_extract := t\<rparr>) path rel_path chunking st w"
proof -
  have "read_data_file (env\<lparr>ee_tika_extract := t\<rparr>) path = read_data_file env path"
    unfolding read_data_file_def by (simp cong: if_cong sum.case_cong)
  with assms show ?thesis by (auto simp: process_file_def Let_def NATIVE_CLASSES_def)
qed

definition sample_extract :: "unit extract_env" where
  "sample_extract = \<lparr>ee_tika_extract = (\<lambda>p n. raise (TikaError ''down'' False)),
     ee_read_text = (\<lambda>p. ret ''# T\<newline>body''), ee_json_pretty = Inr, ee_yaml_load = (\<lambda>s. Inr JNull),
     ee_yaml_dump = (\<lambda>v. Inr [])\<rparr>"

theorem native_bypasses_tika_witness:
  "process_file sample_extract ''/r/a.md'' ''a.md'' (job_chunking sample_job) sample_settings () =
   process_file (sample_extract\<lparr>ee_tika_extract := (\<lambda>p n. raise (TikaError ''encrypted'' True))\<rparr>)
     ''/r/a.md'' ''a.md'' (job_chunking sample_job) sample_settings ()"
proof (rule native_bypasses_tika)
  show "classify ''a.md'' \<in> set NATIVE_CLASSES" by code_simp
qed

lemma finish_file_cases:
  assumes "finish_file rel_path chunking st c ext = Inr p"
  shows "pf_status p \<noteq> PUnsupported \<and> (pf_status p = POk \<longleftrightarrow> pf_chunks p \<noteq> []) \<and>
    (pf_status p = POk \<longrightarrow> pf_text p = ext_text ext \<and> py_strip (ext_text ext) \<noteq> [] \<and>
      chunk_for c (ext_text ext) (pf_title p) chunking st = Inr (pf_chunks p))"
  using assms by (auto simp: finish_file_def Let_def split: if_splits sum.splits)

lemma process_file_Inr:
  assumes "process_file env path rel_path chunking st w = (Inr p, w')"
  shows "(\<exists>m c. p = unsupported m c) \<or> (\<exists>c e. Inr p = finish_file rel_path chunking st c e)"
  using assms by (auto simp: process_file_def Let_def bindE_Inr split: if_splits)

text \<open>What a processed file says: it is \<open>ok\<close> exactly when it has chunks, those are the
  chunks of its non-blank text, and an archive or, without sniffing, a file of unknown
  extension is unsupported without any I/O.\<close>

theorem process_file_spec:
  assumes "process_file env path rel_path chunking st w = (Inr p, w')"
  shows "(pf_status p = POk \<longleftrightarrow> pf_chunks p \<noteq> []) \<and>
    (pf_status p = POk \<longrightarrow> py_strip (pf_text p) \<noteq> [] \<and>
      (\<exists>c. chunk_for c (pf_text p) (pf_title p) chunking st = Inr (pf_chunks p))) \<and>
    (classify rel_path = FArchive \<or> classify rel_path = FUnknown \<and> \<not> set_tika_sniff_unknown st \<longrightarrow>
      pf_status p = PUnsupported \<and> w' = w)"
proof (intro conjI)
  have "(pf_status p = POk \<longleftrightarrow> pf_chunks p \<noteq> []) \<and> (pf_status p = POk \<longrightarrow> py_strip (pf_text p) \<noteq> [] \<and>
      (\<exists>c. chunk_for c (pf_text p) (pf_title p) chunking st = Inr (pf_chunks p)))"
    using process_file_Inr [OF assms]
  proof (elim disjE exE)
    fix c e
    assume "Inr p = finish_file rel_path chunking st c e"
    from finish_file_cases [OF this [symmetric]] show ?thesis by metis
  qed (simp add: unsupported_def)
  then show "pf_status p = POk \<longleftrightarrow> pf_chunks p \<noteq> []"
    and "pf_status p = POk \<longrightarrow> py_strip (pf_text p) \<noteq> [] \<and>
      (\<exists>c. chunk_for c (pf_text p) (pf_title p) chunking st = Inr (pf_chunks p))" by blast+
  show "classify rel_path = FArchive \<or> classify rel_path = FUnknown \<and> \<not> set_tika_sniff_unknown st \<longrightarrow>
      pf_status p = PUnsupported \<and> w' = w"
    using assms by (auto simp: process_file_def unsupported_def)
qed

theorem process_file_spec_witness:
  "pf_chunks (projr (fst (process_file sample_extract ''/r/a.md'' ''a.md'' (job_chunking sample_job)
     sample_settings ()))) \<noteq> []"
proof -
  let ?m = "process_file sample_extract ''/r/a.md'' ''a.md'' (job_chunking sample_job) sample_settings ()"
  have ok: "pf_status (projr (fst ?m)) = POk \<and> \<not> isl (fst ?m)" by code_simp
  then obtain p w' where p: "?m = (Inr p, w')" by (cases ?m; cases "fst ?m") auto
  with ok process_file_spec [OF p] show ?thesis by simp
qed

lemma utf8_Cons: "utf8_encode (c # s) = utf8_char c @ utf8_encode s"
  by (simp add: utf8_encode_def)

lemma utf8_Nil: "utf8_encode s = [] \<longleftrightarrow> s = []"
  by (cases s) (auto simp: utf8_encode_def utf8_char_def Let_def)

lemma utf8_char_inj:
  assumes "utf8_char c @ x = utf8_char d @ y"
  shows "c = d \<and> x = y"
proof -
  let ?n = "of_char c :: nat" and ?m = "of_char d :: nat"
  have lt: "?n < 256" "?m < 256" by simp_all
  have b: "(of_char (char_of k :: char) :: nat) = k" if "k < 256" for k
    using that by (simp add: of_char_of)
  have div: "?n div 64 < 4" "?m div 64 < 4" using lt by linarith+
  have h: "(of_char (char_of (192 + ?n div 64) :: char) :: nat) = 192 + ?n div 64"
    "(of_char (char_of (192 + ?m div 64) :: char) :: nat) = 192 + ?m div 64"
    using div by (intro b; linarith)+
  have l: "(of_char (char_of (128 + ?n mod 64) :: char) :: nat) = 128 + ?n mod 64"
    "(of_char (char_of (128 + ?m mod 64) :: char) :: nat) = 128 + ?m mod 64"
    by (rule b, use mod_less_divisor [of 64 ?n] in linarith)
       (rule b, use mod_less_divisor [of 64 ?m] in linarith)
  consider "?n < 128" "?m < 128" | "?n < 128" "\<not> ?m < 128" | "\<not> ?n < 128" "?m < 128"
    | "\<not> ?n < 128" "\<not> ?m < 128" by blast
  then show ?thesis
  proof cases
    case 1
    with assms show ?thesis by (simp add: utf8_char_def Let_def)
  next
    case 2
    with assms have "c = char_of (192 + ?m div 64)" by (simp add: utf8_char_def Let_def)
    with h(2) have "?n = 192 + ?m div 64" by simp
    with 2 show ?thesis by simp
  next
    case 3
    with assms have "d = char_of (192 + ?n div 64)" by (simp add: utf8_char_def Let_def)
    with h(1) have "?m = 192 + ?n div 64" by simp
    with 3 show ?thesis by simp
  next
    case 4
    with assms have e: "char_of (192 + ?n div 64) = (char_of (192 + ?m div 64) :: char)"
      "char_of (128 + ?n mod 64) = (char_of (128 + ?m mod 64) :: char)" "x = y"
      by (simp_all add: utf8_char_def Let_def)
    from e(1) h have "?n div 64 = ?m div 64" by (metis add_left_cancel)
    moreover from e(2) l have "?n mod 64 = ?m mod 64" by (metis add_left_cancel)
    ultimately have "?n = ?m" by (metis div_mult_mod_eq)
    with e(3) show ?thesis by simp
  qed
qed

lemma utf8_encode_inj: "utf8_encode s = utf8_encode t \<Longrightarrow> s = t"
proof (induction s arbitrary: t)
  case Nil
  then show ?case by (metis utf8_Nil)
next
  case (Cons c s)
  have "t \<noteq> []" using Cons.prems utf8_Nil [of "c # s"] by (auto simp: utf8_Nil)
  then obtain d u where t: "t = d # u" by (cases t) auto
  with Cons.prems have "c = d \<and> utf8_encode s = utf8_encode u"
    by (intro utf8_char_inj) (simp add: utf8_Cons)
  with Cons.IH t show ?case by blast
qed

text \<open>Fields joined by a separator are read back from the right: a field without the separator
  ends at the last one.\<close>

lemma append_sep_inj_right:
  assumes "c \<notin> set a" and "c \<notin> set b" and "x @ c # a = y @ c # b"
  shows "x = y \<and> a = b"
proof -
  have "rev a @ c # rev x = rev b @ c # rev y" using arg_cong [OF assms(3), of rev] by simp
  then have "rev a = rev b \<and> rev x = rev y"
    using append_sep_inj [of c "rev a" "rev b" "rev x" "rev y"] assms(1,2) by simp
  then show ?thesis by simp
qed

lemma no_bar:
  "CHR ''|'' \<notin> set (str_of_nat n)" "CHR ''|'' \<notin> set (str_of_bool b)" "CHR ''|'' \<notin> set (strategy_str s)"
  using str_of_nat_all_digits [of "CHR ''|''" n]
  by (auto simp: is_digit_def str_of_bool_def) (cases s; simp)

lemma strategy_str_inj: "strategy_str s = strategy_str t \<longleftrightarrow> s = t"
  by (cases s; cases t) simp_all

lemma str_of_bool_inj: "str_of_bool a = str_of_bool b \<longleftrightarrow> a = b"
  by (simp add: str_of_bool_def)

lemma params_text_inj:
  assumes "py_join ''|'' (params_parts j st m) = py_join ''|'' (params_parts k st n)"
  shows "m = n \<and> chk_strategy (job_chunking j) = chk_strategy (job_chunking k) \<and>
    chk_words (job_chunking j) = chk_words (job_chunking k) \<and>
    chk_overlap (job_chunking j) = chk_overlap (job_chunking k) \<and>
    job_expand_embedded j = job_expand_embedded k"
proof -
  let ?mid = "str_of_nat CHUNKER_VERSION @ ''|'' @ set_tika_ocr_language st @ ''|'' @
    set_tika_pdf_ocr_strategy st @ ''|'' @ str_of_bool (set_tika_sniff_unknown st) @ ''|'' @
    str_of_int (set_sheet_rows st) @ ''|'' @ str_of_int (set_min_chars_per_page st)"
  define pre where "pre = (\<lambda>(j :: job) m. ((m @ ''|'' @ strategy_str (chk_strategy (job_chunking j))) @ ''|'' @
    str_of_nat (chk_words (job_chunking j))) @ ''|'' @ str_of_nat (chk_overlap (job_chunking j)))"
  have split: "py_join ''|'' (params_parts i st l) =
      (pre i l @ ''|'' @ ?mid) @ CHR ''|'' # str_of_bool (job_expand_embedded i)" for i l
    by (simp add: params_parts_def pre_def)
  from assms have "pre j m @ ''|'' @ ?mid = pre k n @ ''|'' @ ?mid \<and>
      str_of_bool (job_expand_embedded j) = str_of_bool (job_expand_embedded k)"
    unfolding split by (rule append_sep_inj_right [OF no_bar(2) no_bar(2)])
  then have e: "job_expand_embedded j = job_expand_embedded k" and p: "pre j m = pre k n"
    by (simp_all add: str_of_bool_inj)
  let ?sj = "strategy_str (chk_strategy (job_chunking j))" and ?sk = "strategy_str (chk_strategy (job_chunking k))"
  have "(m @ CHR ''|'' # ?sj) @ CHR ''|'' # str_of_nat (chk_words (job_chunking j)) =
        (n @ CHR ''|'' # ?sk) @ CHR ''|'' # str_of_nat (chk_words (job_chunking k)) \<and>
      str_of_nat (chk_overlap (job_chunking j)) = str_of_nat (chk_overlap (job_chunking k))"
    using p unfolding pre_def by (intro append_sep_inj_right [OF no_bar(1) no_bar(1)]) simp
  then have o: "chk_overlap (job_chunking j) = chk_overlap (job_chunking k)"
    and r: "(m @ CHR ''|'' # ?sj) @ CHR ''|'' # str_of_nat (chk_words (job_chunking j)) =
        (n @ CHR ''|'' # ?sk) @ CHR ''|'' # str_of_nat (chk_words (job_chunking k))"
    by (simp_all only: str_of_nat_inj)
  have q: "m @ CHR ''|'' # ?sj = n @ CHR ''|'' # ?sk \<and>
      str_of_nat (chk_words (job_chunking j)) = str_of_nat (chk_words (job_chunking k))"
    by (rule append_sep_inj_right [OF no_bar(1) no_bar(1) r])
  have "m = n \<and> ?sj = ?sk"
    by (rule append_sep_inj_right [OF no_bar(3) no_bar(3) conjunct1 [OF q]])
  with e o q show ?thesis by (simp add: strategy_str_inj str_of_nat_inj)
qed

text \<open>Under fixed settings the params hash changes exactly when the model, the chunking
  section or attachment expansion changes, unless SHA-256 collides on the two texts: the
  fields joined by bars are unambiguous, whatever characters the model name has.\<close>

theorem job_params_sha_exact:
  assumes "emb_model (job_embedding j) = Some m" and "emb_model (job_embedding k) = Some n"
    and "\<And>a b. a = py_join ''|'' (params_parts j st m) \<Longrightarrow> b = py_join ''|'' (params_parts k st n) \<Longrightarrow>
      sha256 (utf8_encode a) = sha256 (utf8_encode b) \<Longrightarrow> utf8_encode a = utf8_encode b"
  shows "job_params_sha sha256 j st = job_params_sha sha256 k st \<longleftrightarrow>
    m = n \<and> job_chunking j = job_chunking k \<and> job_expand_embedded j = job_expand_embedded k"
proof
  assume "job_params_sha sha256 j st = job_params_sha sha256 k st"
  with assms have "utf8_encode (py_join ''|'' (params_parts j st m)) = utf8_encode (py_join ''|'' (params_parts k st n))"
    by (simp add: job_params_sha_def sha256_text_def)
  from params_text_inj [OF utf8_encode_inj [OF this]]
  show "m = n \<and> job_chunking j = job_chunking k \<and> job_expand_embedded j = job_expand_embedded k" by simp
qed (use assms(1,2) in \<open>simp add: job_params_sha_def params_parts_def\<close>)

theorem job_params_sha_exact_witness:
  "job_params_sha id (sample_job\<lparr>job_expand_embedded := True\<rparr>) sample_settings \<noteq>
   job_params_sha id sample_job sample_settings"
  using job_params_sha_exact [of "sample_job\<lparr>job_expand_embedded := True\<rparr>" "''m''" sample_job "''m''"
      sample_settings id]
  by (simp add: sample_job_def)

end
