(* ===== verification/Sources.thy ===== *)
theory Sources
  imports Schema "HOL-Library.Sublist"
begin

text \<open>
  The glob filters of \<open>src/src/sources/filters.py\<close> and the tree scan of
  \<open>src/src/sources/local.py\<close>. A compiled pattern is the list of its regex parts, matched by
  backtracking as the anchored regular expression is; the file system is a parameter.
\<close>

section \<open>Globs\<close>

text \<open>The parts \<open>glob_to_regex\<close> emits: \<open>(?:.*/)?\<close>, \<open>.*\<close>, \<open>[^/]*\<close>, \<open>[^/]\<close> and an escaped
  character. \<open>GDirsIn\<close> is the group \<open>.*/\<close> once it has been entered.\<close>

datatype gpart = GDirs | GDirsIn | GAny | GSeg | GOne | GLit char

definition normalize_glob :: "string \<Rightarrow> string" where
  "normalize_glob p = lstrip_char CHR ''/'' (replace_char CHR 0x5C ''/'' p)"

fun glob_parts :: "string \<Rightarrow> gpart list" where
  "glob_parts [] = []"
| "glob_parts (c # cs) =
     (if c = CHR ''*'' then
        (case cs of
           d # ds \<Rightarrow>
             if d = CHR ''*'' then
               (case ds of
                  e # es \<Rightarrow> if e = CHR ''/'' then GDirs # glob_parts es else GAny # glob_parts ds
                | [] \<Rightarrow> [GAny])
             else GSeg # glob_parts cs
         | [] \<Rightarrow> [GSeg])
      else if c = CHR ''?'' then GOne # glob_parts cs
      else GLit c # glob_parts cs)"

definition glob_to_regex :: "string \<Rightarrow> gpart list" where
  "glob_to_regex pattern = glob_parts (normalize_glob pattern)"

fun gpart_weight :: "gpart \<Rightarrow> nat" where
  "gpart_weight GDirs = 2"
| "gpart_weight g = 1"

text \<open>\<open>.\<close> does not match a newline, \<open>[^/]\<close> does, and \<open>$\<close> also matches before a final one.\<close>

function gmatch :: "gpart list \<Rightarrow> string \<Rightarrow> bool" where
  "gmatch [] s = (s = [] \<or> s = [NL])"
| "gmatch (GLit c # ps) s = (case s of [] \<Rightarrow> False | d # t \<Rightarrow> d = c \<and> gmatch ps t)"
| "gmatch (GOne # ps) s = (case s of [] \<Rightarrow> False | d # t \<Rightarrow> d \<noteq> CHR ''/'' \<and> gmatch ps t)"
| "gmatch (GSeg # ps) s =
     (gmatch ps s \<or> (case s of [] \<Rightarrow> False | d # t \<Rightarrow> d \<noteq> CHR ''/'' \<and> gmatch (GSeg # ps) t))"
| "gmatch (GAny # ps) s =
     (gmatch ps s \<or> (case s of [] \<Rightarrow> False | d # t \<Rightarrow> d \<noteq> NL \<and> gmatch (GAny # ps) t))"
| "gmatch (GDirs # ps) s = (gmatch ps s \<or> gmatch (GDirsIn # ps) s)"
| "gmatch (GDirsIn # ps) s =
     (case s of [] \<Rightarrow> False
      | d # t \<Rightarrow> d = CHR ''/'' \<and> gmatch ps t \<or> d \<noteq> NL \<and> gmatch (GDirsIn # ps) t)"
  by pat_completeness auto
termination
  by (relation "measures [\<lambda>(ps, s). sum_list (map gpart_weight ps), \<lambda>(ps, s). length s]") auto

definition path_matches :: "filters_config \<Rightarrow> string \<Rightarrow> bool" where
  "path_matches filters rel_path =
     (let rel = normalize_glob rel_path in
      if \<exists>p \<in> set (flt_exclude filters). gmatch (glob_to_regex p) rel then False
      else if flt_include filters \<noteq> [] then \<exists>p \<in> set (flt_include filters). gmatch (glob_to_regex p) rel
      else True)"

definition to_rclone_pattern :: "string \<Rightarrow> string" where
  "to_rclone_pattern pattern =
     (let normalized = replace_char CHR 0x5C ''/'' pattern in
      if starts_with ''**/'' normalized then drop 3 normalized
      else if starts_with ''/'' normalized then normalized
      else CHR ''/'' # normalized)"

definition rclone_filter_args :: "filters_config \<Rightarrow> string list" where
  "rclone_filter_args filters =
     concat (map (\<lambda>p. [''--filter'', ''- '' @ to_rclone_pattern p]) (flt_exclude filters)) @
     concat (map (\<lambda>p. [''--filter'', ''+ '' @ to_rclone_pattern p]) (flt_include filters)) @
     (if flt_include filters \<noteq> [] then [''--filter'', ''+ */'', ''--filter'', ''- **''] else [])"

section \<open>Scanning a tree\<close>

record scanned_file =
  sf_abs_path :: string
  sf_rel_path :: string
  sf_size :: int
  sf_mtime_ns :: int

text \<open>The file system: \<open>is_dir\<close>, the sorted \<open>rglob("*")\<close> with relative paths, \<open>is_file\<close> and
  \<open>stat\<close> (size and mtime).\<close>

record 'w fs =
  fs_is_dir :: "string \<Rightarrow> ('w, bool) eff"
  fs_rglob :: "string \<Rightarrow> ('w, (string \<times> string) list) eff"
  fs_is_file :: "string \<Rightarrow> ('w, bool) eff"
  fs_stat :: "string \<Rightarrow> ('w, int \<times> int) eff"

primrec scan_entries :: "'w fs \<Rightarrow> filters_config \<Rightarrow> (string \<times> string) list \<Rightarrow> ('w, scanned_file list) eff" where
  "scan_entries fs filters [] = ret []"
| "scan_entries fs filters (entry # rest) =
     bindE (fs_is_file fs (fst entry)) (\<lambda>is_file.
       if \<not> is_file then scan_entries fs filters rest
       else if \<not> path_matches filters (snd entry) then scan_entries fs filters rest
       else bindE (fs_stat fs (fst entry)) (\<lambda>stat.
         bindE (scan_entries fs filters rest) (\<lambda>files.
           ret (\<lparr>sf_abs_path = fst entry, sf_rel_path = snd entry, sf_size = fst stat,
                  sf_mtime_ns = snd stat\<rparr> # files))))"

definition scan_tree :: "'w fs \<Rightarrow> string \<Rightarrow> filters_config \<Rightarrow> ('w, scanned_file list) eff" where
  "scan_tree fs base filters =
     bindE (fs_is_dir fs base) (\<lambda>is_dir.
       if \<not> is_dir then ret []
       else bindE (fs_rglob fs base) (scan_entries fs filters))"

section \<open>What a pattern matches\<close>

text \<open>The texts one part stands for.\<close>

fun glang :: "gpart \<Rightarrow> string \<Rightarrow> bool" where
  "glang GDirs s = (s = [] \<or> (\<exists>d. s = d @ ''/'' \<and> NL \<notin> set d))"
| "glang GDirsIn s = (\<exists>d. s = d @ ''/'' \<and> NL \<notin> set d)"
| "glang GAny s = (NL \<notin> set s)"
| "glang GSeg s = (CHR ''/'' \<notin> set s)"
| "glang GOne s = (\<exists>c. s = [c] \<and> c \<noteq> CHR ''/'')"
| "glang (GLit c) s = (s = [c])"

primrec gspec :: "gpart list \<Rightarrow> string \<Rightarrow> bool" where
  "gspec [] s = (s = [] \<or> s = [NL])"
| "gspec (g # gs) s = (\<exists>a b. s = a @ b \<and> glang g a \<and> gspec gs b)"

lemma split_Cons: "(\<exists>a b. d # t = a @ b \<and> P a b) \<longleftrightarrow> P [] (d # t) \<or> (\<exists>a b. t = a @ b \<and> P (d # a) b)"
  by (auto simp: Cons_eq_append_conv)

lemma gmatch_gspec: "gmatch gs s = gspec gs s"
proof (induction gs s rule: gmatch.induct)
  case (2 c ps s)
  then show ?case by (cases s) auto
next
  case (3 ps s)
  then show ?case by (cases s) (auto simp: split_Cons)
next
  case (4 ps s)
  then show ?case by (cases s) (auto simp: split_Cons)
next
  case (5 ps s)
  then show ?case by (cases s) (auto simp: split_Cons)
next
  case (6 ps s)
  then show ?case by auto
next
  case (7 ps s)
  show ?case
  proof (cases s)
    case Nil
    then show ?thesis by simp
  next
    case (Cons d t)
    have e: "(\<exists>e. d # a = e @ ''/'' \<and> NL \<notin> set e) \<longleftrightarrow>
        d = CHR ''/'' \<and> a = [] \<or> d \<noteq> NL \<and> (\<exists>e. a = e @ ''/'' \<and> NL \<notin> set e)" for a
      by (auto simp: Cons_eq_append_conv)
    have "gspec (GDirsIn # ps) (d # t) \<longleftrightarrow> (\<exists>a b. t = a @ b \<and> (\<exists>e. d # a = e @ ''/'' \<and> NL \<notin> set e) \<and> gspec ps b)"
      by (simp add: split_Cons)
    also have "\<dots> \<longleftrightarrow> d = CHR ''/'' \<and> gspec ps t \<or> d \<noteq> NL \<and> gspec (GDirsIn # ps) t"
      unfolding e by auto
    finally show ?thesis using 7 Cons by simp
  qed
qed simp

lemma no_newline_normalized: "NL \<notin> set s \<Longrightarrow> NL \<notin> set (normalize_glob s)"
  by (auto simp: normalize_glob_def lstrip_char_def replace_char_def dest!: set_dropWhileD
      split: if_splits)

subsection \<open>The dialect\<close>

text \<open>The dialect as the module's documentation gives it, as a relation between the text of a
  pattern and a path, without the compiled parts: \<open>*\<close> stands for any text inside one segment,
  \<open>?\<close> for one character of a segment, \<open>**\<close> for any text, \<open>**/\<close> for no segment at all or for
  any text that ends at a segment boundary, and every other character for itself.\<close>

inductive glob_matches :: "string \<Rightarrow> string \<Rightarrow> bool" where
  gm_end: "glob_matches [] []"
| gm_segment: "glob_matches p s \<Longrightarrow> \<not> starts_with ''*'' p \<Longrightarrow> CHR ''/'' \<notin> set a \<Longrightarrow>
    glob_matches (''*'' @ p) (a @ s)"
| gm_one: "glob_matches p s \<Longrightarrow> c \<noteq> CHR ''/'' \<Longrightarrow> glob_matches (''?'' @ p) (c # s)"
| gm_any: "glob_matches p s \<Longrightarrow> \<not> starts_with ''/'' p \<Longrightarrow> glob_matches (''**'' @ p) (a @ s)"
| gm_here: "glob_matches p s \<Longrightarrow> glob_matches (''**/'' @ p) s"
| gm_below: "glob_matches p s \<Longrightarrow> glob_matches (''**/'' @ p) (d @ ''/'' @ s)"
| gm_char: "glob_matches p s \<Longrightarrow> c \<notin> {CHR ''*'', CHR ''?''} \<Longrightarrow> glob_matches (c # p) (c # s)"

inductive_simps glob_matches_nil: "glob_matches [] s"
inductive_simps glob_matches_cons: "glob_matches (c # p) s"

lemma starts_with_one: "starts_with [c] p \<longleftrightarrow> (\<exists>q. p = c # q)"
  by (cases p) (auto simp: starts_with_def)

lemma glob_matches_here_below:
  "glob_matches (CHR ''*'' # CHR ''*'' # CHR ''/'' # p) s \<longleftrightarrow>
     glob_matches p s \<or> (\<exists>d t. s = d @ ''/'' @ t \<and> glob_matches p t)"
  by (subst glob_matches_cons) (auto simp: starts_with_one)

lemma glob_matches_any:
  "\<not> starts_with ''/'' p \<Longrightarrow> glob_matches (CHR ''*'' # CHR ''*'' # p) s \<longleftrightarrow> (\<exists>a t. s = a @ t \<and> glob_matches p t)"
  by (subst glob_matches_cons) (auto simp: starts_with_one)

lemma glob_matches_segment:
  "\<not> starts_with ''*'' p \<Longrightarrow>
     glob_matches (CHR ''*'' # p) s \<longleftrightarrow> (\<exists>a t. s = a @ t \<and> CHR ''/'' \<notin> set a \<and> glob_matches p t)"
  by (subst glob_matches_cons) (auto simp: starts_with_one)

lemma glob_matches_one:
  "glob_matches (CHR ''?'' # p) s \<longleftrightarrow> (\<exists>c t. s = c # t \<and> c \<noteq> CHR ''/'' \<and> glob_matches p t)"
  by (subst glob_matches_cons) auto

lemma glob_matches_char:
  "c \<noteq> CHR ''*'' \<Longrightarrow> c \<noteq> CHR ''?'' \<Longrightarrow> glob_matches (c # p) s \<longleftrightarrow> (\<exists>t. s = c # t \<and> glob_matches p t)"
  by (subst glob_matches_cons) auto

text \<open>The parts of a pattern stand for the dialect, on texts without a newline.\<close>

lemma gspec_dirs:
  "gspec (GDirs # gs) s \<longleftrightarrow> gspec gs s \<or> (\<exists>d t. s = d @ ''/'' @ t \<and> NL \<notin> set d \<and> gspec gs t)"
proof -
  have "(\<exists>a b. s = a @ b \<and> (a = [] \<or> (\<exists>d. a = d @ ''/'' \<and> NL \<notin> set d)) \<and> gspec gs b) \<longleftrightarrow>
      gspec gs s \<or> (\<exists>d t. s = d @ ''/'' @ t \<and> NL \<notin> set d \<and> gspec gs t)"
    by (metis append_Nil append_assoc)
  then show ?thesis by simp
qed

lemma gspec_one: "gspec (GOne # gs) s \<longleftrightarrow> (\<exists>c t. s = c # t \<and> c \<noteq> CHR ''/'' \<and> gspec gs t)"
  by (cases s) (auto simp: split_Cons)

lemma gspec_char: "gspec (GLit c # gs) s \<longleftrightarrow> (\<exists>t. s = c # t \<and> gspec gs t)"
  by (cases s) (auto simp: split_Cons)

lemma glob_parts_dialect: "NL \<notin> set s \<Longrightarrow> gspec (glob_parts p) s \<longleftrightarrow> glob_matches p s"
proof (induction p arbitrary: s rule: glob_parts.induct)
  case 1
  then show ?case by (auto simp: glob_matches_nil)
next
  case (2 c cs)
  consider (below) es where "c = CHR ''*''" "cs = CHR ''*'' # CHR ''/'' # es"
    | (any) ds where "c = CHR ''*''" "cs = CHR ''*'' # ds" "\<not> starts_with ''/'' ds"
    | (segment) "c = CHR ''*''" "\<not> starts_with ''*'' cs"
    | (one) "c = CHR ''?''" | (char) "c \<noteq> CHR ''*''" "c \<noteq> CHR ''?''"
    by (auto simp: starts_with_one)
  then show ?case
  proof cases
    case below
    have ih: "NL \<notin> set t \<Longrightarrow> gspec (glob_parts es) t \<longleftrightarrow> glob_matches es t" for t
      by (rule 2(1)) (simp_all add: below)
    have below_eq: "s = d @ ''/'' @ t \<Longrightarrow>
        (NL \<notin> set d \<and> gspec (glob_parts es) t) \<longleftrightarrow> glob_matches es t" for d t
      using 2(6) by (simp add: ih)
    have "glob_parts (c # cs) = GDirs # glob_parts es" by (simp add: below)
    with below_eq ih [OF 2(6)] show ?thesis
      by (simp only: below(1,2) gspec_dirs glob_matches_here_below) blast
  next
    case any
    have parts: "glob_parts (CHR ''*'' # CHR ''*'' # ds) = GAny # glob_parts ds"
      using any(3) by (cases ds) (auto simp: starts_with_one)
    have ih: "NL \<notin> set t \<Longrightarrow> gspec (glob_parts ds) t \<longleftrightarrow> glob_matches ds t" for t
      using any 2(2) by (cases ds) (auto simp: starts_with_one glob_matches_nil)
    have split_eq: "s = a @ t \<Longrightarrow> (NL \<notin> set a \<and> gspec (glob_parts ds) t) \<longleftrightarrow> glob_matches ds t" for a t
      using 2(6) by (auto simp: ih)
    have "gspec (glob_parts (c # cs)) s \<longleftrightarrow> (\<exists>a t. s = a @ t \<and> NL \<notin> set a \<and> gspec (glob_parts ds) t)"
      by (simp add: any(1,2) parts del: glob_parts.simps)
    also have "\<dots> \<longleftrightarrow> (\<exists>a t. s = a @ t \<and> glob_matches ds t)"
      using split_eq by metis
    finally show ?thesis
      by (simp add: any(1,2) glob_matches_any any(3) del: glob_parts.simps)
  next
    case segment
    have parts: "glob_parts (CHR ''*'' # cs) = GSeg # glob_parts cs"
      using segment(2) by (cases cs) (auto simp: starts_with_one)
    have ih: "NL \<notin> set t \<Longrightarrow> gspec (glob_parts cs) t \<longleftrightarrow> glob_matches cs t" for t
      using segment 2(3) by (cases cs) (auto simp: starts_with_one glob_matches_nil)
    have split_eq: "s = a @ t \<Longrightarrow> (CHR ''/'' \<notin> set a \<and> gspec (glob_parts cs) t) \<longleftrightarrow> CHR ''/'' \<notin> set a \<and> glob_matches cs t" for a t
      using 2(6) by (auto simp: ih)
    have "gspec (glob_parts (c # cs)) s \<longleftrightarrow> (\<exists>a t. s = a @ t \<and> CHR ''/'' \<notin> set a \<and> gspec (glob_parts cs) t)"
      by (simp add: segment(1) parts del: glob_parts.simps)
    also have "\<dots> \<longleftrightarrow> (\<exists>a t. s = a @ t \<and> CHR ''/'' \<notin> set a \<and> glob_matches cs t)"
      using split_eq by metis
    finally show ?thesis
      by (simp add: segment(1) glob_matches_segment segment(2) del: glob_parts.simps)
  next
    case one
    then have "NL \<notin> set t \<Longrightarrow> gspec (glob_parts cs) t \<longleftrightarrow> glob_matches cs t" for t
      using 2(4) by simp
    then show ?thesis
      using 2(6) by (auto simp: one glob_matches_one gspec_one simp del: gspec.simps(2))
  next
    case char
    then have "NL \<notin> set t \<Longrightarrow> gspec (glob_parts cs) t \<longleftrightarrow> glob_matches cs t" for t
      using 2(5) by simp
    then show ?thesis
      using 2(6) by (auto simp: char glob_matches_char gspec_char simp del: gspec.simps(2))
  qed
qed

text \<open>C39: A filter decision is the one of the glob dialect, read off the text of the patterns:
  for a path without a newline, a file passes exactly when no exclude pattern matches it in the
  sense of \<open>glob_matches\<close> and, where the include list is not empty, some include pattern does
  (backslashes and leading slashes of both sides normalised as the code does). A newline in a
  file name is excluded, since \<open>.\<close> and \<open>$\<close> of the compiled pattern treat it apart.\<close>

theorem path_matches_spec:
  assumes "NL \<notin> set rel"
  shows "path_matches filters rel \<longleftrightarrow>
     \<not> (\<exists>p \<in> set (flt_exclude filters). glob_matches (normalize_glob p) (normalize_glob rel)) \<and>
     (flt_include filters = [] \<or>
       (\<exists>p \<in> set (flt_include filters). glob_matches (normalize_glob p) (normalize_glob rel)))"
  using no_newline_normalized [OF assms]
  by (auto simp: path_matches_def gmatch_gspec Let_def glob_to_regex_def glob_parts_dialect)

theorem path_matches_spec_witness:
  "path_matches \<lparr>flt_include = [''**/*.pdf''], flt_exclude = [''drafts/**''], flt_max_file_bytes = None\<rparr> ''a/b/report.pdf'' \<and>
   glob_matches ''**/*.pdf'' ''a/b/report.pdf'' \<and> \<not> glob_matches ''drafts/**'' ''a/b/report.pdf''"
proof -
  let ?filters = "\<lparr>flt_include = [''**/*.pdf''], flt_exclude = [''drafts/**''], flt_max_file_bytes = None\<rparr>"
  have m: "path_matches ?filters ''a/b/report.pdf''" by code_simp
  have n: "normalize_glob ''a/b/report.pdf'' = ''a/b/report.pdf''"
    "normalize_glob ''**/*.pdf'' = ''**/*.pdf''" "normalize_glob ''drafts/**'' = ''drafts/**''"
    by code_simp+
  show ?thesis
    using path_matches_spec [of "''a/b/report.pdf''" ?filters] m by (simp add: n)
qed

text \<open>The exception is real: \<open>**\<close> does not reach over a newline in a directory's name, although
  the dialect lets it cross any text, so such a file escapes an exclude list.\<close>

lemma newline_escapes_exclude:
  "path_matches \<lparr>flt_include = [], flt_exclude = [''secret/**''], flt_max_file_bytes = None\<rparr> (''secret/a'' @ [NL] @ ''b'') \<and>
   glob_matches ''secret/**'' (''secret/a'' @ [NL] @ ''b'')"
proof
  show "path_matches \<lparr>flt_include = [], flt_exclude = [''secret/**''], flt_max_file_bytes = None\<rparr> (''secret/a'' @ [NL] @ ''b'')"
    by code_simp
  have "glob_matches (''**'' @ []) ((''a'' @ [NL] @ ''b'') @ [])"
    by (rule gm_any) (simp_all add: gm_end starts_with_one)
  then show "glob_matches ''secret/**'' (''secret/a'' @ [NL] @ ''b'')"
    by (simp add: glob_matches_char)
qed

text \<open>The two ends the dialect promises for \<open>**/\<close>: the rest of the pattern matches at the
  top level, and below any directory.\<close>

theorem leading_dirs_match:
  assumes "NL \<notin> set d"
  shows "gmatch (glob_parts p) s \<longrightarrow> gmatch (glob_parts (''**/'' @ p)) s \<and>
    gmatch (glob_parts (''**/'' @ p)) (d @ ''/'' @ s)"
proof
  assume s: "gmatch (glob_parts p) s"
  have "gspec (GDirs # glob_parts p) s"
    unfolding gspec.simps
    by (rule exI [of _ "[]"], rule exI [of _ s]) (use s in \<open>simp add: gmatch_gspec\<close>)
  moreover have "gspec (GDirs # glob_parts p) ((d @ ''/'') @ s)"
    unfolding gspec.simps
  proof (intro exI conjI)
    show "glang GDirs (d @ ''/'')" using assms by auto
  qed (use s in \<open>simp_all add: gmatch_gspec\<close>)
  ultimately show "gmatch (glob_parts (''**/'' @ p)) s \<and> gmatch (glob_parts (''**/'' @ p)) (d @ ''/'' @ s)"
    by (simp add: gmatch_gspec del: gspec.simps)
qed

theorem leading_dirs_match_witness:
  "gmatch (glob_parts ''**/*.pdf'') ''report.pdf'' \<and> gmatch (glob_parts ''**/*.pdf'') ''a/b/report.pdf''"
proof -
  have "gmatch (glob_parts ''*.pdf'') ''report.pdf''" by code_simp
  with leading_dirs_match [of "''a/b''" "''*.pdf''" "''report.pdf''"] show ?thesis by simp
qed

lemma scan_entries_files:
  assumes "scan_entries fs filters entries w = (Inr files, w')"
  shows "(\<forall>f \<in> set files. path_matches filters (sf_rel_path f)) \<and>
    subseq (map (\<lambda>f. (sf_abs_path f, sf_rel_path f)) files) entries"
  using assms
proof (induction entries arbitrary: w files)
  case (Cons e es)
  then show ?case
    by (auto simp: bindE_Inr split: if_splits)
qed simp

end
