(* ===== verification/Guards.thy ===== *)
theory Guards
  imports Schema
begin

text \<open>
  The deletion guard of \<open>src/src/engine/guards.py\<close>. The ratio it compares is a Python
  float, so the quotient is modelled as binary64 computes it: correctly rounded, ties to
  even. The limit \<open>max_delete_ratio\<close> is the exact value of the configured float.
\<close>

section \<open>The float quotient\<close>

text \<open>\<open>n / d\<close> rounded to the nearest integer, ties to even.\<close>

definition round_half_even :: "nat \<Rightarrow> nat \<Rightarrow> nat" where
  "round_half_even n d =
     (let q = n div d; r = n mod d in
      if 2 * r < d then q else if d < 2 * r then q + 1 else if even q then q else q + 1)"

text \<open>The least number of doublings that bring \<open>a\<close> up to \<open>b\<close>.\<close>

function norm_shift :: "nat \<Rightarrow> nat \<Rightarrow> nat" where
  "norm_shift a b = (if a = 0 \<or> b \<le> a then 0 else Suc (norm_shift (2 * a) b))"
  by pat_completeness auto
termination
  by (relation "measure (\<lambda>(a, b). b - a)") auto

declare norm_shift.simps [simp del]

text \<open>\<open>a / b\<close> for \<open>0 \<le> a \<le> b\<close>, \<open>0 < b\<close>: 53 significant bits, so that the scaled quotient
  lies between \<open>2 ^ 52\<close> and \<open>2 ^ 53\<close>.\<close>

definition float_div :: "nat \<Rightarrow> nat \<Rightarrow> rat" where
  "float_div a b =
     (if a = 0 then 0
      else let k = 52 + norm_shift a b in of_nat (round_half_even (a * 2 ^ k) b) / 2 ^ k)"

lemma round_half_even_error:
  assumes "0 < d"
  shows "\<bar>of_nat (round_half_even n d) - of_nat n / of_nat d\<bar> \<le> (1 / 2 :: rat)"
proof -
  let ?q = "n div d" and ?r = "n mod d"
  have n: "(of_nat n :: rat) = of_nat ?q * of_nat d + of_nat ?r"
    by (metis div_mult_mod_eq of_nat_add of_nat_mult)
  have d: "(0::rat) < of_nat d" using assms by simp
  have e: "(of_nat n / of_nat d :: rat) = of_nat ?q + of_nat ?r / of_nat d"
    using d by (simp add: n add_divide_distrib)
  have r: "(of_nat ?r / of_nat d :: rat) \<ge> 0" "(of_nat ?r / of_nat d :: rat) < 1"
    using assms by simp_all
  have lo: "(of_nat ?r / of_nat d :: rat) \<le> 1 / 2" if "2 * ?r \<le> d"
  proof -
    have "(2 * of_nat ?r :: rat) \<le> of_nat d" using that by (metis of_nat_le_iff of_nat_mult of_nat_numeral)
    then show ?thesis using d by (simp add: divide_le_eq)
  qed
  have hi: "(1 / 2 :: rat) \<le> of_nat ?r / of_nat d" if "d \<le> 2 * ?r"
  proof -
    have "(of_nat d :: rat) \<le> 2 * of_nat ?r" using that by (metis of_nat_le_iff of_nat_mult of_nat_numeral)
    then show ?thesis using d by (simp add: le_divide_eq)
  qed
  show ?thesis
    using r lo hi unfolding round_half_even_def Let_def e by (auto simp: abs_le_iff)
qed

lemma norm_shift_reaches: "0 < a \<Longrightarrow> b \<le> a * 2 ^ norm_shift a b"
proof (induction a b rule: norm_shift.induct)
  case (1 a b)
  show ?case
  proof (cases "b \<le> a")
    case True
    then show ?thesis by (subst norm_shift.simps) simp
  next
    case False
    with 1 have "b \<le> 2 * a * 2 ^ norm_shift (2 * a) b" by simp
    with False "1.prems" show ?thesis by (subst norm_shift.simps) (simp add: mult.assoc mult.left_commute)
  qed
qed

text \<open>The rounded quotient is off by at most one part in \<open>2 ^ 53\<close>.\<close>

lemma float_div_error:
  assumes "0 < b"
  shows "\<bar>float_div a b - of_nat a / of_nat b\<bar> \<le> of_nat a / of_nat b / 2 ^ 53"
proof (cases "a = 0")
  case False
  define j where "j = norm_shift a b"
  have b: "(0::rat) < of_nat b" using assms by simp
  have "b \<le> a * 2 ^ j" using False by (simp add: j_def norm_shift_reaches)
  then have "(of_nat b :: rat) \<le> of_nat a * 2 ^ j"
    by (metis of_nat_le_iff of_nat_mult of_nat_numeral of_nat_power)
  then have q: "(1 :: rat) / 2 ^ j \<le> of_nat a / of_nat b"
    using b by (simp add: divide_le_eq le_divide_eq mult.commute)
  have f: "float_div a b = of_nat (round_half_even (a * 2 ^ (52 + j)) b) / 2 ^ (52 + j)"
    using False by (simp only: float_div_def Let_def j_def if_False)
  have s: "(of_nat a / of_nat b :: rat) = of_nat (a * 2 ^ (52 + j)) / of_nat b / 2 ^ (52 + j)"
    by (simp add: power_add)
  have "\<bar>float_div a b - of_nat a / of_nat b\<bar> =
      \<bar>of_nat (round_half_even (a * 2 ^ (52 + j)) b) - of_nat (a * 2 ^ (52 + j)) / of_nat b\<bar> / 2 ^ (52 + j)"
    unfolding f by (subst s) (simp only: diff_divide_distrib [symmetric] abs_divide power_abs abs_numeral)
  also have "\<dots> \<le> (1 / 2 :: rat) / 2 ^ (52 + j)"
    using round_half_even_error [OF assms] by (rule divide_right_mono) simp
  also have "\<dots> = 1 / 2 ^ j / 2 ^ 53" by (simp add: power_add)
  also have "\<dots> \<le> of_nat a / of_nat b / 2 ^ 53" using q by (rule divide_right_mono) simp
  finally show ?thesis .
qed (simp add: float_div_def)

section \<open>The guard\<close>

text \<open>The two refusals, with the values their messages interpolate.\<close>

datatype guard_reason =
    EmptyTree nat
  | RatioExceeded nat nat rat

text \<open>The message texts. A percentage without decimals is the value times hundred, rounded to
  the nearest integer, ties to even; the code's float rounds the product once more, which
  only a value within one part in \<open>2 ^ 52\<close> of a tie can show.\<close>

definition percent_text :: "rat \<Rightarrow> string" where
  "percent_text x = (case quotient_of (x * 100) of (n, d) \<Rightarrow>
     str_of_nat (round_half_even (nat n) (nat d)) @ ''%'')"

fun guard_text :: "guard_reason \<Rightarrow> string" where
  "guard_text (EmptyTree n) = ''the scanned tree is empty but state tracks '' @ str_of_nat n @
     '' documents; refusing to delete anything''"
| "guard_text (RatioExceeded v n q) = ''run would delete '' @ str_of_nat v @ '' of '' @ str_of_nat n @
     '' documents ('' @ percent_text (float_div v (max 1 n)) @ ''), above max_delete_ratio '' @
     percent_text q @ ''; re-run with force to override''"

record guard_decision =
  gd_allowed :: bool
  gd_reason :: "guard_reason option"

definition check_vanished_deletion ::
  "string set \<Rightarrow> string set \<Rightarrow> safety_config \<Rightarrow> bool \<Rightarrow> guard_decision" where
  "check_vanished_deletion seen state_sources safety force =
     (let vanished = state_sources - seen;
          allowed = \<lparr>gd_allowed = True, gd_reason = None\<rparr> in
      if vanished = {} then allowed
      else if saf_empty_source_guard safety \<and> seen = {} \<and> state_sources \<noteq> {}
      then \<lparr>gd_allowed = False, gd_reason = Some (EmptyTree (card state_sources))\<rparr>
      else
        let ratio = float_div (card vanished) (max 1 (card state_sources)) in
        if ratio > saf_max_delete_ratio safety \<and> \<not> force
        then \<lparr>gd_allowed = False,
               gd_reason = Some (RatioExceeded (card vanished) (card state_sources)
                                   (saf_max_delete_ratio safety))\<rparr>
        else allowed)"

lemma guard_empty_tree:
  "saf_empty_source_guard safety \<Longrightarrow> S \<noteq> {} \<Longrightarrow>
   check_vanished_deletion {} S safety force =
     \<lparr>gd_allowed = False, gd_reason = Some (EmptyTree (card S))\<rparr>"
  by (simp add: check_vanished_deletion_def)

lemma guard_refusal_reason: "\<not> gd_allowed (check_vanished_deletion seen S safety force) \<Longrightarrow>
   gd_reason (check_vanished_deletion seen S safety force) \<noteq> None"
  by (auto simp: check_vanished_deletion_def Let_def split: if_splits)

text \<open>C31: The guard bounds the loss: an unforced run that is allowed to delete loses at most
  the fraction \<open>max_delete_ratio\<close> of the tracked documents, up to the rounding of one float
  division (one part in \<open>2 ^ 53\<close>), and with the empty-source guard on nothing is allowed,
  forced or not, when the scan saw nothing and something would vanish.\<close>

theorem guard_bounds_loss:
  assumes "finite S" and "gd_allowed (check_vanished_deletion seen S safety force)"
    and "S - seen \<noteq> {}"
  shows "(force \<or> of_nat (card (S - seen)) * (1 - 1 / 2 ^ 53) \<le>
      saf_max_delete_ratio safety * of_nat (card S)) \<and>
    (saf_empty_source_guard safety \<longrightarrow> seen \<noteq> {})"
proof (intro conjI)
  let ?a = "card (S - seen)" and ?b = "card S"
  have b: "0 < ?b" using assms(1,3) by (auto simp: card_gt_0_iff)
  then have m: "max 1 ?b = ?b" by simp
  show "saf_empty_source_guard safety \<longrightarrow> seen \<noteq> {}"
    using assms(2,3) by (auto simp: check_vanished_deletion_def Let_def split: if_splits)
  show "force \<or> of_nat ?a * (1 - 1 / 2 ^ 53) \<le> saf_max_delete_ratio safety * of_nat ?b"
  proof (cases force)
    case False
    with assms(2,3) have "float_div ?a (max 1 ?b) \<le> saf_max_delete_ratio safety"
      unfolding check_vanished_deletion_def Let_def by (auto simp del: One_nat_def split: if_splits)
    then have f: "float_div ?a ?b \<le> saf_max_delete_ratio safety" unfolding m .
    have "of_nat ?a / of_nat ?b - of_nat ?a / of_nat ?b / 2 ^ 53 \<le> float_div ?a ?b"
      using float_div_error [OF b, of ?a] by (simp add: abs_le_iff)
    with f have "of_nat ?a / of_nat ?b * (1 - 1 / 2 ^ 53) \<le> saf_max_delete_ratio safety"
      by (simp add: right_diff_distrib)
    then have "of_nat ?a * (1 - 1 / 2 ^ 53) / of_nat ?b \<le> saf_max_delete_ratio safety" by simp
    then show ?thesis using b by (simp add: pos_divide_le_eq)
  qed simp
qed

theorem guard_bounds_loss_witness:
  "(of_nat (card ({''a'', ''b'', ''c'', ''d''} - {''a'', ''b'', ''c''})) * (1 - 1 / 2 ^ 53) :: rat)
     \<le> 1 / 4 * of_nat (card {''a'', ''b'', ''c'', ''d''})"
proof -
  let ?S = "{''a'', ''b'', ''c'', ''d''}" and ?seen = "{''a'', ''b'', ''c''}"
  let ?saf = "\<lparr>saf_max_delete_ratio = 1 / 4, saf_empty_source_guard = True\<rparr>"
  have e: "?S - ?seen = {''d''}" by auto
  have n: "card ?S = 4" "card {''d''} = 1" by simp_all
  have f: "float_div 1 4 = 1 / 4"
    by (simp add: float_div_def norm_shift.simps round_half_even_def)
  have a: "gd_allowed (check_vanished_deletion ?seen ?S ?saf False)"
    unfolding check_vanished_deletion_def Let_def e n by (simp add: f del: One_nat_def)
  have ne: "?S - ?seen \<noteq> {}" by (simp add: e)
  from guard_bounds_loss [OF _ a ne] show ?thesis by simp
qed

end
