(* ===== verification/Runner.thy ===== *)
theory Runner
  imports StateDb Store Router Sources Guards
begin

text \<open>
  One ingestion run, \<open>src/src/engine/runner.py\<close> with the progress flusher of
  \<open>src/src/engine/progress.py\<close>. The state of a run is the external world, the state
  database, the in-memory run row the method bodies mutate, and the flusher's last write
  time; every method is one definition, each of its calls a step over that state. What the
  runner is constructed with (writer factory, Tika, embedder, sync, clock) and the parts of
  the standard library that reach outside (file system, clock, uuids, SHA-256) are the
  record \<open>run_env\<close>.
\<close>

section \<open>The environment and the state of a run\<close>

record 'w embedder =
  eb_probe_dimension :: "('w, nat) eff"
  eb_embed_all :: "string list \<Rightarrow> int \<Rightarrow> ('w, rat list list) eff"

record sync_result =
  sy_ok :: bool
  sy_returncode :: int
  sy_stderr_tail :: string
  sy_duration_seconds :: rat
  sy_skipped :: bool

text \<open>\<open>re_begin\<close> is the \<open>BEGIN IMMEDIATE\<close> of a database write, which raises when the lock is
  not available.\<close>

record 'w run_env =
  re_settings :: settings
  re_writer_factory :: "string \<Rightarrow> ('w, 'w qwriter) eff"
  re_extract :: "'w extract_env"
  re_embedder_factory :: "string \<Rightarrow> ('w, 'w embedder) eff"
  re_sync :: "job \<Rightarrow> settings \<Rightarrow> ('w, sync_result) eff"
  re_interval :: rat
  re_clock :: "('w, rat) eff"
  re_now :: "('w, string) eff"
  re_uuid4 :: "('w, string) eff"
  re_begin :: "('w, unit) eff"
  re_fs :: "'w fs"
  re_read_bytes :: "string \<Rightarrow> ('w, string) eff"
  re_mtime_iso :: "int \<Rightarrow> exc + string"
  re_sha256 :: "string \<Rightarrow> string"

record 'w run_state =
  rs_world :: 'w
  rs_db :: db
  rs_run :: run_row
  rs_last_flush :: rat

type_synonym ('w, 'a) run_eff = "('w run_state, 'a) eff"

definition in_world :: "('w, 'a) eff \<Rightarrow> ('w, 'a) run_eff" where
  "in_world m s = (case m (rs_world s) of (r, w) \<Rightarrow> (r, s\<lparr>rs_world := w\<rparr>))"

definition upd_run :: "(run_row \<Rightarrow> run_row) \<Rightarrow> ('w, unit) run_eff" where
  "upd_run f = modify (\<lambda>s. s\<lparr>rs_run := f (rs_run s)\<rparr>)"

text \<open>A read of the database, and a write transaction.\<close>

definition db_read :: "(db \<Rightarrow> 'a) \<Rightarrow> ('w, 'a) run_eff" where
  "db_read f = gets (\<lambda>s. f (rs_db s))"

definition db_write :: "'w run_env \<Rightarrow> (db \<Rightarrow> db) \<Rightarrow> ('w, unit) run_eff" where
  "db_write env f = seqE (in_world (re_begin env)) (modify (\<lambda>s. s\<lparr>rs_db := f (rs_db s)\<rparr>))"

definition emit_event :: "'w run_env \<Rightarrow> level \<Rightarrow> string \<Rightarrow> string option \<Rightarrow> ('w, unit) run_eff" where
  "emit_event env lvl message src =
     bindE (gets rs_run) (\<lambda>run.
       bindE (in_world (re_now env)) (\<lambda>now.
         db_write env (add_event now (run_id run) lvl message src)))"

section \<open>Progress\<close>

definition flush :: "'w run_env \<Rightarrow> ('w, unit) run_eff" where
  "flush env =
     bindE (in_world (re_clock env)) (\<lambda>t.
       seqE (modify (\<lambda>s. s\<lparr>rs_last_flush := t\<rparr>))
         (catchE (bindE (gets rs_run) (\<lambda>run. db_write env (update_run run))) (\<lambda>e. ret ())))"

definition progress_phase :: "'w run_env \<Rightarrow> run_phase \<Rightarrow> ('w, unit) run_eff" where
  "progress_phase env ph = seqE (upd_run (\<lambda>r. r\<lparr>run_phase := Some ph\<rparr>)) (flush env)"

definition tick :: "'w run_env \<Rightarrow> string \<Rightarrow> ('w, unit) run_eff" where
  "tick env current =
     seqE (upd_run (\<lambda>r. r\<lparr>run_current := Some current\<rparr>))
       (bindE (in_world (re_clock env)) (\<lambda>t.
         bindE (gets rs_last_flush) (\<lambda>last.
           whenE (t - last \<ge> re_interval env) (flush env))))"

section \<open>Rows and documents\<close>

definition save_row ::
  "'w run_env \<Rightarrow> job \<Rightarrow> scanned_file \<Rightarrow> string \<Rightarrow> doc_status \<Rightarrow> string \<Rightarrow> string \<Rightarrow> string option \<Rightarrow>
   string option \<Rightarrow> int \<Rightarrow> string option \<Rightarrow> string option \<Rightarrow> ('w, unit) run_eff" where
  "save_row env j file src status params_sha content_sha text_sha media_type chunk_count last_error rel_path =
     bindE (gets rs_run) (\<lambda>run.
       bindE (in_world (re_now env)) (\<lambda>now.
         db_write env (upsert_document
           \<lparr>doc_job = job_id j, doc_collection = job_collection j, doc_source = src,
             doc_rel_path = (case or_else rel_path None of None \<Rightarrow> sf_rel_path file | Some r \<Rightarrow> r),
             doc_size = sf_size file, doc_mtime_ns = sf_mtime_ns file, doc_content_sha = content_sha,
             doc_params_sha = params_sha, doc_status = status, doc_last_run = run_id run,
             doc_indexed_at = now, doc_text_sha = text_sha, doc_media_type = media_type,
             doc_chunk_count = chunk_count, doc_last_error = last_error\<rparr>)))"

definition embedded_sources_in_state :: "db \<Rightarrow> job \<Rightarrow> string \<Rightarrow> string set" where
  "embedded_sources_in_state db j parent_source =
     {s \<in> list_sources db (job_id j). starts_with (parent_source @ ''!'') s}"

text \<open>\<open>payload.update(extra)\<close>.\<close>

definition dict_update :: "payload \<Rightarrow> payload \<Rightarrow> payload" where
  "dict_update p q = fold (\<lambda>(k, v). AList.update k v) q p"

definition opt_str :: "string option \<Rightarrow> jval" where
  "opt_str x = (case x of None \<Rightarrow> JNull | Some s \<Rightarrow> JStr s)"

definition point_payload ::
  "job \<Rightarrow> string \<Rightarrow> scanned_file \<Rightarrow> string \<Rightarrow> string \<Rightarrow> processed_file \<Rightarrow> string \<Rightarrow> string \<Rightarrow> string \<Rightarrow> string \<Rightarrow>
   nat \<Rightarrow> nat \<Rightarrow> string \<Rightarrow> payload" where
  "point_payload j rid file src rel_path p content_sha model file_mtime_iso ingested_at n_chunks idx chunk =
     (let file_name = after_last CHR ''/'' rel_path;
          base = [(''text'', JStr chunk), (''source'', JStr src), (''ingest_job'', JStr (job_id j)),
            (''ingest_run'', JStr rid), (''collection'', JStr (job_collection j)),
            (''title'', JStr (pf_title p)), (''file_name'', JStr file_name), (''rel_path'', JStr rel_path),
            (''source_label'', JStr (job_label j)), (''chunk_index'', JInt (int idx)),
            (''total_chunks'', JInt (int n_chunks)),
            (''file_type'', JStr (py_lower (lstrip_char CHR ''.'' (path_suffix file_name)))),
            (''media_type'', opt_str (pf_media_type p)), (''file_mtime'', JStr file_mtime_iso),
            (''file_size'', JInt (sf_size file)), (''content_sha256'', JStr content_sha),
            (''ingested_at'', JStr ingested_at), (''embedding_model'', JStr model)]
      in dict_update
           (base @ (if tgt_acl_tags (job_target j) = [] then []
                    else [(''acl_tags'', JList (map JStr (tgt_acl_tags (job_target j))))]))
           (tgt_extra_payload (job_target j)))"

text \<open>\<open>math.ceil(n / max(1, batch_size))\<close>.\<close>

definition batches :: "nat \<Rightarrow> int \<Rightarrow> int" where
  "batches n batch_size = \<lceil>(of_nat n :: rat) / of_int (max 1 batch_size)\<rceil>"

definition batch_size_of :: "'w run_env \<Rightarrow> job \<Rightarrow> int" where
  "batch_size_of env j =
     (case emb_batch_size (job_embedding j) of
        Some n \<Rightarrow> if n = 0 then set_embed_batch_size (re_settings env) else n
      | None \<Rightarrow> set_embed_batch_size (re_settings env))"

definition index_document ::
  "'w run_env \<Rightarrow> 'w qwriter \<Rightarrow> job \<Rightarrow> scanned_file \<Rightarrow> string \<Rightarrow> string \<Rightarrow> string list \<Rightarrow> processed_file \<Rightarrow>
   string \<Rightarrow> string \<Rightarrow> string \<Rightarrow> string \<Rightarrow> ('w, bool) run_eff" where
  "index_document env wr j file src rel_path chunks p params_sha content_sha text_sha model =
     bindE (in_world (re_embedder_factory env model)) (\<lambda>embedder.
     bindE (in_world (eb_embed_all embedder chunks (batch_size_of env j))) (\<lambda>vectors.
     seqE (upd_run (\<lambda>r. r\<lparr>run_embed_calls := run_embed_calls r + batches (length chunks) (batch_size_of env j)\<rparr>))
     (if length vectors \<noteq> length chunks
      then seqE (upd_run (\<lambda>r. r\<lparr>run_docs_failed := run_docs_failed r + 1\<rparr>))
        (seqE (save_row env j file src FailedEmbed params_sha content_sha (Some text_sha) (pf_media_type p) 0
           (Some (str_of_nat (length chunks) @ '' chunks but '' @ str_of_nat (length vectors) @ '' vectors'')) None)
         (ret False))
      else
        seqE (in_world (delete_by_source wr (job_collection j) (job_id j) src))
        (bindE (of_sum (re_mtime_iso env (sf_mtime_ns file))) (\<lambda>file_mtime_iso.
        bindE (in_world (re_now env)) (\<lambda>ingested_at.
        bindE (gets rs_run) (\<lambda>run.
          let points = map (\<lambda>(idx, chunk, vector).
                \<lparr>pt_id = point_id (qw_uuid5 wr) (job_id j) src idx, pt_vector = vector,
                  pt_payload = point_payload j (run_id run) file src rel_path p content_sha model
                    file_mtime_iso ingested_at (length chunks) idx chunk\<rparr>)
                (zip [0..<length chunks] (zip chunks vectors))
          in seqE (in_world (upsert_points wr (job_collection j) points))
            (seqE (upd_run (\<lambda>r. r\<lparr>run_docs_indexed := run_docs_indexed r + 1,
                run_chunks_upserted := run_chunks_upserted r + int (length points)\<rparr>))
            (seqE (save_row env j file src Indexed params_sha content_sha (Some text_sha) (pf_media_type p)
                (int (length points)) None (Some rel_path))
              (ret True))))))))))"

text \<open>\<open>_index_embedded\<close>: the loop over the attachments with the sets \<open>produced\<close> and
  \<open>current\<close>, then the attachments that are gone from the container.\<close>

primrec index_attachments ::
  "'w run_env \<Rightarrow> 'w qwriter \<Rightarrow> job \<Rightarrow> scanned_file \<Rightarrow> string \<Rightarrow> string \<Rightarrow> string \<Rightarrow> string \<Rightarrow>
   embedded_document list \<Rightarrow> string set \<Rightarrow> ('w, string set) run_eff" where
  "index_attachments env wr j file parent_source params_sha content_sha model [] produced = ret produced"
| "index_attachments env wr j file parent_source params_sha content_sha model (em # ems) produced =
     (let embedded_source = parent_source @ ''!'' @ emd_name em;
          chunks = chunk_paragraphs (emd_text em) (chk_words (job_chunking j)) (chk_overlap (job_chunking j))
      in if chunks = []
         then index_attachments env wr j file parent_source params_sha content_sha model ems produced
         else bindE (index_document env wr j file embedded_source (sf_rel_path file @ ''!'' @ emd_name em) chunks
             \<lparr>pf_status = POk, pf_chunks = chunks, pf_text = emd_text em, pf_media_type = emd_media_type em,
               pf_title = emd_name em, pf_format_class = FUnknown, pf_embedded = []\<rparr>
             params_sha content_sha (sha256_text (re_sha256 env) (emd_text em)) model) (\<lambda>ok.
           index_attachments env wr j file parent_source params_sha content_sha model ems
             (if ok then insert embedded_source produced else produced)))"

definition delete_source :: "'w run_env \<Rightarrow> 'w qwriter \<Rightarrow> job \<Rightarrow> string \<Rightarrow> ('w, unit) run_eff" where
  "delete_source env wr j src =
     seqE (in_world (delete_by_source wr (job_collection j) (job_id j) src))
       (seqE (db_write env (delete_document (job_id j) src))
         (upd_run (\<lambda>r. r\<lparr>run_docs_deleted := run_docs_deleted r + 1\<rparr>)))"

definition index_embedded ::
  "'w run_env \<Rightarrow> 'w qwriter \<Rightarrow> job \<Rightarrow> scanned_file \<Rightarrow> string \<Rightarrow> processed_file \<Rightarrow> string \<Rightarrow> string \<Rightarrow> string \<Rightarrow>
   ('w, string set) run_eff" where
  "index_embedded env wr j file parent_source p params_sha content_sha model =
     bindE (index_attachments env wr j file parent_source params_sha content_sha model (pf_embedded p) {}) (\<lambda>produced.
     bindE (db_read (\<lambda>db. embedded_sources_in_state db j parent_source)) (\<lambda>in_state.
       let current = set (map (\<lambda>em. parent_source @ ''!'' @ emd_name em) (pf_embedded p));
           stale = in_state - current
       in seqE (for_each (sorted_list_of_set stale) (delete_source env wr j)) (ret produced)))"

section \<open>One file\<close>

text \<open>A document that is accounted for without work: itself and its tracked attachments.\<close>

definition unchanged :: "job \<Rightarrow> string \<Rightarrow> ('w, string set) run_eff" where
  "unchanged j src =
     seqE (upd_run (\<lambda>r. r\<lparr>run_docs_unchanged := run_docs_unchanged r + 1\<rparr>))
       (db_read (\<lambda>db. insert src (embedded_sources_in_state db j src)))"

text \<open>The end of the per-file pipeline, from the extracted text on.\<close>

definition process_text ::
  "'w run_env \<Rightarrow> 'w qwriter \<Rightarrow> job \<Rightarrow> scanned_file \<Rightarrow> string \<Rightarrow> string \<Rightarrow> string \<Rightarrow> bool \<Rightarrow> document_row option \<Rightarrow>
   string \<Rightarrow> processed_file \<Rightarrow> ('w, string set) run_eff" where
  "process_text env wr j file src params_sha model dry_run state_row content_sha p =
     (let text_sha = sha256_text (re_sha256 env) (pf_text p) in
      if (case state_row of None \<Rightarrow> False
          | Some d \<Rightarrow> doc_params_sha d = params_sha \<and> doc_text_sha d = Some text_sha \<and> doc_status d = Indexed)
      then seqE (whenE (\<not> dry_run) (db_write env (upsert_document
             ((the state_row)\<lparr>doc_size := sf_size file, doc_mtime_ns := sf_mtime_ns file,
               doc_content_sha := content_sha\<rparr>))))
           (unchanged j src)
      else if dry_run
      then seqE (upd_run (\<lambda>r. r\<lparr>run_docs_indexed := run_docs_indexed r + 1\<rparr>))
           (seqE (emit_event env Info
               (''dry run: would index '' @ str_of_nat (length (pf_chunks p)) @ '' chunks'') (Some src))
             (ret {src}))
      else bindE (index_document env wr j file src (sf_rel_path file) (pf_chunks p) p params_sha content_sha
             text_sha model) (\<lambda>indexed.
           if indexed \<and> job_expand_embedded j \<and> pf_embedded p \<noteq> []
           then bindE (index_embedded env wr j file src p params_sha content_sha model) (\<lambda>produced.
                  ret (insert src produced))
           else ret {src}))"

text \<open>The extraction, with \<open>TikaError\<close> caught: its text, or the processed file.\<close>

definition extract_file :: "'w run_env \<Rightarrow> job \<Rightarrow> scanned_file \<Rightarrow> ('w, string + processed_file) run_eff" where
  "extract_file env j file =
     catchE
       (bindE (in_world (process_file (re_extract env) (sf_abs_path file) (sf_rel_path file)
          (job_chunking j) (re_settings env))) (\<lambda>p. ret (Inr p)))
       (\<lambda>e. case e of TikaError m t \<Rightarrow> ret (Inl m) | _ \<Rightarrow> raise e)"

definition process_outcome ::
  "'w run_env \<Rightarrow> 'w qwriter \<Rightarrow> job \<Rightarrow> scanned_file \<Rightarrow> string \<Rightarrow> string \<Rightarrow> string \<Rightarrow> bool \<Rightarrow> document_row option \<Rightarrow>
   string \<Rightarrow> string + processed_file \<Rightarrow> ('w, string set) run_eff" where
  "process_outcome env wr j file src params_sha model dry_run state_row content_sha outcome =
     (case outcome of
        Inl m \<Rightarrow>
          seqE (upd_run (\<lambda>r. r\<lparr>run_docs_failed := run_docs_failed r + 1\<rparr>))
          (seqE (whenE (\<not> dry_run)
             (save_row env j file src FailedExtract params_sha content_sha None None 0 (Some m) None))
          (seqE (emit_event env Error (''extraction failed: '' @ m) (Some src)) (ret {src})))
      | Inr p \<Rightarrow>
          (case pf_status p of
             PUnsupported \<Rightarrow>
               seqE (whenE (\<not> dry_run)
                 (save_row env j file src SkippedUnsupported params_sha content_sha None (pf_media_type p) 0
                   None None)) (ret {src})
           | PNoText \<Rightarrow>
               seqE (whenE (case state_row of None \<Rightarrow> True | Some d \<Rightarrow> doc_status d \<noteq> SkippedNoText)
                 (emit_event env Info ''no extractable text (scanned or empty document)'' (Some src)))
               (seqE (whenE (\<not> dry_run)
                 (save_row env j file src SkippedNoText params_sha content_sha None (pf_media_type p) 0
                   None None)) (ret {src}))
           | POk \<Rightarrow> process_text env wr j file src params_sha model dry_run state_row content_sha p))"

text \<open>Stages 2 to 4.\<close>

definition process_changed ::
  "'w run_env \<Rightarrow> 'w qwriter \<Rightarrow> job \<Rightarrow> scanned_file \<Rightarrow> string \<Rightarrow> string \<Rightarrow> string \<Rightarrow> bool \<Rightarrow> document_row option \<Rightarrow>
   ('w, string set) run_eff" where
  "process_changed env wr j file src params_sha model dry_run state_row =
     bindE (in_world (re_read_bytes env (sf_abs_path file))) (\<lambda>bytes.
     seqE (upd_run (\<lambda>r. r\<lparr>run_bytes_read := run_bytes_read r + sf_size file\<rparr>))
     (let content_sha = re_sha256 env bytes in
      if (case state_row of None \<Rightarrow> False
          | Some d \<Rightarrow> doc_params_sha d = params_sha \<and> doc_content_sha d = content_sha)
      then seqE (whenE (\<not> dry_run) (db_write env (upsert_document
             ((the state_row)\<lparr>doc_size := sf_size file, doc_mtime_ns := sf_mtime_ns file\<rparr>))))
           (unchanged j src)
      else bindE (extract_file env j file)
        (process_outcome env wr j file src params_sha model dry_run state_row content_sha)))"

definition same_stat :: "document_row option \<Rightarrow> string \<Rightarrow> scanned_file \<Rightarrow> bool" where
  "same_stat state_row params_sha file \<longleftrightarrow>
     (case state_row of None \<Rightarrow> False
      | Some d \<Rightarrow> doc_params_sha d = params_sha \<and> doc_size d = sf_size file \<and> doc_mtime_ns d = sf_mtime_ns file)"

definition process_one ::
  "'w run_env \<Rightarrow> 'w qwriter \<Rightarrow> job \<Rightarrow> scanned_file \<Rightarrow> string \<Rightarrow> string \<Rightarrow> int \<Rightarrow> string \<Rightarrow> bool \<Rightarrow>
   ('w, string set) run_eff" where
  "process_one env wr j file src params_sha max_bytes model dry_run =
     bindE (db_read (\<lambda>db. get_document db (job_id j) src)) (\<lambda>state_row.
     if sf_size file > max_bytes
     then seqE (whenE (\<not> dry_run)
            (save_row env j file src SkippedTooLarge params_sha ''-'' None None 0 None None)) (ret {src})
     else if same_stat state_row params_sha file then unchanged j src
     else process_changed env wr j file src params_sha model dry_run state_row)"

section \<open>Append probes\<close>

definition count_append_drift :: "job \<Rightarrow> scanned_file \<Rightarrow> string \<Rightarrow> ('w, unit) run_eff" where
  "count_append_drift j file src =
     bindE (db_read (\<lambda>db. get_document db (job_id j) src)) (\<lambda>existing.
       if (case existing of None \<Rightarrow> False
           | Some d \<Rightarrow> doc_size d \<noteq> sf_size file \<or> doc_mtime_ns d \<noteq> sf_mtime_ns file)
       then upd_run (\<lambda>r. r\<lparr>run_docs_skipped_changed := run_docs_skipped_changed r + 1\<rparr>)
       else upd_run (\<lambda>r. r\<lparr>run_docs_unchanged := run_docs_unchanged r + 1\<rparr>))"

definition collection_has_job_points :: "'w qwriter \<Rightarrow> string \<Rightarrow> string \<Rightarrow> ('w, bool) run_eff" where
  "collection_has_job_points wr collection jid =
     bindE (in_world (collection_names wr)) (\<lambda>names.
       if collection \<notin> names then ret False
       else bindE (in_world (count_points wr collection (Some jid))) (\<lambda>n. ret (0 < n)))"

definition facet_sources_if_possible :: "'w qwriter \<Rightarrow> string \<Rightarrow> string \<Rightarrow> ('w, string set) run_eff" where
  "facet_sources_if_possible wr collection jid =
     bindE (in_world (collection_names wr)) (\<lambda>names.
       if collection \<notin> names then ret {} else in_world (facet_sources wr collection jid))"

definition append_known_sources :: "'w run_env \<Rightarrow> 'w qwriter \<Rightarrow> job \<Rightarrow> string \<Rightarrow> ('w, string set) run_eff" where
  "append_known_sources env wr j collection =
     bindE (db_read (\<lambda>db. list_sources db (job_id j))) (\<lambda>state_sources.
       case job_append_probe j of
         ProbeState \<Rightarrow> ret state_sources
       | ProbeQdrant \<Rightarrow> facet_sources_if_possible wr collection (job_id j)
       | ProbeAuto \<Rightarrow>
           bindE (if state_sources = {} then collection_has_job_points wr collection (job_id j) else ret False)
             (\<lambda>lost. if lost
                then seqE (emit_event env Warning
                    (''state is empty but the collection already holds points for this job; '' @
                     ''reconstructing the known-source set from the source facet'') None)
                  (facet_sources_if_possible wr collection (job_id j))
                else ret state_sources))"

section \<open>The deletion phase\<close>

definition vanished_sources :: "string set \<Rightarrow> string set \<Rightarrow> string set" where
  "vanished_sources state_sources seen =
     {s \<in> state_sources - seen. before_char CHR ''!'' s \<notin> seen}"

definition delete_vanished_sources ::
  "'w run_env \<Rightarrow> 'w qwriter \<Rightarrow> job \<Rightarrow> string set \<Rightarrow> bool \<Rightarrow> ('w, unit) run_eff" where
  "delete_vanished_sources env wr j seen force =
     bindE (db_read (\<lambda>db. list_sources db (job_id j))) (\<lambda>state_sources.
       let vanished = vanished_sources state_sources seen in
       if vanished = {} then ret ()
       else
         let decision = check_vanished_deletion seen state_sources (job_safety j) force in
         if \<not> gd_allowed decision
         then let reason = map_option guard_text (gd_reason decision) in
           seqE (upd_run (\<lambda>r. r\<lparr>run_status := AbortedGuard, run_error := reason\<rparr>))
             (emit_event env Error (case reason of None \<Rightarrow> ''guard'' | Some t \<Rightarrow> if t = [] then ''guard'' else t) None)
         else for_each (sorted_list_of_set vanished) (delete_source env wr j))"

section \<open>A run\<close>

record run_options =
  ro_force :: bool
  ro_dry_run :: bool
  ro_skip_sync :: bool
  ro_delete_vanished :: bool
  ro_siblings :: "string list"

text \<open>The scan loop; \<open>None\<close> is the early return of an aborted run.\<close>

primrec scan_loop ::
  "'w run_env \<Rightarrow> ('w, bool) eff \<Rightarrow> 'w qwriter \<Rightarrow> job \<Rightarrow> mode \<Rightarrow> string set \<Rightarrow> string \<Rightarrow> int \<Rightarrow> string \<Rightarrow> bool \<Rightarrow>
   scanned_file list \<Rightarrow> int \<Rightarrow> string set \<Rightarrow> ('w, string set option) run_eff" where
  "scan_loop env should_abort wr j md known params_sha max_bytes model dry_run [] idx seen = ret (Some seen)"
| "scan_loop env should_abort wr j md known params_sha max_bytes model dry_run (file # files) idx seen =
     seqE (upd_run (\<lambda>r. r\<lparr>run_files_done := idx\<rparr>))
     (bindE (in_world should_abort) (\<lambda>stop.
        if stop
        then seqE (upd_run (\<lambda>r. r\<lparr>run_status := Interrupted, run_error := Some ''interrupted by shutdown''\<rparr>))
          (seqE (emit_event env Warning ''interrupted by shutdown'' None) (ret None))
        else
          seqE (tick env (sf_rel_path file))
          (bindE (of_sum (source_uri j (sf_rel_path file))) (\<lambda>src.
            if md = Append \<and> src \<in> known
            then seqE (count_append_drift j file src)
              (scan_loop env should_abort wr j md known params_sha max_bytes model dry_run files (idx + 1)
                (insert src seen))
            else bindE (process_one env wr j file src params_sha max_bytes model dry_run) (\<lambda>more.
              scan_loop env should_abort wr j md known params_sha max_bytes model dry_run files (idx + 1)
                (insert src seen \<union> more))))))"

definition fail_run :: "'w run_env \<Rightarrow> string \<Rightarrow> string option \<Rightarrow> ('w, unit) run_eff" where
  "fail_run env message src =
     seqE (upd_run (\<lambda>r. r\<lparr>run_status := Failed, run_error := Some message\<rparr>)) (emit_event env Error message src)"

text \<open>Phase 1: the sync step; the result says whether the run goes on.\<close>

definition sync_phase :: "'w run_env \<Rightarrow> job \<Rightarrow> bool \<Rightarrow> ('w, bool) run_eff" where
  "sync_phase env j skip_sync =
     (if skip_sync \<or> is_local j
      then seqE (upd_run (\<lambda>r. r\<lparr>run_sync_status := Some ''skipped''\<rparr>)) (ret True)
      else bindE (in_world (re_sync env j (re_settings env))) (\<lambda>res.
        seqE (upd_run (\<lambda>r. r\<lparr>run_sync_status := Some (if sy_ok res then ''ok'' else ''failed'')\<rparr>))
        (seqE (whenE (sy_stderr_tail res \<noteq> []) (upd_run (\<lambda>r. r\<lparr>run_sync_stderr_tail := Some (sy_stderr_tail res)\<rparr>)))
        (if \<not> sy_ok res
         then seqE (fail_run env (''sync failed with exit code '' @ str_of_int (sy_returncode res)) (Some ''sync''))
           (ret False)
         else seqE (progress_phase env Scanning) (ret True)))))"

text \<open>Phase 2, what a run that writes prepares.\<close>

definition prepare_collection ::
  "'w run_env \<Rightarrow> 'w qwriter \<Rightarrow> job \<Rightarrow> mode \<Rightarrow> full_scope \<Rightarrow> string \<Rightarrow> nat \<Rightarrow> ('w, unit) run_eff" where
  "prepare_collection env wr j md scope model vector_dim =
     seqE (if md = Full \<and> scope = ScopeCollection
           then seqE (in_world (recreate_collection wr (job_collection j) vector_dim))
             (seqE (db_write env (\<lambda>db. snd (delete_documents_for_collection (job_collection j) db)))
               (in_world (upsert_meta wr (job_collection j) model vector_dim)))
           else whenE (md = Full) (db_write env (\<lambda>db. snd (delete_documents_for_job (job_id j) db))))
       (in_world (ensure_collection wr (job_collection j) vector_dim model))"

definition path_join :: "string \<Rightarrow> string \<Rightarrow> string" where
  "path_join a b = a @ ''/'' @ b"

definition scan_root :: "settings \<Rightarrow> job \<Rightarrow> string" where
  "scan_root st j =
     (case local_path (src_kind (job_source j)) of Some p \<Rightarrow> p
      | None \<Rightarrow> path_join (set_cache_dir st) (job_label j))"

definition max_bytes_of :: "settings \<Rightarrow> job \<Rightarrow> int" where
  "max_bytes_of st j =
     (case flt_max_file_bytes (job_filters j) of
        Some n \<Rightarrow> if n = 0 then set_max_file_bytes st else n | None \<Rightarrow> set_max_file_bytes st)"

text \<open>Phases 3 and 4.\<close>

definition cleanup_phase ::
  "'w run_env \<Rightarrow> 'w qwriter \<Rightarrow> job \<Rightarrow> mode \<Rightarrow> full_scope \<Rightarrow> run_options \<Rightarrow> string \<Rightarrow> nat \<Rightarrow> string set \<Rightarrow>
   ('w, unit) run_eff" where
  "cleanup_phase env wr j md scope opts model vector_dim seen =
     seqE (whenE (\<not> ro_dry_run opts \<and> (md = Full \<or> md = Upsert \<and> ro_delete_vanished opts))
        (progress_phase env CleaningUp))
     (seqE (whenE (md = Upsert \<and> \<not> ro_dry_run opts \<and> ro_delete_vanished opts)
        (delete_vanished_sources env wr j seen (ro_force opts)))
     (bindE (gets rs_run) (\<lambda>run.
        if md = Upsert \<and> \<not> ro_dry_run opts \<and> ro_delete_vanished opts \<and> run_status run \<noteq> Running then ret ()
        else
          seqE (whenE (md = Full \<and> \<not> ro_dry_run opts)
            (in_world (sweep_stale wr (job_collection j) (run_id run)
              (if scope = ScopeCollection then None else Some (job_id j)))))
          (whenE (\<not> ro_dry_run opts) (in_world (upsert_meta wr (job_collection j) model vector_dim))))))"

definition scan_phase ::
  "'w run_env \<Rightarrow> ('w, bool) eff \<Rightarrow> 'w qwriter \<Rightarrow> job \<Rightarrow> mode \<Rightarrow> full_scope \<Rightarrow> run_options \<Rightarrow> string \<Rightarrow> nat \<Rightarrow>
   ('w, unit) run_eff" where
  "scan_phase env should_abort wr j md scope opts model vector_dim =
     bindE (in_world (scan_tree (re_fs env) (scan_root (re_settings env) j) (job_filters j))) (\<lambda>files.
     seqE (upd_run (\<lambda>r. r\<lparr>run_files_seen := int (length files)\<rparr>))
     (seqE (progress_phase env Embedding)
     (bindE (of_sum (job_params_sha (re_sha256 env) j (re_settings env))) (\<lambda>params_sha.
      bindE (if md = Append then append_known_sources env wr j (job_collection j) else ret {}) (\<lambda>known.
      bindE (scan_loop env should_abort wr j md known params_sha (max_bytes_of (re_settings env) j) model
               (ro_dry_run opts) files 0 {}) (\<lambda>outcome.
        case outcome of
          None \<Rightarrow> ret ()
        | Some seen \<Rightarrow>
            seqE (upd_run (\<lambda>r. r\<lparr>run_files_done := int (length files)\<rparr>))
              (cleanup_phase env wr j md scope opts model vector_dim seen)))))))"

definition sibling_message :: "string list \<Rightarrow> string \<Rightarrow> string" where
  "sibling_message siblings collection =
     ''full_scope: collection would drop data of jobs '' @ py_join '', '' (sort siblings) @
     '' serving '' @ quoted collection @ ''; re-run with force to override''"

definition execute_with ::
  "'w run_env \<Rightarrow> ('w, bool) eff \<Rightarrow> 'w qwriter \<Rightarrow> job \<Rightarrow> mode \<Rightarrow> full_scope \<Rightarrow> run_options \<Rightarrow> ('w, unit) run_eff" where
  "execute_with env should_abort wr j md scope opts =
     bindE (in_world (re_clock env)) (\<lambda>t.
     seqE (modify (\<lambda>s. s\<lparr>rs_last_flush := t\<rparr>))
     (if md = Full \<and> scope = ScopeCollection \<and> ro_siblings opts \<noteq> [] \<and> \<not> ro_force opts
      then fail_run env (sibling_message (ro_siblings opts) (job_collection j)) None
      else bindE (sync_phase env j (ro_skip_sync opts)) (\<lambda>go_on.
        if \<not> go_on then ret ()
        else case emb_model (job_embedding j) of
          None \<Rightarrow> raise (PyError ''AssertionError'' [])
        | Some model \<Rightarrow>
            bindE (in_world (re_embedder_factory env model)) (\<lambda>embedder.
            bindE (in_world (eb_probe_dimension embedder)) (\<lambda>vector_dim.
            seqE (upd_run (\<lambda>r. r\<lparr>run_embed_calls := run_embed_calls r + 1\<rparr>))
            (seqE (whenE (\<not> ro_dry_run opts) (prepare_collection env wr j md scope model vector_dim))
              (scan_phase env should_abort wr j md scope opts model vector_dim)))))))"

definition execute ::
  "'w run_env \<Rightarrow> ('w, bool) eff \<Rightarrow> job \<Rightarrow> mode \<Rightarrow> full_scope \<Rightarrow> run_options \<Rightarrow> ('w, unit) run_eff" where
  "execute env should_abort j md scope opts =
     bindE (in_world (re_writer_factory env (tgt_connection (job_target j))))
       (\<lambda>wr. execute_with env should_abort wr j md scope opts)"

text \<open>\<open>run_job\<close>: the row is created first and updated last, whatever the body raised.\<close>

definition new_run :: "job \<Rightarrow> run_trigger \<Rightarrow> string \<Rightarrow> string \<Rightarrow> mode \<Rightarrow> full_scope \<Rightarrow> run_options \<Rightarrow> run_row" where
  "new_run j trigger rid now md scope opts =
     \<lparr>run_id = rid, run_job_id = job_id j, run_mode = md, run_trigger = trigger, run_started_at = now,
       run_status = Running, run_full_scope = (if md = Full then Some scope else None),
       run_finished_at = None, run_sync_status = None, run_sync_stderr_tail = None, run_files_seen = 0,
       run_docs_indexed = 0, run_docs_unchanged = 0, run_docs_skipped_changed = 0, run_docs_failed = 0,
       run_docs_deleted = 0, run_chunks_upserted = 0, run_bytes_read = 0, run_embed_calls = 0,
       run_error = None, run_dry_run = ro_dry_run opts, run_files_done = 0,
       run_phase = Some (if ro_skip_sync opts \<or> is_local j then Scanning else Syncing), run_current = None\<rparr>"

definition handle_crash :: "'w run_env \<Rightarrow> exc \<Rightarrow> ('w, unit) run_eff" where
  "handle_crash env e =
     (case e of
        EmbeddingUnavailableError m \<Rightarrow> fail_run env m (Some ''embed'')
      | _ \<Rightarrow> fail_run env (exc_name e @ '': '' @ exc_str e) None)"

definition finish_run :: "'w run_env \<Rightarrow> job \<Rightarrow> ('w, run_row) run_eff" where
  "finish_run env j =
     seqE (upd_run (\<lambda>r. if run_status r = Running then r\<lparr>run_status := Success\<rparr> else r))
     (bindE (in_world (re_now env)) (\<lambda>now.
      seqE (upd_run (\<lambda>r. r\<lparr>run_finished_at := Some now, run_phase := None, run_current := None\<rparr>))
      (bindE (gets rs_run) (\<lambda>run.
        seqE (db_write env (update_run run))
        (seqE (db_write env (\<lambda>db. snd (prune_runs (job_id j) (set_run_history_limit (re_settings env)) db)))
          (ret run))))))"

definition create_run_row :: "'w run_env \<Rightarrow> run_row \<Rightarrow> ('w, unit) run_eff" where
  "create_run_row env run =
     seqE (in_world (re_begin env))
       (\<lambda>s. case create_run run (rs_db s) of (r, db) \<Rightarrow> (r, s\<lparr>rs_db := db, rs_run := run\<rparr>))"

definition or_default :: "'a option \<Rightarrow> 'a \<Rightarrow> 'a" where
  "or_default x d = (case x of None \<Rightarrow> d | Some y \<Rightarrow> y)"

definition run_job ::
  "'w run_env \<Rightarrow> ('w, bool) eff \<Rightarrow> job \<Rightarrow> run_trigger \<Rightarrow> string option \<Rightarrow> mode option \<Rightarrow> full_scope option \<Rightarrow>
   run_options \<Rightarrow> ('w, run_row) run_eff" where
  "run_job env should_abort j trigger rid md scope opts =
     (let effective_mode = or_default md (job_mode j);
          effective_scope = or_default scope (job_full_scope j)
      in bindE (case or_else rid None of Some r \<Rightarrow> ret r | None \<Rightarrow> in_world (re_uuid4 env)) (\<lambda>r.
         bindE (in_world (re_now env)) (\<lambda>now.
         seqE (create_run_row env (new_run j trigger r now effective_mode effective_scope opts))
         (seqE (catchE (execute env should_abort j effective_mode effective_scope opts) (handle_crash env))
           (finish_run env j)))))"

end
