(* ===== verification/RunFrame.thy ===== *)
theory RunFrame
  imports Runner
begin

text \<open>
  The frame of a run: which part of the world and of the database a run can change. The
  locale \<open>run_frame\<close> takes a relation on worlds and one on databases that the environment
  and the row bookkeeping keep, and the sources whose documents the run may touch; its
  lemmas lift the two relations through every definition of the runner, whatever is
  returned or raised.
\<close>

text \<open>What identifies a run; only its counters, status and texts change while it works.\<close>

definition ident :: "run_row \<Rightarrow> string \<times> string \<times> mode \<times> run_trigger \<times> string \<times> full_scope option \<times> bool" where
  "ident r = (run_id r, run_job_id r, run_mode r, run_trigger r, run_started_at r, run_full_scope r, run_dry_run r)"

definition rel2 :: "('w \<Rightarrow> 'w \<Rightarrow> bool) \<Rightarrow> (db \<Rightarrow> db \<Rightarrow> bool) \<Rightarrow> 'w run_state \<Rightarrow> 'w run_state \<Rightarrow> bool" where
  "rel2 Q D s t \<longleftrightarrow> Q (rs_world s) (rs_world t) \<and> D (rs_db s) (rs_db t)"

definition rel3 :: "('w \<Rightarrow> 'w \<Rightarrow> bool) \<Rightarrow> (db \<Rightarrow> db \<Rightarrow> bool) \<Rightarrow> 'w run_state \<Rightarrow> 'w run_state \<Rightarrow> bool" where
  "rel3 Q D s t \<longleftrightarrow> rel2 Q D s t \<and> ident (rs_run t) = ident (rs_run s)"

lemmas rel_defs = rel2_def rel3_def

text \<open>What the runner is given and uses, apart from the writer, keeps \<open>Q\<close>.\<close>

definition env_keeps :: "('w \<Rightarrow> 'w \<Rightarrow> bool) \<Rightarrow> 'w run_env \<Rightarrow> ('w, bool) eff \<Rightarrow> bool" where
  "env_keeps Q env should_abort \<longleftrightarrow>
     (\<forall>c. steps Q (re_writer_factory env c)) \<and>
     (\<forall>p n. steps Q (ee_tika_extract (re_extract env) p n)) \<and>
     (\<forall>p. steps Q (ee_read_text (re_extract env) p)) \<and>
     (\<forall>m. steps Q (re_embedder_factory env m)) \<and>
     (\<forall>m w eb w'. re_embedder_factory env m w = (Inr eb, w') \<longrightarrow>
        steps Q (eb_probe_dimension eb) \<and> (\<forall>cs n. steps Q (eb_embed_all eb cs n))) \<and>
     (\<forall>j st. steps Q (re_sync env j st)) \<and> steps Q (re_clock env) \<and> steps Q (re_now env) \<and>
     steps Q (re_uuid4 env) \<and> steps Q (re_begin env) \<and>
     (\<forall>p. steps Q (fs_is_dir (re_fs env) p)) \<and> (\<forall>p. steps Q (fs_rglob (re_fs env) p)) \<and>
     (\<forall>p. steps Q (fs_is_file (re_fs env) p)) \<and> (\<forall>p. steps Q (fs_stat (re_fs env) p)) \<and>
     (\<forall>p. steps Q (re_read_bytes env p)) \<and> steps Q should_abort"

text \<open>A point of the job for a source the run may touch.\<close>

definition own_point :: "'w qwriter \<Rightarrow> job \<Rightarrow> (string \<Rightarrow> bool) \<Rightarrow> point \<Rightarrow> bool" where
  "own_point wr j ok_src p \<longleftrightarrow>
     (\<exists>src idx. ok_src src \<and> pt_id p = point_id (qw_uuid5 wr) (job_id j) src idx \<and>
        map_of (pt_payload p) ''ingest_job'' = Some (JStr (job_id j)) \<and>
        map_of (pt_payload p) ''source'' = Some (JStr src))"

definition covers :: "job \<Rightarrow> (string \<Rightarrow> bool) \<Rightarrow> string \<Rightarrow> bool" where
  "covers j ok_src src \<longleftrightarrow> no_reserved_keys (tgt_extra_payload (job_target j)) \<and> ok_src src \<and>
     (\<forall>s. starts_with (src @ ''!'') s \<longrightarrow> ok_src s)"

lemma starts_with_append [simp]: "starts_with p (p @ s)"
  by (simp add: starts_with_def)

lemma coversD: "covers j ok_src src \<Longrightarrow> ok_src src \<and> ok_src (src @ ''!'' @ n)"
  using starts_with_append [of "src @ ''!''" n] by (simp add: covers_def)

lemma dict_update_other: "k \<notin> set (map fst q) \<Longrightarrow> map_of (dict_update p q) k = map_of p k"
  unfolding dict_update_def
  by (induction q arbitrary: p) (auto simp: update_conv' split: prod.split)

lemma point_payload_keys:
  assumes "no_reserved_keys (tgt_extra_payload (job_target j))"
  shows "map_of (point_payload j rid file src rel p sha model mt ing n i chunk) ''ingest_job'' = Some (JStr (job_id j))"
    and "map_of (point_payload j rid file src rel p sha model mt ing n i chunk) ''source'' = Some (JStr src)"
    and "map_of (point_payload j rid file src rel p sha model mt ing n i chunk) ''ingest_run'' = Some (JStr rid)"
    and "map_of (point_payload j rid file src rel p sha model mt ing n i chunk) ''text'' = Some (JStr chunk)"
proof -
  have "k \<notin> set (map fst (tgt_extra_payload (job_target j)))" if "k \<in> set RESERVED_PAYLOAD_KEYS" for k
    using assms that by (auto simp: no_reserved_keys_def)
  then have *: "''ingest_job'' \<notin> set (map fst (tgt_extra_payload (job_target j)))"
    "''source'' \<notin> set (map fst (tgt_extra_payload (job_target j)))"
    "''ingest_run'' \<notin> set (map fst (tgt_extra_payload (job_target j)))"
    "''text'' \<notin> set (map fst (tgt_extra_payload (job_target j)))"
    by (simp_all add: RESERVED_PAYLOAD_KEYS_def)
  show "map_of (point_payload j rid file src rel p sha model mt ing n i chunk) ''ingest_job'' = Some (JStr (job_id j))"
    and "map_of (point_payload j rid file src rel p sha model mt ing n i chunk) ''source'' = Some (JStr src)"
    and "map_of (point_payload j rid file src rel p sha model mt ing n i chunk) ''ingest_run'' = Some (JStr rid)"
    and "map_of (point_payload j rid file src rel p sha model mt ing n i chunk) ''text'' = Some (JStr chunk)"
    by (simp_all add: point_payload_def Let_def dict_update_other * del: set_map)
qed

locale env_frame =
  fixes Q :: "'w \<Rightarrow> 'w \<Rightarrow> bool" and D :: "db \<Rightarrow> db \<Rightarrow> bool" and env :: "'w run_env"
    and should_abort :: "('w, bool) eff"
  assumes Q_refl: "Q w w" and Q_trans: "Q w w' \<Longrightarrow> Q w' w'' \<Longrightarrow> Q w w''"
    and D_refl: "D b b" and D_trans: "D b b' \<Longrightarrow> D b' b'' \<Longrightarrow> D b b''"
    and env_Q: "env_keeps Q env should_abort"
    and D_event: "D b (add_event now rid lvl m src b)"
    and D_update: "D b (update_run r b)"
    and D_create: "D b (snd (create_run r b))"
    and D_prune: "D b (snd (prune_runs jid keep b))"
begin

abbreviation R where "R \<equiv> rel3 Q D"

abbreviation R0 where "R0 \<equiv> rel2 Q D"

sublocale R: frame R
  by unfold_locales (auto simp: rel_defs Q_refl D_refl intro: Q_trans D_trans)

sublocale R0: frame R0
  by unfold_locales (auto simp: rel_defs Q_refl D_refl intro: Q_trans D_trans)

lemma st0: "steps R m \<Longrightarrow> steps R0 m"
  by (erule steps_mono) (simp add: rel3_def)

text \<open>The primitive steps.\<close>

lemma st_world: "steps Q m \<Longrightarrow> steps R (in_world m)"
  by (auto simp: steps_def in_world_def rel_defs D_refl split: prod.split) (metis snd_conv)

lemma st_upd_ident: "(\<And>r. ident (f r) = ident r) \<Longrightarrow> steps R (upd_run f)"
  unfolding upd_run_def by (rule R.steps_modify) (simp add: rel_defs Q_refl D_refl)

lemma st_upd:
  "steps R (upd_run (\<lambda>r. r\<lparr>run_phase := f1 r\<rparr>))" "steps R (upd_run (\<lambda>r. r\<lparr>run_current := f2 r\<rparr>))"
  "steps R (upd_run (\<lambda>r. r\<lparr>run_embed_calls := f3 r\<rparr>))" "steps R (upd_run (\<lambda>r. r\<lparr>run_docs_failed := f4 r\<rparr>))"
  "steps R (upd_run (\<lambda>r. r\<lparr>run_docs_indexed := f5 r, run_chunks_upserted := f6 r\<rparr>))"
  "steps R (upd_run (\<lambda>r. r\<lparr>run_docs_deleted := f7 r\<rparr>))" "steps R (upd_run (\<lambda>r. r\<lparr>run_docs_unchanged := f8 r\<rparr>))"
  "steps R (upd_run (\<lambda>r. r\<lparr>run_docs_indexed := f9 r\<rparr>))" "steps R (upd_run (\<lambda>r. r\<lparr>run_bytes_read := g1 r\<rparr>))"
  "steps R (upd_run (\<lambda>r. r\<lparr>run_docs_skipped_changed := g2 r\<rparr>))"
  "steps R (upd_run (\<lambda>r. r\<lparr>run_status := g3 r, run_error := g4 r\<rparr>))"
  "steps R (upd_run (\<lambda>r. r\<lparr>run_files_done := g5 r\<rparr>))" "steps R (upd_run (\<lambda>r. r\<lparr>run_files_seen := g6 r\<rparr>))"
  "steps R (upd_run (\<lambda>r. r\<lparr>run_sync_status := g7 r\<rparr>))" "steps R (upd_run (\<lambda>r. r\<lparr>run_sync_stderr_tail := g8 r\<rparr>))"
  "steps R (upd_run (\<lambda>r. r\<lparr>run_finished_at := g9 r, run_phase := h1 r, run_current := h2 r\<rparr>))"
  "steps R (upd_run (\<lambda>r. if run_status r = Running then r\<lparr>run_status := h3 r\<rparr> else r))"
  by (intro st_upd_ident; simp add: ident_def)+

lemma st_modify_flush: "steps R (modify (\<lambda>s. s\<lparr>rs_last_flush := f s\<rparr>))"
  by (rule R.steps_modify) (simp add: rel_defs Q_refl D_refl)

lemma st_db_read: "(\<And>b. steps R (k (f b))) \<Longrightarrow> steps R (bindE (db_read f) k)"
  by (simp add: steps_def bindE_def db_read_def gets_def)

lemma st_db_read_only: "steps R (db_read f)"
  by (simp add: db_read_def R.steps_gets)

lemma env_steps:
  "steps Q (re_writer_factory env c)" "steps Q (ee_tika_extract (re_extract env) p n)"
  "steps Q (ee_read_text (re_extract env) p)" "steps Q (re_embedder_factory env m)"
  "steps Q (re_sync env j' st)" "steps Q (re_clock env)" "steps Q (re_now env)" "steps Q (re_uuid4 env)"
  "steps Q (re_begin env)" "steps Q (fs_is_dir (re_fs env) p)" "steps Q (fs_rglob (re_fs env) p)"
  "steps Q (fs_is_file (re_fs env) p)" "steps Q (fs_stat (re_fs env) p)" "steps Q (re_read_bytes env p)"
  "steps Q should_abort"
  using env_Q by (simp_all add: env_keeps_def)

lemma env_embedder:
  "re_embedder_factory env m w = (Inr eb, w') \<Longrightarrow>
   steps Q (eb_probe_dimension eb) \<and> (\<forall>cs n. steps Q (eb_embed_all eb cs n))"
  using env_Q unfolding env_keeps_def by blast

lemma st_embedder:
  assumes "\<And>eb. steps Q (eb_probe_dimension eb) \<Longrightarrow> (\<And>cs n. steps Q (eb_embed_all eb cs n)) \<Longrightarrow> steps R (k eb)"
  shows "steps R (bindE (in_world (re_embedder_factory env m)) k)"
proof
  fix s
  have w: "steps R (in_world (re_embedder_factory env m))" by (intro st_world env_steps)
  show "R s (snd (bindE (in_world (re_embedder_factory env m)) k s))"
  proof (cases "re_embedder_factory env m (rs_world s)")
    case (Pair r w')
    show ?thesis
    proof (cases r)
      case (Inl e)
      with Pair stepsD [OF w, of s] show ?thesis by (simp add: bindE_def in_world_def)
    next
      case (Inr eb)
      with Pair have "steps R (k eb)" using env_embedder [of m "rs_world s" eb w'] by (intro assms) auto
      with Inr Pair stepsD [OF w, of s] show ?thesis
        by (auto simp: bindE_def in_world_def dest: stepsD intro: R.frame_trans)
    qed
  qed
qed

lemma st_db_write: "(\<And>b. D b (f b)) \<Longrightarrow> steps R (db_write env f)"
  unfolding db_write_def
  by (intro R.steps_seqE st_world env_steps R.steps_modify) (simp add: rel_defs Q_refl)

lemma st_event: "steps R (emit_event env lvl m src)"
  unfolding emit_event_def
  by (intro R.steps_bindE R.steps_gets st_world env_steps st_db_write D_event)

lemma st_flush: "steps R (flush env)"
  unfolding flush_def
  by (intro R.steps_bindE R.steps_seqE R.steps_catchE R.steps_gets R.steps_ret st_world env_steps
      st_modify_flush st_db_write D_update)

lemma st_phase: "steps R (progress_phase env ph)"
  unfolding progress_phase_def by (intro R.steps_seqE st_upd st_flush)

lemma st_tick: "steps R (tick env c)"
  unfolding tick_def
  by (intro R.steps_seqE R.steps_bindE R.steps_whenE R.steps_gets st_upd st_world env_steps st_flush)

sublocale Q: frame Q
  by unfold_locales (auto intro: Q_refl Q_trans)

lemma Q_read_data: "steps Q (read_data_file (re_extract env) path)"
  unfolding read_data_file_def
  by (intro Q.steps_bindE Q.steps_if Q.steps_sum Q.steps_ret Q.steps_raise Q.steps_of_sum env_steps)

lemma Q_process_file: "steps Q (process_file (re_extract env) path rel_path chunking st)"
  unfolding process_file_def Let_def
  by (intro Q.steps_bindE Q.steps_if Q.steps_ret Q.steps_of_sum env_steps Q_read_data)

lemma Q_scan_entries: "steps Q (scan_entries (re_fs env) flt entries)"
  by (induction entries) (auto intro!: Q.steps_bindE Q.steps_ret env_steps)

lemma Q_scan_tree: "steps Q (scan_tree (re_fs env) base flt)"
  unfolding scan_tree_def
  by (intro Q.steps_bindE Q.steps_if Q.steps_ret env_steps Q_scan_entries)

lemma st_unchanged: "steps R (unchanged j' src)"
  unfolding unchanged_def by (intro R.steps_seqE st_upd st_db_read_only)

lemma st_extract_file: "steps R (extract_file env j' file)"
  unfolding extract_file_def
  by (intro R.steps_catchE R.steps_bindE R.steps_ret st_world Q_process_file)
    (auto simp: R.steps_ret R.steps_raise split: exc.split)

lemma st_drift: "steps R (count_append_drift j' file src)"
  unfolding count_append_drift_def by (intro st_db_read R.steps_if st_upd)

lemma st_fail: "steps R (fail_run env m src)"
  unfolding fail_run_def by (intro R.steps_seqE st_upd st_event)

lemma st_sync_phase: "steps R (sync_phase env j' skip)"
  unfolding sync_phase_def
  by (intro R.steps_if R.steps_seqE R.steps_bindE R.steps_whenE R.steps_ret st_upd st_world env_steps st_fail st_phase)

text \<open>A whole run, from what one writer's part of it does.\<close>

lemma st_execute:
  assumes "\<And>c w wr w'. re_writer_factory env c w = (Inr wr, w') \<Longrightarrow>
      steps R (execute_with env should_abort wr j md scope opts)"
  shows "steps R (execute env should_abort j md scope opts)"
proof
  fix s :: "'w run_state"
  let ?f = "re_writer_factory env (tgt_connection (job_target j))"
  have w: "steps R (in_world ?f)" by (intro st_world env_steps)
  obtain r w' where f: "?f (rs_world s) = (r, w')" by fastforce
  show "R s (snd (execute env should_abort j md scope opts s))"
  proof (cases r)
    case (Inl e)
    with f stepsD [OF w, of s] show ?thesis by (simp add: execute_def bindE_def in_world_def)
  next
    case (Inr wr)
    with f have "steps R (execute_with env should_abort wr j md scope opts)" by (intro assms) simp
    with Inr f stepsD [OF w, of s] show ?thesis
      by (auto simp: execute_def bindE_def in_world_def dest: stepsD intro: R.frame_trans)
  qed
qed

lemma st_refused:
  assumes "ro_siblings opts \<noteq> []" and "\<not> ro_force opts"
  shows "steps R (execute_with env should_abort wr j Full ScopeCollection opts)"
  using assms unfolding execute_with_def
  by (simp add: R.steps_bindE R.steps_seqE st_modify_flush st_fail st_world env_steps)

lemma st_create_run: "steps R0 (create_run_row env r)"
proof -
  have "steps R0 (\<lambda>s. case create_run r (rs_db s) of (x, db) \<Rightarrow> (x, s\<lparr>rs_db := db, rs_run := r\<rparr>))"
    using D_create [of _ r] by (auto simp: steps_def rel2_def Q_refl split: prod.split) (metis snd_conv)
  then show ?thesis unfolding create_run_row_def by (intro R0.steps_seqE st0 [OF st_world] env_steps)
qed

lemma st_finish: "steps R (finish_run env j)"
  unfolding finish_run_def
  by (intro R.steps_seqE R.steps_bindE R.steps_gets R.steps_ret st_upd st_world env_steps st_db_write D_update D_prune)

lemma st_crash: "steps R (handle_crash env e)"
  unfolding handle_crash_def by (cases e) (auto intro: st_fail)

lemma st_run_job:
  assumes "\<And>m sc. m = or_default md (job_mode j) \<Longrightarrow> sc = or_default scope (job_full_scope j) \<Longrightarrow>
      steps R (execute env should_abort j m sc opts)"
  shows "steps R0 (run_job env should_abort j trigger rid md scope opts)"
proof -
  have "steps R0 (case or_else rid None of Some r \<Rightarrow> ret r | None \<Rightarrow> in_world (re_uuid4 env))"
    by (cases "or_else rid None") (auto intro: R0.steps_ret st0 st_world env_steps)
  then show ?thesis
    unfolding run_job_def Let_def
    by (intro R0.steps_bindE R0.steps_seqE R0.steps_catchE st0 [OF st_world] st0 [OF st_finish]
        st0 [OF st_crash] env_steps st_create_run st0 [OF assms] refl)
qed

end

text \<open>With a writer, and the sources whose documents the run may touch.\<close>

locale run_frame = env_frame Q D env should_abort
  for Q :: "'w \<Rightarrow> 'w \<Rightarrow> bool" and D :: "db \<Rightarrow> db \<Rightarrow> bool" and env :: "'w run_env"
    and should_abort :: "('w, bool) eff" +
  fixes wr :: "'w qwriter" and j :: job and ok_src :: "string \<Rightarrow> bool"
  assumes D_upsert: "doc_job d = job_id j \<Longrightarrow> ok_src (doc_source d) \<Longrightarrow> D b (upsert_document d b)"
    and D_delete: "ok_src s \<Longrightarrow> D b (delete_document (job_id j) s b)"
    and Q_delete: "ok_src s \<Longrightarrow> steps Q (delete_by_source wr (job_collection j) (job_id j) s)"
    and Q_upsert: "(\<And>p. p \<in> set ps \<Longrightarrow> own_point wr j ok_src p) \<Longrightarrow>
      steps Q (upsert_points wr (job_collection j) ps)"
    and Q_names: "steps Q (collection_names wr)"
    and Q_count: "steps Q (count_points wr (job_collection j) (Some (job_id j)))"
    and Q_facet: "steps Q (facet_sources wr (job_collection j) (job_id j))"
begin

lemma st_save_row:
  "ok_src src \<Longrightarrow> steps R (save_row env j file src st ps cs ts mt n le rp)"
  unfolding save_row_def
  by (intro R.steps_bindE R.steps_gets st_world env_steps st_db_write D_upsert) simp_all

lemmas st_rules = R.steps_ret R.steps_raise R.steps_gets R.steps_of_sum R.steps_bindE R.steps_seqE
  R.steps_whenE R.steps_if R.steps_for_each st_upd st_db_read_only st_event st_phase st_tick st_save_row
  st_world env_steps

lemma own_points:
  assumes "no_reserved_keys (tgt_extra_payload (job_target j))" and "ok_src src"
    and "p \<in> set (map (\<lambda>(idx, chunk, vector).
                \<lparr>pt_id = point_id (qw_uuid5 wr) (job_id j) src idx, pt_vector = vector,
                  pt_payload = point_payload j rid file src rel_path pf sha model mt ing n idx chunk\<rparr>) xs)"
  shows "own_point wr j ok_src p"
  using assms point_payload_keys [OF assms(1)] by (auto simp: own_point_def)

lemma st_index_document:
  assumes "no_reserved_keys (tgt_extra_payload (job_target j))" and "ok_src src"
  shows "steps R (index_document env wr j file src rel_path chunks p params_sha content_sha text_sha model)"
  unfolding index_document_def Let_def
  by (intro st_embedder st_rules Q_delete Q_upsert assms) (simp, rule own_points [OF assms])

lemma st_delete_source: "ok_src src \<Longrightarrow> steps R (delete_source env wr j src)"
  unfolding delete_source_def by (intro st_rules Q_delete st_db_write D_delete)

lemma st_attachments:
  assumes "covers j ok_src parent"
  shows "steps R (index_attachments env wr j file parent params_sha content_sha model ems produced)"
proof (induction ems arbitrary: produced)
  case (Cons em ems)
  then show ?case
    using assms coversD [OF assms, of "emd_name em"]
    by (auto simp: Let_def covers_def intro!: R.steps_ret R.steps_bindE st_index_document)
qed (simp add: R.steps_ret)

lemma finite_list_sources: "finite (list_sources b k)"
  by (simp add: list_sources_def)

lemma st_index_embedded:
  assumes "covers j ok_src parent"
  shows "steps R (index_embedded env wr j file parent p params_sha content_sha model)"
proof -
  have "ok_src s" if "s \<in> set (sorted_list_of_set (embedded_sources_in_state b j parent - C))" for s b C
  proof -
    have "finite (embedded_sources_in_state b j parent - C)"
      by (simp add: embedded_sources_in_state_def finite_list_sources)
    with that assms show ?thesis by (auto simp: embedded_sources_in_state_def covers_def)
  qed
  then show ?thesis
    unfolding index_embedded_def Let_def
    by (intro R.steps_bindE st_attachments [OF assms] st_db_read R.steps_seqE R.steps_for_each
        st_delete_source R.steps_ret) blast
qed

text \<open>One file: a dry run touches nothing, another run only what it covers.\<close>

lemma D_restat:
  assumes "dry \<or> covers j ok_src src" and "state_row = get_document b (job_id j) src"
    and "\<not> dry" and "state_row \<noteq> None"
  shows "D b' (upsert_document ((the state_row)\<lparr>doc_size := sz, doc_mtime_ns := mt, doc_content_sha := sha\<rparr>) b')"
    and "D b' (upsert_document ((the state_row)\<lparr>doc_size := sz, doc_mtime_ns := mt\<rparr>) b')"
  using assms get_document_key [of b "job_id j" src]
  by (intro D_upsert; auto simp: covers_def)+

lemma st_process_text:
  assumes c: "dry \<or> covers j ok_src src" and row: "state_row = get_document b (job_id j) src"
  shows "steps R (process_text env wr j file src params_sha model dry state_row content_sha p)"
proof -
  have n: "\<not> dry \<Longrightarrow> no_reserved_keys (tgt_extra_payload (job_target j))" "\<not> dry \<Longrightarrow> ok_src src"
    "\<not> dry \<Longrightarrow> covers j ok_src src" using c by (auto simp: covers_def)
  show ?thesis
    unfolding process_text_def Let_def
    by (intro R.steps_if R.steps_seqE R.steps_whenE R.steps_bindE R.steps_ret st_upd st_event st_unchanged
        st_db_write D_restat(1) [OF c row] st_index_document n st_index_embedded)
      (auto split: option.splits)
qed

lemma st_process_outcome:
  assumes c: "dry \<or> covers j ok_src src" and row: "state_row = get_document b (job_id j) src"
  shows "steps R (process_outcome env wr j file src params_sha model dry state_row content_sha outcome)"
proof -
  have o: "\<not> dry \<Longrightarrow> ok_src src" using c by (auto simp: covers_def)
  show ?thesis
    unfolding process_outcome_def
    by (cases outcome; simp; (cases "pf_status (projr outcome)"; simp)?)
      (intro st_rules st_process_text [OF c row] o | assumption)+
qed

lemma st_process_one:
  assumes c: "dry \<or> covers j ok_src src"
  shows "steps R (process_one env wr j file src params_sha max_bytes model dry)"
proof -
  have o: "\<not> dry \<Longrightarrow> ok_src src" using c by (auto simp: covers_def)
  have "steps R (process_changed env wr j file src params_sha model dry (get_document b (job_id j) src))" for b
    unfolding process_changed_def Let_def
    by (intro R.steps_bindE R.steps_if R.steps_seqE R.steps_whenE st_upd st_world env_steps st_db_write
        D_restat(2) [OF c refl] st_unchanged st_extract_file st_process_outcome [OF c refl])
      (auto split: option.splits)
  then show ?thesis
    unfolding process_one_def
    by (intro st_db_read R.steps_if R.steps_seqE R.steps_whenE R.steps_ret st_save_row st_unchanged o)
qed

text \<open>The scan loop and the probes before it.\<close>

definition file_ok :: "mode \<Rightarrow> string set \<Rightarrow> bool \<Rightarrow> scanned_file \<Rightarrow> bool" where
  "file_ok md known dry file \<longleftrightarrow> dry \<or>
     (\<forall>src. source_uri j (sf_rel_path file) = Inr src \<longrightarrow> md = Append \<and> src \<in> known \<or> covers j ok_src src)"

lemma st_scan_loop:
  assumes "\<And>f. f \<in> set files \<Longrightarrow> file_ok md known dry f"
  shows "steps R (scan_loop env should_abort wr j md known params_sha max_bytes model dry files idx seen)"
  using assms
proof (induction files arbitrary: idx seen)
  case (Cons f fs)
  have f: "file_ok md known dry f" using Cons.prems by simp
  have rest: "steps R (scan_loop env should_abort wr j md known params_sha max_bytes model dry fs i sn)" for i sn
    using Cons by simp
  have one: "steps R (bindE (of_sum (source_uri j (sf_rel_path f))) (\<lambda>src.
      if md = Append \<and> src \<in> known then seqE (count_append_drift j f src) (k1 src)
      else bindE (process_one env wr j f src params_sha max_bytes model dry) (k2 src)))"
    if "\<And>src. steps R (k1 src)" "\<And>src more. steps R (k2 src more)" for k1 k2
  proof (cases "source_uri j (sf_rel_path f)")
    case (Inl e)
    then show ?thesis by (simp add: steps_def bindE_def of_sum_def R.frame_refl)
  next
    case (Inr src)
    have "steps R (if md = Append \<and> src \<in> known then seqE (count_append_drift j f src) (k1 src)
        else bindE (process_one env wr j f src params_sha max_bytes model dry) (k2 src))"
      using that f Inr
      by (intro R.steps_if R.steps_seqE R.steps_bindE st_drift st_process_one) (auto simp: file_ok_def)
    with Inr show ?thesis by (simp add: steps_def bindE_def of_sum_def)
  qed
  show ?case
    unfolding scan_loop.simps
    by (intro R.steps_seqE R.steps_bindE R.steps_if st_upd st_world env_steps st_event st_tick R.steps_ret one rest)
qed (simp add: R.steps_ret)

lemma st_append_known: "steps R (append_known_sources env wr j (job_collection j))"
proof -
  have f: "steps R (facet_sources_if_possible wr (job_collection j) (job_id j))"
    unfolding facet_sources_if_possible_def
    by (intro R.steps_bindE R.steps_if R.steps_ret st_world Q_names Q_facet)
  have h: "steps R (collection_has_job_points wr (job_collection j) (job_id j))"
    unfolding collection_has_job_points_def
    by (intro R.steps_bindE R.steps_if R.steps_ret st_world Q_names Q_count)
  show ?thesis
    unfolding append_known_sources_def
    by (intro st_db_read; cases "job_append_probe j"; simp only: append_probe.case;
        intro R.steps_bindE R.steps_if R.steps_seqE R.steps_ret st_event f h)
qed

lemma st_delete_vanished:
  assumes "\<And>s. ok_src s"
  shows "steps R (delete_vanished_sources env wr j seen force)"
  unfolding delete_vanished_sources_def Let_def
  by (intro st_db_read R.steps_if R.steps_seqE R.steps_for_each R.steps_ret st_upd st_event st_delete_source assms)

lemma st_cleanup:
  assumes "\<And>rid. md = Full \<Longrightarrow> \<not> ro_dry_run opts \<Longrightarrow>
      steps Q (sweep_stale wr (job_collection j) rid (if scope = ScopeCollection then None else Some (job_id j)))"
    and "\<not> ro_dry_run opts \<Longrightarrow> steps Q (upsert_meta wr (job_collection j) model vd)"
    and "md = Upsert \<Longrightarrow> \<not> ro_dry_run opts \<Longrightarrow> ro_delete_vanished opts \<Longrightarrow> \<forall>s. ok_src s"
  shows "steps R (cleanup_phase env wr j md scope opts model vd seen)"
  unfolding cleanup_phase_def
  by (intro R.steps_seqE R.steps_bindE R.steps_whenE R.steps_if R.steps_gets R.steps_ret st_phase st_world
      st_delete_vanished assms) (use assms in auto)

lemma st_prepare:
  assumes "md = Full \<Longrightarrow> scope = ScopeCollection \<Longrightarrow>
      steps Q (recreate_collection wr (job_collection j) vd) \<and> steps Q (upsert_meta wr (job_collection j) model vd) \<and>
      (\<forall>b. D b (snd (delete_documents_for_collection (job_collection j) b)))"
    and "\<And>b. md = Full \<Longrightarrow> scope = ScopeJob \<Longrightarrow> D b (snd (delete_documents_for_job (job_id j) b))"
    and "steps Q (ensure_collection wr (job_collection j) vd model)"
  shows "steps R (prepare_collection env wr j md scope model vd)"
  unfolding prepare_collection_def
  by (intro R.steps_seqE R.steps_if R.steps_whenE st_world st_db_write assms)
    (use assms in \<open>auto, cases scope, auto\<close>)

lemma st_scan_phase:
  assumes "ro_dry_run opts \<or> (\<forall>src. covers j ok_src src)"
    and "\<And>seen. steps R (cleanup_phase env wr j md scope opts model vd seen)"
  shows "steps R (scan_phase env should_abort wr j md scope opts model vd)"
  unfolding scan_phase_def
  by (intro R.steps_bindE R.steps_seqE R.steps_if R.steps_option R.steps_of_sum R.steps_ret st_world st_upd
      st_phase Q_scan_tree st_append_known st_scan_loop assms)
    (use assms(1) in \<open>auto simp: file_ok_def\<close>)

lemma st_execute_with:
  assumes "\<And>model vd. \<not> ro_dry_run opts \<Longrightarrow> steps R (prepare_collection env wr j md scope model vd)"
    and "\<And>model vd. steps R (scan_phase env should_abort wr j md scope opts model vd)"
  shows "steps R (execute_with env should_abort wr j md scope opts)"
  unfolding execute_with_def
  by (intro R.steps_bindE R.steps_seqE R.steps_if R.steps_option R.steps_raise R.steps_ret R.steps_whenE
      st_world env_steps st_modify_flush st_fail st_sync_phase st_embedder st_upd assms)

end

end
