(* ===== verification/FakeQdrant.thy ===== *)
theory FakeQdrant
  imports Store
begin

text \<open>
  The in-memory client of \<open>src/tests/fakes/qdrant.py\<close>, a concrete instance of the client
  interface: the interpretation below shows that the assumed laws can be met, and the
  witnesses evaluate the writer and the runner on it.
\<close>

text \<open>Iteration over a dict: each key once, with its value.\<close>

definition dict_items :: "(string \<times> 'v) list \<Rightarrow> (string \<times> 'v) list" where
  "dict_items d = map (\<lambda>k. (k, the (map_of d k))) (remdups (map fst d))"

record fake_coll =
  fc_dim :: nat
  fc_points :: "(string \<times> (rat list \<times> payload)) list"
  fc_indexes :: "string set"

record fake_qdrant =
  fq_collections :: "(string \<times> fake_coll) list"
  fq_upsert_calls :: nat
  fq_raise_on_get_collections :: "exc option"

definition key_error :: "string \<Rightarrow> exc" where
  "key_error k = PyError ''KeyError'' k"

definition fq_get_collections :: "(fake_qdrant, string list) eff" where
  "fq_get_collections q =
     (case fq_raise_on_get_collections q of
        Some e \<Rightarrow> (Inl e, q\<lparr>fq_raise_on_get_collections := None\<rparr>)
      | None \<Rightarrow> (Inr (map fst (dict_items (fq_collections q))), q))"

definition fq_create_collection :: "string \<Rightarrow> nat \<Rightarrow> (fake_qdrant, unit) eff" where
  "fq_create_collection c d =
     modify (\<lambda>q. q\<lparr>fq_collections := AList.update c \<lparr>fc_dim = d, fc_points = [], fc_indexes = {}\<rparr> (fq_collections q)\<rparr>)"

definition fq_delete_collection :: "string \<Rightarrow> (fake_qdrant, unit) eff" where
  "fq_delete_collection c = modify (\<lambda>q. q\<lparr>fq_collections := AList.delete c (fq_collections q)\<rparr>)"

definition fq_get_collection :: "string \<Rightarrow> (fake_qdrant, coll_info) eff" where
  "fq_get_collection c q =
     (case map_of (fq_collections q) c of
        None \<Rightarrow> (Inl (key_error c), q)
      | Some r \<Rightarrow> (Inr \<lparr>ci_vectors_size = fc_dim r, ci_payload_fields = fc_indexes r\<rparr>, q))"

text \<open>\<open>self.collections[name]\<close>, updated in place.\<close>

definition fq_update :: "string \<Rightarrow> (fake_coll \<Rightarrow> fake_coll) \<Rightarrow> (fake_qdrant, unit) eff" where
  "fq_update c f q =
     (case map_of (fq_collections q) c of
        None \<Rightarrow> (Inl (key_error c), q)
      | Some r \<Rightarrow> (Inr (), q\<lparr>fq_collections := AList.update c (f r) (fq_collections q)\<rparr>))"

definition fq_create_payload_index :: "string \<Rightarrow> string \<Rightarrow> (fake_qdrant, unit) eff" where
  "fq_create_payload_index c fld = fq_update c (\<lambda>r. r\<lparr>fc_indexes := insert fld (fc_indexes r)\<rparr>)"

definition fq_upsert :: "string \<Rightarrow> point list \<Rightarrow> (fake_qdrant, unit) eff" where
  "fq_upsert c ps =
     seqE (modify (\<lambda>q. q\<lparr>fq_upsert_calls := fq_upsert_calls q + 1\<rparr>))
       (fq_update c (\<lambda>r. r\<lparr>fc_points :=
          fold (\<lambda>p. AList.update (pt_id p) (pt_vector p, pt_payload p)) ps (fc_points r)\<rparr>))"

definition fq_delete :: "string \<Rightarrow> qfilter \<Rightarrow> (fake_qdrant, unit) eff" where
  "fq_delete c f =
     fq_update c (\<lambda>r. r\<lparr>fc_points :=
       fold AList.delete (map fst (filter (\<lambda>(i, v, p). filter_matches (Some f) p) (dict_items (fc_points r))))
         (fc_points r)\<rparr>)"

definition fq_points :: "fake_qdrant \<Rightarrow> string \<Rightarrow> (string \<times> (rat list \<times> payload)) list" where
  "fq_points q c = (case map_of (fq_collections q) c of None \<Rightarrow> [] | Some r \<Rightarrow> fc_points r)"

definition fq_retrieve :: "string \<Rightarrow> string list \<Rightarrow> (fake_qdrant, point list) eff" where
  "fq_retrieve c ids = gets (\<lambda>q. concat (map (\<lambda>i. case map_of (fq_points q c) i of None \<Rightarrow> []
     | Some (v, p) \<Rightarrow> [\<lparr>pt_id = i, pt_vector = v, pt_payload = p\<rparr>]) ids))"

definition fq_count :: "string \<Rightarrow> qfilter option \<Rightarrow> (fake_qdrant, nat) eff" where
  "fq_count c f = gets (\<lambda>q. length (filter (\<lambda>(i, v, p). filter_matches f p) (dict_items (fq_points q c))))"

text \<open>The facet counts the values of a key among the matching points and keeps the \<open>limit\<close>
  most common ones.\<close>

definition fq_facet_values :: "string \<Rightarrow> qfilter option \<Rightarrow> (string \<times> (rat list \<times> payload)) list \<Rightarrow> string list" where
  "fq_facet_values key f pts =
     concat (map (\<lambda>(i, v, p). case map_of p key of
         Some (JList xs) \<Rightarrow> map jval_text xs
       | Some x \<Rightarrow> if x = JNull then [] else [jval_text x]
       | None \<Rightarrow> []) (filter (\<lambda>(i, v, p). filter_matches f p) (dict_items pts)))"

definition most_common :: "nat \<Rightarrow> string list \<Rightarrow> (string \<times> nat) list" where
  "most_common limit xs =
     take limit (rev (sort_key snd (rev (map (\<lambda>x. (x, count_list xs x)) (rev (remdups (rev xs)))))))"

definition fq_facet :: "string \<Rightarrow> string \<Rightarrow> qfilter option \<Rightarrow> nat \<Rightarrow> (fake_qdrant, (string \<times> nat) list) eff" where
  "fq_facet c key f limit = gets (\<lambda>q. most_common limit (fq_facet_values key f (fq_points q c)))"

definition fake_client :: "fake_qdrant qclient" where
  "fake_client = \<lparr>qc_get_collections = fq_get_collections, qc_create_collection = fq_create_collection,
     qc_delete_collection = fq_delete_collection, qc_get_collection = fq_get_collection,
     qc_create_payload_index = fq_create_payload_index, qc_upsert = fq_upsert, qc_delete = fq_delete,
     qc_retrieve = fq_retrieve, qc_count = fq_count, qc_facet = fq_facet\<rparr>"

definition fake_view :: "fake_qdrant \<Rightarrow> qview" where
  "fake_view q c = map_option (\<lambda>r. \<lparr>co_dim = fc_dim r, co_points = map_of (fc_points r), co_indexes = fc_indexes r\<rparr>)
     (map_of (fq_collections q) c)"

text \<open>A writer on the fake, with an injective stand-in for the id hash.\<close>

definition fake_uuid5 :: uuid5_fun where
  "fake_uuid5 ns name = ns @ ''/'' @ name"

definition fake_writer :: "fake_qdrant qwriter" where
  "fake_writer = \<lparr>qw_client = fake_client, qw_meta_collection = ''_collection_meta'', qw_uuid5 = fake_uuid5\<rparr>"

section \<open>The fake meets the interface\<close>

lemma dict_items_map: "map_of (dict_items d) = map_of d"
proof
  fix k
  have "map_of (map (\<lambda>k. (k, the (map_of d k))) ks) k = (if k \<in> set ks then Some (the (map_of d k)) else None)" for ks
    by (induction ks) auto
  then have e: "map_of (dict_items d) k = (if k \<in> set (remdups (map fst d)) then Some (the (map_of d k)) else None)"
    unfolding dict_items_def by simp
  show "map_of (dict_items d) k = map_of d k"
  proof (cases "map_of d k")
    case None
    then have "k \<notin> set (remdups (map fst d))" by (simp add: map_of_eq_None_iff)
    with e None show ?thesis by simp
  next
    case (Some v)
    then have "k \<in> set (remdups (map fst d))" by (auto simp: rev_image_eqI dest: map_of_SomeD)
    with e Some show ?thesis by simp
  qed
qed

lemma distinct_dict_items: "distinct (map fst (dict_items d))"
  by (simp add: dict_items_def comp_def)

lemma dict_items_iff: "(k, v) \<in> set (dict_items d) \<longleftrightarrow> map_of d k = Some v"
  by (metis dict_items_map distinct_dict_items map_of_eq_Some_iff)

lemma map_of_fold_update:
  "map_of (fold (\<lambda>p. AList.update (pt_id p) (pt_vector p, pt_payload p)) ps d) = upserted ps (map_of d)"
  by (induction ps arbitrary: d) (simp_all add: upserted_def put_point_def update_conv')

lemma map_of_fold_delete: "map_of (fold AList.delete ks d) k = (if k \<in> set ks then None else map_of d k)"
  by (induction ks arbitrary: d) (auto simp: delete_conv')

lemma fold_delete_matching:
  "map_of (fold AList.delete (map fst (filter (\<lambda>(i, v, p). filter_matches (Some f) p) (dict_items d))) d) =
   without_matching f (map_of d)"
proof
  fix i
  have "i \<in> set (map fst (filter (\<lambda>(i, v, p). filter_matches (Some f) p) (dict_items d))) \<longleftrightarrow>
      (\<exists>v p. (i, v, p) \<in> set (dict_items d) \<and> filter_matches (Some f) p)"
    by (auto simp: image_iff simp del: filter_matches.simps)
  also have "\<dots> \<longleftrightarrow> (\<exists>v p. map_of d i = Some (v, p) \<and> filter_matches (Some f) p)"
    by (simp only: dict_items_iff)
  finally have "i \<in> set (map fst (filter (\<lambda>(i, v, p). filter_matches (Some f) p) (dict_items d))) \<longleftrightarrow>
      (\<exists>v p. map_of d i = Some (v, p) \<and> filter_matches (Some f) p)" .
  then show "map_of (fold AList.delete (map fst (filter (\<lambda>(i, v, p). filter_matches (Some f) p) (dict_items d))) d) i =
      without_matching f (map_of d) i"
    by (auto simp: map_of_fold_delete without_matching_def simp del: filter_matches.simps split: option.split)
qed

lemma set_most_common: "fst ` set (most_common limit xs) \<subseteq> set xs"
proof -
  have "fst ` set (most_common limit xs) \<subseteq> fst ` set (map (\<lambda>x. (x, count_list xs x)) (rev (remdups (rev xs))))"
    unfolding most_common_def by (intro image_mono) (auto dest: in_set_takeD)
  then show ?thesis by (simp add: image_image)
qed

lemma most_common_all: "card (set xs) \<le> limit \<Longrightarrow> fst ` set (most_common limit xs) = set xs"
proof -
  assume "card (set xs) \<le> limit"
  moreover have "length (remdups (rev xs)) = card (set xs)" by (simp add: length_remdups_card_conv)
  ultimately show ?thesis by (simp add: most_common_def image_image)
qed

lemma set_fq_facet_values:
  assumes "facet_keyword key f (map_of pts)"
  shows "set (fq_facet_values key f pts) = facet_values key f (map_of pts)"
proof -
  have "x \<in> set (fq_facet_values key f pts) \<longleftrightarrow>
      (\<exists>i v p. map_of pts i = Some (v, p) \<and> filter_matches f p \<and> map_of p key = Some (JStr x))" for x
  proof
    assume "x \<in> set (fq_facet_values key f pts)"
    then obtain i v p where ip: "(i, v, p) \<in> set (dict_items pts)" "filter_matches f p"
      and x: "x \<in> set (case map_of p key of Some (JList xs) \<Rightarrow> map jval_text xs
          | Some x \<Rightarrow> if x = JNull then [] else [jval_text x] | None \<Rightarrow> [])"
      unfolding fq_facet_values_def by (auto simp del: filter_matches.simps)
    have i: "map_of pts i = Some (v, p)" using ip(1) by (simp add: dict_items_iff)
    with assms ip(2) have "\<And>y. map_of p key = Some y \<Longrightarrow> \<exists>s. y = JStr s"
      unfolding facet_keyword_def by blast
    with x have "map_of p key = Some (JStr x)"
      by (cases "map_of p key") (auto split: jval.splits)
    with i ip(2) show "\<exists>i v p. map_of pts i = Some (v, p) \<and> filter_matches f p \<and> map_of p key = Some (JStr x)"
      by blast
  next
    assume "\<exists>i v p. map_of pts i = Some (v, p) \<and> filter_matches f p \<and> map_of p key = Some (JStr x)"
    then obtain i v p where "(i, v, p) \<in> set (dict_items pts)" "filter_matches f p" "map_of p key = Some (JStr x)"
      by (auto simp: dict_items_iff simp del: filter_matches.simps)
    then show "x \<in> set (fq_facet_values key f pts)"
      unfolding fq_facet_values_def by (force simp del: filter_matches.simps)
  qed
  then show ?thesis by (auto simp: facet_values_def)
qed

lemma fake_view_update:
  assumes "map_of (fq_collections q) c = Some r"
  shows "fake_view (q\<lparr>fq_collections := AList.update c r' (fq_collections q)\<rparr>) =
    (fake_view q)(c \<mapsto> \<lparr>co_dim = fc_dim r', co_points = map_of (fc_points r'), co_indexes = fc_indexes r'\<rparr>)"
  by (auto simp: fake_view_def update_conv')

lemma fake_view_calls [simp]: "fake_view (q\<lparr>fq_upsert_calls := n\<rparr>) = fake_view q"
  by (simp add: fake_view_def fun_eq_iff)

lemma fake_view_Some: "fake_view q c = Some co \<Longrightarrow> \<exists>r. map_of (fq_collections q) c = Some r \<and>
   co = \<lparr>co_dim = fc_dim r, co_points = map_of (fc_points r), co_indexes = fc_indexes r\<rparr>"
  by (auto simp: fake_view_def)

lemma fake_view_None: "fake_view q c = None \<longleftrightarrow> map_of (fq_collections q) c = None"
  by (simp add: fake_view_def)

lemma card_dict_items:
  "length (filter (\<lambda>(i, v, p). filter_matches f p) (dict_items d)) =
   card {i. \<exists>v p. map_of d i = Some (v, p) \<and> filter_matches f p}"
proof -
  let ?xs = "filter (\<lambda>(i, v, p). filter_matches f p) (dict_items d)"
  have "distinct (map fst ?xs)" by (rule distinct_map_filter [OF distinct_dict_items])
  then have "length ?xs = card (set (map fst ?xs))" by (metis distinct_card length_map)
  also have "set (map fst ?xs) = {i. \<exists>v p. (i, v, p) \<in> set (dict_items d) \<and> filter_matches f p}"
    by (auto simp: image_iff simp del: filter_matches.simps) blast+
  finally show ?thesis by (simp only: dict_items_iff)
qed

lemmas fake_defs = fake_client_def fq_get_collections_def fq_create_collection_def
  fq_delete_collection_def fq_get_collection_def fq_create_payload_index_def fq_upsert_def
  fq_delete_def fq_retrieve_def fq_count_def fq_facet_def fq_update_def seqE_Inr bindE_def seqE_def

interpretation fake: qdrant fake_view fake_client
proof
  show "finite (dom (co_points co))" if "fake_view w c = Some co" for w c co
    using fake_view_Some [OF that] by (auto simp: finite_dom_map_of)
  show "fake_view w' = fake_view w" if "qc_get_collections fake_client w = (rn, w')" for w rn w'
    using that by (auto simp: fake_defs fake_view_def fun_eq_iff split: option.splits)
  show "set ns = dom (fake_view w)" if "qc_get_collections fake_client w = (Inr ns, w')" for w ns w'
    using that by (auto simp: fake_defs fake_view_def dict_items_def dom_def map_of_eq_None_iff
        dest: map_of_SomeD split: option.splits)
      (metis image_eqI fst_conv map_of_SomeD)
  show "fake_view w' = (fake_view w)(c \<mapsto> new_coll d) \<or> \<not> is_ok r \<and> fake_view w' = fake_view w"
    if "qc_create_collection fake_client c d w = (r, w')" for w c d r w'
    using that by (auto simp: fake_defs fake_view_def new_coll_def update_conv' fun_eq_iff)
  show "fake_view w' = (fake_view w)(c := None) \<or> \<not> is_ok r \<and> fake_view w' = fake_view w"
    if "qc_delete_collection fake_client c w = (r, w')" for w c r w'
    using that by (auto simp: fake_defs fake_view_def delete_conv' fun_eq_iff)
  show "fake_view w' = fake_view w" if "qc_get_collection fake_client c w = (ri, w')" for w c ri w'
    using that by (auto simp: fake_defs split: option.splits)
  show "\<exists>co. fake_view w c = Some co \<and> ci_vectors_size cinf = co_dim co \<and> ci_payload_fields cinf = co_indexes co"
    if "qc_get_collection fake_client c w = (Inr cinf, w')" for w c cinf w'
    using that by (auto simp: fake_defs fake_view_def split: option.splits)
  show "fake_view w' = fake_view w \<and> \<not> is_ok r"
    if "fake_view w c = None" "qc_create_payload_index fake_client c fld w = (r, w')" for w c fld r w'
    using that by (auto simp: fake_defs fake_view_None split: option.splits)
  show "fake_view w' = (fake_view w)(c \<mapsto> co\<lparr>co_indexes := insert fld (co_indexes co)\<rparr>) \<or>
      \<not> is_ok r \<and> fake_view w' = fake_view w"
    if "fake_view w c = Some co" "qc_create_payload_index fake_client c fld w = (r, w')" for w c co fld r w'
    using fake_view_Some [OF that(1)] that(2) by (auto simp: fake_defs fake_view_update)
  show "fake_view w' = fake_view w \<and> \<not> is_ok r"
    if "fake_view w c = None" "qc_upsert fake_client c ps w = (r, w')" for w c ps r w'
    using that by (auto simp: fake_defs modify_def fake_view_None split: option.splits)
  show "\<exists>m. fake_view w' = (fake_view w)(c \<mapsto> co\<lparr>co_points := m\<rparr>) \<and>
      between (co_points co) (upserted ps (co_points co)) m \<and> (is_ok r \<longrightarrow> m = upserted ps (co_points co))"
    if "fake_view w c = Some co" "qc_upsert fake_client c ps w = (r, w')" for w c co ps r w'
  proof -
    from fake_view_Some [OF that(1)] obtain q where q: "map_of (fq_collections w) c = Some q"
      "co = \<lparr>co_dim = fc_dim q, co_points = map_of (fc_points q), co_indexes = fc_indexes q\<rparr>" by blast
    let ?w = "w\<lparr>fq_upsert_calls := fq_upsert_calls w + 1\<rparr>"
    have "map_of (fq_collections ?w) c = Some q" using q(1) by simp
    from fake_view_update [OF this] that(2) q show ?thesis
      by (auto simp: fake_defs modify_def map_of_fold_update)
  qed
  show "fake_view w' = fake_view w \<and> \<not> is_ok r"
    if "fake_view w c = None" "qc_delete fake_client c f w = (r, w')" for w c f r w'
    using that by (auto simp: fake_defs fake_view_None split: option.splits)
  show "\<exists>m. fake_view w' = (fake_view w)(c \<mapsto> co\<lparr>co_points := m\<rparr>) \<and>
      between (co_points co) (without_matching f (co_points co)) m \<and>
      (is_ok r \<longrightarrow> m = without_matching f (co_points co))"
    if "fake_view w c = Some co" "qc_delete fake_client c f w = (r, w')" for w c co f r w'
    using fake_view_Some [OF that(1)] that(2)
    by (auto simp: fake_defs fake_view_update fold_delete_matching simp del: filter_matches.simps)
  show "fake_view w' = fake_view w" if "qc_retrieve fake_client c ids w = (rp, w')" for w c ids rp w'
    using that by (auto simp: fake_defs)
  show "map (\<lambda>p. (pt_vector p, pt_payload p)) found = (case co_points co i of None \<Rightarrow> [] | Some x \<Rightarrow> [x])"
    if "fake_view w c = Some co" "qc_retrieve fake_client c [i] w = (Inr found, w')" for w c co i found w'
    using fake_view_Some [OF that(1)] that(2)
    by (auto simp: fake_defs fq_points_def split: option.splits)
  show "fake_view w' = fake_view w" if "qc_count fake_client c fo w = (rc, w')" for w c fo rc w'
    using that by (auto simp: fake_defs)
  show "n = card {i. \<exists>v p. co_points co i = Some (v, p) \<and> filter_matches fo p}"
    if "fake_view w c = Some co" "qc_count fake_client c fo w = (Inr n, w')" for w c co fo n w'
    using fake_view_Some [OF that(1)] that(2)
    by (auto simp: fake_defs fq_points_def card_dict_items simp del: filter_matches.simps)
  show "fake_view w' = fake_view w" if "qc_facet fake_client c k fo l w = (rf, w')" for w c k fo l rf w'
    using that by (auto simp: fake_defs)
  show "fst ` set hits \<subseteq> facet_values k fo (co_points co) \<and>
      (card (facet_values k fo (co_points co)) \<le> l \<longrightarrow> fst ` set hits = facet_values k fo (co_points co))"
    if "fake_view w c = Some co" "facet_keyword k fo (co_points co)"
      "qc_facet fake_client c k fo l w = (Inr hits, w')" for w c co k fo l hits w'
  proof -
    from fake_view_Some [OF that(1)] obtain q where q: "map_of (fq_collections w) c = Some q"
      "co = \<lparr>co_dim = fc_dim q, co_points = map_of (fc_points q), co_indexes = fc_indexes q\<rparr>" by blast
    have h: "hits = most_common l (fq_facet_values k fo (fc_points q))"
      using that(3) q(1) by (simp add: fake_defs fq_points_def)
    have "set (fq_facet_values k fo (fc_points q)) = facet_values k fo (co_points co)"
      using set_fq_facet_values that(2) q(2) by simp
    then show ?thesis using set_most_common most_common_all h by metis
  qed
qed

end
