(* ===== verification/StoreScope.thy ===== *)
theory StoreScope
  imports FakeQdrant Router
begin

text \<open>
  What the writer can touch. Two relations on views: \<open>collections_kept\<close> (every other
  collection stays, and of the meta collection every other record), and \<open>jobs_kept\<close> (the
  points of every other job in the target collection stay). The lemmas show, from the laws
  of the client, which writer operation keeps which, whether it returns or raises.
\<close>

definition pts :: "qview \<Rightarrow> string \<Rightarrow> points" where
  "pts V c = (case V c of None \<Rightarrow> Map.empty | Some co \<Rightarrow> co_points co)"

definition foreign :: "string \<Rightarrow> payload \<Rightarrow> bool" where
  "foreign jid p \<longleftrightarrow> \<not> condition_matches p (job_filter jid)"

text \<open>No point of another job has an id of this job.\<close>

definition foreign_ids :: "string \<Rightarrow> uuid5_fun \<Rightarrow> points \<Rightarrow> bool" where
  "foreign_ids jid u m \<longleftrightarrow>
     (\<forall>i v p. m i = Some (v, p) \<longrightarrow> foreign jid p \<longrightarrow> (\<forall>s n. i \<noteq> point_id u jid s n))"

definition collections_kept :: "string \<Rightarrow> string \<Rightarrow> string \<Rightarrow> qview \<Rightarrow> qview \<Rightarrow> bool" where
  "collections_kept c meta mid V V' \<longleftrightarrow>
     (\<forall>k. k \<noteq> c \<longrightarrow> k \<noteq> meta \<longrightarrow> V' k = V k) \<and> (\<forall>i. i \<noteq> mid \<longrightarrow> pts V' meta i = pts V meta i)"

definition jobs_kept :: "string \<Rightarrow> uuid5_fun \<Rightarrow> string \<Rightarrow> qview \<Rightarrow> qview \<Rightarrow> bool" where
  "jobs_kept jid u c V V' \<longleftrightarrow>
     (foreign_ids jid u (pts V c) \<longrightarrow>
        foreign_ids jid u (pts V' c) \<and>
        (\<forall>i v p. pts V c i = Some (v, p) \<longrightarrow> foreign jid p \<longrightarrow> pts V' c i = Some (v, p)))"

lemma pts_upd [simp]: "pts (V(c \<mapsto> co)) k = (if k = c then co_points co else pts V k)"
  by (simp add: pts_def)

lemma pts_None [simp]: "V c = None \<Longrightarrow> pts V c = Map.empty"
  by (simp add: pts_def)

lemma pts_Some: "V c = Some co \<Longrightarrow> pts V c = co_points co"
  by (simp add: pts_def)

lemma collections_kept_refl: "collections_kept c meta mid V V"
  by (simp add: collections_kept_def)

lemma collections_kept_trans:
  "collections_kept c meta mid V V' \<Longrightarrow> collections_kept c meta mid V' V'' \<Longrightarrow> collections_kept c meta mid V V''"
  by (simp add: collections_kept_def)

lemma jobs_kept_refl: "jobs_kept jid u c V V"
  by (simp add: jobs_kept_def)

lemma jobs_kept_trans: "jobs_kept jid u c V V' \<Longrightarrow> jobs_kept jid u c V' V'' \<Longrightarrow> jobs_kept jid u c V V''"
  by (simp add: jobs_kept_def)

text \<open>A change to the points of \<open>c\<close> that keeps the foreign ones, and one that only adds own
  points under own ids.\<close>

lemma jobs_kept_shrink:
  assumes "V c = Some co" and "V' = V(c \<mapsto> co\<lparr>co_points := m\<rparr>)"
    and "\<And>i v p. co_points co i = Some (v, p) \<Longrightarrow> foreign jid p \<Longrightarrow> m i = Some (v, p)"
    and "\<And>i x. m i = Some x \<Longrightarrow> co_points co i = Some x"
  shows "jobs_kept jid u c V V'"
proof -
  have "foreign_ids jid u m" if "foreign_ids jid u (co_points co)"
    using that assms(4) unfolding foreign_ids_def by blast
  then show ?thesis using assms(1-3) by (simp add: jobs_kept_def pts_Some)
qed

lemma jobs_kept_grow:
  assumes "V c = Some co" and "V' = V(c \<mapsto> co\<lparr>co_points := m\<rparr>)"
    and "\<And>i. i \<notin> pt_id ` set ps \<Longrightarrow> m i = co_points co i"
    and "\<And>i. m i = co_points co i \<or> (\<exists>p \<in> set ps. pt_id p = i \<and> m i = Some (pt_vector p, pt_payload p))"
    and own: "\<And>p. p \<in> set ps \<Longrightarrow> \<not> foreign jid (pt_payload p) \<and> (\<exists>s n. pt_id p = point_id u jid s n)"
  shows "jobs_kept jid u c V V'"
proof -
  have "foreign_ids jid u m \<and> (\<forall>i v p. co_points co i = Some (v, p) \<longrightarrow> foreign jid p \<longrightarrow> m i = Some (v, p))"
    if f: "foreign_ids jid u (co_points co)"
  proof (intro conjI allI impI)
    show "foreign_ids jid u m"
      unfolding foreign_ids_def
    proof (intro allI impI)
      fix i v p s n
      assume m: "m i = Some (v, p)" and fp: "foreign jid p"
      from assms(4) [of i] m fp own have "co_points co i = Some (v, p)" by auto
      with f fp show "i \<noteq> point_id u jid s n" by (simp add: foreign_ids_def)
    qed
    show "m i = Some (v, p)" if p: "co_points co i = Some (v, p)" "foreign jid p" for i v p
    proof -
      have "i \<notin> pt_id ` set ps" using f p own by (fastforce simp: foreign_ids_def)
      with assms(3) p show ?thesis by simp
    qed
  qed
  then show ?thesis using assms(1,2) by (simp add: jobs_kept_def pts_Some)
qed

context qdrant
begin

abbreviation same_view where "same_view \<equiv> \<lambda>a b. view b = view a"

sublocale V: frame same_view
  by unfold_locales auto

lemma reads_view:
  assumes "qw_client wr = client"
  shows "steps same_view (collection_names wr)" "steps same_view (collection_dimension wr c)"
    "steps same_view (read_meta wr c)" "steps same_view (count_points wr c jid)"
    "steps same_view (facet_sources wr c k)" "steps same_view (payload_index_fields wr c)"
    "steps same_view (ping wr)"
proof -
  have 1: "steps same_view (qc_get_collections client)"
    by (rule stepsI) (metis get_collections_view prod.collapse)
  have 2: "steps same_view (qc_get_collection client c)"
    by (rule stepsI) (metis get_collection_view prod.collapse)
  have 3: "steps same_view (qc_retrieve client k ids)" for k ids
    by (rule stepsI) (metis retrieve_view prod.collapse)
  have 4: "steps same_view (qc_count client c f)" for f
    by (rule stepsI) (metis count_view prod.collapse)
  have 5: "steps same_view (qc_facet client c k f l)" for k f l
    by (rule stepsI) (metis facet_view prod.collapse)
  show "steps same_view (collection_names wr)" "steps same_view (collection_dimension wr c)"
    "steps same_view (read_meta wr c)" "steps same_view (count_points wr c jid)"
    "steps same_view (facet_sources wr c k)" "steps same_view (payload_index_fields wr c)"
    "steps same_view (ping wr)"
    unfolding collection_names_def collection_dimension_def read_meta_def count_points_def facet_sources_def
      payload_index_fields_def ping_def assms
    by (intro V.steps_bindE V.steps_ret V.steps_catchE V.steps_seqE 1 2 3 4 5)+
qed

text \<open>The two relations, on worlds, for a job's target collection.\<close>

definition keeps :: "'w qwriter \<Rightarrow> string \<Rightarrow> string \<Rightarrow> 'w \<Rightarrow> 'w \<Rightarrow> bool" where
  "keeps wr c jid a b \<longleftrightarrow>
     collections_kept c (qw_meta_collection wr) (meta_point_id (qw_uuid5 wr) c) (view a) (view b) \<and>
     jobs_kept jid (qw_uuid5 wr) c (view a) (view b)"

lemma keeps_refl: "view b = view a \<Longrightarrow> keeps wr c jid a b"
  by (simp add: keeps_def collections_kept_refl jobs_kept_refl)

lemma keeps_trans: "keeps wr c jid a b \<Longrightarrow> keeps wr c jid b d \<Longrightarrow> keeps wr c jid a d"
  unfolding keeps_def by (blast intro: collections_kept_trans jobs_kept_trans)

lemma keeps_own_collection:
  assumes "view b = (view a)(c \<mapsto> co)" and "c \<noteq> qw_meta_collection wr"
    and "jobs_kept jid (qw_uuid5 wr) c (view a) (view b)"
  shows "keeps wr c jid a b"
  using assms by (simp add: keeps_def collections_kept_def)

lemma keeps_meta_collection:
  assumes "view b = (view a)(qw_meta_collection wr \<mapsto> co)" and "c \<noteq> qw_meta_collection wr"
    and "\<And>i. i \<noteq> meta_point_id (qw_uuid5 wr) c \<Longrightarrow> co_points co i = pts (view a) (qw_meta_collection wr) i"
  shows "keeps wr c jid a b"
  using assms by (auto simp: keeps_def collections_kept_def jobs_kept_def pts_def)

lemma delete_keeps:
  assumes c: "c \<noteq> qw_meta_collection wr" and wr: "qw_client wr = client"
    and f: "\<And>p. filter_matches (Some f) p \<Longrightarrow> \<not> foreign jid p"
  shows "steps (keeps wr c jid) (qc_delete client c f)"
proof
  fix w
  obtain r w' where d: "qc_delete client c f w = (r, w')" by fastforce
  have "keeps wr c jid w w'"
  proof (cases rule: delete_points_cases [OF d])
    case 1
    then show ?thesis by (simp add: keeps_refl)
  next
    case (2 co m)
    have "jobs_kept jid (qw_uuid5 wr) c (view w) (view w')"
      by (rule jobs_kept_shrink [OF 2(1,2)]) (use 2(3,4) f in blast)+
    with 2(2) c show ?thesis by (rule keeps_own_collection)
  qed
  with d show "keeps wr c jid w (snd (qc_delete client c f w))" by simp
qed

lemma job_filters_own:
  "filter_matches (Some (source_filter jid s)) p \<Longrightarrow> \<not> foreign jid p"
  "filter_matches (Some \<lparr>qf_must = [job_filter jid], qf_must_not = ns\<rparr>) p \<Longrightarrow> \<not> foreign jid p"
  "filter_matches (Some (sweep_filter rid (Some jid))) p \<Longrightarrow> \<not> foreign jid p"
  by (simp_all add: source_filter_def sweep_filter_def foreign_def)

lemma deletes_keep:
  assumes "c \<noteq> qw_meta_collection wr" and "qw_client wr = client"
  shows "steps (keeps wr c jid) (delete_by_source wr c jid s)"
    and "steps (keeps wr c jid) (delete_job_points wr c jid)"
    and "steps (keeps wr c jid) (sweep_stale wr c rid (Some jid))"
  unfolding delete_by_source_def delete_job_points_def sweep_stale_def assms(2)
  by (rule delete_keeps [OF assms]; erule job_filters_own)+

lemma upsert_keeps:
  assumes c: "c \<noteq> qw_meta_collection wr" and wr: "qw_client wr = client"
    and own: "\<And>p. p \<in> set ps \<Longrightarrow> \<not> foreign jid (pt_payload p) \<and> (\<exists>s n. pt_id p = point_id (qw_uuid5 wr) jid s n)"
  shows "steps (keeps wr c jid) (upsert_points wr c ps)"
proof
  fix w
  show "keeps wr c jid w (snd (upsert_points wr c ps w))"
  proof (cases "ps = []")
    case True
    then show ?thesis by (simp add: upsert_points_def whenE_def ret_def keeps_refl)
  next
    case False
    obtain r w' where u: "qc_upsert client c ps w = (r, w')" by fastforce
    have "keeps wr c jid w w'"
    proof (cases rule: upsert_points_cases [OF u])
      case 1
      then show ?thesis by (simp add: keeps_refl)
    next
      case (2 co m)
      have "jobs_kept jid (qw_uuid5 wr) c (view w) (view w')"
        by (rule jobs_kept_grow [OF 2(1-4)]) (use own in blast)+
      with 2(2) c show ?thesis by (rule keeps_own_collection)
    qed
    with u False show ?thesis by (simp add: upsert_points_def whenE_def wr)
  qed
qed

text \<open>An operation guarded by the list of collections.\<close>

lemma names_guard:
  assumes wr: "qw_client wr = client"
    and "\<And>w w'. c \<notin> dom (view w) \<Longrightarrow> keeps wr d jid w (snd (k1 w))"
    and "\<And>w. c \<in> dom (view w) \<Longrightarrow> keeps wr d jid w (snd (k2 w))"
  shows "steps (keeps wr d jid) (bindE (collection_names wr) (\<lambda>names. if c \<notin> names then k1 else k2))"
proof
  fix w
  obtain r w1 where n: "qc_get_collections client w = (r, w1)" by fastforce
  have v: "view w1 = view w" using n by (rule get_collections_view)
  show "keeps wr d jid w (snd (bindE (collection_names wr) (\<lambda>names. if c \<notin> names then k1 else k2) w))"
  proof (cases r)
    case (Inl e)
    with n v show ?thesis by (simp add: collection_names_def wr bindE_def keeps_refl)
  next
    case (Inr ns)
    with n have "set ns = dom (view w1)" using get_collections_names v by simp
    with assms(2,3) [of w1] have "keeps wr d jid w1 (snd ((if c \<notin> set ns then k1 else k2) w1))" by simp
    with n Inr v show ?thesis
      by (auto simp: collection_names_def wr bindE_def ret_def intro: keeps_trans [OF keeps_refl])
  qed
qed

lemma create_keeps:
  assumes "c \<noteq> qw_meta_collection wr" and "k = c \<or> k = qw_meta_collection wr" and "k \<notin> dom (view w)"
  shows "keeps wr c jid w (snd (qc_create_collection client k d w))"
proof -
  obtain r w' where u: "qc_create_collection client k d w = (r, w')" by fastforce
  have n: "view w k = None" using assms(3) by blast
  from create_collection_new [OF n u] have "keeps wr c jid w w'"
  proof
    assume v: "view w' = (view w)(k \<mapsto> new_coll d)"
    from assms(2) show ?thesis
    proof
      assume "k = c"
      with v n assms(1) show ?thesis
        by (intro keeps_own_collection) (auto simp: jobs_kept_def foreign_ids_def new_coll_def)
    next
      assume k: "k = qw_meta_collection wr"
      show ?thesis
        by (rule keeps_meta_collection [OF v [unfolded k] assms(1)])
          (use n k in \<open>simp add: new_coll_def\<close>)
    qed
  qed (simp add: keeps_refl)
  with u show ?thesis by simp
qed

lemma ensure_meta_keeps:
  assumes c: "c \<noteq> qw_meta_collection wr" and wr: "qw_client wr = client"
  shows "steps (keeps wr c jid) (ensure_meta_collection wr)"
proof -
  have "ensure_meta_collection wr = bindE (collection_names wr) (\<lambda>names.
      if qw_meta_collection wr \<notin> names then qc_create_collection client (qw_meta_collection wr) 1 else ret ())"
    by (simp only: ensure_meta_collection_def whenE_def wr)
  then show ?thesis
    by (simp only:) (rule names_guard [OF wr]; simp add: create_keeps [OF c] ret_def keeps_refl)
qed

lemma index_keeps:
  assumes c: "c \<noteq> qw_meta_collection wr"
  shows "steps (keeps wr c jid) (qc_create_payload_index client c fld)"
proof
  fix w
  obtain r w' where u: "qc_create_payload_index client c fld w = (r, w')" by fastforce
  have "keeps wr c jid w w'"
  proof (cases "view w c")
    case None
    from create_index_missing [OF this u] show ?thesis by (simp add: keeps_refl)
  next
    case (Some co)
    from create_index [OF this u] show ?thesis
    proof
      assume v: "view w' = (view w)(c \<mapsto> co\<lparr>co_indexes := insert fld (co_indexes co)\<rparr>)"
      have "jobs_kept jid (qw_uuid5 wr) c (view w) (view w')"
        using Some v by (simp add: jobs_kept_def pts_Some)
      with v c show ?thesis by (rule keeps_own_collection)
    qed (simp add: keeps_refl)
  qed
  with u show "keeps wr c jid w (snd (qc_create_payload_index client c fld w))" by simp
qed

lemma meta_upsert_keeps:
  assumes c: "c \<noteq> qw_meta_collection wr" and wr: "qw_client wr = client"
  shows "steps (keeps wr c jid) (qc_upsert client (qw_meta_collection wr) [make_meta_point (qw_uuid5 wr) c m d])"
proof
  fix w
  let ?ps = "[make_meta_point (qw_uuid5 wr) c m d]"
  obtain r w' where u: "qc_upsert client (qw_meta_collection wr) ?ps w = (r, w')" by fastforce
  have "keeps wr c jid w w'"
  proof (cases rule: upsert_points_cases [OF u])
    case 1
    then show ?thesis by (simp add: keeps_refl)
  next
    case (2 co mm)
    show ?thesis
      by (rule keeps_meta_collection [OF 2(2) c]) (use 2(1,3) in \<open>simp add: pts_Some make_meta_point_def\<close>)
  qed
  with u show "keeps wr c jid w (snd (qc_upsert client (qw_meta_collection wr) ?ps w))" by simp
qed

lemma keeps_frame: "frame (keeps wr c jid)"
  by unfold_locales (auto intro: keeps_refl keeps_trans)

lemmas K = frame.steps_seqE [OF keeps_frame] frame.steps_bindE [OF keeps_frame]
  frame.steps_ret [OF keeps_frame] frame.steps_raise [OF keeps_frame] frame.steps_whenE [OF keeps_frame]
  frame.steps_if [OF keeps_frame] frame.steps_for_each [OF keeps_frame] frame.steps_option [OF keeps_frame]

lemma reads_keep:
  assumes "qw_client wr = client"
  shows "steps (keeps wr c jid) (collection_names wr)" "steps (keeps wr c jid) (collection_dimension wr k)"
    "steps (keeps wr c jid) (read_meta wr k)" "steps (keeps wr c jid) (count_points wr k q)"
    "steps (keeps wr c jid) (facet_sources wr k l)"
  by (rule steps_mono [OF reads_view(1) [OF assms]] steps_mono [OF reads_view(2) [OF assms]]
      steps_mono [OF reads_view(3) [OF assms]] steps_mono [OF reads_view(4) [OF assms]]
      steps_mono [OF reads_view(5) [OF assms]]; simp add: keeps_refl)+

lemma upsert_meta_keeps:
  assumes "c \<noteq> qw_meta_collection wr" and "qw_client wr = client"
  shows "steps (keeps wr c jid) (upsert_meta wr c m d)"
  unfolding upsert_meta_def assms(2)
  by (intro K ensure_meta_keeps [OF assms] meta_upsert_keeps [OF assms])

lemma ensure_collection_keeps:
  assumes c: "c \<noteq> qw_meta_collection wr" and wr: "qw_client wr = client"
  shows "steps (keeps wr c jid) (ensure_collection wr c d m)"
proof -
  let ?check = "bindE (collection_dimension wr c) (\<lambda>existing_dim.
      if existing_dim \<noteq> d then raise (dimension_mismatch c existing_dim m d)
      else bindE (read_meta wr c) (check_model c m))"
  have k: "steps (keeps wr c jid) ?check"
    unfolding check_model_def by (intro K reads_keep [OF wr])
  have n: "steps (keeps wr c jid) (bindE (collection_names wr)
      (\<lambda>names. if c \<notin> names then qc_create_collection client c d else ?check))"
    by (rule names_guard [OF wr]) (auto intro: create_keeps [OF c] stepsD [OF k])
  have i: "steps (keeps wr c jid) (ensure_payload_indexes client c)"
    unfolding ensure_payload_indexes_def by (intro K index_keeps [OF c])
  show ?thesis
    unfolding ensure_collection_def wr
    by (rule K(1) [OF ensure_meta_keeps [OF c wr] K(1) [OF n i]])
qed

end

section \<open>Ids and collections\<close>

text \<open>Point ids are unambiguous: the name that is hashed determines the job, the source and
  the chunk index, whatever characters the source has, so distinct chunks get distinct ids
  unless the hash collides on these two names.\<close>

theorem point_id_inj:
  assumes "is_slug a" and "is_slug b"
    and "uuid5 (INGEST_NAMESPACE uuid5) (point_seed a s m) = uuid5 (INGEST_NAMESPACE uuid5) (point_seed b t n) \<longrightarrow>
      point_seed a s m = point_seed b t n"
    and "point_id uuid5 a s m = point_id uuid5 b t n"
  shows "a = b \<and> s = t \<and> m = n"
proof -
  have "a @ CHR ''|'' # (s @ ''#'' @ str_of_nat m) = b @ CHR ''|'' # (t @ ''#'' @ str_of_nat n)"
    using assms(3,4) by (simp add: point_id_def point_seed_def)
  from append_sep_inj [OF slug_no_bar [OF assms(1)] slug_no_bar [OF assms(2)] this]
  have ab: "a = b" and st: "s @ CHR ''#'' # str_of_nat m = t @ CHR ''#'' # str_of_nat n" by simp_all
  have h: "CHR ''#'' \<notin> set (str_of_nat k)" for k
    using str_of_nat_all_digits [of "CHR ''#''" k] by (auto simp: is_digit_def)
  from append_sep_inj_right [OF h h st] ab show ?thesis by (simp add: str_of_nat_inj)
qed

theorem point_id_inj_witness:
  "point_id fake_uuid5 ''acme'' ''a#1'' 0 \<noteq> point_id fake_uuid5 ''acme'' ''a'' 10"
  using point_id_inj [of "''acme''" "''acme''" fake_uuid5 "''a#1''" 0 "''a''" 10]
  by (auto simp: fake_uuid5_def is_slug_def is_slug_start_def is_digit_def)

context qdrant
begin

lemma names_Inr:
  assumes "qw_client wr = client" and "collection_names wr w = (Inr N, w')"
  shows "N = dom (view w) \<and> view w' = view w"
  using assms get_collections_names get_collections_view
  by (fastforce simp: collection_names_def bindE_Inr)

lemma create_Inr:
  "view w c = None \<Longrightarrow> qc_create_collection client c d w = (Inr x, w') \<Longrightarrow> view w' = (view w)(c \<mapsto> new_coll d)"
  by (drule (1) create_collection_new) simp

lemma index_Inr:
  assumes "view w c = Some co" and "qc_create_payload_index client c fld w = (Inr x, w')"
  shows "view w' = (view w)(c \<mapsto> co\<lparr>co_indexes := insert fld (co_indexes co)\<rparr>)"
  using create_index [OF assms] by simp

lemma ensure_meta_Inr:
  assumes "qw_client wr = client" and "ensure_meta_collection wr w = (Inr x, w')"
  shows "\<exists>co. view w' = (view w)(qw_meta_collection wr \<mapsto> co) \<and> co_points co = pts (view w) (qw_meta_collection wr)"
proof -
  from assms(2) obtain N u where n: "collection_names wr w = (Inr N, u)"
    and k: "whenE (qw_meta_collection wr \<notin> N) (qc_create_collection client (qw_meta_collection wr) 1) u = (Inr x, w')"
    by (auto simp: ensure_meta_collection_def bindE_Inr assms(1))
  from names_Inr [OF assms(1) n] have v: "N = dom (view w)" "view u = view w" by simp_all
  show ?thesis
  proof (cases "view w (qw_meta_collection wr)")
    case None
    with v k have "qc_create_collection client (qw_meta_collection wr) 1 u = (Inr x, w')"
      by (simp add: whenE_def domIff)
    from create_Inr [OF _ this] v None show ?thesis by (simp add: new_coll_def) (metis coll.select_convs(2))
  next
    case (Some co)
    with v k have "view w' = view w" by (simp add: whenE_def domIff)
    with Some show ?thesis by (intro exI [of _ co]) (simp add: pts_Some fun_upd_idem)
  qed
qed

lemma indexes_Inr:
  assumes "view w c = Some co" and "for_each flds (qc_create_payload_index client c) w = (Inr x, w')"
  shows "view w' = (view w)(c \<mapsto> co\<lparr>co_indexes := set flds \<union> co_indexes co\<rparr>)"
  using assms
proof (induction flds arbitrary: w co)
  case (Cons f fs)
  then obtain y u where i: "qc_create_payload_index client c f w = (Inr y, u)"
    and r: "for_each fs (qc_create_payload_index client c) u = (Inr x, w')"
    by (auto simp: seqE_Inr)
  from index_Inr [OF Cons.prems(1) i] have v: "view u = (view w)(c \<mapsto> co\<lparr>co_indexes := insert f (co_indexes co)\<rparr>)" .
  have "view u c = Some (co\<lparr>co_indexes := insert f (co_indexes co)\<rparr>)" by (simp add: v)
  from Cons.IH [OF this r] show ?case by (auto simp: v fun_eq_iff)
qed (simp add: fun_upd_idem)

lemma check_Inr:
  assumes wr: "qw_client wr = client" and c: "view w c = Some co"
    and k: "bindE (collection_dimension wr c) (\<lambda>existing_dim.
          if existing_dim \<noteq> d then raise (dimension_mismatch c existing_dim m d)
          else bindE (read_meta wr c) (check_model c m)) w = (Inr x, w')"
  shows "view w' = view w \<and> co_dim co = d \<and>
    (\<forall>mc v p r. view w (qw_meta_collection wr) = Some mc \<longrightarrow>
      co_points mc (meta_point_id (qw_uuid5 wr) c) = Some (v, p) \<longrightarrow>
      map_of p ''embedding_model'' = Some (JStr r) \<longrightarrow> r \<noteq> [] \<longrightarrow> r = m)"
proof -
  from k obtain e u where dim: "collection_dimension wr c w = (Inr e, u)"
    and r: "(if e \<noteq> d then raise (dimension_mismatch c e m d) else bindE (read_meta wr c) (check_model c m)) u = (Inr x, w')"
    by (auto simp: bindE_Inr)
  then have ed: "e = d" by (auto split: if_splits)
  from dim obtain i where i: "qc_get_collection client c w = (Inr i, u)" "e = ci_vectors_size i"
    by (auto simp: collection_dimension_def bindE_Inr wr)
  from get_collection_info [OF i(1)] get_collection_view [OF i(1)] c i(2) ed
  have co: "co_dim co = d" and vu: "view u = view w" by auto
  from r ed obtain meta u2 where m: "read_meta wr c u = (Inr meta, u2)" and ch: "check_model c m meta u2 = (Inr x, w')"
    by (auto simp: bindE_Inr)
  from m obtain recs where rec: "qc_retrieve client (qw_meta_collection wr) [meta_point_id (qw_uuid5 wr) c] u = (Inr recs, u2)"
    and meta: "meta = (case recs of [] \<Rightarrow> None | p # _ \<Rightarrow> if pt_payload p = [] then None else Some (pt_payload p))"
    by (auto simp: read_meta_def bindE_Inr wr)
  have w': "view w' = view w"
    using retrieve_view [OF rec] vu ch
    by (auto simp: check_model_def whenE_def split: option.splits if_splits)
  have "r = m" if mc: "view w (qw_meta_collection wr) = Some mc"
    "co_points mc (meta_point_id (qw_uuid5 wr) c) = Some (v, p)"
    and p: "map_of p ''embedding_model'' = Some (JStr r)" "r \<noteq> []" for mc v p r
  proof -
    from retrieve_found [OF _ rec] mc vu have "map (\<lambda>p. (pt_vector p, pt_payload p)) recs = [(v, p)]" by simp
    then have "meta = Some p" using p(1) by (auto simp: meta)
    with ch p show ?thesis by (auto simp: check_model_def whenE_def split: if_splits)
  qed
  with w' co show ?thesis by blast
qed

lemma ensure_collection_Inr:
  assumes wr: "qw_client wr = client" and c: "c \<noteq> qw_meta_collection wr"
    and e: "ensure_collection wr c d m w = (Inr x, w')"
  shows "\<exists>co. view w' c = Some co \<and> co_dim co = d \<and> set PAYLOAD_INDEX_FIELDS \<subseteq> co_indexes co \<and>
      co_points co = pts (view w) c \<and> (view w c \<noteq> None \<longrightarrow> co_dim (the (view w c)) = d)"
    and "\<And>mc v p r. view w c \<noteq> None \<Longrightarrow> view w (qw_meta_collection wr) = Some mc \<Longrightarrow>
      co_points mc (meta_point_id (qw_uuid5 wr) c) = Some (v, p) \<Longrightarrow>
      map_of p ''embedding_model'' = Some (JStr r) \<Longrightarrow> r \<noteq> [] \<Longrightarrow> r = m"
proof -
  let ?check = "bindE (collection_dimension wr c) (\<lambda>existing_dim.
      if existing_dim \<noteq> d then raise (dimension_mismatch c existing_dim m d)
      else bindE (read_meta wr c) (check_model c m))"
  from e obtain a u N u2 u3 y z where em: "ensure_meta_collection wr w = (Inr a, u)"
    and nm: "collection_names wr u = (Inr N, u2)"
    and br: "(if c \<notin> N then qc_create_collection client c d else ?check) u2 = (Inr y, u3)"
    and ix: "for_each PAYLOAD_INDEX_FIELDS (qc_create_payload_index client c) u3 = (Inr z, w')"
    unfolding ensure_collection_def ensure_payload_indexes_def wr
    by (auto simp: seqE_Inr bindE_Inr [of "collection_names wr"])
  from ensure_meta_Inr [OF wr em] obtain mco where vu: "view u = (view w)(qw_meta_collection wr \<mapsto> mco)"
    and mp: "co_points mco = pts (view w) (qw_meta_collection wr)" by blast
  from names_Inr [OF wr nm] have n: "N = dom (view u)" "view u2 = view u" by simp_all
  have same: "view u c = view w c" using vu c by simp
  have "\<exists>co. view u3 c = Some co \<and> co_dim co = d \<and> co_points co = pts (view w) c \<and>
      (view w c \<noteq> None \<longrightarrow> co_dim (the (view w c)) = d)"
  proof (cases "view w c")
    case None
    with n same br have "qc_create_collection client c d u2 = (Inr y, u3)" by (auto split: if_splits)
    from create_Inr [OF _ this] None n same show ?thesis by (simp add: new_coll_def)
  next
    case (Some co)
    with n same br have k: "?check u2 = (Inr y, u3)" by (auto split: if_splits)
    have "view u2 c = Some co" using Some n same by simp
    from check_Inr [OF wr this k] this Some show ?thesis by (simp add: pts_Some)
  qed
  then obtain co where co: "view u3 c = Some co" "co_dim co = d" "co_points co = pts (view w) c"
    "view w c \<noteq> None \<longrightarrow> co_dim (the (view w c)) = d" by blast
  from indexes_Inr [OF co(1) ix] co
  show "\<exists>co. view w' c = Some co \<and> co_dim co = d \<and> set PAYLOAD_INDEX_FIELDS \<subseteq> co_indexes co \<and>
      co_points co = pts (view w) c \<and> (view w c \<noteq> None \<longrightarrow> co_dim (the (view w c)) = d)" by simp
  show "r = m" if "view w c \<noteq> None" "view w (qw_meta_collection wr) = Some mc"
    "co_points mc (meta_point_id (qw_uuid5 wr) c) = Some (v, p)"
    "map_of p ''embedding_model'' = Some (JStr r)" "r \<noteq> []" for mc v p r
  proof -
    from that(1) obtain co where "view w c = Some co" by blast
    with n same br have k: "?check u2 = (Inr y, u3)" and u2: "view u2 c = Some co"
      by (auto split: if_splits)
    have "view u2 (qw_meta_collection wr) = Some mco" using n vu by simp
    with check_Inr [OF wr u2 k] that(2-) mp show ?thesis by (auto simp: pts_Some)
  qed
qed

end

text \<open>C30: \<open>ensure_collection\<close> returns only when the collection fits: it then exists with the
  dimension of the model and all four payload indexes, holds the points it held, had that
  dimension if it existed before, and a meta record that names a model names this one. In
  every other case it raises.\<close>

theorem ensure_collection_spec:
  assumes "qdrant view (qw_client wr)" and "c \<noteq> qw_meta_collection wr"
    and "ensure_collection wr c d m w = (Inr (), w')"
  shows "(\<exists>co. view w' c = Some co \<and> co_dim co = d \<and> set PAYLOAD_INDEX_FIELDS \<subseteq> co_indexes co \<and>
      co_points co = pts (view w) c) \<and>
    (\<forall>co. view w c = Some co \<longrightarrow> co_dim co = d) \<and>
    (\<forall>v p r. view w c \<noteq> None \<longrightarrow>
      pts (view w) (qw_meta_collection wr) (meta_point_id (qw_uuid5 wr) c) = Some (v, p) \<longrightarrow>
      map_of p ''embedding_model'' = Some (JStr r) \<longrightarrow> r \<noteq> [] \<longrightarrow> r = m)"
proof (intro conjI allI impI)
  note e = qdrant.ensure_collection_Inr [OF assms(1) refl assms(2,3)]
  show "\<exists>co. view w' c = Some co \<and> co_dim co = d \<and> set PAYLOAD_INDEX_FIELDS \<subseteq> co_indexes co \<and>
      co_points co = pts (view w) c" using e(1) by blast
  show "co_dim co = d" if "view w c = Some co" for co using e(1) that by auto
  show "r = m" if "view w c \<noteq> None"
    "pts (view w) (qw_meta_collection wr) (meta_point_id (qw_uuid5 wr) c) = Some (v, p)"
    "map_of p ''embedding_model'' = Some (JStr r)" "r \<noteq> []" for v p r
  proof -
    from that(2) obtain mc where "view w (qw_meta_collection wr) = Some mc"
      by (cases "view w (qw_meta_collection wr)") auto
    with that e(2) show ?thesis by (simp add: pts_Some)
  qed
qed

theorem ensure_collection_spec_witness:
  "map_option co_dim (fake_view (snd (ensure_collection fake_writer ''kb'' 3 ''m''
     \<lparr>fq_collections = [], fq_upsert_calls = 0, fq_raise_on_get_collections = None\<rparr>)) ''kb'') = Some 3"
proof -
  let ?w = "\<lparr>fq_collections = [], fq_upsert_calls = 0, fq_raise_on_get_collections = None\<rparr>"
  have "fst (ensure_collection fake_writer ''kb'' 3 ''m'' ?w) = Inr ()" by code_simp
  then have e: "ensure_collection fake_writer ''kb'' 3 ''m'' ?w =
      (Inr (), snd (ensure_collection fake_writer ''kb'' 3 ''m'' ?w))" by (metis prod.collapse)
  have q: "qdrant fake_view (qw_client fake_writer)" using fake.qdrant_axioms by (simp add: fake_writer_def)
  have "''kb'' \<noteq> qw_meta_collection fake_writer" by (simp add: fake_writer_def)
  with ensure_collection_spec [OF q _ e] show ?thesis by auto
qed

end
