(* ===== verification/RunSafety.thy ===== *)
theory RunSafety
  imports RunFrame StoreScope
begin

text \<open>
  The safety properties of a run, for any client that meets the Qdrant interface and any
  environment that leaves the collections alone except through the writer (locale
  \<open>run_world\<close>): a dry run writes nothing, a run touches its own job's points and rows
  only, append never touches what is tracked.
\<close>

section \<open>The assumptions on the outside\<close>

definition docs_same :: "db \<Rightarrow> db \<Rightarrow> bool" where
  "docs_same b b' \<longleftrightarrow> db_documents b' = db_documents b"

definition other_rows_same :: "string \<Rightarrow> db \<Rightarrow> db \<Rightarrow> bool" where
  "other_rows_same jid b b' \<longleftrightarrow>
     filter (\<lambda>d. doc_job d \<noteq> jid) (db_documents b') = filter (\<lambda>d. doc_job d \<noteq> jid) (db_documents b)"

lemma prune_documents: "db_documents (snd (prune_runs jid keep b)) = db_documents b"
  by (simp add: prune_runs_def Let_def fold_drop_run)

lemma create_documents: "db_documents (snd (create_run r b)) = db_documents b"
  by (simp add: create_run_def)

lemma update_documents: "db_documents (update_run r b) = db_documents b"
  by (simp add: update_run_def)

lemma event_documents: "db_documents (add_event now rid lvl m src b) = db_documents b"
  by (simp add: add_event_def)

lemmas kept_documents = prune_documents create_documents update_documents event_documents

locale run_world =
  fixes view :: "'w \<Rightarrow> qview" and uuid5 :: uuid5_fun and env :: "'w run_env"
    and should_abort :: "('w, bool) eff"
  assumes quiet: "env_keeps (\<lambda>a b. view b = view a) env should_abort"
    and factory: "re_writer_factory env c w = (Inr wr, w') \<Longrightarrow>
      qdrant view (qw_client wr) \<and> qw_uuid5 wr = uuid5 \<and>
      qw_meta_collection wr = set_embed_meta_collection (re_settings env)"
begin

lemma quiet_mono:
  assumes "\<And>a b. view b = view a \<Longrightarrow> Q a b"
  shows "env_keeps Q env should_abort"
proof -
  have m: "steps (\<lambda>a b. view b = view a) m \<Longrightarrow> steps Q m" for m :: "('w, 'a) eff"
    by (erule steps_mono) (rule assms)
  show ?thesis using quiet unfolding env_keeps_def by (auto simp: m)
qed

text \<open>A dry run keeps the view and the documents.\<close>

lemma dry_env_frame: "env_frame (\<lambda>a b. view b = view a) docs_same env should_abort"
  by (rule env_frame.intro) (simp_all add: docs_same_def quiet kept_documents)

lemma dry_run_frame:
  assumes "re_writer_factory env c w = (Inr wr, w')"
  shows "run_frame (\<lambda>a b. view b = view a) docs_same env should_abort wr j (\<lambda>s. False)"
proof -
  have q: "qdrant view (qw_client wr)" using factory [OF assms] by simp
  show ?thesis
  proof (rule run_frame.intro [OF dry_env_frame run_frame_axioms.intro])
    fix ps assume "\<And>p. p \<in> set ps \<Longrightarrow> own_point wr j (\<lambda>s. False) p"
    then have "ps = []" by (cases ps) (auto simp: own_point_def)
    then show "steps (\<lambda>a b. view b = view a) (upsert_points wr (job_collection j) ps)"
      by (simp add: upsert_points_def whenE_def steps_def ret_def)
  qed (simp_all add: qdrant.reads_view [OF q refl])
qed

lemma dry_execute:
  assumes "ro_dry_run opts"
  shows "steps (rel3 (\<lambda>a b. view b = view a) docs_same) (execute env should_abort j md scope opts)"
proof (rule env_frame.st_execute [OF dry_env_frame])
  fix c w wr w'
  assume "re_writer_factory env c w = (Inr wr, w')"
  then have f: "run_frame (\<lambda>a b. view b = view a) docs_same env should_abort wr j (\<lambda>s. False)"
    by (rule dry_run_frame)
  show "steps (rel3 (\<lambda>a b. view b = view a) docs_same) (execute_with env should_abort wr j md scope opts)"
    by (intro run_frame.st_execute_with [OF f] run_frame.st_scan_phase [OF f] run_frame.st_cleanup [OF f])
      (use assms in auto)
qed

lemma dry_run_job:
  assumes "ro_dry_run opts"
  shows "steps (rel2 (\<lambda>a b. view b = view a) docs_same) (run_job env should_abort j trigger rid md scope opts)"
  by (rule env_frame.st_run_job [OF dry_env_frame]) (rule dry_execute [OF assms])

text \<open>A run of a job keeps the other collections, the other jobs' points and rows.\<close>

definition scope_kept :: "string \<Rightarrow> string \<Rightarrow> 'w \<Rightarrow> 'w \<Rightarrow> bool" where
  "scope_kept c jid a b \<longleftrightarrow>
     collections_kept c (set_embed_meta_collection (re_settings env)) (meta_point_id uuid5 c) (view a) (view b) \<and>
     jobs_kept jid uuid5 c (view a) (view b)"

lemma scope_kept_refl: "view b = view a \<Longrightarrow> scope_kept c jid a b"
  by (simp add: scope_kept_def collections_kept_refl jobs_kept_refl)

lemma scope_kept_trans: "scope_kept c jid a b \<Longrightarrow> scope_kept c jid b d \<Longrightarrow> scope_kept c jid a d"
  unfolding scope_kept_def by (blast intro: collections_kept_trans jobs_kept_trans)

lemma scope_env_frame: "env_frame (scope_kept c jid) (other_rows_same jid) env should_abort"
  by (rule env_frame.intro)
    (simp_all add: other_rows_same_def kept_documents scope_kept_refl quiet_mono, rule scope_kept_trans)

lemma scope_keeps:
  assumes "re_writer_factory env conn w = (Inr wr, w')"
  shows "scope_kept c jid = qdrant.keeps view wr c jid"
proof -
  from factory [OF assms] have q: "qdrant view (qw_client wr)" "qw_uuid5 wr = uuid5"
    "qw_meta_collection wr = set_embed_meta_collection (re_settings env)" by simp_all
  show ?thesis by (intro ext) (simp only: scope_kept_def qdrant.keeps_def [OF q(1)] q(2,3))
qed

lemma scope_run_frame:
  assumes f: "re_writer_factory env conn w = (Inr wr, w')"
    and c: "job_collection j \<noteq> set_embed_meta_collection (re_settings env)"
  shows "run_frame (scope_kept (job_collection j) (job_id j)) (other_rows_same (job_id j)) env should_abort wr j (\<lambda>s. True)"
proof -
  have q: "qdrant view (qw_client wr)" and m: "job_collection j \<noteq> qw_meta_collection wr"
    using factory [OF f] c by simp_all
  show ?thesis
  proof (rule run_frame.intro [OF scope_env_frame run_frame_axioms.intro], unfold scope_keeps [OF f])
    fix ps assume o: "\<And>p. p \<in> set ps \<Longrightarrow> own_point wr j (\<lambda>s. True) p"
    show "steps (qdrant.keeps view wr (job_collection j) (job_id j)) (upsert_points wr (job_collection j) ps)"
      by (rule qdrant.upsert_keeps [OF q m refl])
        (use o in \<open>fastforce simp: own_point_def foreign_def job_filter_def\<close>)
  qed (simp_all add: other_rows_same_def upsert_document_def delete_document_def
      qdrant.deletes_keep [OF q m refl] qdrant.reads_keep [OF q refl] conj_commute cong: conj_cong)
qed

lemma scope_execute:
  assumes "md = Full \<longrightarrow> scope = ScopeJob" and "no_reserved_keys (tgt_extra_payload (job_target j))"
    and c: "job_collection j \<noteq> set_embed_meta_collection (re_settings env)"
  shows "steps (rel3 (scope_kept (job_collection j) (job_id j)) (other_rows_same (job_id j)))
    (execute env should_abort j md scope opts)"
proof (rule env_frame.st_execute [OF scope_env_frame])
  fix conn w wr w'
  assume fac: "re_writer_factory env conn w = (Inr wr, w')"
  note f = scope_run_frame [OF fac c]
  have q: "qdrant view (qw_client wr)" and m: "job_collection j \<noteq> qw_meta_collection wr"
    using factory [OF fac] c by simp_all
  note k = qdrant.deletes_keep [OF q m refl] qdrant.ensure_collection_keeps [OF q m refl]
    qdrant.upsert_meta_keeps [OF q m refl]
  have cov: "covers j (\<lambda>s. True) src" for src using assms(2) by (simp add: covers_def)
  show "steps (rel3 (scope_kept (job_collection j) (job_id j)) (other_rows_same (job_id j)))
      (execute_with env should_abort wr j md scope opts)"
    by (intro run_frame.st_execute_with [OF f] run_frame.st_scan_phase [OF f] run_frame.st_cleanup [OF f]
        run_frame.st_prepare [OF f])
      (use assms(1) cov in \<open>auto simp: scope_keeps [OF fac] k other_rows_same_def delete_documents_for_job_def\<close>)
qed

lemma scope_run_job:
  assumes "or_default md (job_mode j) = Full \<longrightarrow> or_default scope (job_full_scope j) = ScopeJob"
    and "no_reserved_keys (tgt_extra_payload (job_target j))"
    and "job_collection j \<noteq> set_embed_meta_collection (re_settings env)"
  shows "steps (rel2 (scope_kept (job_collection j) (job_id j)) (other_rows_same (job_id j)))
    (run_job env should_abort j trigger rid md scope opts)"
  by (rule env_frame.st_run_job [OF scope_env_frame]) (rule scope_execute; use assms in simp)

end

section \<open>Append\<close>

definition rows_kept :: "string set \<Rightarrow> string \<Rightarrow> db \<Rightarrow> db \<Rightarrow> bool" where
  "rows_kept K jid b b' \<longleftrightarrow> K \<subseteq> list_sources b jid \<longrightarrow>
     K \<subseteq> list_sources b' jid \<and> (\<forall>s \<in> K. get_document b' jid s = get_document b jid s)"

lemma get_document_same: "db_documents b' = db_documents b \<Longrightarrow> get_document b' = get_document b"
  by (simp add: get_document_def fun_eq_iff)

lemma list_sources_same: "db_documents b' = db_documents b \<Longrightarrow> list_sources b' = list_sources b"
  by (simp add: list_sources_def fun_eq_iff)

lemma rows_kept_same:
  assumes "db_documents b' = db_documents b"
  shows "rows_kept K jid b b'"
  unfolding rows_kept_def get_document_same [OF assms] list_sources_same [OF assms] by simp

lemma rows_kept_trans: "rows_kept K jid a b \<Longrightarrow> rows_kept K jid b c \<Longrightarrow> rows_kept K jid a c"
  by (simp add: rows_kept_def)

lemma steps_trivial: "steps (\<lambda>a b. True) m"
  by (simp add: steps_def)

lemma env_keeps_trivial: "env_keeps (\<lambda>a b. True) env should_abort"
  by (simp add: env_keeps_def steps_trivial)

lemma append_env_frame: "env_frame (\<lambda>a b. True) (rows_kept K jid) env should_abort"
  by (rule env_frame.intro)
    (simp_all add: env_keeps_trivial rows_kept_same kept_documents, rule rows_kept_trans)

lemma append_run_frame:
  "run_frame (\<lambda>a b. True) (rows_kept K (job_id j)) env should_abort wr j (\<lambda>s. s \<notin> K)"
proof (rule run_frame.intro [OF append_env_frame run_frame_axioms.intro])
  fix d :: document_row and b assume "doc_job d = job_id j" "doc_source d \<notin> K"
  then show "rows_kept K (job_id j) b (upsert_document d b)"
    by (auto simp: rows_kept_def docs.srcs_put get_document_upsert)
next
  fix s b assume "s \<notin> K"
  then show "rows_kept K (job_id j) b (delete_document (job_id j) s b)"
    by (auto simp: rows_kept_def docs.srcs_del get_document_delete)
qed (simp_all add: steps_trivial)

lemma trivial_env_frame: "env_frame (\<lambda>a b. True) (\<lambda>a b. True) env should_abort"
  by (rule env_frame.intro) (simp_all add: env_keeps_trivial)

lemma trivial_run_frame: "run_frame (\<lambda>a b. True) (\<lambda>a b. True) env should_abort wr j (\<lambda>s. True)"
  by (rule run_frame.intro [OF trivial_env_frame run_frame_axioms.intro]) (simp_all add: steps_trivial)

lemma append_known_covers:
  assumes "append_known_sources env wr j c s = (Inr known, t)" and "job_append_probe j \<noteq> ProbeQdrant"
  shows "list_sources (rs_db s) (job_id j) \<subseteq> known"
  using assms
  by (cases "job_append_probe j")
    (auto simp: append_known_sources_def bindE_Inr seqE_Inr db_read_def split: if_splits)

lemma bang_free_covers:
  assumes "no_reserved_keys (tgt_extra_payload (job_target j))" and "\<And>s. s \<in> K \<Longrightarrow> CHR ''!'' \<notin> set s" and "src \<notin> K"
  shows "covers j (\<lambda>s. s \<notin> K) src"
proof -
  have "CHR ''!'' \<in> set s" if "starts_with (src @ ''!'') s" for s
  proof -
    from that have "take (length (src @ ''!'')) s = src @ ''!''" by (simp add: starts_with_def)
    then show ?thesis by (metis in_set_takeD in_set_conv_decomp)
  qed
  with assms show ?thesis by (auto simp: covers_def)
qed

lemma append_scan:
  fixes env :: "'w run_env"
  assumes x: "no_reserved_keys (tgt_extra_payload (job_target j))" and b: "\<And>s. s \<in> K \<Longrightarrow> CHR ''!'' \<notin> set s"
    and p: "job_append_probe j \<noteq> ProbeQdrant"
    and k: "\<And>known outcome. steps (rel3 (\<lambda>a b. True) (rows_kept K (job_id j))) (k outcome)"
  shows "steps (rel3 (\<lambda>a b. True) (rows_kept K (job_id j)))
    (bindE (append_known_sources env wr j (job_collection j)) (\<lambda>known.
      bindE (scan_loop env should_abort wr j Append known ps mb model dry files 0 {}) k))"
    (is "steps ?R (bindE ?m ?body)")
proof
  fix s :: "'w run_state"
  note f = append_run_frame [of K j env should_abort wr] and t = trivial_run_frame [of env should_abort wr j]
  have fr: "frame ?R" by unfold_locales (auto simp: rel_defs rows_kept_same intro: rows_kept_trans)
  have m: "?R s (snd (?m s))" by (rule stepsD [OF run_frame.st_append_known [OF f]])
  obtain r u where mu: "?m s = (r, u)" by fastforce
  show "?R s (snd (bindE ?m ?body s))"
  proof (cases r)
    case (Inl e)
    with m mu show ?thesis by (simp add: bindE_def)
  next
    case (Inr known)
    show ?thesis
    proof (cases "K \<subseteq> list_sources (rs_db s) (job_id j)")
      case True
      with append_known_covers [of env wr j "job_collection j" s known u] mu Inr p have "K \<subseteq> known" by auto
      then have "\<And>fl. file_ok' fl" if "file_ok' = run_frame.file_ok j (\<lambda>s. s \<notin> K) Append known dry" for file_ok'
        unfolding that run_frame.file_ok_def [OF f] using bang_free_covers [OF x b] by auto
      then have "steps ?R (?body known)"
        by (intro frame.steps_bindE [OF fr] run_frame.st_scan_loop [OF f] k) simp
      from stepsD [OF this, of u] m mu Inr show ?thesis
        by (auto simp: bindE_def intro: frame.frame_trans [OF fr])
    next
      case False
      have "steps (rel3 (\<lambda>a b. True) (\<lambda>a b. True)) (bindE ?m ?body)"
      proof -
        have g: "frame (rel3 (\<lambda>a b. True) (\<lambda>a b. True))" by unfold_locales (auto simp: rel_defs)
        have "steps (rel3 (\<lambda>a b. True) (\<lambda>a b. True)) (k outcome)" for outcome
          using k by (rule steps_mono) (simp add: rel_defs)
        moreover have "run_frame.file_ok j (\<lambda>s. True) Append known dry fl" for known fl
          unfolding run_frame.file_ok_def [OF t] using x by (simp add: covers_def)
        ultimately show ?thesis
          by (intro frame.steps_bindE [OF g] run_frame.st_append_known [OF t] run_frame.st_scan_loop [OF t])
      qed
      from stepsD [OF this, of s] False show ?thesis by (simp add: rel_defs rows_kept_def)
    qed
  qed
qed

lemma append_run_job:
  fixes env :: "'w run_env"
  assumes x: "no_reserved_keys (tgt_extra_payload (job_target j))" and b: "\<And>s. s \<in> K \<Longrightarrow> CHR ''!'' \<notin> set s"
    and p: "job_append_probe j \<noteq> ProbeQdrant" and md: "or_default md (job_mode j) = Append"
  shows "steps (rel2 (\<lambda>a b. True) (rows_kept K (job_id j))) (run_job env should_abort j trigger rid md scope opts)"
proof (rule env_frame.st_run_job [OF append_env_frame], rule env_frame.st_execute [OF append_env_frame])
  fix m sc and wr :: "'w qwriter"
  assume m: "m = or_default md (job_mode j)"
  let ?R = "rel3 (\<lambda>a b. True) (rows_kept K (job_id j)) :: 'w run_state \<Rightarrow> _"
  note f = append_run_frame [of K j env should_abort wr]
  note e = append_env_frame [of K "job_id j" env should_abort]
  have fr: "frame ?R" by unfold_locales (auto simp: rel_defs rows_kept_same intro: rows_kept_trans)
  have clean: "steps ?R (cleanup_phase env wr j Append sc opts model vd seen)" for model vd seen
    by (intro run_frame.st_cleanup [OF f]) (simp_all add: steps_trivial)
  have "steps ?R (scan_phase env should_abort wr j Append sc opts model vd)" for model vd
    unfolding scan_phase_def simp_thms(6) if_True
    by (intro frame.steps_bindE [OF fr] frame.steps_seqE [OF fr] frame.steps_option [OF fr] frame.steps_of_sum [OF fr]
        frame.steps_ret [OF fr] env_frame.st_world [OF e] env_frame.st_upd [OF e] env_frame.st_phase [OF e]
        append_scan [OF x b p] steps_trivial clean)
  moreover have "steps ?R (prepare_collection env wr j Append sc model vd)" for model vd
    by (intro run_frame.st_prepare [OF f]) (simp_all add: steps_trivial)
  ultimately show "steps ?R (execute_with env should_abort wr j m sc opts)"
    unfolding m md by (intro run_frame.st_execute_with [OF f])
qed

section \<open>A concrete environment\<close>

text \<open>The fake client as the world, a fixed list of files (relative path, content, mtime), an
  embedder that answers one number per text, and an idle clock.\<close>

type_synonym file_list = "(string \<times> string \<times> int) list"

definition fake_root :: string where
  "fake_root = ''/data/local''"

definition fake_embedder :: "fake_qdrant embedder" where
  "fake_embedder = \<lparr>eb_probe_dimension = ret 1,
     eb_embed_all = (\<lambda>cs n. ret (map (\<lambda>c. [rat_of_nat (length c)]) cs))\<rparr>"

definition fake_path :: "file_list \<Rightarrow> string \<Rightarrow> (string \<times> int) option" where
  "fake_path files p = map_of (map (\<lambda>(rel, content, mt). (path_join fake_root rel, (content, mt))) files) p"

definition fake_read :: "file_list \<Rightarrow> string \<Rightarrow> (fake_qdrant, string) eff" where
  "fake_read files p = (case fake_path files p of
     None \<Rightarrow> raise (PyError ''FileNotFoundError'' p) | Some (content, mt) \<Rightarrow> ret content)"

definition fake_env :: "file_list \<Rightarrow> fake_qdrant run_env" where
  "fake_env files = \<lparr>re_settings = sample_settings, re_writer_factory = (\<lambda>c. ret fake_writer),
     re_extract = \<lparr>ee_tika_extract = (\<lambda>p n. raise (TikaError ''no tika'' True)), ee_read_text = fake_read files,
       ee_json_pretty = Inr, ee_yaml_load = (\<lambda>s. Inr JNull), ee_yaml_dump = (\<lambda>v. Inr [])\<rparr>,
     re_embedder_factory = (\<lambda>m. ret fake_embedder),
     re_sync = (\<lambda>j st. ret \<lparr>sy_ok = True, sy_returncode = 0, sy_stderr_tail = [],
       sy_duration_seconds = 0, sy_skipped = True\<rparr>),
     re_interval = 2, re_clock = ret 0, re_now = ret ''2026-01-05T00:00:00+00:00'', re_uuid4 = ret ''run-1'',
     re_begin = ret (),
     re_fs = \<lparr>fs_is_dir = (\<lambda>p. ret (p = fake_root)),
       fs_rglob = (\<lambda>p. ret (map (\<lambda>(rel, content, mt). (path_join fake_root rel, rel)) files)),
       fs_is_file = (\<lambda>p. ret (fake_path files p \<noteq> None)),
       fs_stat = (\<lambda>p. case fake_path files p of None \<Rightarrow> raise (PyError ''FileNotFoundError'' p)
          | Some (content, mt) \<Rightarrow> ret (int (length content), mt))\<rparr>,
     re_read_bytes = fake_read files, re_mtime_iso = (\<lambda>n. Inr ''mtime''), re_sha256 = id\<rparr>"

lemma fake_env_keeps:
  assumes "\<And>w. Q w w"
  shows "env_keeps Q (fake_env files) (ret b)"
  using assms
  by (auto simp: env_keeps_def fake_env_def fake_embedder_def fake_read_def steps_def ret_def raise_def
      split: option.split)

interpretation fake_run: run_world fake_view fake_uuid5 "fake_env files" "ret b" for files b
proof
  show "env_keeps (\<lambda>a b. fake_view b = fake_view a) (fake_env files) (ret b)"
    by (rule fake_env_keeps) simp
  show "qdrant fake_view (qw_client wr) \<and> qw_uuid5 wr = fake_uuid5 \<and>
      qw_meta_collection wr = set_embed_meta_collection (re_settings (fake_env files))"
    if "re_writer_factory (fake_env files) c w = (Inr wr, w')" for c w wr w'
    using that fake.qdrant_axioms by (simp add: fake_env_def fake_writer_def sample_settings_def)
qed

text \<open>The frames of a run, for a dry run over the fake store.\<close>

interpretation fake_env_frame: env_frame "\<lambda>a b. fake_view b = fake_view a" docs_same "fake_env files" "ret b" for files b
  by (rule fake_run.dry_env_frame)

interpretation fake_run_frame: run_frame "\<lambda>a b. fake_view b = fake_view a" docs_same "fake_env files" "ret b"
    fake_writer j "\<lambda>s. False" for files b j
  by (rule fake_run.dry_run_frame) (simp add: fake_env_def ret_def)

definition fake_start :: "fake_qdrant run_state" where
  "fake_start = \<lparr>rs_world = \<lparr>fq_collections = [], fq_upsert_calls = 0, fq_raise_on_get_collections = None\<rparr>,
     rs_db = empty_db, rs_run = sample_run ''-'' ''-'' Running, rs_last_flush = 0\<rparr>"

definition plain_opts :: run_options where
  "plain_opts = \<lparr>ro_force = False, ro_dry_run = False, ro_skip_sync = False, ro_delete_vanished = True,
     ro_siblings = []\<rparr>"

definition sample_files :: file_list where
  "sample_files = [(''a.md'', ''# A\<newline>one'', 1), (''b.txt'', ''two words'', 2)]"

section \<open>Safety properties of a run\<close>

text \<open>C3: A dry run writes nothing: whatever the mode, and whether the run succeeds, fails or
  raises, the collections and the tracked documents are what they were.\<close>

theorem dry_run_writes_nothing:
  assumes "run_world view uuid5 env should_abort" and "ro_dry_run opts"
    and "run_job env should_abort j trigger rid md scope opts s = (res, t)"
  shows "view (rs_world t) = view (rs_world s) \<and> db_documents (rs_db t) = db_documents (rs_db s)"
  using stepsD [OF run_world.dry_run_job [OF assms(1,2), where j = j and trigger = trigger and rid = rid
      and md = md and scope = scope], where s = s] assms(3)
  by (simp add: rel2_def docs_same_def)

theorem dry_run_writes_nothing_witness:
  "db_documents (rs_db (snd (run_job (fake_env sample_files) (ret False) sample_job TrigRest None
     (Some Full) (Some ScopeCollection) (plain_opts\<lparr>ro_dry_run := True\<rparr>) fake_start))) = []"
proof -
  obtain res t where r: "run_job (fake_env sample_files) (ret False) sample_job TrigRest None
      (Some Full) (Some ScopeCollection) (plain_opts\<lparr>ro_dry_run := True\<rparr>) fake_start = (res, t)" by fastforce
  have "db_documents (rs_db fake_start) = []" by (simp add: fake_start_def empty_db_def)
  with dry_run_writes_nothing [OF fake_run.run_world_axioms _ r] r show ?thesis by simp
qed

text \<open>C1: A run stays in its scope: unless it is a full run over the whole collection, and
  whether it succeeds, fails or raises, every other collection and every other meta record is
  what it was, every point of another job in the target collection is kept as it was (given
  that no such point carries an id of this job), and so is every document row of another job.\<close>

theorem run_keeps_other_jobs:
  assumes "run_world view uuid5 env should_abort"
    and "or_default md (job_mode j) = Full \<longrightarrow> or_default scope (job_full_scope j) = ScopeJob"
    and "no_reserved_keys (tgt_extra_payload (job_target j))"
    and "job_collection j \<noteq> set_embed_meta_collection (re_settings env)"
    and "run_job env should_abort j trigger rid md scope opts s = (res, t)"
  shows "collections_kept (job_collection j) (set_embed_meta_collection (re_settings env))
      (meta_point_id uuid5 (job_collection j)) (view (rs_world s)) (view (rs_world t)) \<and>
    jobs_kept (job_id j) uuid5 (job_collection j) (view (rs_world s)) (view (rs_world t)) \<and>
    filter (\<lambda>d. doc_job d \<noteq> job_id j) (db_documents (rs_db t)) =
      filter (\<lambda>d. doc_job d \<noteq> job_id j) (db_documents (rs_db s))"
  using stepsD [OF run_world.scope_run_job [OF assms(1-4), where trigger = trigger and rid = rid
      and opts = opts], where s = s] assms(5)
  by (simp add: rel2_def run_world.scope_kept_def [OF assms(1)] other_rows_same_def)

text \<open>A collection that holds a point of another job.\<close>

definition fake_shared :: "fake_qdrant run_state" where
  "fake_shared = fake_start\<lparr>rs_world := \<lparr>fq_collections =
     [(''kb'', \<lparr>fc_dim = 1, fc_points = [(''x'', [1], [(''ingest_job'', JStr ''other''), (''text'', JStr ''t'')])],
        fc_indexes = {}\<rparr>)], fq_upsert_calls = 0, fq_raise_on_get_collections = None\<rparr>\<rparr>"

theorem run_keeps_other_jobs_witness:
  "pts (fake_view (rs_world (snd (run_job (fake_env sample_files) (ret False) sample_job TrigRest None
     (Some Full) None plain_opts fake_shared)))) ''kb'' ''x'' =
   Some ([1], [(''ingest_job'', JStr ''other''), (''text'', JStr ''t'')])"
proof -
  let ?p = "[(''ingest_job'', JStr ''other''), (''text'', JStr ''t'')]"
  obtain res t where r: "run_job (fake_env sample_files) (ret False) sample_job TrigRest None
      (Some Full) None plain_opts fake_shared = (res, t)" by fastforce
  have o: "pts (fake_view (rs_world fake_shared)) ''kb'' = [''x'' \<mapsto> ([1], ?p)]"
    by (simp add: fake_shared_def fake_view_def pts_def)
  then have "foreign_ids ''acme'' fake_uuid5 (pts (fake_view (rs_world fake_shared)) ''kb'')"
    by (simp add: foreign_ids_def point_id_def fake_uuid5_def INGEST_NAMESPACE_def NAMESPACE_URL_def)
  moreover have "foreign ''acme'' ?p" by (simp add: foreign_def job_filter_def)
  moreover have "set_embed_meta_collection (re_settings (fake_env sample_files)) = ''_collection_meta''"
    by (simp add: fake_env_def sample_settings_def)
  ultimately show ?thesis
    using run_keeps_other_jobs [OF fake_run.run_world_axioms _ _ _ r] o
    by (simp add: r or_default_def no_reserved_keys_def jobs_kept_def)
qed

text \<open>With a probe that uses the state, a run in append mode, however it ends, leaves the row of every
  tracked file exactly as it was, whatever the row says of the file. A source with a \<open>!\<close> is left
  out: it may be an attachment, whose row is written with its container.\<close>

lemma append_keeps_tracked:
  assumes "or_default md (job_mode j) = Append" and "job_append_probe j \<noteq> ProbeQdrant"
    and "no_reserved_keys (tgt_extra_payload (job_target j))"
    and "run_job env should_abort j trigger rid md scope opts s = (res, t)"
    and "src \<in> list_sources (rs_db s) (job_id j)" and "CHR ''!'' \<notin> set src"
  shows "get_document (rs_db t) (job_id j) src = get_document (rs_db s) (job_id j) src"
proof -
  have "steps (rel2 (\<lambda>a b. True) (rows_kept {src} (job_id j))) (run_job env should_abort j trigger rid md scope opts)"
    by (rule append_run_job [OF assms(3) _ assms(2,1)]) (use assms(6) in simp)
  from stepsD [OF this, of s] assms(4,5) show ?thesis by (simp add: rel2_def rows_kept_def)
qed

text \<open>C13: Append leaves what is indexed alone: with an append probe other than \<open>qdrant\<close> (\<open>state\<close> or
  \<open>auto\<close>, which take the state as what is known) a run in append mode, however it ends, leaves the
  row of a file that the job has indexed exactly as it was, changed or not. The source of the file
  has no \<open>!\<close> in it, since an attachment is written with its container.\<close>

theorem append_keeps_indexed:
  assumes "or_default md (job_mode j) = Append" and "job_append_probe j \<noteq> ProbeQdrant"
    and "no_reserved_keys (tgt_extra_payload (job_target j))"
    and "run_job env should_abort j trigger rid md scope opts s = (res, t)"
    and "get_document (rs_db s) (job_id j) src = Some d" and "doc_status d = Indexed" and "CHR ''!'' \<notin> set src"
  shows "get_document (rs_db t) (job_id j) src = Some d"
  using append_keeps_tracked [OF assms(1-4) _ assms(7)] assms(5) by (simp add: list_sources_get)

definition fake_tracked :: "fake_qdrant run_state" where
  "fake_tracked = fake_start\<lparr>rs_db := empty_db\<lparr>db_documents := [sample_doc ''local://docs/a.md'' ''a.md'']\<rparr>\<rparr>"

theorem append_keeps_indexed_witness:
  "get_document (rs_db (snd (run_job (fake_env sample_files) (ret False) sample_job TrigRest None
     (Some Append) None plain_opts fake_tracked))) ''acme'' ''local://docs/a.md'' =
   Some (sample_doc ''local://docs/a.md'' ''a.md'')"
proof -
  obtain res t where r: "run_job (fake_env sample_files) (ret False) sample_job TrigRest None
      (Some Append) None plain_opts fake_tracked = (res, t)" by fastforce
  have "get_document (rs_db fake_tracked) ''acme'' ''local://docs/a.md'' =
      Some (sample_doc ''local://docs/a.md'' ''a.md'')"
    by (simp add: fake_tracked_def get_document_def sample_doc_def)
  moreover have "job_append_probe sample_job = ProbeAuto" by (simp add: sample_job_def)
  moreover have "doc_status (sample_doc ''local://docs/a.md'' ''a.md'') = Indexed" by (simp add: sample_doc_def)
  ultimately show ?thesis
    using append_keeps_indexed [OF _ _ _ r, where src = "''local://docs/a.md''"]
    by (simp add: r or_default_def no_reserved_keys_def)
qed

end
