(* ===== verification/RunResult.thy ===== *)
theory RunResult
  imports RunSafety
begin

text \<open>
  What a run achieves: the functional properties of the per-document pipeline, of the
  deletion phase and of the generation sweep. The first lemmas invert the effects of the
  runner on normal returns.
\<close>

section \<open>Inverting effects\<close>

lemma in_world_eq: "in_world m s = (r, t) \<longleftrightarrow> (\<exists>w. m (rs_world s) = (r, w) \<and> t = s\<lparr>rs_world := w\<rparr>)"
  by (auto simp: in_world_def split: prod.split)

lemma upd_run_eq: "upd_run f s = (r, t) \<longleftrightarrow> r = Inr () \<and> t = s\<lparr>rs_run := f (rs_run s)\<rparr>"
  by (simp add: upd_run_def)

lemma db_read_eq: "db_read f s = (r, t) \<longleftrightarrow> r = Inr (f (rs_db s)) \<and> t = s"
  by (simp add: db_read_def)

lemma db_write_Inr:
  "db_write env f s = (Inr x, t) \<longleftrightarrow>
     (\<exists>w. re_begin env (rs_world s) = (Inr (), w) \<and> t = s\<lparr>rs_world := w, rs_db := f (rs_db s)\<rparr>)"
  by (auto simp: db_write_def seqE_Inr in_world_eq)

lemmas run_inv = bindE_Inr seqE_Inr in_world_eq upd_run_eq db_read_eq db_write_Inr

text \<open>A write that raises has changed nothing.\<close>

lemma db_write_Inl: "db_write env f s = (Inl e, t) \<Longrightarrow> rs_db t = rs_db s \<and> rs_run t = rs_run s"
  by (auto simp: db_write_def seqE_Inl in_world_eq)

text \<open>The effects that leave the database alone.\<close>

definition db_same :: "'w run_state \<Rightarrow> 'w run_state \<Rightarrow> bool" where
  "db_same s t \<longleftrightarrow> rs_db t = rs_db s"

lemma db_same_frame: "frame db_same"
  by unfold_locales (auto simp: db_same_def)

lemma db_same_world: "steps db_same (in_world m)"
  by (auto simp: steps_def db_same_def in_world_def split: prod.split)

lemma db_same_upd: "steps db_same (upd_run f)"
  by (auto simp: steps_def db_same_def upd_run_def modify_def)

context run_world
begin

lemma quiet_view: "steps (\<lambda>a b. view b = view a) m \<Longrightarrow> m w = (r, w') \<Longrightarrow> view w' = view w"
  using stepsD [of "\<lambda>a b. view b = view a" m w] by simp

lemma quiet_now: "re_now env w = (r, w') \<Longrightarrow> view w' = view w"
  using quiet by (auto simp: env_keeps_def intro: quiet_view)

lemma quiet_begin: "re_begin env w = (r, w') \<Longrightarrow> view w' = view w"
  using quiet by (auto simp: env_keeps_def intro: quiet_view)

lemma save_row_Inr:
  assumes "save_row env j file src st ps cs ts mt n le rp s = (Inr x, t)"
  shows "view (rs_world t) = view (rs_world s) \<and> rs_run t = rs_run s \<and>
    (\<exists>now. rs_db t = upsert_document
           \<lparr>doc_job = job_id j, doc_collection = job_collection j, doc_source = src,
             doc_rel_path = (case or_else rp None of None \<Rightarrow> sf_rel_path file | Some r \<Rightarrow> r),
             doc_size = sf_size file, doc_mtime_ns = sf_mtime_ns file, doc_content_sha = cs,
             doc_params_sha = ps, doc_status = st, doc_last_run = run_id (rs_run s),
             doc_indexed_at = now, doc_text_sha = ts, doc_media_type = mt,
             doc_chunk_count = n, doc_last_error = le\<rparr> (rs_db s))"
proof -
  from assms obtain now w w' where "re_now env (rs_world s) = (Inr now, w)" "re_begin env w = (Inr (), w')"
    and "t = s\<lparr>rs_world := w', rs_db := upsert_document
           \<lparr>doc_job = job_id j, doc_collection = job_collection j, doc_source = src,
             doc_rel_path = (case or_else rp None of None \<Rightarrow> sf_rel_path file | Some r \<Rightarrow> r),
             doc_size = sf_size file, doc_mtime_ns = sf_mtime_ns file, doc_content_sha = cs,
             doc_params_sha = ps, doc_status = st, doc_last_run = run_id (rs_run s),
             doc_indexed_at = now, doc_text_sha = ts, doc_media_type = mt,
             doc_chunk_count = n, doc_last_error = le\<rparr> (rs_db s)\<rparr>"
    by (auto simp: save_row_def run_inv)
  then show ?thesis using quiet_now [of "rs_world s" "Inr now" w] quiet_begin [of w "Inr ()" w'] by auto
qed

lemma save_row_Inl: "save_row env j file src st ps cs ts mt n le rp s = (Inl e, t) \<Longrightarrow> rs_db t = rs_db s"
  by (auto simp: save_row_def bindE_Inl in_world_eq dest: db_write_Inl)

end

section \<open>One document\<close>

text \<open>The points \<open>_index_document\<close> builds.\<close>

definition doc_points ::
  "uuid5_fun \<Rightarrow> job \<Rightarrow> string \<Rightarrow> scanned_file \<Rightarrow> string \<Rightarrow> string \<Rightarrow> processed_file \<Rightarrow> string \<Rightarrow> string \<Rightarrow> string \<Rightarrow> string \<Rightarrow>
   string list \<Rightarrow> rat list list \<Rightarrow> point list" where
  "doc_points u j rid file src rel_path p content_sha model mi ing chunks vectors =
     map (\<lambda>(idx, chunk, vector).
       \<lparr>pt_id = point_id u (job_id j) src idx, pt_vector = vector,
         pt_payload = point_payload j rid file src rel_path p content_sha model mi ing (length chunks) idx chunk\<rparr>)
       (zip [0..<length chunks] (zip chunks vectors))"

lemma doc_points_nth:
  assumes "length vectors = length chunks" and "i < length chunks"
  shows "doc_points u j rid file src rel_path p sha model mi ing chunks vectors ! i =
    \<lparr>pt_id = point_id u (job_id j) src i, pt_vector = vectors ! i,
     pt_payload = point_payload j rid file src rel_path p sha model mi ing (length chunks) i (chunks ! i)\<rparr>"
  using assms by (simp add: doc_points_def)

lemma length_doc_points:
  "length vectors = length chunks \<Longrightarrow>
   length (doc_points u j rid file src rel_path p sha model mi ing chunks vectors) = length chunks"
  by (simp add: doc_points_def)

lemma upserted_untouched: "i \<notin> pt_id ` set ps \<Longrightarrow> upserted ps m i = m i"
  by (induction ps arbitrary: m) (auto simp: upserted_def put_point_def)

lemma upserted_in: "distinct (map pt_id ps) \<Longrightarrow> p \<in> set ps \<Longrightarrow> upserted ps m (pt_id p) = Some (pt_vector p, pt_payload p)"
proof (induction ps arbitrary: m)
  case (Cons q ps)
  have step: "upserted (q # ps) m = upserted ps (put_point q m)" by (simp add: upserted_def)
  show ?case
  proof (cases "p \<in> set ps")
    case True
    with Cons show ?thesis by (simp add: step)
  next
    case False
    with Cons.prems have "p = q" "pt_id q \<notin> pt_id ` set ps" by auto
    then show ?thesis by (simp add: step put_point_def upserted_untouched)
  qed
qed simp

text \<open>What \<open>_index_document\<close> does with the vectors.\<close>

definition index_vectors ::
  "'w run_env \<Rightarrow> 'w qwriter \<Rightarrow> job \<Rightarrow> scanned_file \<Rightarrow> string \<Rightarrow> string \<Rightarrow> string list \<Rightarrow> processed_file \<Rightarrow>
   string \<Rightarrow> string \<Rightarrow> string \<Rightarrow> string \<Rightarrow> rat list list \<Rightarrow> ('w, bool) run_eff" where
  "index_vectors env wr j file src rel_path chunks p params_sha content_sha text_sha model vectors =
     (if length vectors \<noteq> length chunks
      then seqE (upd_run (\<lambda>r. r\<lparr>run_docs_failed := run_docs_failed r + 1\<rparr>))
        (seqE (save_row env j file src FailedEmbed params_sha content_sha (Some text_sha) (pf_media_type p) 0
           (Some (str_of_nat (length chunks) @ '' chunks but '' @ str_of_nat (length vectors) @ '' vectors'')) None)
         (ret False))
      else
        seqE (in_world (delete_by_source wr (job_collection j) (job_id j) src))
        (bindE (of_sum (re_mtime_iso env (sf_mtime_ns file))) (\<lambda>mi.
        bindE (in_world (re_now env)) (\<lambda>ing.
        bindE (gets rs_run) (\<lambda>run.
          let points = doc_points (qw_uuid5 wr) j (run_id run) file src rel_path p content_sha model mi ing chunks vectors
          in seqE (in_world (upsert_points wr (job_collection j) points))
            (seqE (upd_run (\<lambda>r. r\<lparr>run_docs_indexed := run_docs_indexed r + 1,
                run_chunks_upserted := run_chunks_upserted r + int (length points)\<rparr>))
            (seqE (save_row env j file src Indexed params_sha content_sha (Some text_sha) (pf_media_type p)
                (int (length points)) None (Some rel_path))
              (ret True))))))))"

lemma index_document_alt:
  "index_document env wr j file src rel_path chunks p params_sha content_sha text_sha model =
     bindE (in_world (re_embedder_factory env model)) (\<lambda>eb.
     bindE (in_world (eb_embed_all eb chunks (batch_size_of env j))) (\<lambda>vectors.
     seqE (upd_run (\<lambda>r. r\<lparr>run_embed_calls := run_embed_calls r + batches (length chunks) (batch_size_of env j)\<rparr>))
       (index_vectors env wr j file src rel_path chunks p params_sha content_sha text_sha model vectors)))"
  unfolding index_document_def index_vectors_def doc_points_def by (rule refl)

text \<open>A row that this run wrote for the file as it is now.\<close>

definition fresh_row :: "string \<Rightarrow> string \<Rightarrow> scanned_file \<Rightarrow> document_row \<Rightarrow> bool" where
  "fresh_row rid params_sha file d \<longleftrightarrow>
     doc_last_run d = rid \<and> doc_params_sha d = params_sha \<and> doc_size d = sf_size file \<and> doc_mtime_ns d = sf_mtime_ns file"

context run_world
begin

lemma save_row_fresh:
  assumes "save_row env j file src st ps cs ts mt n le rp s = (Inr x, t)"
  shows "\<exists>d. get_document (rs_db t) (job_id j) src = Some d \<and> fresh_row (run_id (rs_run s)) ps file d \<and>
    doc_status d = st \<and> doc_content_sha d = cs \<and> doc_text_sha d = ts \<and> doc_chunk_count d = n"
  using save_row_Inr [OF assms] by (auto simp: get_document_upsert fresh_row_def)

lemma index_vectors_failed:
  assumes "index_vectors env wr j file src rel_path chunks p params_sha content_sha text_sha model vectors s = (Inr ok, t)"
    and "length vectors \<noteq> length chunks"
  shows "\<not> ok \<and> view (rs_world t) = view (rs_world s) \<and>
    (\<exists>d. get_document (rs_db t) (job_id j) src = Some d \<and> doc_status d = FailedEmbed \<and>
      fresh_row (run_id (rs_run s)) params_sha file d)"
proof -
  define s3 where "s3 = s\<lparr>rs_run := (rs_run s)\<lparr>run_docs_failed := run_docs_failed (rs_run s) + 1\<rparr>\<rparr>"
  from assms have sv: "save_row env j file src FailedEmbed params_sha content_sha (Some text_sha) (pf_media_type p) 0
      (Some (str_of_nat (length chunks) @ '' chunks but '' @ str_of_nat (length vectors) @ '' vectors'')) None s3 = (Inr (), t)"
    and "\<not> ok"
    by (auto simp: index_vectors_def seqE_Inr upd_run_eq s3_def)
  with save_row_Inr [OF sv] save_row_fresh [OF sv] show ?thesis by (auto simp: s3_def)
qed

lemma upsert_points_view:
  assumes "qdrant view (qw_client wr)" and "upsert_points wr c ps w = (Inr (), w')"
  shows "pts (view w') c = upserted ps (pts (view w) c)"
proof (cases "ps = []")
  case True
  with assms(2) show ?thesis by (simp add: upsert_points_def whenE_def upserted_def)
next
  case False
  with assms(2) have "qc_upsert (qw_client wr) c ps w = (Inr (), w')" by (simp add: upsert_points_def whenE_def)
  then show ?thesis by (cases rule: qdrant.upsert_points_cases [OF assms(1)]) (auto simp: pts_Some)
qed

lemma index_vectors_done:
  assumes q: "qdrant view (qw_client wr)" and u: "qw_uuid5 wr = uuid5" and l: "length vectors = length chunks"
    and i: "index_vectors env wr j file src rel_path chunks p params_sha content_sha text_sha model vectors s = (Inr ok, t)"
  shows "ok \<and> (\<exists>mi ing. pts (view (rs_world t)) (job_collection j) =
      upserted (doc_points uuid5 j (run_id (rs_run s)) file src rel_path p content_sha model mi ing chunks vectors)
        (without_matching (source_filter (job_id j) src) (pts (view (rs_world s)) (job_collection j)))) \<and>
    (\<exists>d. get_document (rs_db t) (job_id j) src = Some d \<and> doc_status d = Indexed \<and>
      doc_chunk_count d = int (length chunks) \<and> doc_content_sha d = content_sha \<and>
      fresh_row (run_id (rs_run s)) params_sha file d)"
proof -
  let ?c = "job_collection j" and ?f = "source_filter (job_id j) src"
  define s5 where "s5 = (\<lambda>w5 :: 'w. s\<lparr>rs_world := w5, rs_run := (rs_run s)\<lparr>
      run_docs_indexed := run_docs_indexed (rs_run s) + 1,
      run_chunks_upserted := run_chunks_upserted (rs_run s) + int (length chunks)\<rparr>\<rparr>)"
  from l i obtain w3 mi ing w4 w5 where del: "delete_by_source wr ?c (job_id j) src (rs_world s) = (Inr (), w3)"
    and now: "re_now env w3 = (Inr ing, w4)"
    and up: "upsert_points wr ?c (doc_points uuid5 j (run_id (rs_run s)) file src rel_path p content_sha model mi ing chunks vectors) w4 = (Inr (), w5)"
    and sv: "save_row env j file src Indexed params_sha content_sha (Some text_sha) (pf_media_type p)
      (int (length chunks)) None (Some rel_path) (s5 w5) = (Inr (), t)" and ok: ok
    by (auto simp: index_vectors_def run_inv Let_def u length_doc_points [OF l] s5_def)
  from del have "qc_delete (qw_client wr) ?c ?f (rs_world s) = (Inr (), w3)" by (simp add: delete_by_source_def)
  then have "pts (view w3) ?c = without_matching ?f (pts (view (rs_world s)) ?c)"
    by (cases rule: qdrant.delete_points_cases [OF q]) (auto simp: pts_Some)
  then have "pts (view (rs_world t)) ?c =
      upserted (doc_points uuid5 j (run_id (rs_run s)) file src rel_path p content_sha model mi ing chunks vectors)
        (without_matching ?f (pts (view (rs_world s)) ?c))"
    using save_row_Inr [OF sv] upsert_points_view [OF q up] quiet_now [OF now] by (simp add: s5_def)
  with ok save_row_fresh [OF sv] show ?thesis by (auto simp: s5_def)
qed

text \<open>A document whose points were written: what the collection and the row are afterwards.\<close>

lemma index_document_Inr:
  assumes q: "qdrant view (qw_client wr)" and u: "qw_uuid5 wr = uuid5"
    and i: "index_document env wr j file src rel_path chunks p params_sha content_sha text_sha model s = (Inr ok, t)"
  shows "(\<not> ok \<longrightarrow> view (rs_world t) = view (rs_world s) \<and>
      (\<exists>d. get_document (rs_db t) (job_id j) src = Some d \<and> doc_status d = FailedEmbed \<and>
        fresh_row (run_id (rs_run s)) params_sha file d)) \<and>
    (ok \<longrightarrow>
      (\<exists>vectors mi ing d. length vectors = length chunks \<and>
        pts (view (rs_world t)) (job_collection j) =
          upserted (doc_points uuid5 j (run_id (rs_run s)) file src rel_path p content_sha model mi ing chunks vectors)
            (without_matching (source_filter (job_id j) src) (pts (view (rs_world s)) (job_collection j))) \<and>
        get_document (rs_db t) (job_id j) src = Some d \<and> doc_status d = Indexed \<and>
        doc_chunk_count d = int (length chunks) \<and> doc_content_sha d = content_sha \<and>
        fresh_row (run_id (rs_run s)) params_sha file d))"
proof -
  let ?vectors = "index_vectors env wr j file src rel_path chunks p params_sha content_sha text_sha model"
  define s2 where "s2 = (\<lambda>w2 :: 'w. s\<lparr>rs_world := w2, rs_run := (rs_run s)\<lparr>run_embed_calls :=
      run_embed_calls (rs_run s) + batches (length chunks) (batch_size_of env j)\<rparr>\<rparr>)"
  from i obtain eb w1 where eb: "re_embedder_factory env model (rs_world s) = (Inr eb, w1)"
    and "bindE (in_world (eb_embed_all eb chunks (batch_size_of env j))) (\<lambda>vectors.
      seqE (upd_run (\<lambda>r. r\<lparr>run_embed_calls := run_embed_calls r + batches (length chunks) (batch_size_of env j)\<rparr>))
        (?vectors vectors)) (s\<lparr>rs_world := w1\<rparr>) = (Inr ok, t)"
    unfolding index_document_alt bindE_Inr in_world_eq by blast
  then obtain vectors w2 where v: "eb_embed_all eb chunks (batch_size_of env j) w1 = (Inr vectors, w2)"
    and br: "?vectors vectors (s2 w2) = (Inr ok, t)"
    by (auto simp: bindE_Inr seqE_Inr in_world_eq upd_run_eq s2_def)
  have f: "steps (\<lambda>a b. view b = view a) (re_embedder_factory env model)" using quiet by (simp add: env_keeps_def)
  have e: "steps (\<lambda>a b. view b = view a) (eb_embed_all eb chunks (batch_size_of env j))"
    using quiet eb unfolding env_keeps_def by blast
  from quiet_view [OF f eb] quiet_view [OF e v] have "view w2 = view (rs_world s)" by simp
  then have s2: "view (rs_world (s2 w2)) = view (rs_world s)" "run_id (rs_run (s2 w2)) = run_id (rs_run s)"
    by (simp_all add: s2_def)
  show ?thesis
  proof (cases "length vectors = length chunks")
    case False
    from index_vectors_failed [OF br False] s2 show ?thesis by simp
  next
    case True
    from index_vectors_done [OF q u True br] s2 True show ?thesis by auto
  qed
qed

lemma index_document_Inl:
  assumes "index_document env wr j file src rel_path chunks p params_sha content_sha text_sha model s = (Inl e, t)"
  shows "rs_db t = rs_db s"
  using assms unfolding index_document_def
  by (auto simp: bindE_Inl bindE_Inr seqE_Inl seqE_Inr in_world_eq upd_run_eq Let_def split: if_splits
      dest: save_row_Inl)

end

text \<open>The points the collection holds for a source of a job.\<close>

definition source_points :: "string \<Rightarrow> string \<Rightarrow> points \<Rightarrow> string set" where
  "source_points jid src m =
     {i. \<exists>v p. m i = Some (v, p) \<and> filter_matches (Some (source_filter jid src)) p}"

definition text_at :: "points \<Rightarrow> string \<Rightarrow> jval option" where
  "text_at m i = (case m i of None \<Rightarrow> None | Some (v, p) \<Rightarrow> map_of p ''text'')"

lemma doc_points_ids:
  assumes "length vectors = length chunks"
  shows "map pt_id (doc_points u j rid file src rel p sha model mi ing chunks vectors) =
    map (point_id u (job_id j) src) [0..<length chunks]"
  using assms by (intro nth_equalityI) (simp_all add: length_doc_points doc_points_nth)

lemma upserted_doc_points:
  assumes l: "length vectors = length chunks" and inj: "inj (point_id u (job_id j) src)"
    and x: "no_reserved_keys (tgt_extra_payload (job_target j))" and i: "i < length chunks"
  shows "\<exists>p'. upserted (doc_points u j rid file src rel p sha model mi ing chunks vectors) m (point_id u (job_id j) src i) =
      Some (vectors ! i, p') \<and> map_of p' ''text'' = Some (JStr (chunks ! i)) \<and>
      filter_matches (Some (source_filter (job_id j) src)) p' \<and> map_of p' ''ingest_run'' = Some (JStr rid)"
proof -
  let ?ps = "doc_points u j rid file src rel p sha model mi ing chunks vectors"
  have "?ps ! i \<in> set ?ps" using i by (simp add: length_doc_points [OF l])
  moreover have "distinct (map pt_id ?ps)"
    by (simp add: doc_points_ids [OF l] distinct_map inj_on_subset [OF inj])
  ultimately have "upserted ?ps m (pt_id (?ps ! i)) = Some (pt_vector (?ps ! i), pt_payload (?ps ! i))"
    by (intro upserted_in)
  then show ?thesis
    using point_payload_keys [OF x]
    by (simp add: doc_points_nth [OF l i] source_filter_def job_filter_def)
qed

lemma source_points_indexed:
  assumes l: "length vectors = length chunks" and inj: "inj (point_id u (job_id j) src)"
    and x: "no_reserved_keys (tgt_extra_payload (job_target j))"
  shows "source_points (job_id j) src (upserted (doc_points u j rid file src rel p sha model mi ing chunks vectors)
      (without_matching (source_filter (job_id j) src) m)) = point_id u (job_id j) src ` {..<length chunks}"
    (is "source_points _ _ (upserted ?ps ?m) = ?ids")
proof (intro equalityI subsetI)
  fix i assume i: "i \<in> source_points (job_id j) src (upserted ?ps ?m)"
  show "i \<in> ?ids"
  proof (rule ccontr)
    assume "i \<notin> ?ids"
    moreover have ids: "map pt_id ?ps = map (point_id u (job_id j) src) [0..<length chunks]"
      by (rule doc_points_ids [OF l])
    have "pt_id ` set ?ps = ?ids" using arg_cong [OF ids, of set] by (simp add: lessThan_atLeast0)
    ultimately have "upserted ?ps ?m i = ?m i" by (simp add: upserted_untouched)
    with i show False by (auto simp: source_points_def without_matching_def split: option.splits if_splits)
  qed
next
  fix i assume "i \<in> ?ids"
  then show "i \<in> source_points (job_id j) src (upserted ?ps ?m)"
    using upserted_doc_points [OF l inj x] by (fastforce simp: source_points_def simp del: filter_matches.simps)
qed

section \<open>Properties\<close>

text \<open>C4: A document is committed last: if \<open>_index_document\<close> raises, the tracked documents are
  what they were; if it returns \<open>False\<close> the collection is untouched and the row says
  \<open>failed_embed\<close>; if it returns \<open>True\<close> the points of the source are exactly those of its
  chunks, chunk \<open>i\<close> under the id of index \<open>i\<close>, and the row is \<open>indexed\<close> with their number,
  the hashes and this run (given ids that differ by chunk index).\<close>

theorem index_document_commits_last:
  assumes "run_world view uuid5 env should_abort" and "re_writer_factory env conn w0 = (Inr wr, w1)"
    and "no_reserved_keys (tgt_extra_payload (job_target j))" and "inj (point_id uuid5 (job_id j) src)"
    and "index_document env wr j file src rel_path chunks p params_sha content_sha text_sha model s = (res, t)"
  shows "case res of
      Inl e \<Rightarrow> db_documents (rs_db t) = db_documents (rs_db s)
    | Inr ok \<Rightarrow> (\<exists>d. get_document (rs_db t) (job_id j) src = Some d \<and>
        (if \<not> ok then view (rs_world t) = view (rs_world s) \<and> doc_status d = FailedEmbed
         else doc_status d = Indexed \<and> doc_chunk_count d = int (length chunks) \<and>
           doc_content_sha d = content_sha \<and> doc_params_sha d = params_sha \<and> doc_last_run d = run_id (rs_run s) \<and>
           source_points (job_id j) src (pts (view (rs_world t)) (job_collection j)) =
             point_id uuid5 (job_id j) src ` {..<length chunks} \<and>
           (\<forall>i < length chunks. text_at (pts (view (rs_world t)) (job_collection j)) (point_id uuid5 (job_id j) src i) =
             Some (JStr (chunks ! i)))))"
proof (cases res)
  case (Inl e)
  with run_world.index_document_Inl [OF assms(1)] assms(5) show ?thesis by simp
next
  case (Inr ok)
  from run_world.factory [OF assms(1,2)] have q: "qdrant view (qw_client wr)" "qw_uuid5 wr = uuid5" by simp_all
  note spec = run_world.index_document_Inr [OF assms(1) q assms(5) [unfolded Inr], unfolded fresh_row_def]
  show ?thesis
  proof (cases ok)
    case False
    with spec Inr show ?thesis by auto
  next
    case True
    with spec obtain vectors mi ing d where l: "length vectors = length chunks"
      and m: "pts (view (rs_world t)) (job_collection j) =
          upserted (doc_points uuid5 j (run_id (rs_run s)) file src rel_path p content_sha model mi ing chunks vectors)
            (without_matching (source_filter (job_id j) src) (pts (view (rs_world s)) (job_collection j)))"
      and d: "get_document (rs_db t) (job_id j) src = Some d" "doc_status d = Indexed"
        "doc_chunk_count d = int (length chunks)" "doc_content_sha d = content_sha"
        "doc_params_sha d = params_sha" "doc_last_run d = run_id (rs_run s)" by blast
    have "text_at (pts (view (rs_world t)) (job_collection j)) (point_id uuid5 (job_id j) src i) = Some (JStr (chunks ! i))"
      if "i < length chunks" for i
    proof -
      from upserted_doc_points [OF l assms(4,3) that] obtain p' where
        "pts (view (rs_world t)) (job_collection j) (point_id uuid5 (job_id j) src i) = Some (vectors ! i, p')"
        and "map_of p' ''text'' = Some (JStr (chunks ! i))" unfolding m by blast
      then show ?thesis by (simp add: text_at_def)
    qed
    with source_points_indexed [OF l assms(4,3)] d True Inr show ?thesis by (simp add: m)
  qed
qed

lemma fake_ids_inj: "inj (point_id fake_uuid5 jid src)"
  by (rule injI) (auto simp: point_id_def point_seed_def fake_uuid5_def str_of_nat_inj)

definition sample_file :: scanned_file where
  "sample_file = \<lparr>sf_abs_path = ''/data/local/a.md'', sf_rel_path = ''a.md'', sf_size = 7, sf_mtime_ns = 1\<rparr>"

definition sample_indexing :: "(exc + bool) \<times> fake_qdrant run_state" where
  "sample_indexing = index_document (fake_env []) fake_writer sample_job sample_file ''local://docs/a.md'' ''a.md''
     [''one'', ''two'']
     \<lparr>pf_status = POk, pf_chunks = [''one'', ''two''], pf_text = ''one two'', pf_media_type = None, pf_title = ''a'',
       pf_format_class = FMarkdown, pf_embedded = []\<rparr>
     ''params'' ''content'' ''text'' ''m'' fake_shared"

lemma sample_indexing_returns: "fst sample_indexing = Inr True"
  by code_simp

theorem index_document_commits_last_witness:
  "source_points ''acme'' ''local://docs/a.md'' (pts (fake_view (rs_world (snd sample_indexing))) ''kb'') =
     point_id fake_uuid5 ''acme'' ''local://docs/a.md'' ` {..<2}"
proof -
  obtain t where r: "sample_indexing = (Inr True, t)"
    by (metis sample_indexing_returns prod.collapse)
  have w: "re_writer_factory (fake_env []) [] w = (Inr fake_writer, w)" for w
    by (simp add: fake_env_def ret_def)
  have "no_reserved_keys (tgt_extra_payload (job_target sample_job))" by (simp add: no_reserved_keys_def)
  from index_document_commits_last [OF fake_run.run_world_axioms w this fake_ids_inj r [unfolded sample_indexing_def]]
  show ?thesis by (auto simp: r eval_nat_numeral)
qed

end
