(* ===== verification/RunDelete.thy ===== *)
theory RunDelete
  imports RunResult
begin

text \<open>
  What a run deletes: the sources that vanished under the guard, and the generation sweep of
  a full run. The lemmas follow the normal returns of the deletion and cleanup phases.
\<close>

section \<open>Deleting sources\<close>

definition without_sources :: "string \<Rightarrow> string set \<Rightarrow> points \<Rightarrow> points" where
  "without_sources jid S m = (\<lambda>i. case m i of
     Some (v, p) \<Rightarrow> if \<exists>src \<in> S. filter_matches (Some (source_filter jid src)) p then None else Some (v, p)
   | None \<Rightarrow> None)"

lemma without_sources_empty [simp]: "without_sources jid {} m = m"
  by (auto simp: without_sources_def split: option.split)

lemma without_sources_step:
  "without_sources jid S (without_matching (source_filter jid src) m) = without_sources jid (insert src S) m"
  by (rule ext) (auto simp: without_sources_def without_matching_def split: option.splits)

definition drop_documents :: "string \<Rightarrow> string set \<Rightarrow> document_row list \<Rightarrow> document_row list" where
  "drop_documents jid S ds = filter (\<lambda>d. \<not> (doc_job d = jid \<and> doc_source d \<in> S)) ds"

lemma drop_documents_empty [simp]: "drop_documents jid {} ds = ds"
  by (simp add: drop_documents_def)

lemma drop_documents_step:
  "drop_documents jid S (db_documents (delete_document jid src b)) = drop_documents jid (insert src S) (db_documents b)"
  by (auto simp: drop_documents_def delete_document_def intro!: filter_cong)

context run_world
begin

lemma delete_source_Inr:
  assumes q: "qdrant view (qw_client wr)" and d: "delete_source env wr j src s = (Inr x, t)"
  shows "pts (view (rs_world t)) (job_collection j) =
      without_matching (source_filter (job_id j) src) (pts (view (rs_world s)) (job_collection j)) \<and>
    rs_db t = delete_document (job_id j) src (rs_db s) \<and>
    rs_run t = (rs_run s)\<lparr>run_docs_deleted := run_docs_deleted (rs_run s) + 1\<rparr>"
proof -
  from d obtain w w' where del: "qc_delete (qw_client wr) (job_collection j) (source_filter (job_id j) src) (rs_world s) = (Inr (), w)"
    and b: "re_begin env w = (Inr (), w')"
    and t: "t = s\<lparr>rs_world := w', rs_db := delete_document (job_id j) src (rs_db s),
        rs_run := (rs_run s)\<lparr>run_docs_deleted := run_docs_deleted (rs_run s) + 1\<rparr>\<rparr>"
    by (auto simp: delete_source_def delete_by_source_def run_inv)
  have "view w' = view w" using b by (rule quiet_begin)
  moreover have "pts (view w) (job_collection j) =
      without_matching (source_filter (job_id j) src) (pts (view (rs_world s)) (job_collection j))"
    using del by (cases rule: qdrant.delete_points_cases [OF q]) (auto simp: pts_Some)
  ultimately show ?thesis by (simp add: t)
qed

lemma delete_each_Inr:
  assumes q: "qdrant view (qw_client wr)"
  shows "for_each xs (delete_source env wr j) s = (Inr x, t) \<Longrightarrow>
    pts (view (rs_world t)) (job_collection j) =
      without_sources (job_id j) (set xs) (pts (view (rs_world s)) (job_collection j)) \<and>
    db_documents (rs_db t) = drop_documents (job_id j) (set xs) (db_documents (rs_db s)) \<and>
    rs_run t = (rs_run s)\<lparr>run_docs_deleted := run_docs_deleted (rs_run s) + int (length xs)\<rparr>"
proof (induction xs arbitrary: s)
  case (Cons src xs)
  from Cons.prems obtain u where u: "delete_source env wr j src s = (Inr (), u)"
    and k: "for_each xs (delete_source env wr j) u = (Inr x, t)" by (auto simp: seqE_Inr)
  from delete_source_Inr [OF q u] Cons.IH [OF k] show ?case
    by (simp add: without_sources_step drop_documents_step)
qed simp

text \<open>An event, or a deletion that raised, changes no points by itself.\<close>

lemma emit_event_Inr:
  assumes "emit_event env lvl m src s = (Inr x, t)"
  shows "view (rs_world t) = view (rs_world s) \<and> db_documents (rs_db t) = db_documents (rs_db s) \<and> rs_run t = rs_run s"
proof -
  from assms obtain now w w' where "re_now env (rs_world s) = (Inr now, w)" "re_begin env w = (Inr (), w')"
    "t = s\<lparr>rs_world := w', rs_db := add_event now (run_id (rs_run s)) lvl m src (rs_db s)\<rparr>"
    by (auto simp: emit_event_def run_inv)
  then show ?thesis using quiet_now [of "rs_world s" "Inr now" w] quiet_begin [of w "Inr ()" w']
    by (simp add: event_documents)
qed

end

text \<open>The sources that count as vanished in a state, and the guard's verdict on them.\<close>

abbreviation vanished_in :: "db \<Rightarrow> job \<Rightarrow> string set \<Rightarrow> string set" where
  "vanished_in b j seen \<equiv> vanished_sources (list_sources b (job_id j)) seen"

abbreviation guard_in :: "db \<Rightarrow> job \<Rightarrow> string set \<Rightarrow> bool \<Rightarrow> guard_decision" where
  "guard_in b j seen force \<equiv> check_vanished_deletion seen (list_sources b (job_id j)) (job_safety j) force"

lemma finite_vanished: "finite (vanished_in b j seen)"
  by (simp add: vanished_sources_def list_sources_def)

lemma delete_vanished_cases:
  assumes "delete_vanished_sources env wr j seen force s = (Inr (), t)"
  obtains (none) "vanished_in (rs_db s) j seen = {}" and "t = s"
  | (allowed) "vanished_in (rs_db s) j seen \<noteq> {}" and "gd_allowed (guard_in (rs_db s) j seen force)"
      and "for_each (sorted_list_of_set (vanished_in (rs_db s) j seen)) (delete_source env wr j) s = (Inr (), t)"
  | (refused) m where "vanished_in (rs_db s) j seen \<noteq> {}" and "\<not> gd_allowed (guard_in (rs_db s) j seen force)"
      and "emit_event env Error m None (s\<lparr>rs_run := (rs_run s)\<lparr>run_status := AbortedGuard,
        run_error := map_option guard_text (gd_reason (guard_in (rs_db s) j seen force))\<rparr>\<rparr>) = (Inr (), t)"
proof (cases "vanished_in (rs_db s) j seen = {}")
  case True
  with assms none show ?thesis by (simp add: delete_vanished_sources_def bindE_Inr db_read_eq Let_def)
next
  case V: False
  show ?thesis
  proof (cases "gd_allowed (guard_in (rs_db s) j seen force)")
    case True
    with V assms allowed show ?thesis by (simp add: delete_vanished_sources_def bindE_Inr db_read_eq Let_def)
  next
    case False
    with V assms refused show ?thesis
      by (auto simp: delete_vanished_sources_def bindE_Inr seqE_Inr upd_run_eq db_read_eq Let_def)
  qed
qed

lemma delete_vanished_outcome:
  assumes "run_world view uuid5 env should_abort" and "re_writer_factory env conn w0 = (Inr wr, w1)"
    and "delete_vanished_sources env wr j seen force s = (Inr (), t)"
  shows "if vanished_in (rs_db s) j seen = {} then t = s
    else if gd_allowed (guard_in (rs_db s) j seen force)
    then pts (view (rs_world t)) (job_collection j) =
        without_sources (job_id j) (vanished_in (rs_db s) j seen) (pts (view (rs_world s)) (job_collection j)) \<and>
      db_documents (rs_db t) =
        drop_documents (job_id j) (vanished_in (rs_db s) j seen) (db_documents (rs_db s)) \<and>
      run_docs_deleted (rs_run t) = run_docs_deleted (rs_run s) + int (card (vanished_in (rs_db s) j seen)) \<and>
      run_status (rs_run t) = run_status (rs_run s)
    else view (rs_world t) = view (rs_world s) \<and> db_documents (rs_db t) = db_documents (rs_db s) \<and>
      run_status (rs_run t) = AbortedGuard"
proof -
  let ?V = "vanished_in (rs_db s) j seen"
  from run_world.factory [OF assms(1,2)] have q: "qdrant view (qw_client wr)" by simp
  have f: "set (sorted_list_of_set ?V) = ?V" by (simp add: finite_vanished)
  from assms(3) show ?thesis
  proof (cases rule: delete_vanished_cases)
    case allowed
    from run_world.delete_each_Inr [OF assms(1) q allowed(3)] f allowed(1,2) show ?thesis by simp
  next
    case (refused m)
    from run_world.emit_event_Inr [OF assms(1) refused(3)] refused(1,2) show ?thesis by simp
  qed simp
qed

section \<open>Properties\<close>


text \<open>A tracked file with a point, and a run that saw another file only.\<close>

definition fake_gone :: "fake_qdrant run_state" where
  "fake_gone = fake_tracked\<lparr>rs_world := \<lparr>fq_collections =
     [(''kb'', \<lparr>fc_dim = 1, fc_points = [(''x'', [1], [(''ingest_job'', JStr ''acme''),
         (''source'', JStr ''local://docs/a.md'')])], fc_indexes = {}\<rparr>)],
     fq_upsert_calls = 0, fq_raise_on_get_collections = None\<rparr>\<rparr>"

definition sample_deletion :: "bool \<Rightarrow> (exc + unit) \<times> fake_qdrant run_state" where
  "sample_deletion force =
     delete_vanished_sources (fake_env []) fake_writer sample_job {''local://docs/b.md''} force fake_gone"

lemma sample_guard:
  "vanished_in (rs_db fake_gone) sample_job {''local://docs/b.md''} = {''local://docs/a.md''}"
  "gd_allowed (guard_in (rs_db fake_gone) sample_job {''local://docs/b.md''} True)"
  by (auto simp: vanished_sources_def list_sources_def fake_gone_def fake_tracked_def sample_doc_def before_char_def
      check_vanished_deletion_def Let_def)

lemma sample_delete_returns: "fst (delete_source (fake_env []) fake_writer sample_job ''local://docs/a.md'' fake_gone) = Inr ()"
  by code_simp

lemma sample_deletion_returns: "fst (sample_deletion True) = Inr ()"
proof -
  obtain t where "delete_source (fake_env []) fake_writer sample_job ''local://docs/a.md'' fake_gone = (Inr (), t)"
    by (metis sample_delete_returns prod.collapse)
  then show ?thesis
    unfolding sample_deletion_def delete_vanished_sources_def
    using sample_guard by (simp add: bindE_def seqE_def db_read_def gets_def Let_def ret_def)
qed


text \<open>The name of an attachment and the name of a file with an exclamation mark look alike: a file
  \<open>a.md!b.md\<close> that is gone stays indexed for as long as \<open>a.md\<close> is there.\<close>

lemma exclamation_name_survives:
  assumes "db_documents (rs_db s) =
    [sample_doc ''local://docs/a.md'' ''a.md'', sample_doc ''local://docs/a.md!b.md'' ''a.md!b.md'']"
  shows "delete_vanished_sources env wr sample_job {''local://docs/a.md''} force s = (Inr (), s)"
proof -
  have "list_sources (rs_db s) (job_id sample_job) = {''local://docs/a.md'', ''local://docs/a.md!b.md''}"
    using assms by (auto simp: list_sources_def sample_doc_def sample_job_def)
  then have "vanished_sources (list_sources (rs_db s) (job_id sample_job)) {''local://docs/a.md''} = {}"
    by (auto simp: vanished_sources_def before_char_def)
  then show ?thesis
    by (simp add: delete_vanished_sources_def bindE_def db_read_def gets_def Let_def ret_def)
qed

end
