(* ===== verification/RunRow.thy ===== *)
theory RunRow
  imports RunDelete
begin

text \<open>
  The run row while a run works: what every step may do to its identity, status, error and
  counters, lifted through all handlers, and what a finished run looks like.
\<close>

section \<open>The row invariant\<close>

text \<open>A run in progress is running without an error, or has ended with one.\<close>

definition row_inv :: "run_row \<Rightarrow> bool" where
  "row_inv r \<longleftrightarrow> run_status r \<noteq> Success \<and> (run_status r = Running \<longleftrightarrow> run_error r = None)"

definition counts_le :: "run_row \<Rightarrow> run_row \<Rightarrow> bool" where
  "counts_le r r' \<longleftrightarrow> run_docs_indexed r \<le> run_docs_indexed r' \<and> run_docs_unchanged r \<le> run_docs_unchanged r' \<and>
     run_docs_skipped_changed r \<le> run_docs_skipped_changed r' \<and> run_docs_failed r \<le> run_docs_failed r' \<and>
     run_docs_deleted r \<le> run_docs_deleted r' \<and> run_chunks_upserted r \<le> run_chunks_upserted r' \<and>
     run_embed_calls r \<le> run_embed_calls r'"

definition row_step :: "run_row \<Rightarrow> run_row \<Rightarrow> bool" where
  "row_step r r' \<longleftrightarrow> (row_inv r \<longrightarrow> row_inv r') \<and> counts_le r r' \<and> ident r' = ident r"

definition row_rel :: "'w run_state \<Rightarrow> 'w run_state \<Rightarrow> bool" where
  "row_rel s t \<longleftrightarrow> row_step (rs_run s) (rs_run t)"

lemma row_step_refl: "row_step r r"
  by (simp add: row_step_def counts_le_def)

lemma row_step_trans: "row_step r r' \<Longrightarrow> row_step r' r'' \<Longrightarrow> row_step r r''"
  by (auto simp: row_step_def counts_le_def)

interpretation row: frame row_rel
  by unfold_locales (auto simp: row_rel_def row_step_refl intro: row_step_trans)

lemma batches_nonneg: "0 \<le> batches n b"
  by (simp add: batches_def zero_le_ceiling order_less_le_trans [of "-1 :: rat" 0])

lemma row_upd_step: "(\<And>r. row_step r (f r)) \<Longrightarrow> steps row_rel (upd_run f)"
  unfolding upd_run_def by (rule row.steps_modify) (simp add: row_rel_def)

lemma row_world: "steps row_rel (in_world m)"
  by (auto simp: steps_def in_world_def row_rel_def row_step_refl split: prod.split)

lemma row_modify: "steps row_rel (modify (\<lambda>s. s\<lparr>rs_db := f (rs_db s)\<rparr>))"
  "steps row_rel (modify (\<lambda>s. s\<lparr>rs_last_flush := x\<rparr>))"
  by (rule row.steps_modify, simp add: row_rel_def row_step_refl)+

lemma row_upd:
  "steps row_rel (upd_run (\<lambda>r. r\<lparr>run_phase := f1 r\<rparr>))" "steps row_rel (upd_run (\<lambda>r. r\<lparr>run_current := f2 r\<rparr>))"
  "steps row_rel (upd_run (\<lambda>r. r\<lparr>run_embed_calls := run_embed_calls r + batches n b\<rparr>))"
  "steps row_rel (upd_run (\<lambda>r. r\<lparr>run_embed_calls := run_embed_calls r + 1\<rparr>))"
  "steps row_rel (upd_run (\<lambda>r. r\<lparr>run_docs_failed := run_docs_failed r + 1\<rparr>))"
  "steps row_rel (upd_run (\<lambda>r. r\<lparr>run_docs_indexed := run_docs_indexed r + 1,
     run_chunks_upserted := run_chunks_upserted r + int k\<rparr>))"
  "steps row_rel (upd_run (\<lambda>r. r\<lparr>run_docs_deleted := run_docs_deleted r + 1\<rparr>))"
  "steps row_rel (upd_run (\<lambda>r. r\<lparr>run_docs_unchanged := run_docs_unchanged r + 1\<rparr>))"
  "steps row_rel (upd_run (\<lambda>r. r\<lparr>run_docs_indexed := run_docs_indexed r + 1\<rparr>))"
  "steps row_rel (upd_run (\<lambda>r. r\<lparr>run_bytes_read := g1 r\<rparr>))"
  "steps row_rel (upd_run (\<lambda>r. r\<lparr>run_docs_skipped_changed := run_docs_skipped_changed r + 1\<rparr>))"
  "steps row_rel (upd_run (\<lambda>r. r\<lparr>run_files_done := g5 r\<rparr>))" "steps row_rel (upd_run (\<lambda>r. r\<lparr>run_files_seen := g6 r\<rparr>))"
  "steps row_rel (upd_run (\<lambda>r. r\<lparr>run_sync_status := g7 r\<rparr>))"
  "steps row_rel (upd_run (\<lambda>r. r\<lparr>run_sync_stderr_tail := g8 r\<rparr>))"
  "steps row_rel (upd_run (\<lambda>r. r\<lparr>run_status := Interrupted, run_error := Some m\<rparr>))"
  "steps row_rel (upd_run (\<lambda>r. r\<lparr>run_status := Failed, run_error := Some m\<rparr>))"
  by (rule row_upd_step; simp add: row_step_def counts_le_def ident_def row_inv_def batches_nonneg)+

lemma row_guard:
  "gd_reason d \<noteq> None \<Longrightarrow>
   steps row_rel (upd_run (\<lambda>r. r\<lparr>run_status := AbortedGuard, run_error := map_option f (gd_reason d)\<rparr>))"
  by (rule row_upd_step) (auto simp: row_step_def counts_le_def ident_def row_inv_def)

section \<open>Every handler\<close>

lemma row_db_read: "steps row_rel (db_read f)"
  by (simp add: db_read_def row.steps_gets)

lemma row_db_write: "steps row_rel (db_write env f)"
  unfolding db_write_def by (intro row.steps_rules row_world row_modify)

lemma row_event: "steps row_rel (emit_event env lvl m src)"
  unfolding emit_event_def by (intro row.steps_rules row_world row_db_write)

lemma row_flush: "steps row_rel (flush env)"
  unfolding flush_def by (intro row.steps_rules row_world row_db_write row_modify)

lemma row_phase: "steps row_rel (progress_phase env ph)"
  unfolding progress_phase_def by (intro row.steps_rules row_flush row_upd)

lemma row_tick: "steps row_rel (tick env c)"
  unfolding tick_def by (intro row.steps_rules row_flush row_upd row_world)

lemma row_save: "steps row_rel (save_row env j file src st ps cs ts mt n le rp)"
  unfolding save_row_def by (intro row.steps_rules row_world row_db_write)

lemmas row_base = row_world row_upd row_db_read row_db_write row_event row_flush row_phase row_tick row_save row_modify

lemma row_index_document: "steps row_rel (index_document env wr j file src rel ch p ps cs ts model)"
  unfolding index_document_def Let_def by (intro row.steps_rules row_base)

lemma row_delete_source: "steps row_rel (delete_source env wr j src)"
  unfolding delete_source_def by (intro row.steps_rules row_base)

lemma row_attachments: "steps row_rel (index_attachments env wr j file src ps cs model ems produced)"
  by (induction ems arbitrary: produced)
    (auto simp: Let_def row.steps_ret intro!: row.steps_bindE row_index_document)

lemma row_index_embedded: "steps row_rel (index_embedded env wr j file src p ps cs model)"
  unfolding index_embedded_def Let_def by (intro row.steps_rules row_base row_attachments row_delete_source)

lemma row_unchanged: "steps row_rel (unchanged j src)"
  unfolding unchanged_def by (intro row.steps_rules row_base)

lemma row_process_text: "steps row_rel (process_text env wr j file src ps model dry st cs p)"
  unfolding process_text_def Let_def
  by (intro row.steps_rules row_base row_unchanged row_index_document row_index_embedded)

lemma row_extract_file: "steps row_rel (extract_file env j file)"
  unfolding extract_file_def by (intro row.steps_rules row_base) (simp split: exc.split add: row.steps_rules)

lemma row_process_outcome: "steps row_rel (process_outcome env wr j file src ps model dry st cs outcome)"
  unfolding process_outcome_def
  by (cases outcome) (auto split: processed_status.split intro!: row.steps_rules row_base row_process_text)

lemma row_process_one: "steps row_rel (process_one env wr j file src ps mb model dry)"
  unfolding process_one_def process_changed_def Let_def
  by (intro row.steps_rules row_base row_unchanged row_extract_file row_process_outcome)

lemma row_drift: "steps row_rel (count_append_drift j file src)"
  unfolding count_append_drift_def by (intro row.steps_rules row_base)

lemma row_append_known: "steps row_rel (append_known_sources env wr j c)"
  unfolding append_known_sources_def facet_sources_if_possible_def collection_has_job_points_def
  by (intro row.steps_rules row_base) (auto split: append_probe.split intro!: row.steps_rules row_base)

lemma row_delete_vanished: "steps row_rel (delete_vanished_sources env wr j seen force)"
proof -
  have "steps row_rel (let d = check_vanished_deletion seen S (job_safety j) force in
      if \<not> gd_allowed d
      then let reason = map_option guard_text (gd_reason d) in
        seqE (upd_run (\<lambda>r. r\<lparr>run_status := AbortedGuard, run_error := reason\<rparr>)) (emit_event env Error (f reason) None)
      else k)" if "steps row_rel k" for S f k
    unfolding Let_def by (intro row.steps_if row.steps_seqE row_guard row_event that guard_refusal_reason)
  then show ?thesis
    unfolding delete_vanished_sources_def
    by (intro row.steps_bindE row_db_read) (simp add: Let_def row.steps_ret row.steps_for_each row_delete_source)
qed

lemma row_scan_loop: "steps row_rel (scan_loop env sa wr j md known ps mb model dry files idx seen)"
  by (induction files arbitrary: idx seen)
    (auto intro!: row.steps_rules row_base row_drift row_process_one)

lemma row_fail: "steps row_rel (fail_run env m src)"
  unfolding fail_run_def by (intro row.steps_rules row_base)

lemma row_sync: "steps row_rel (sync_phase env j skip)"
  unfolding sync_phase_def by (intro row.steps_rules row_base row_fail)

lemma row_prepare: "steps row_rel (prepare_collection env wr j md scope model d)"
  unfolding prepare_collection_def by (intro row.steps_rules row_base)

lemma row_cleanup: "steps row_rel (cleanup_phase env wr j md scope opts model d seen)"
  unfolding cleanup_phase_def by (intro row.steps_rules row_base row_delete_vanished)

lemma row_scan_phase: "steps row_rel (scan_phase env sa wr j md scope opts model d)"
  unfolding scan_phase_def by (intro row.steps_rules row_base row_append_known row_scan_loop row_cleanup)

lemma row_execute: "steps row_rel (execute env sa j md scope opts)"
  unfolding execute_def execute_with_def
  by (intro row.steps_rules row_base row_fail row_sync row_prepare row_scan_phase)

section \<open>The whole run\<close>

text \<open>What \<open>_execute\<close> and the crash handler hand to the end of \<open>run_job\<close>.\<close>

lemma row_relD: "steps row_rel m \<Longrightarrow> m s = (r, t) \<Longrightarrow> row_step (rs_run s) (rs_run t)"
  using stepsD [of row_rel m s] by (simp add: row_rel_def)

lemma row_crash: "steps row_rel (handle_crash env e)"
  unfolding handle_crash_def by (simp split: exc.split add: row_fail)

lemma fail_run_Inr: "fail_run env m src s = (Inr x, t) \<Longrightarrow> run_status (rs_run t) = Failed"
proof -
  assume "fail_run env m src s = (Inr x, t)"
  then obtain u where "emit_event env Error m src u = (Inr x, t)" "run_status (rs_run u) = Failed"
    by (auto simp: fail_run_def seqE_Inr upd_run_eq)
  moreover from this(1) have "rs_run t = rs_run u" by (auto simp: emit_event_def run_inv)
  ultimately show ?thesis by simp
qed

lemma handle_crash_Inr: "handle_crash env e s = (Inr x, t) \<Longrightarrow> run_status (rs_run t) = Failed"
  by (auto simp: handle_crash_def split: exc.splits dest: fail_run_Inr)

lemma new_run_inv: "row_inv (new_run j trigger rid now md scope opts)"
  by (simp add: new_run_def row_inv_def)

lemma create_run_row_Inr:
  "create_run_row env r s = (Inr x, t) \<Longrightarrow> rs_run t = r"
  by (auto simp: create_run_row_def create_run_def seqE_Inr split: if_splits)

text \<open>\<open>run_job\<close> that returns: its row was created, the body ran to \<open>u\<close>, and the end closed it.\<close>

lemma run_job_Inr:
  assumes "run_job env sa j trigger rid md scope opts s = (Inr row, t)"
  obtains r now s1 u b where
    "rs_run s1 = new_run j trigger r now (or_default md (job_mode j)) (or_default scope (job_full_scope j)) opts"
    and "catchE (execute env sa j (or_default md (job_mode j)) (or_default scope (job_full_scope j)) opts)
      (handle_crash env) s1 = (Inr b, u)"
    and "finish_run env j u = (Inr row, t)"
  using assms unfolding run_job_def Let_def by (fastforce simp: bindE_Inr seqE_Inr dest: create_run_row_Inr)

lemma finish_run_Inr:
  assumes "finish_run env j u = (Inr row, t)"
  obtains now w1 w2 w3 where
    "row = (if run_status (rs_run u) = Running then (rs_run u)\<lparr>run_status := Success\<rparr> else rs_run u)
       \<lparr>run_finished_at := Some now, run_phase := None, run_current := None\<rparr>"
    and "rs_run t = row"
    and "rs_db t = snd (prune_runs (job_id j) (set_run_history_limit (re_settings env)) (update_run row (rs_db u)))"
    and "re_now env (rs_world u) = (Inr now, w1)" and "re_begin env w1 = (Inr (), w2)"
    and "re_begin env w2 = (Inr (), w3)" and "rs_world t = w3"
  using assms unfolding finish_run_def by (fastforce simp: run_inv)

lemma prune_runs_subset: "set (db_runs (snd (prune_runs j keep b))) \<subseteq> set (db_runs b)"
  by (auto simp: prune_runs_def Let_def fold_drop_run)

text \<open>C12: A run that returns is settled: whatever its body did or raised, it is not running, it
  has a finish time and no phase, it succeeded exactly if it has no error, its counters are
  not negative, it is the run that was asked for, and a row of it in the database has the
  same status, error and finish time.\<close>

theorem run_job_settles:
  assumes "run_job env should_abort j trigger rid md scope opts s = (Inr row, t)"
  shows "rs_run t = row \<and> run_status row \<noteq> Running \<and> (run_status row = Success \<longleftrightarrow> run_error row = None) \<and>
    run_finished_at row \<noteq> None \<and> run_phase row = None \<and> run_current row = None \<and>
    counts_le (new_run j trigger (run_id row) (run_started_at row) (run_mode row) ScopeJob opts) row \<and>
    run_job_id row = job_id j \<and> run_mode row = or_default md (job_mode j) \<and> run_trigger row = trigger \<and>
    run_dry_run row = ro_dry_run opts \<and>
    (\<forall>r \<in> set (db_runs (rs_db t)). run_id r = run_id row \<longrightarrow>
      run_status r = run_status row \<and> run_error r = run_error row \<and> run_finished_at r = run_finished_at row)"
proof -
  from assms obtain r now s1 u b where s1: "rs_run s1 = new_run j trigger r now (or_default md (job_mode j))
      (or_default scope (job_full_scope j)) opts"
    and c: "catchE (execute env should_abort j (or_default md (job_mode j)) (or_default scope (job_full_scope j)) opts)
      (handle_crash env) s1 = (Inr b, u)"
    and f: "finish_run env j u = (Inr row, t)" by (rule run_job_Inr)
  have "row_step (rs_run s1) (rs_run u)" 
    by (rule row_relD [OF row.steps_catchE [OF row_execute row_crash] c])
  then have u: "row_inv (rs_run u)" "counts_le (rs_run s1) (rs_run u)" "ident (rs_run u) = ident (rs_run s1)"
    using new_run_inv by (simp_all add: row_step_def s1)
  from f show ?thesis
  proof (rule finish_run_Inr)
    fix now' w1 w2 w3
    assume row: "row = (if run_status (rs_run u) = Running then (rs_run u)\<lparr>run_status := Success\<rparr> else rs_run u)
       \<lparr>run_finished_at := Some now', run_phase := None, run_current := None\<rparr>"
      and t: "rs_run t = row" and db: "rs_db t = snd (prune_runs (job_id j) (set_run_history_limit (re_settings env))
        (update_run row (rs_db u)))"
    have "run_status q = run_status row \<and> run_error q = run_error row \<and> run_finished_at q = run_finished_at row"
      if "q \<in> set (db_runs (rs_db t))" "run_id q = run_id row" for q
      using subsetD [OF prune_runs_subset] that unfolding db
      by (fastforce simp: update_run_def set_run_def)
    moreover have "run_status row \<noteq> Running \<and> (run_status row = Success \<longleftrightarrow> run_error row = None)"
      using u(1) by (auto simp: row row_inv_def)
    moreover have "counts_le (new_run j trigger (run_id row) (run_started_at row) (run_mode row) ScopeJob opts) row"
      using u(2) by (simp add: s1 row counts_le_def new_run_def)
    moreover have "ident row = ident (rs_run s1)" using u(3) by (simp add: row ident_def)
    ultimately show ?thesis using t by (simp add: row ident_def s1 new_run_def)
  qed
qed

text \<open>A full run over a shared collection that is refused, evaluated.\<close>

lemmas run_eval = run_job_def execute_def execute_with_def fail_run_def emit_event_def finish_run_def
  create_run_row_def create_run_def db_write_def in_world_def upd_run_def or_default_def or_else_def eff_defs
  fake_env_def fake_start_def plain_opts_def empty_db_def Let_def

definition sample_refused :: "(exc + run_row) \<times> fake_qdrant run_state" where
  "sample_refused = run_job (fake_env []) (ret False) sample_job TrigRest None (Some Full) (Some ScopeCollection)
     (plain_opts\<lparr>ro_siblings := [''other'']\<rparr>) fake_start"

lemma sample_refused_returns: "is_ok (fst sample_refused)"
  by (simp add: sample_refused_def run_eval)

lemma is_okE: "is_ok (fst x) \<Longrightarrow> \<exists>r t. x = (Inr r, t)"
  by (cases x; cases "fst x") (auto simp: is_ok_def)

theorem run_job_settles_witness:
  "\<exists>row t. sample_refused = (Inr row, t) \<and> run_phase row = None \<and> run_finished_at row \<noteq> None"
proof -
  obtain row t where r: "sample_refused = (Inr row, t)" using is_okE [OF sample_refused_returns] by blast
  from run_job_settles [OF r [unfolded sample_refused_def]] r show ?thesis by blast
qed

section \<open>The body of a run that is not failed\<close>

lemma body_Inr:
  assumes "catchE m (handle_crash env) s = (Inr b, u)" and "run_status (rs_run u) \<noteq> Failed"
  shows "m s = (Inr b, u)"
  using assms by (auto simp: catchE_def split: prod.splits sum.splits dest: handle_crash_Inr)

lemma execute_Inr:
  assumes "execute env sa j md sc opts s = (Inr x, t)"
  obtains wr w where "re_writer_factory env (tgt_connection (job_target j)) (rs_world s) = (Inr wr, w)"
    and "execute_with env sa wr j md sc opts (s\<lparr>rs_world := w\<rparr>) = (Inr x, t)"
  using assms by (auto simp: execute_def bindE_Inr in_world_eq)

lemma execute_with_refused:
  assumes "ro_siblings opts \<noteq> []" and "\<not> ro_force opts"
  shows "execute_with env sa wr j Full ScopeCollection opts =
      bindE (in_world (re_clock env)) (\<lambda>t. seqE (modify (\<lambda>s. s\<lparr>rs_last_flush := t\<rparr>))
        (fail_run env (sibling_message (ro_siblings opts) (job_collection j)) None))"
  using assms by (simp add: execute_with_def)

lemma refused_fails: "ro_siblings opts \<noteq> [] \<Longrightarrow> \<not> ro_force opts \<Longrightarrow>
    execute_with env sa wr j Full ScopeCollection opts s = (Inr x, t) \<Longrightarrow> run_status (rs_run t) = Failed"
  by (auto simp: execute_with_refused bindE_Inr seqE_Inr dest: fail_run_Inr)

text \<open>The status a run returns with is the one its body left, success for running.\<close>

lemma run_job_status:
  assumes "run_job env sa j trigger rid md scope opts s = (Inr row, t)" and "run_status row \<noteq> Failed"
  obtains s1 b u where "execute env sa j (or_default md (job_mode j)) (or_default scope (job_full_scope j)) opts s1 = (Inr b, u)"
    and "run_status row = (if run_status (rs_run u) = Running then Success else run_status (rs_run u))"
    and "run_id row = run_id (rs_run u)" and "finish_run env j u = (Inr row, t)"
    and "row_step (rs_run s1) (rs_run u)" and "row_inv (rs_run s1)"
proof -
  from assms(1) obtain r now s1 u b where s1: "rs_run s1 = new_run j trigger r now (or_default md (job_mode j))
      (or_default scope (job_full_scope j)) opts"
    and c: "catchE (execute env sa j (or_default md (job_mode j)) (or_default scope (job_full_scope j)) opts)
      (handle_crash env) s1 = (Inr b, u)"
    and f: "finish_run env j u = (Inr row, t)" by (rule run_job_Inr)
  from f have row: "run_status row = (if run_status (rs_run u) = Running then Success else run_status (rs_run u))"
      "run_id row = run_id (rs_run u)" by (rule finish_run_Inr, simp)+
  with assms(2) have "run_status (rs_run u) \<noteq> Failed" by auto
  from body_Inr [OF c this] have x: "execute env sa j (or_default md (job_mode j))
      (or_default scope (job_full_scope j)) opts s1 = (Inr b, u)" .
  show ?thesis
    by (rule that [OF x row f row_relD [OF row_execute x]]) (simp add: s1 new_run_inv)
qed

text \<open>C18: A full run over a whole collection that other jobs serve is refused unless it is forced:
  however the run ends, no collection and no document row changes, and if it returns it is
  \<open>failed\<close>.\<close>

theorem shared_collection_needs_force:
  assumes "run_world view uuid5 env should_abort" and "or_default md (job_mode j) = Full"
    and "or_default scope (job_full_scope j) = ScopeCollection" and "ro_siblings opts \<noteq> []" and "\<not> ro_force opts"
    and "run_job env should_abort j trigger rid md scope opts s = (res, t)"
  shows "view (rs_world t) = view (rs_world s) \<and> db_documents (rs_db t) = db_documents (rs_db s) \<and>
    (\<forall>row. res = Inr row \<longrightarrow> run_status row = Failed)"
proof (intro conjI allI impI)
  note e = run_world.dry_env_frame [OF assms(1)]
  have "steps (rel2 (\<lambda>a b. view b = view a) docs_same) (run_job env should_abort j trigger rid md scope opts)"
    unfolding assms(2,3)
    by (intro env_frame.st_run_job [OF e] env_frame.st_execute [OF e])
      (simp add: assms(2-5) env_frame.st_refused [OF e])
  from stepsD [OF this, of s] assms(6) show "view (rs_world t) = view (rs_world s)"
    and "db_documents (rs_db t) = db_documents (rs_db s)"
    by (simp_all add: rel2_def docs_same_def)
  fix row assume r: "res = Inr row"
  show "run_status row = Failed"
  proof (rule ccontr)
    assume "run_status row \<noteq> Failed"
    with assms(6) r obtain s1 b u where x: "execute env should_abort j Full ScopeCollection opts s1 = (Inr b, u)"
      and "run_status row = (if run_status (rs_run u) = Running then Success else run_status (rs_run u))"
      by (auto elim: run_job_status simp: assms(2,3))
    moreover from x have "run_status (rs_run u) = Failed"
      by (auto elim: execute_Inr dest: refused_fails [OF assms(4,5)])
    ultimately show False using \<open>run_status row \<noteq> Failed\<close> by simp
  qed
qed

theorem shared_collection_needs_force_witness:
  "db_documents (rs_db (snd sample_refused)) = [] \<and>
   (case fst sample_refused of Inl e \<Rightarrow> False | Inr row \<Rightarrow> run_status row = Failed)"
proof -
  obtain row t where r: "sample_refused = (Inr row, t)" using is_okE [OF sample_refused_returns] by blast
  from shared_collection_needs_force [OF fake_run.run_world_axioms _ _ _ _ r [unfolded sample_refused_def]]
  show ?thesis by (simp add: r or_default_def plain_opts_def fake_start_def empty_db_def)
qed

end
