(* ===== verification/RunFull.thy ===== *)
theory RunFull
  imports RunRow
begin

text \<open>
  Full runs: a full run that succeeds has swept every older generation of its scope. The
  proof follows the body backwards: whatever happens before, a body that ends in a running
  row went through the cleanup phase.
\<close>

section \<open>Postconditions that only the end decides\<close>

definition ends :: "('a \<Rightarrow> 's \<Rightarrow> bool) \<Rightarrow> ('s, 'a) eff \<Rightarrow> bool" where
  "ends Q m \<longleftrightarrow> hoare (\<lambda>s. True) m Q (\<lambda>e s. True)"

lemma endsD: "ends Q m \<Longrightarrow> m s = (Inr x, t) \<Longrightarrow> Q x t"
  unfolding ends_def by (erule hoare_InrD) simp_all

lemma endsI: "(\<And>s x t. m s = (Inr x, t) \<Longrightarrow> Q x t) \<Longrightarrow> ends Q m"
  unfolding ends_def by (rule hoareI) simp_all

lemma ends_bind: "(\<And>x. ends Q (f x)) \<Longrightarrow> ends Q (bindE m f)"
  by (rule endsI) (auto simp: bindE_Inr dest: endsD)

lemma ends_seq: "ends Q k \<Longrightarrow> ends Q (seqE m k)"
  by (simp add: seqE_def ends_bind)

lemma ends_bind_via: "ends P m \<Longrightarrow> (\<And>x. hoare (P x) (f x) Q (\<lambda>e s. True)) \<Longrightarrow> ends Q (bindE m f)"
  unfolding ends_def by (rule hoare_bindE)

lemma ends_if: "(b \<Longrightarrow> ends Q m) \<Longrightarrow> (\<not> b \<Longrightarrow> ends Q k) \<Longrightarrow> ends Q (if b then m else k)"
  by simp

lemma ends_raise: "ends Q (raise e)"
  by (rule endsI) simp

section \<open>The sweep\<close>

definition swept :: "string \<Rightarrow> string option \<Rightarrow> points \<Rightarrow> bool" where
  "swept rid jid m \<longleftrightarrow> (\<forall>i v p. m i = Some (v, p) \<longrightarrow> \<not> filter_matches (Some (sweep_filter rid jid)) p)"

lemma swept_without: "swept rid jid (without_matching (sweep_filter rid jid) m)"
  by (auto simp: swept_def without_matching_def split: option.splits if_splits)

context run_world
begin

lemma upsert_meta_other:
  assumes q: "qdrant view (qw_client wr)" and c: "c \<noteq> qw_meta_collection wr"
    and u: "upsert_meta wr k m d w = (Inr x, w')"
  shows "view w' c = view w c"
proof -
  from u obtain w1 where e: "ensure_meta_collection wr w = (Inr (), w1)"
    and p: "qc_upsert (qw_client wr) (qw_meta_collection wr) [make_meta_point (qw_uuid5 wr) k m d] w1 = (Inr (), w')"
    by (auto simp: upsert_meta_def seqE_Inr)
  from qdrant.ensure_meta_Inr [OF q refl e] c have "view w1 c = view w c" by auto
  moreover have "view w' c = view w1 c"
    using p c by (cases rule: qdrant.upsert_points_cases [OF q]) auto
  ultimately show ?thesis by simp
qed

definition swept_state :: "job \<Rightarrow> full_scope \<Rightarrow> 'w run_state \<Rightarrow> bool" where
  "swept_state j scope t \<longleftrightarrow> (run_status (rs_run t) = Running \<longrightarrow>
     swept (run_id (rs_run t)) (if scope = ScopeCollection then None else Some (job_id j))
       (pts (view (rs_world t)) (job_collection j)))"

lemma not_running_swept: "run_status (rs_run t) \<noteq> Running \<Longrightarrow> swept_state j scope t"
  by (simp add: swept_state_def)

lemma cleanup_sweeps:
  assumes q: "qdrant view (qw_client wr)" and c: "job_collection j \<noteq> qw_meta_collection wr"
    and d: "\<not> ro_dry_run opts"
  shows "ends (\<lambda>_. swept_state j scope) (cleanup_phase env wr j Full scope opts model vd seen)"
proof (rule endsI)
  let ?c = "job_collection j" and ?jid = "if scope = ScopeCollection then None else Some (job_id j)"
  fix s x t
  assume "cleanup_phase env wr j Full scope opts model vd seen s = (Inr x, t)"
  then obtain u w1 w2 where sw: "qc_delete (qw_client wr) ?c (sweep_filter (run_id (rs_run u)) ?jid) (rs_world u) = (Inr (), w1)"
    and um: "upsert_meta wr ?c model vd w1 = (Inr (), w2)" and t: "t = u\<lparr>rs_world := w2\<rparr>"
    using d by (auto simp: cleanup_phase_def whenE_def sweep_stale_def run_inv)
  have "pts (view w1) ?c = without_matching (sweep_filter (run_id (rs_run u)) ?jid) (pts (view (rs_world u)) ?c)"
    using sw by (cases rule: qdrant.delete_points_cases [OF q]) (auto simp: pts_Some)
  moreover have "pts (view w2) ?c = pts (view w1) ?c"
    using upsert_meta_other [OF q c um] by (simp add: pts_def)
  ultimately show "swept_state j scope t" by (simp add: swept_state_def t swept_without)
qed

text \<open>An interrupted scan loop leaves a row that is not running.\<close>

lemma scan_loop_ends:
  "ends (\<lambda>outcome t. outcome = None \<longrightarrow> run_status (rs_run t) = Interrupted)
     (scan_loop env sa wr j md known ps mb model dry files idx seen)"
proof (induction files arbitrary: idx seen)
  case (Cons f fs)
  have stop: "ends (\<lambda>outcome t. outcome = None \<longrightarrow> run_status (rs_run t) = Interrupted)
      (seqE (upd_run (\<lambda>r. r\<lparr>run_status := Interrupted, run_error := Some m\<rparr>))
        (seqE (emit_event env Warning m' None) (ret None)))" for m m'
    by (rule endsI) (auto simp: emit_event_def run_inv)
  show ?case
    unfolding scan_loop.simps
    by (rule ends_seq, rule ends_bind, rule ends_if, rule stop) (rule Cons.IH ends_seq ends_bind ends_if)+
qed (rule endsI, simp)

lemma full_scan_sweeps:
  assumes "qdrant view (qw_client wr)" and "job_collection j \<noteq> qw_meta_collection wr" and "\<not> ro_dry_run opts"
  shows "ends (\<lambda>_. swept_state j scope) (scan_phase env sa wr j Full scope opts model vd)"
proof -
  note c = cleanup_sweeps [OF assms, unfolded ends_def]
  have "hoare (\<lambda>t. outcome = None \<longrightarrow> run_status (rs_run t) = Interrupted)
      (case outcome of None \<Rightarrow> ret ()
        | Some seen \<Rightarrow> seqE (upd_run (\<lambda>r. r\<lparr>run_files_done := n\<rparr>))
            (cleanup_phase env wr j Full scope opts model vd seen))
      (\<lambda>_. swept_state j scope) (\<lambda>e s. True)" for outcome n
  proof (cases outcome)
    case None
    then show ?thesis by (auto intro!: hoare_ret not_running_swept)
  next
    case (Some seen)
    have "ends (\<lambda>_. swept_state j scope) (seqE (upd_run (\<lambda>r. r\<lparr>run_files_done := n\<rparr>))
        (cleanup_phase env wr j Full scope opts model vd seen))"
      by (intro ends_seq cleanup_sweeps assms)
    with Some show ?thesis by (auto simp: ends_def elim: hoare_conseq)
  qed
  then show ?thesis
    unfolding scan_phase_def by (intro ends_bind ends_seq ends_bind_via [OF scan_loop_ends])
qed

lemma full_execute_sweeps:
  assumes "qdrant view (qw_client wr)" and "job_collection j \<noteq> qw_meta_collection wr" and "\<not> ro_dry_run opts"
  shows "ends (\<lambda>_. swept_state j scope) (execute_with env sa wr j Full scope opts)"
proof -
  have f: "ends (\<lambda>_. swept_state j scope) (fail_run env m src)" for m src
    by (rule endsI) (auto intro!: not_running_swept dest: fail_run_Inr)
  have sync: "ends (\<lambda>go_on t. \<not> go_on \<longrightarrow> run_status (rs_run t) = Failed) (sync_phase env j skip)" for skip
    by (rule endsI) (auto simp: sync_phase_def bindE_Inr seqE_Inr split: if_splits dest: fail_run_Inr)
  have k: "ends (\<lambda>_. swept_state j scope) (case emb_model (job_embedding j) of
      None \<Rightarrow> raise (PyError ''AssertionError'' [])
    | Some model \<Rightarrow> bindE (in_world (re_embedder_factory env model)) (\<lambda>embedder.
        bindE (in_world (eb_probe_dimension embedder)) (\<lambda>vector_dim.
          seqE (upd_run (\<lambda>r. r\<lparr>run_embed_calls := run_embed_calls r + 1\<rparr>))
          (seqE (whenE (\<not> ro_dry_run opts) (prepare_collection env wr j Full scope model vector_dim))
            (scan_phase env sa wr j Full scope opts model vector_dim)))))"
    by (auto split: option.split intro!: ends_bind ends_seq ends_raise full_scan_sweeps [OF assms])
  have "hoare (\<lambda>t. \<not> go_on \<longrightarrow> run_status (rs_run t) = Failed) (if \<not> go_on then ret () else m)
      (\<lambda>_. swept_state j scope) (\<lambda>e s. True)" if "ends (\<lambda>_. swept_state j scope) m" for go_on m
    using that by (cases go_on) (auto simp: ends_def elim: hoare_conseq intro!: hoare_ret not_running_swept)
  note go = this [OF k]
  show ?thesis
    unfolding execute_with_def simp_thms(6) if_True
    by (rule ends_bind, rule ends_seq, rule ends_if, rule f, rule ends_bind_via [OF sync], rule go)
qed

end

section \<open>Properties\<close>

text \<open>What the sweep at the end of a successful full run leaves: unless it was a dry run, every point
  left in its scope (the job's points, or the whole collection) carries the id of this run. This
  covers runs with failed documents too, whose older points are swept with the rest.\<close>

lemma full_run_sweeps:
  assumes "run_world view uuid5 env should_abort" and "or_default md (job_mode j) = Full" and "\<not> ro_dry_run opts"
    and "job_collection j \<noteq> set_embed_meta_collection (re_settings env)"
    and "run_job env should_abort j trigger rid md scope opts s = (Inr row, t)" and "run_status row = Success"
    and "pts (view (rs_world t)) (job_collection j) i = Some (v, p)"
    and "or_default scope (job_full_scope j) = ScopeCollection \<or> condition_matches p (job_filter (job_id j))"
  shows "condition_matches p (FieldMatch ''ingest_run'' (JStr (run_id row)))"
proof -
  let ?scope = "or_default scope (job_full_scope j)"
  from assms(5) obtain s1 b u where x: "execute env should_abort j Full ?scope opts s1 = (Inr b, u)"
    and row: "run_status row = (if run_status (rs_run u) = Running then Success else run_status (rs_run u))"
      "run_id row = run_id (rs_run u)"
    and f: "finish_run env j u = (Inr row, t)"
    and step: "row_step (rs_run s1) (rs_run u)" "row_inv (rs_run s1)"
    by (rule run_job_status) (simp_all add: assms(2,6))
  from step have "run_status (rs_run u) \<noteq> Success" by (simp add: row_step_def row_inv_def)
  with row assms(6) have running: "run_status (rs_run u) = Running" by (auto split: if_splits)
  from x obtain wr w where wr: "re_writer_factory env (tgt_connection (job_target j)) (rs_world s1) = (Inr wr, w)"
    and e: "execute_with env should_abort wr j Full ?scope opts (s1\<lparr>rs_world := w\<rparr>) = (Inr b, u)"
    by (rule execute_Inr)
  note q = run_world.factory [OF assms(1) wr]
  have "job_collection j \<noteq> qw_meta_collection wr" using q assms(4) by simp
  from endsD [OF run_world.full_execute_sweeps [OF assms(1) conjunct1 [OF q] this assms(3)] e] running row
  have sw: "swept (run_id row) (if ?scope = ScopeCollection then None else Some (job_id j))
      (pts (view (rs_world u)) (job_collection j))" by (simp add: run_world.swept_state_def [OF assms(1)])
  have "view (rs_world t) = view (rs_world u)"
    using f by (rule finish_run_Inr)
      (metis run_world.quiet_now [OF assms(1)] run_world.quiet_begin [OF assms(1)])
  with sw assms(7,8) show ?thesis
    by (auto simp: swept_def sweep_filter_def Let_def split: if_splits simp del: condition_matches.simps)
qed

text \<open>C2: A full run that succeeds and has no failed document leaves one generation: unless it was a
  dry run, every point that is left in its scope (the job's points, or the whole collection)
  carries the id of this run. (With a failed document the sweep deletes the older points of that
  document as well, where the documentation of the modes wants them kept; see \<open>full_run_sweeps\<close>.)\<close>

theorem full_run_leaves_one_generation:
  assumes "run_world view uuid5 env should_abort" and "or_default md (job_mode j) = Full" and "\<not> ro_dry_run opts"
    and "job_collection j \<noteq> set_embed_meta_collection (re_settings env)"
    and "run_job env should_abort j trigger rid md scope opts s = (Inr row, t)"
    and "run_status row = Success" and "run_docs_failed row = 0"
    and "pts (view (rs_world t)) (job_collection j) i = Some (v, p)"
    and "or_default scope (job_full_scope j) = ScopeCollection \<or> condition_matches p (job_filter (job_id j))"
  shows "condition_matches p (FieldMatch ''ingest_run'' (JStr (run_id row)))"
  using assms(1-6,8,9) by (rule full_run_sweeps)

text \<open>A full run over an empty tree, with a point of an older generation, evaluated.\<close>

definition sample_old :: "fake_qdrant run_state" where
  "sample_old = fake_start\<lparr>rs_world := \<lparr>fq_collections =
     [(''kb'', \<lparr>fc_dim = 1, fc_points = [(''x'', [1], [(''ingest_job'', JStr ''acme''), (''ingest_run'', JStr ''run-0'')])],
        fc_indexes = {}\<rparr>), (''_collection_meta'', \<lparr>fc_dim = 1, fc_points = [], fc_indexes = {}\<rparr>)],
     fq_upsert_calls = 0, fq_raise_on_get_collections = None\<rparr>\<rparr>"

definition sample_full :: "(exc + run_row) \<times> fake_qdrant run_state" where
  "sample_full = run_job (fake_env []) (ret False) sample_job TrigRest None (Some Full) None plain_opts sample_old"

lemmas scan_eval = sync_phase_def prepare_collection_def scan_phase_def cleanup_phase_def progress_phase_def
  flush_def whenE_def fake_embedder_def delete_documents_for_job_def scan_tree_def scan_root_def
  sample_job_def sample_settings_def fake_root_def job_params_sha_def new_run_def

lemmas store_eval = fake_writer_def fake_client_def ensure_collection_def ensure_meta_collection_def
  collection_names_def collection_dimension_def read_meta_def check_model_def ensure_payload_indexes_def
  PAYLOAD_INDEX_FIELDS_def fq_get_collections_def fq_get_collection_def fq_create_payload_index_def fq_upsert_def
  fq_delete_def fq_update_def fq_points_def fq_retrieve_def sweep_stale_def sweep_filter_def job_filter_def
  upsert_meta_def make_meta_point_def dict_items_def

lemma sample_full_succeeds:
  "\<exists>row t. sample_full = (Inr row, t) \<and> run_status row = Success \<and> run_id row = ''run-1'' \<and>
     run_docs_failed row = 0"
  by (simp add: sample_full_def sample_old_def run_eval scan_eval store_eval)

theorem full_run_leaves_one_generation_witness:
  "pts (fake_view (rs_world (snd sample_full))) ''kb'' ''x'' \<noteq>
     Some ([1], [(''ingest_job'', JStr ''acme''), (''ingest_run'', JStr ''run-0'')])"
proof
  let ?p = "[(''ingest_job'', JStr ''acme''), (''ingest_run'', JStr ''run-0'')]"
  assume a: "pts (fake_view (rs_world (snd sample_full))) ''kb'' ''x'' = Some ([1], ?p)"
  obtain row t where r: "sample_full = (Inr row, t)" "run_status row = Success" "run_id row = ''run-1''"
    "run_docs_failed row = 0"
    using sample_full_succeeds by blast
  from a have a': "pts (fake_view (rs_world t)) ''kb'' ''x'' = Some ([1], ?p)" by (simp add: r(1))
  have m: "set_embed_meta_collection (re_settings (fake_env [])) = ''_collection_meta''"
    by (simp add: fake_env_def sample_settings_def)
  have "condition_matches ?p (FieldMatch ''ingest_run'' (JStr (run_id row)))"
    by (rule full_run_leaves_one_generation [OF fake_run.run_world_axioms _ _ _ r(1) [unfolded sample_full_def] r(2,4),
        where i = "''x''" and v = "[1]"])
      (use a' r m in \<open>simp_all add: or_default_def plain_opts_def job_filter_def sample_job_def\<close>)
  with r(3) show False by simp
qed

end
