(* ===== verification/RunChange.thy ===== *)
theory RunChange
  imports RunRow
begin

text \<open>
  The change detection of \<open>src/src/engine/runner.py\<close>, stage by stage: which documents a run takes for
  unchanged, what it does to them, and what it leaves behind for all others. The documented table of the stages is
  \<open>recognised\<close>; the lemmas show that the per-file pipeline implements it.
\<close>

section \<open>The table of the stages\<close>

definition recognised :: "'w run_env \<Rightarrow> job \<Rightarrow> scanned_file \<Rightarrow> string \<Rightarrow> document_row \<Rightarrow> 'w \<Rightarrow> bool" where
  "recognised env j file params_sha d w \<longleftrightarrow>
     doc_params_sha d = params_sha \<and>
     (doc_size d = sf_size file \<and> doc_mtime_ns d = sf_mtime_ns file \<or>
      (case re_read_bytes env (sf_abs_path file) w of
         (Inl e, w1) \<Rightarrow> False
       | (Inr bytes, w1) \<Rightarrow>
           doc_content_sha d = re_sha256 env bytes \<or>
           (case process_file (re_extract env) (sf_abs_path file) (sf_rel_path file) (job_chunking j) (re_settings env) w1 of
              (Inl e, w2) \<Rightarrow> False
            | (Inr p, w2) \<Rightarrow> pf_status p = POk \<and> doc_status d = Indexed \<and>
                doc_text_sha d = Some (sha256_text (re_sha256 env) (pf_text p)))))"

lemma fresh_row_recognised: "fresh_row rid params_sha file d \<Longrightarrow> recognised env j file params_sha d w"
  by (simp add: fresh_row_def recognised_def)

text \<open>The tags and the extra payload of a job do not enter the table: a document that is tracked keeps the
  access tags it was indexed with until its file changes or a full run rewrites it.\<close>

lemma retargeted_recognised:
  "job_params_sha sha (j\<lparr>job_target := tgt\<rparr>) st = job_params_sha sha j st"
  "recognised env (j\<lparr>job_target := tgt\<rparr>) file params_sha d w = recognised env j file params_sha d w"
proof -
  have "emb_model (job_embedding (j\<lparr>job_target := tgt\<rparr>)) = emb_model (job_embedding j)"
    "params_parts (j\<lparr>job_target := tgt\<rparr>) = params_parts j" "job_chunking (j\<lparr>job_target := tgt\<rparr>) = job_chunking j"
    by (simp_all add: params_parts_def fun_eq_iff)
  then show "job_params_sha sha (j\<lparr>job_target := tgt\<rparr>) st = job_params_sha sha j st"
    and "recognised env (j\<lparr>job_target := tgt\<rparr>) file params_sha d w = recognised env j file params_sha d w"
    by (simp_all only: job_params_sha_def recognised_def)
qed

section \<open>What the rest of the pipeline leaves alone\<close>

lemma steps_db_read: "(\<And>b. steps R (k (f b))) \<Longrightarrow> steps R (bindE (db_read f) k)"
  by (simp add: steps_def bindE_def db_read_def gets_def)

text \<open>The rows of the sources in \<open>S\<close>, the number of unchanged documents and the identity of the run.\<close>

definition aside :: "string \<Rightarrow> string set \<Rightarrow> 'w run_state \<Rightarrow> 'w run_state \<Rightarrow> bool" where
  "aside jid S s t \<longleftrightarrow>
     (\<forall>src \<in> S. get_document (rs_db t) jid src = get_document (rs_db s) jid src) \<and>
     run_docs_unchanged (rs_run t) = run_docs_unchanged (rs_run s) \<and> run_id (rs_run t) = run_id (rs_run s)"

interpretation aside: frame "aside jid S" for jid S
  by unfold_locales (auto simp: aside_def)

lemma aside_world: "steps (aside jid S) (in_world m)"
  by (auto simp: steps_def in_world_def aside_def split: prod.split)

lemma aside_upd:
  assumes "\<And>r. run_docs_unchanged (f r) = run_docs_unchanged r \<and> run_id (f r) = run_id r"
  shows "steps (aside jid S) (upd_run f)"
  using assms by (simp add: upd_run_def steps_def modify_def aside_def)

lemma aside_write:
  assumes "\<And>b src. src \<in> S \<Longrightarrow> get_document (f b) jid src = get_document b jid src"
  shows "steps (aside jid S) (db_write env f)"
  unfolding db_write_def
  by (intro aside.steps_seqE aside_world aside.steps_modify) (simp add: aside_def assms)

lemma aside_save: "src \<notin> S \<Longrightarrow> steps (aside (job_id j) S) (save_row env j file src st ps cs ts mt n le rp)"
  unfolding save_row_def
  by (intro aside.steps_rules aside_world aside_write) (auto simp: get_document_upsert)

lemma aside_event: "steps (aside jid S) (emit_event env lvl m src)"
  unfolding emit_event_def
  by (intro aside.steps_rules aside_world aside_write) (simp add: get_document_def add_event_def)

lemmas aside_rules = aside.steps_rules aside_world aside_upd aside_save aside_event

lemma aside_index_document:
  "src \<notin> S \<Longrightarrow> steps (aside (job_id j) S) (index_document env wr j file src rel ch p ps cs ts model)"
  unfolding index_document_def Let_def by (intro aside_rules) simp_all

lemma aside_delete_source: "src \<notin> S \<Longrightarrow> steps (aside (job_id j) S) (delete_source env wr j src)"
  unfolding delete_source_def by (intro aside_rules aside_write) (auto simp: get_document_delete)

lemma aside_attachments:
  "steps (aside (job_id j) {src}) (index_attachments env wr j file src ps cs model ems produced)"
  by (induction ems arbitrary: produced)
    (auto simp: Let_def aside.steps_ret intro!: aside.steps_bindE aside_index_document)

lemma attachment_other: "starts_with (src @ ''!'') s \<Longrightarrow> s \<noteq> src"
  by (auto simp: starts_with_def dest: arg_cong [of _ _ length])

lemma aside_index_embedded: "steps (aside (job_id j) {src}) (index_embedded env wr j file src p ps cs model)"
proof -
  have "s \<notin> {src}" if "s \<in> set (sorted_list_of_set (embedded_sources_in_state b j src - C))" for s b C
  proof -
    have "finite (embedded_sources_in_state b j src - C)"
      by (simp add: embedded_sources_in_state_def list_sources_def)
    with that show ?thesis by (auto simp: embedded_sources_in_state_def attachment_other)
  qed
  then show ?thesis
    unfolding index_embedded_def Let_def
    by (intro aside.steps_bindE aside_attachments steps_db_read aside.steps_seqE aside.steps_for_each
        aside_delete_source aside.steps_ret) blast
qed

section \<open>The two outcomes of a document\<close>

text \<open>Taken for unchanged: nothing but the size, the time and the file hash of its row moves, and the
  document and its attachments count as seen. Otherwise the row is written anew, unless it is a dry run.\<close>

definition passed_over :: "('w \<Rightarrow> qview) \<Rightarrow> job \<Rightarrow> string \<Rightarrow> string set \<Rightarrow> 'w run_state \<Rightarrow> 'w run_state \<Rightarrow> bool" where
  "passed_over view j src seen s t \<longleftrightarrow>
     view (rs_world t) = view (rs_world s) \<and> seen = insert src (embedded_sources_in_state (rs_db t) j src) \<and>
     run_docs_unchanged (rs_run t) = run_docs_unchanged (rs_run s) + 1 \<and>
     run_embed_calls (rs_run t) = run_embed_calls (rs_run s) \<and>
     (\<exists>d d'. get_document (rs_db s) (job_id j) src = Some d \<and> get_document (rs_db t) (job_id j) src = Some d' \<and>
        d' = d\<lparr>doc_size := doc_size d', doc_mtime_ns := doc_mtime_ns d', doc_content_sha := doc_content_sha d'\<rparr>)"

definition renewed :: "job \<Rightarrow> scanned_file \<Rightarrow> string \<Rightarrow> string \<Rightarrow> bool \<Rightarrow> 'w run_state \<Rightarrow> 'w run_state \<Rightarrow> bool" where
  "renewed j file src params_sha dry_run s t \<longleftrightarrow>
     run_docs_unchanged (rs_run t) = run_docs_unchanged (rs_run s) \<and>
     (dry_run \<or> (\<exists>d. get_document (rs_db t) (job_id j) src = Some d \<and> fresh_row (run_id (rs_run s)) params_sha file d))"

lemma renewed_aside:
  assumes "renewed j file src ps dry s t" and "aside (job_id j) {src} t u"
  shows "renewed j file src ps dry s u"
  using assms by (auto simp: renewed_def aside_def)

lemma renewed_dry: "steps (aside (job_id j) {}) m \<Longrightarrow> m s = (x, t) \<Longrightarrow> renewed j file src ps True s t"
  using stepsD [of "aside (job_id j) {}" m s] by (simp add: renewed_def aside_def)

context run_world
begin

lemma unchanged_passed:
  assumes "unchanged j src s = (Inr seen, t)" and "get_document (rs_db s) (job_id j) src = Some d"
  shows "passed_over view j src seen s t"
  using assms by (auto simp: unchanged_def run_inv passed_over_def intro!: exI [of _ d])

lemma restat_passed:
  assumes "seqE (whenE (\<not> dry) (db_write env (upsert_document d'))) (unchanged j src) s = (Inr seen, t)"
    and "get_document (rs_db s) (job_id j) src = Some d"
    and "d' = d\<lparr>doc_size := doc_size d', doc_mtime_ns := doc_mtime_ns d', doc_content_sha := doc_content_sha d'\<rparr>"
  shows "passed_over view j src seen s t"
proof (cases dry)
  case True
  with assms(1,2) show ?thesis by (intro unchanged_passed) (auto simp: seqE_Inr whenE_def)
next
  case False
  with assms(1) obtain w where w: "re_begin env (rs_world s) = (Inr (), w)"
    and u: "unchanged j src (s\<lparr>rs_world := w, rs_db := upsert_document d' (rs_db s)\<rparr>) = (Inr seen, t)"
    by (auto simp: seqE_Inr whenE_def db_write_Inr)
  have k: "doc_key d' = (job_id j, src)"
    using get_document_key [OF assms(2)] arg_cong [OF assms(3), of doc_job] arg_cong [OF assms(3), of doc_source] by simp
  with u quiet_begin [OF w] assms(2,3) show ?thesis
    by (auto simp: unchanged_def run_inv passed_over_def get_document_upsert)
qed

lemma save_renewed:
  assumes "save_row env j file src st ps cs ts mt n le rp s = (Inr x, t)"
  shows "renewed j file src ps dry s t"
  using save_row_fresh [OF assms] save_row_Inr [OF assms] by (auto simp: renewed_def)

lemma save_then_renewed:
  assumes "seqE (whenE (\<not> dry) (save_row env j file src st ps cs ts mt n le rp)) k s = (Inr seen, t)"
    and "steps (aside (job_id j) {src}) k"
  shows "renewed j file src ps dry s t"
proof (cases dry)
  case True
  with assms(1) have "k s = (Inr seen, t)" by (simp add: whenE_def seqE_def bindE_def ret_def)
  with stepsD [OF assms(2), of s] True show ?thesis by (simp add: renewed_def aside_def)
next
  case False
  with assms(1) obtain s1 where "save_row env j file src st ps cs ts mt n le rp s = (Inr (), s1)" and "k s1 = (Inr seen, t)"
    by (auto simp: seqE_Inr whenE_def)
  with stepsD [OF assms(2), of s1] show ?thesis by (auto intro: renewed_aside [OF save_renewed])
qed

lemma renewed_from: "renewed j file src ps dry s t \<Longrightarrow> steps (aside jid {}) m \<Longrightarrow> m s0 = (x, s) \<Longrightarrow> renewed j file src ps dry s0 t"
  using stepsD [of "aside jid {}" m s0] by (simp add: renewed_def aside_def)

lemma text_stage:
  assumes q: "qdrant view (qw_client wr)" and u: "qw_uuid5 wr = uuid5"
    and row: "row = get_document (rs_db s) (job_id j) src"
    and p: "process_text env wr j file src ps model dry row cs p s = (Inr seen, t)"
  shows "if (case row of None \<Rightarrow> False | Some d \<Rightarrow> doc_params_sha d = ps \<and>
        doc_text_sha d = Some (sha256_text (re_sha256 env) (pf_text p)) \<and> doc_status d = Indexed)
    then passed_over view j src seen s t else renewed j file src ps dry s t"
    (is "if ?same then _ else _")
proof (cases ?same)
  case True
  then obtain d where d: "row = Some d" by (cases row) auto
  with True p have "seqE (whenE (\<not> dry) (db_write env (upsert_document
      (d\<lparr>doc_size := sf_size file, doc_mtime_ns := sf_mtime_ns file, doc_content_sha := cs\<rparr>)))) (unchanged j src) s = (Inr seen, t)"
    by (simp add: process_text_def Let_def)
  then have "passed_over view j src seen s t" by (rule restat_passed) (use row d in simp_all)
  then show ?thesis unfolding if_P [OF True] .
next
  case False
  let ?index = "index_document env wr j file src (sf_rel_path file) (pf_chunks p) p ps cs
    (sha256_text (re_sha256 env) (pf_text p)) model"
  note p = p [unfolded process_text_def Let_def if_not_P [OF False]]
  show ?thesis
  proof (cases dry)
    case True
    have "steps (aside (job_id j) {}) (seqE (upd_run (\<lambda>r. r\<lparr>run_docs_indexed := run_docs_indexed r + 1\<rparr>))
        (seqE (emit_event env lvl m lsrc) (ret {src})))" for lvl m lsrc
      by (intro aside_rules) simp
    from renewed_dry [OF this] p True False show ?thesis by simp
  next
    case wet: False
    with p obtain ok s1 where i: "?index s = (Inr ok, s1)"
      and k: "(if ok \<and> job_expand_embedded j \<and> pf_embedded p \<noteq> []
           then bindE (index_embedded env wr j file src p ps cs model) (\<lambda>produced. ret (insert src produced))
           else ret {src}) s1 = (Inr seen, t)"
      by (auto simp: bindE_Inr)
    have "steps (aside (job_id j) {}) ?index" by (rule aside_index_document) simp
    from stepsD [OF this, of s] i have index: "aside (job_id j) {} s s1" by simp
    have s1: "renewed j file src ps dry s s1"
      using index_document_Inr [OF q u i] index
      by (cases ok) (auto simp: renewed_def aside_def)
    have "steps (aside (job_id j) {src}) (if ok \<and> job_expand_embedded j \<and> pf_embedded p \<noteq> []
           then bindE (index_embedded env wr j file src p ps cs model) (\<lambda>produced. ret (insert src produced))
           else ret {src})"
      by (intro aside_rules aside_index_embedded)
    from renewed_aside [OF s1 stepsD [OF this]] k False show ?thesis by simp
  qed
qed

lemma extract_file_Inr:
  assumes "extract_file env j file s = (Inr out, t)"
  shows "view (rs_world t) = view (rs_world s) \<and> rs_db t = rs_db s \<and> rs_run t = rs_run s \<and>
    (case out of
       Inl m \<Rightarrow> \<exists>e w. process_file (re_extract env) (sf_abs_path file) (sf_rel_path file) (job_chunking j) (re_settings env)
         (rs_world s) = (Inl e, w)
     | Inr p \<Rightarrow> \<exists>w. process_file (re_extract env) (sf_abs_path file) (sf_rel_path file) (job_chunking j) (re_settings env)
         (rs_world s) = (Inr p, w))"
proof -
  have "steps (rel3 (\<lambda>a b. view b = view a) docs_same) (extract_file env j file)"
    by (rule env_frame.st_extract_file [OF dry_env_frame])
  from stepsD [OF this, of s] have "view (rs_world t) = view (rs_world s)" by (simp add: assms rel_defs)
  then show ?thesis
    using assms by (auto simp: extract_file_def catchE_def bindE_def in_world_def ret_def raise_def
        split: prod.splits sum.splits exc.splits)
qed

lemma outcome_stage:
  assumes q: "qdrant view (qw_client wr)" and u: "qw_uuid5 wr = uuid5"
    and row: "row = get_document (rs_db s) (job_id j) src"
    and p: "process_outcome env wr j file src ps model dry row cs out s = (Inr seen, t)"
  shows "if (case row of None \<Rightarrow> False | Some d \<Rightarrow> doc_params_sha d = ps \<and> doc_status d = Indexed \<and>
        (case out of Inl m \<Rightarrow> False | Inr p \<Rightarrow> pf_status p = POk \<and>
          doc_text_sha d = Some (sha256_text (re_sha256 env) (pf_text p))))
    then passed_over view j src seen s t else renewed j file src ps dry s t"
proof -
  have a: "steps (aside (job_id j) {src}) (ret {src})" "steps (aside (job_id j) {src}) (seqE (emit_event env lvl m l) (ret {src}))"
    for lvl m l by (intro aside_rules)+
  show ?thesis
  proof (cases out)
    case (Inl m)
    let ?fail = "upd_run (\<lambda>r. r\<lparr>run_docs_failed := run_docs_failed r + 1\<rparr>)"
    from p Inl obtain s1 where f: "?fail s = (Inr (), s1)"
      and r: "seqE (whenE (\<not> dry) (save_row env j file src FailedExtract ps cs None None 0 (Some m) None))
        (seqE (emit_event env Error (''extraction failed: '' @ m) (Some src)) (ret {src})) s1 = (Inr seen, t)"
      by (auto simp: process_outcome_def seqE_Inr)
    have "steps (aside (job_id j) {}) ?fail" by (intro aside_upd) simp
    from renewed_from [OF save_then_renewed [OF r a(2)] this f] Inl show ?thesis by (simp split: option.split)
  next
    case (Inr y)
    show ?thesis
    proof (cases "pf_status y")
      case POk
      with p Inr have "process_text env wr j file src ps model dry row cs y s = (Inr seen, t)"
        by (simp add: process_outcome_def)
      from text_stage [OF q u row this] POk Inr show ?thesis by (cases row) (simp_all add: conj_ac)
    next
      case PUnsupported
      with p Inr have "seqE (whenE (\<not> dry) (save_row env j file src SkippedUnsupported ps cs None (pf_media_type y) 0 None None))
          (ret {src}) s = (Inr seen, t)" by (simp add: process_outcome_def)
      from save_then_renewed [OF this a(1)] PUnsupported Inr show ?thesis by (simp split: option.split)
    next
      case PNoText
      let ?event = "whenE (case row of None \<Rightarrow> True | Some d \<Rightarrow> doc_status d \<noteq> SkippedNoText)
        (emit_event env Info ''no extractable text (scanned or empty document)'' (Some src))"
      from p Inr PNoText obtain s1 where f: "?event s = (Inr (), s1)"
        and r: "seqE (whenE (\<not> dry) (save_row env j file src SkippedNoText ps cs None (pf_media_type y) 0 None None))
          (ret {src}) s1 = (Inr seen, t)" by (auto simp: process_outcome_def seqE_Inr)
      have "steps (aside (job_id j) {}) ?event" by (intro aside_rules)
      from renewed_from [OF save_then_renewed [OF r a(1)] this f] PNoText Inr show ?thesis by (simp split: option.split)
    qed
  qed
qed

text \<open>A document that cannot be indexed gets a row that says so; the collections stay as they are, the points of
  its last good version included.\<close>

lemma not_indexed_keeps_points:
  assumes "case out of Inl m \<Rightarrow> True | Inr p \<Rightarrow> pf_status p \<noteq> POk"
  shows "steps (\<lambda>s t. view (rs_world t) = view (rs_world s)) (process_outcome env wr j file src ps model dry row cs out)"
proof -
  let ?R = "\<lambda>s t. view (rs_world t) = view (rs_world s)"
  have fr: "frame ?R" by unfold_locales auto
  note rules = frame.steps_rules [OF fr]
  have world: "steps ?R (in_world m)" if "steps (\<lambda>a b. view b = view a) m" for m :: "('w, 'x) eff"
    unfolding steps_def in_world_def using stepsD [OF that] by (auto split: prod.split dest: sym) (metis snd_conv)
  have q: "steps (\<lambda>a b. view b = view a) (re_begin env)" "steps (\<lambda>a b. view b = view a) (re_now env)"
    using quiet by (simp_all add: env_keeps_def)
  have dbw: "steps ?R (db_write env f)" for f
    unfolding db_write_def by (intro rules world q frame.steps_modify [OF fr]) simp
  have upd: "steps ?R (upd_run f)" for f by (simp add: upd_run_def steps_def modify_def)
  have save: "steps ?R (save_row env j file src st ps cs ts mt n le rp)" for st ts mt n le rp
    unfolding save_row_def by (intro rules world q dbw)
  have event: "steps ?R (emit_event env lvl m l)" for lvl m l
    unfolding emit_event_def by (intro rules world q dbw)
  show ?thesis
    using assms unfolding process_outcome_def
    by (cases out) (auto split: processed_status.split intro!: rules upd save event)
qed

lemma changed_stage:
  assumes q: "qdrant view (qw_client wr)" and u: "qw_uuid5 wr = uuid5"
    and row: "row = get_document (rs_db s) (job_id j) src" and n: "\<not> same_stat row ps file"
    and p: "process_changed env wr j file src ps model dry row s = (Inr seen, t)"
  shows "if (case row of None \<Rightarrow> False | Some d \<Rightarrow> recognised env j file ps d (rs_world s))
    then passed_over view j src seen s t else renewed j file src ps dry s t"
proof -
  from p obtain bytes w1 s1 where b: "re_read_bytes env (sf_abs_path file) (rs_world s) = (Inr bytes, w1)"
    and s1: "s1 = s\<lparr>rs_world := w1, rs_run := (rs_run s)\<lparr>run_bytes_read := run_bytes_read (rs_run s) + sf_size file\<rparr>\<rparr>"
    and k: "(if (case row of None \<Rightarrow> False | Some d \<Rightarrow> doc_params_sha d = ps \<and> doc_content_sha d = re_sha256 env bytes)
      then seqE (whenE (\<not> dry) (db_write env (upsert_document
             ((the row)\<lparr>doc_size := sf_size file, doc_mtime_ns := sf_mtime_ns file\<rparr>)))) (unchanged j src)
      else bindE (extract_file env j file)
        (process_outcome env wr j file src ps model dry row (re_sha256 env bytes))) s1 = (Inr seen, t)"
    by (auto simp: process_changed_def run_inv Let_def)
  have "steps (\<lambda>a b. view b = view a) (re_read_bytes env (sf_abs_path file))" using quiet by (simp add: env_keeps_def)
  from quiet_view [OF this b] have passed1: "passed_over view j src seen s t" if "passed_over view j src seen s1 t"
    using that by (simp add: passed_over_def s1)
  have renewed1: "renewed j file src ps dry s t" if "renewed j file src ps dry s1 t"
    using that by (simp add: renewed_def s1)
  show ?thesis
  proof (cases "case row of None \<Rightarrow> False | Some d \<Rightarrow> doc_params_sha d = ps \<and> doc_content_sha d = re_sha256 env bytes")
    case True
    then obtain d where d: "row = Some d" by (cases row) auto
    from True k have "seqE (whenE (\<not> dry) (db_write env (upsert_document
        ((the row)\<lparr>doc_size := sf_size file, doc_mtime_ns := sf_mtime_ns file\<rparr>)))) (unchanged j src) s1 = (Inr seen, t)"
      by simp
    then have "passed_over view j src seen s1 t" 
      by (rule restat_passed [where d = d]) (use row [symmetric] d in \<open>simp_all add: s1\<close>)
    then show ?thesis using True d b passed1 by (simp add: recognised_def)
  next
    case False
    with k obtain out s2 where e: "extract_file env j file s1 = (Inr out, s2)"
      and o: "process_outcome env wr j file src ps model dry row (re_sha256 env bytes) out s2 = (Inr seen, t)"
      by (auto simp: bindE_Inr)
    have same: "view (rs_world s2) = view (rs_world s1)" "rs_db s2 = rs_db s1" "rs_run s2 = rs_run s1"
      using extract_file_Inr [OF e] by simp_all
    have r: "row = get_document (rs_db s2) (job_id j) src" by (simp add: row same s1)
    have passed2: "passed_over view j src seen s t" if "passed_over view j src seen s2 t"
      using that same by (intro passed1) (simp add: passed_over_def)
    have renewed2: "renewed j file src ps dry s t" if "renewed j file src ps dry s2 t"
      using that same by (intro renewed1) (simp add: renewed_def)
    show ?thesis
      using outcome_stage [OF q u r o] extract_file_Inr [OF e] passed2 renewed2 b False n
      by (auto simp: recognised_def same_stat_def s1 split: option.splits sum.splits if_splits)
  qed
qed

end

section \<open>Properties\<close>

text \<open>C6: The change detection does what its table says. When the pipeline returns for a file, a document
  that is small enough and recognised (same parameters, and the same stat, the same bytes, or the
  same text as indexed) is only counted: the collections are untouched, nothing is embedded, and of its row at most the
  size, the time and the file hash moved. Every other document is not counted as unchanged, and unless the run
  is dry it has a row of this run with the current stat and parameters.\<close>

theorem change_detection:
  assumes "run_world view uuid5 env should_abort" and "re_writer_factory env conn w0 = (Inr wr, w1)"
    and "process_one env wr j file src params_sha max_bytes model dry_run s = (Inr seen, t)"
  shows "if sf_size file \<le> max_bytes \<and> (case get_document (rs_db s) (job_id j) src of None \<Rightarrow> False
        | Some d \<Rightarrow> recognised env j file params_sha d (rs_world s))
    then view (rs_world t) = view (rs_world s) \<and> seen = insert src (embedded_sources_in_state (rs_db t) j src) \<and>
      run_docs_unchanged (rs_run t) = run_docs_unchanged (rs_run s) + 1 \<and>
      run_embed_calls (rs_run t) = run_embed_calls (rs_run s) \<and>
      (\<exists>d d'. get_document (rs_db s) (job_id j) src = Some d \<and> get_document (rs_db t) (job_id j) src = Some d' \<and>
        d' = d\<lparr>doc_size := doc_size d', doc_mtime_ns := doc_mtime_ns d', doc_content_sha := doc_content_sha d'\<rparr>)
    else run_docs_unchanged (rs_run t) = run_docs_unchanged (rs_run s) \<and>
      (dry_run \<or> (\<exists>d. get_document (rs_db t) (job_id j) src = Some d \<and> doc_last_run d = run_id (rs_run s) \<and>
        doc_params_sha d = params_sha \<and> doc_size d = sf_size file \<and> doc_mtime_ns d = sf_mtime_ns file))"
proof -
  note w = assms(1)
  from run_world.factory [OF w assms(2)] have q: "qdrant view (qw_client wr)" "qw_uuid5 wr = uuid5" by simp_all
  let ?row = "get_document (rs_db s) (job_id j) src"
  have "if sf_size file \<le> max_bytes \<and> (case ?row of None \<Rightarrow> False | Some d \<Rightarrow> recognised env j file params_sha d (rs_world s))
    then passed_over view j src seen s t else renewed j file src params_sha dry_run s t"
  proof (cases "sf_size file \<le> max_bytes")
    case False
    with assms(3) have "seqE (whenE (\<not> dry_run) (save_row env j file src SkippedTooLarge params_sha ''-'' None None 0 None None))
        (ret {src}) s = (Inr seen, t)" by (simp add: process_one_def bindE_def db_read_def gets_def)
    from run_world.save_then_renewed [OF w this aside.steps_ret] False show ?thesis by simp
  next
    case small: True
    with assms(3) have k: "(if same_stat ?row params_sha file then unchanged j src
        else process_changed env wr j file src params_sha model dry_run ?row) s = (Inr seen, t)"
      by (simp add: process_one_def bindE_def db_read_def gets_def split: if_splits)
    show ?thesis
    proof (cases "same_stat ?row params_sha file")
      case True
      then obtain d where "?row = Some d" "recognised env j file params_sha d (rs_world s)"
        by (auto simp: same_stat_def recognised_def split: option.splits)
      with run_world.unchanged_passed [OF w, of j src s seen t d] k True small show ?thesis by simp
    next
      case False
      with run_world.changed_stage [OF w q refl False] k small show ?thesis by simp
    qed
  qed
  then show ?thesis by (simp only: passed_over_def renewed_def fresh_row_def)
qed

text \<open>A tracked file that was only touched: the bytes are as recorded, the time is new.\<close>

definition sample_touched :: "(exc + string set) \<times> fake_qdrant run_state" where
  "sample_touched = process_one (fake_env [(''a.md'', ''h'', 5)]) fake_writer sample_job
     (sample_file\<lparr>sf_size := 1, sf_mtime_ns := 5\<rparr>) ''local://docs/a.md'' ''p'' 1000 ''m'' False fake_tracked"

theorem change_detection_witness:
  "run_docs_unchanged (rs_run (snd sample_touched)) = 1 \<and>
   fake_view (rs_world (snd sample_touched)) = fake_view (rs_world fake_tracked)"
proof -
  let ?file = "sample_file\<lparr>sf_size := 1, sf_mtime_ns := 5\<rparr>" and ?env = "fake_env [(''a.md'', ''h'', 5)]"
  have row: "get_document (rs_db fake_tracked) ''acme'' ''local://docs/a.md'' = Some (sample_doc ''local://docs/a.md'' ''a.md'')"
    by (simp add: fake_tracked_def get_document_def sample_doc_def)
  have read: "re_read_bytes ?env (sf_abs_path sample_file) w = (Inr ''h'', w)" for w
    by (simp add: fake_env_def fake_read_def fake_path_def fake_root_def path_join_def sample_file_def ret_def)
  have n: "re_sha256 ?env = id" "re_begin ?env = ret ()" by (simp_all add: fake_env_def)
  have known: "recognised ?env sample_job ?file ''p'' (sample_doc ''local://docs/a.md'' ''a.md'') (rs_world fake_tracked)"
    by (simp add: recognised_def read n sample_doc_def)
  obtain seen t where r: "sample_touched = (Inr seen, t)"
    by (simp add: sample_touched_def process_one_def process_changed_def same_stat_def bindE_def seqE_def db_read_def
        gets_def row read n in_world_def upd_run_def modify_def whenE_def db_write_def ret_def unchanged_def Let_def
        sample_doc_def)
  have w: "re_writer_factory ?env [] w = (Inr fake_writer, w)" for w by (simp add: fake_env_def ret_def)
  have "run_docs_unchanged (rs_run fake_tracked) = 0" by (simp add: fake_tracked_def fake_start_def sample_run_def)
  then show ?thesis
    using change_detection [OF fake_run.run_world_axioms w r [unfolded sample_touched_def]] known
    by (simp add: r row)
qed

end
