(* ===== verification/Locks.thy ===== *)
theory Locks
  imports RunSafety
begin

text \<open>
  Run serialisation, \<open>src/src/engine/locks.py\<close>: the reader/writer lock, the registry of job
  and collection locks, the sequential code of \<open>LockingRunner\<close> over them, and the runs of
  several threads as a step relation over the same operations, with its invariant.
\<close>

section \<open>The reader/writer lock\<close>

record rw_lock =
  rw_readers :: nat
  rw_writer :: bool

definition new_rw_lock :: rw_lock where
  "new_rw_lock = \<lparr>rw_readers = 0, rw_writer = False\<rparr>"

text \<open>The condition \<open>acquire\<close> waits for, what it does once it holds, and \<open>release\<close>.\<close>

definition rw_available :: "bool \<Rightarrow> rw_lock \<Rightarrow> bool" where
  "rw_available exclusive l \<longleftrightarrow> \<not> rw_writer l \<and> (exclusive \<longrightarrow> rw_readers l = 0)"

definition rw_take :: "bool \<Rightarrow> rw_lock \<Rightarrow> rw_lock" where
  "rw_take exclusive l =
     (if exclusive then l\<lparr>rw_writer := True\<rparr> else l\<lparr>rw_readers := rw_readers l + 1\<rparr>)"

definition rw_release :: "bool \<Rightarrow> rw_lock \<Rightarrow> rw_lock" where
  "rw_release exclusive l =
     (if exclusive then l\<lparr>rw_writer := False\<rparr> else l\<lparr>rw_readers := rw_readers l - 1\<rparr>)"

lemma rw_release_take: "rw_available exclusive l \<Longrightarrow> rw_release exclusive (rw_take exclusive l) = l"
  by (simp add: rw_available_def rw_release_def rw_take_def)

section \<open>The locking runner\<close>

text \<open>The locks of the registry: the job locks that are held, and the collection locks; a lock
  that was never asked for is free.\<close>

record lock_registry =
  lk_jobs :: "string set"
  lk_collections :: "string \<Rightarrow> rw_lock"

record 'w engine_state =
  es_locks :: lock_registry
  es_run :: "'w run_state"

definition RunRejectedError :: "string \<Rightarrow> exc" where
  "RunRejectedError jid = PyError ''RunRejectedError'' (''job '' @ quoted jid @ '' is already running'')"

definition on_run :: "('w run_state, 'a) eff \<Rightarrow> ('w engine_state, 'a) eff" where
  "on_run m s = (case m (es_run s) of (r, t) \<Rightarrow> (r, s\<lparr>es_run := t\<rparr>))"

definition on_locks :: "(lock_registry \<Rightarrow> lock_registry) \<Rightarrow> ('w engine_state, unit) eff" where
  "on_locks f = modify (\<lambda>s. s\<lparr>es_locks := f (es_locks s)\<rparr>)"

text \<open>\<open>try: m finally: k\<close>.\<close>

definition finallyE :: "('s, 'a) eff \<Rightarrow> ('s, unit) eff \<Rightarrow> ('s, 'a) eff" where
  "finallyE m k s = (case m s of (r, t) \<Rightarrow> (case k t of (Inl e, u) \<Rightarrow> (Inl e, u) | (Inr x, u) \<Rightarrow> (r, u)))"

definition set_collection :: "string \<Rightarrow> (rw_lock \<Rightarrow> rw_lock) \<Rightarrow> lock_registry \<Rightarrow> lock_registry" where
  "set_collection c f l = l\<lparr>lk_collections := (lk_collections l)(c := f (lk_collections l c))\<rparr>"

text \<open>\<open>acquire\<close> on a collection: \<open>wait\<close> is what the other threads do until the condition is
  notified or the deadline passes, \<open>wakeups\<close> the number of times that happens before it.\<close>

primrec acquire_collection ::
  "('w engine_state, unit) eff \<Rightarrow> string \<Rightarrow> bool \<Rightarrow> nat \<Rightarrow> ('w engine_state, bool) eff" where
  "acquire_collection wait c exclusive 0 =
     bindE (gets (\<lambda>s. lk_collections (es_locks s) c)) (\<lambda>l.
       if rw_available exclusive l then seqE (on_locks (set_collection c (rw_take exclusive))) (ret True)
       else ret False)"
| "acquire_collection wait c exclusive (Suc wakeups) =
     bindE (gets (\<lambda>s. lk_collections (es_locks s) c)) (\<lambda>l.
       if rw_available exclusive l then seqE (on_locks (set_collection c (rw_take exclusive))) (ret True)
       else seqE wait (acquire_collection wait c exclusive wakeups))"

definition release_collection :: "string \<Rightarrow> bool \<Rightarrow> ('w engine_state, unit) eff" where
  "release_collection c exclusive = on_locks (set_collection c (rw_release exclusive))"

definition release_job :: "string \<Rightarrow> ('w engine_state, unit) eff" where
  "release_job jid = on_locks (\<lambda>l. l\<lparr>lk_jobs := lk_jobs l - {jid}\<rparr>)"

definition active_run_id :: "db \<Rightarrow> string \<Rightarrow> string option" where
  "active_run_id db jid =
     (case list_runs db (Some jid) (Some Running) 1 None of [] \<Rightarrow> None | r # _ \<Rightarrow> Some (run_id r))"

definition begin_run :: "job \<Rightarrow> ('w engine_state, unit) eff" where
  "begin_run j =
     bindE (gets es_locks) (\<lambda>l.
       if job_id j \<in> lk_jobs l then raise (RunRejectedError (job_id j))
       else on_locks (\<lambda>l. l\<lparr>lk_jobs := insert (job_id j) (lk_jobs l)\<rparr>))"

text \<open>The seconds of the message are the timeout rounded to an integer.\<close>

definition aborted_lock_row :: "job \<Rightarrow> run_trigger \<Rightarrow> mode \<Rightarrow> int \<Rightarrow> string \<Rightarrow> string \<Rightarrow> string \<Rightarrow> run_row" where
  "aborted_lock_row j trigger md seconds rid started finished =
     (new_run j trigger rid started md ScopeJob
        \<lparr>ro_force = False, ro_dry_run = False, ro_skip_sync = False, ro_delete_vanished = True, ro_siblings = []\<rparr>)
       \<lparr>run_full_scope := None, run_phase := None, run_finished_at := Some finished, run_status := AbortedLock,
        run_error := Some (''collection '' @ quoted (job_collection j) @ '' stayed locked for '' @
          str_of_int seconds @ ''s; coalescing lets the next tick retry'')\<rparr>"

definition record_aborted_lock ::
  "'w run_env \<Rightarrow> job \<Rightarrow> run_trigger \<Rightarrow> mode \<Rightarrow> int \<Rightarrow> string option \<Rightarrow> ('w run_state, run_row) eff" where
  "record_aborted_lock env j trigger md seconds rid =
     bindE (case or_else rid None of Some r \<Rightarrow> ret r | None \<Rightarrow> in_world (re_uuid4 env)) (\<lambda>r.
     bindE (in_world (re_now env)) (\<lambda>started.
     bindE (in_world (re_now env)) (\<lambda>finished.
       let run = aborted_lock_row j trigger md seconds r started finished
       in seqE (create_run_row env run) (ret run))))"

definition execute_locked ::
  "'w run_env \<Rightarrow> ('w, bool) eff \<Rightarrow> ('w engine_state, unit) eff \<Rightarrow> nat \<Rightarrow> int \<Rightarrow> job \<Rightarrow> run_trigger \<Rightarrow> string option \<Rightarrow>
   mode option \<Rightarrow> full_scope option \<Rightarrow> run_options \<Rightarrow> ('w engine_state, run_row) eff" where
  "execute_locked env should_abort wait wakeups seconds j trigger rid md scope opts =
     (let effective_mode = or_default md (job_mode j); exclusive = effective_mode = Full; c = job_collection j
      in finallyE
           (bindE (acquire_collection wait c exclusive wakeups) (\<lambda>acquired.
              if \<not> acquired then on_run (record_aborted_lock env j trigger effective_mode seconds rid)
              else finallyE (on_run (run_job env should_abort j trigger rid md scope opts))
                     (release_collection c exclusive)))
           (release_job (job_id j)))"

definition run_locked ::
  "'w run_env \<Rightarrow> ('w, bool) eff \<Rightarrow> ('w engine_state, unit) eff \<Rightarrow> nat \<Rightarrow> int \<Rightarrow> job \<Rightarrow> run_trigger \<Rightarrow> string option \<Rightarrow>
   mode option \<Rightarrow> full_scope option \<Rightarrow> run_options \<Rightarrow> ('w engine_state, run_row) eff" where
  "run_locked env should_abort wait wakeups seconds j trigger rid md scope opts =
     seqE (begin_run j) (execute_locked env should_abort wait wakeups seconds j trigger rid md scope opts)"

section \<open>What the sequential code leaves of the locks\<close>

lemma on_run_locks: "on_run m s = (r, t) \<Longrightarrow> es_locks t = es_locks s"
  by (auto simp: on_run_def split: prod.splits)

lemma set_collection_release_take:
  assumes "rw_available exclusive (lk_collections l c)"
  shows "set_collection c (rw_release exclusive) (set_collection c (rw_take exclusive) l) = l"
  using assms by (simp add: set_collection_def rw_release_take)

lemma lr_jobs_set_collection: "lk_jobs (set_collection c f l) = lk_jobs l"
  by (simp add: set_collection_def)

lemma record_aborted_lock_documents:
  assumes "record_aborted_lock env j trigger md seconds rid s = (r, t)"
  shows "db_documents (rs_db t) = db_documents (rs_db s) \<and>
    (case r of Inl e \<Rightarrow> True | Inr row \<Rightarrow> run_status row = AbortedLock)"
  using assms
  by (auto simp: record_aborted_lock_def bindE_def seqE_def in_world_def create_run_row_def create_run_def
      gets_def ret_def modify_def aborted_lock_row_def Let_def split: prod.splits sum.splits if_splits option.splits)

text \<open>The state after the other threads have run between so many wakeups.\<close>

primrec waited :: "('w engine_state, unit) eff \<Rightarrow> nat \<Rightarrow> 'w engine_state \<Rightarrow> 'w engine_state" where
  "waited wait 0 s = s"
| "waited wait (Suc n) s = waited wait n (snd (wait s))"

abbreviation may_take :: "bool \<Rightarrow> string \<Rightarrow> 'w engine_state \<Rightarrow> bool" where
  "may_take exclusive c s \<equiv> rw_available exclusive (lk_collections (es_locks s) c)"

text \<open>\<open>acquire\<close> takes the lock at the first wakeup at which the condition holds, and gives up at the
  deadline with nothing taken.\<close>

lemma acquire_waits:
  assumes wait: "\<And>s. fst (wait s) = Inr ()"
  shows "\<exists>k \<le> wakeups. (\<forall>i < k. \<not> may_take x c (waited wait i s)) \<and>
    (if may_take x c (waited wait k s)
     then acquire_collection wait c x wakeups s =
       (Inr True, (waited wait k s)\<lparr>es_locks := set_collection c (rw_take x) (es_locks (waited wait k s))\<rparr>)
     else k = wakeups \<and> acquire_collection wait c x wakeups s = (Inr False, waited wait k s))"
proof (induction wakeups arbitrary: s)
  case 0
  show ?case by (simp add: bindE_def seqE_def gets_def on_locks_def modify_def ret_def)
next
  case (Suc n)
  show ?case
  proof (cases "may_take x c s")
    case True
    then show ?thesis
      by (intro exI [of _ 0]) (simp add: bindE_def seqE_def gets_def on_locks_def modify_def ret_def)
  next
    case False
    obtain v where v: "wait s = (Inr (), v)" using wait [of s] by (cases "wait s") simp
    from Suc [of v] obtain k where "k \<le> n" and ih: "\<forall>i < k. \<not> may_take x c (waited wait i v)"
      "if may_take x c (waited wait k v)
       then acquire_collection wait c x n v =
         (Inr True, (waited wait k v)\<lparr>es_locks := set_collection c (rw_take x) (es_locks (waited wait k v))\<rparr>)
       else k = n \<and> acquire_collection wait c x n v = (Inr False, waited wait k v)" by blast
    have next_try: "acquire_collection wait c x (Suc n) s = acquire_collection wait c x n v"
      using False by (simp add: bindE_def seqE_def gets_def v)
    have first: "\<forall>i < Suc k. \<not> may_take x c (waited wait i s)"
      using False ih(1) by (auto simp: less_Suc_eq_0_disj v)
    show ?thesis
      using \<open>k \<le> n\<close> first ih(2) unfolding next_try
      by (intro exI [of _ "Suc k"] conjI) (auto simp: v)
  qed
qed

text \<open>C17: A run waits for its collection and gives its locks back, however it ends. Let the other threads
  do what they may between the wakeups. Then after some number of wakeups, at each of which before
  the collection was taken, either the collection was free, and the result is the one of the run,
  started in the state then, or it is still taken at the deadline: then no document was touched since,
  and a row that is returned says \<open>aborted_lock\<close>. In both cases, and whether the run returns or raises,
  the registry is in the end the one the others had left, without the lock of the job.\<close>

theorem execute_locked_releases:
  assumes "execute_locked env should_abort wait wakeups seconds j trigger rid md scope opts s = (res, t)"
    and "\<And>s. fst (wait s) = Inr ()"
    and "exclusive = (or_default md (job_mode j) = Full)"
  shows "\<exists>k \<le> wakeups. \<exists>u. u = waited wait k s \<and>
    (\<forall>i < k. \<not> may_take exclusive (job_collection j) (waited wait i s)) \<and>
    es_locks t = (es_locks u)\<lparr>lk_jobs := lk_jobs (es_locks u) - {job_id j}\<rparr> \<and>
    (if may_take exclusive (job_collection j) u
     then run_job env should_abort j trigger rid md scope opts (es_run u) = (res, es_run t)
     else k = wakeups \<and> db_documents (rs_db (es_run t)) = db_documents (rs_db (es_run u)) \<and>
       (case res of Inl e \<Rightarrow> True | Inr row \<Rightarrow> run_status row = AbortedLock))"
proof -
  let ?c = "job_collection j"
  from acquire_waits [where wait = wait, OF assms(2)] obtain k where k: "k \<le> wakeups"
    "\<forall>i < k. \<not> may_take exclusive ?c (waited wait i s)"
    and a: "if may_take exclusive ?c (waited wait k s)
     then acquire_collection wait ?c exclusive wakeups s =
       (Inr True, (waited wait k s)\<lparr>es_locks := set_collection ?c (rw_take exclusive) (es_locks (waited wait k s))\<rparr>)
     else k = wakeups \<and> acquire_collection wait ?c exclusive wakeups s = (Inr False, waited wait k s)" by blast
  define u where "u = waited wait k s"
  note a = a [folded u_def]
  have "es_locks t = (es_locks u)\<lparr>lk_jobs := lk_jobs (es_locks u) - {job_id j}\<rparr> \<and>
    (if may_take exclusive ?c u
     then run_job env should_abort j trigger rid md scope opts (es_run u) = (res, es_run t)
     else k = wakeups \<and> db_documents (rs_db (es_run t)) = db_documents (rs_db (es_run u)) \<and>
       (case res of Inl e \<Rightarrow> True | Inr row \<Rightarrow> run_status row = AbortedLock))"
  proof (cases "may_take exclusive ?c u")
    case True
    obtain r v where r: "run_job env should_abort j trigger rid md scope opts (es_run u) = (r, v)" by fastforce
    have "res = r \<and> t = u\<lparr>es_run := v, es_locks := (es_locks u)\<lparr>lk_jobs := lk_jobs (es_locks u) - {job_id j}\<rparr>\<rparr>"
      using assms(1) True a r
      by (auto simp: execute_locked_def Let_def finallyE_def bindE_def release_collection_def release_job_def
          on_locks_def on_run_def modify_def set_collection_release_take assms(3))
    then show ?thesis using True r by simp
  next
    case False
    obtain r v where r: "record_aborted_lock env j trigger (or_default md (job_mode j)) seconds rid (es_run u) = (r, v)"
      by fastforce
    have "res = r \<and> t = u\<lparr>es_run := v, es_locks := (es_locks u)\<lparr>lk_jobs := lk_jobs (es_locks u) - {job_id j}\<rparr>\<rparr>"
      using assms(1) False a r
      by (auto simp: execute_locked_def Let_def finallyE_def bindE_def on_run_def release_job_def on_locks_def
          modify_def assms(3))
    then show ?thesis using False a record_aborted_lock_documents [OF r] by simp
  qed
  with k show ?thesis unfolding u_def by blast
qed

definition sample_locked :: "fake_qdrant engine_state" where
  "sample_locked = \<lparr>es_locks = \<lparr>lk_jobs = {''acme''},
       lk_collections = (\<lambda>c. new_rw_lock)(''kb'' := \<lparr>rw_readers = 0, rw_writer = True\<rparr>)\<rparr>, es_run = fake_tracked\<rparr>"

text \<open>Another thread leaves the collection while this one waits: after one wakeup the run goes on.\<close>

definition sample_wait :: "(fake_qdrant engine_state, unit) eff" where
  "sample_wait = on_locks (set_collection ''kb'' (rw_release True))"

theorem execute_locked_releases_witness:
  "es_locks (snd (execute_locked (fake_env []) (ret False) sample_wait 3 600 sample_job TrigCron None None None
     plain_opts sample_locked)) = \<lparr>lk_jobs = {}, lk_collections = (\<lambda>c. new_rw_lock)\<rparr>"
proof -
  obtain res t where r: "execute_locked (fake_env []) (ret False) sample_wait 3 600 sample_job TrigCron None None None
      plain_opts sample_locked = (res, t)" by fastforce
  have w: "fst (sample_wait s) = Inr ()" for s by (simp add: sample_wait_def on_locks_def modify_def)
  let ?x = "or_default None (job_mode sample_job) = Full"
  have c: "job_collection sample_job = ''kb''" by (simp add: sample_job_def)
  have first: "\<not> may_take ?x ''kb'' (waited sample_wait 0 sample_locked)"
    by (simp add: sample_locked_def rw_available_def)
  have free: "es_locks (waited sample_wait (Suc 0) sample_locked) = \<lparr>lk_jobs = {''acme''}, lk_collections = (\<lambda>c. new_rw_lock)\<rparr>"
    by (simp add: sample_locked_def sample_wait_def on_locks_def modify_def set_collection_def rw_release_def new_rw_lock_def
        fun_eq_iff)
  then have second: "may_take ?x ''kb'' (waited sample_wait (Suc 0) sample_locked)"
    by (simp add: rw_available_def new_rw_lock_def)
  from execute_locked_releases [OF r w refl, unfolded c] obtain k u where u: "u = waited sample_wait k sample_locked"
    and before: "\<forall>i < k. \<not> may_take ?x ''kb'' (waited sample_wait i sample_locked)"
    and locks: "es_locks t = (es_locks u)\<lparr>lk_jobs := lk_jobs (es_locks u) - {job_id sample_job}\<rparr>"
    and last: "if may_take ?x ''kb'' u
      then run_job (fake_env []) (ret False) sample_job TrigCron None None None plain_opts (es_run u) = (res, es_run t)
      else k = 3 \<and> db_documents (rs_db (es_run t)) = db_documents (rs_db (es_run u)) \<and>
        (case res of Inl e \<Rightarrow> True | Inr row \<Rightarrow> run_status row = AbortedLock)" by blast
  from before second have "\<not> Suc 0 < k" by blast
  then have "k \<le> 1" by simp
  moreover have "k \<noteq> 0" 
  proof
    assume "k = 0"
    with first last show False unfolding u by simp
  qed
  ultimately have "k = Suc 0" by simp
  with locks free u have "es_locks t = \<lparr>lk_jobs = {}, lk_collections = (\<lambda>c. new_rw_lock)\<rparr>" by (simp add: sample_job_def)
  then show ?thesis by (simp add: r)
qed

end
