(* ===== verification/LockSteps.thy ===== *)
theory LockSteps
  imports Locks
begin

text \<open>
  Concurrent runs: each thread that called \<open>begin\<close> carries a claim through waiting for the
  collection, working and leaving; the steps are those of \<open>LockingRunner\<close>, interleaved in any
  order. The invariant says which locks are held by whom.
\<close>

section \<open>Threads and steps\<close>

datatype claim_phase = Waiting | Working | Leaving

record claim =
  cl_job :: string
  cl_collection :: string
  cl_exclusive :: bool
  cl_phase :: claim_phase

record lock_state =
  ls_locks :: lock_registry
  ls_threads :: "nat \<Rightarrow> claim option"

datatype lock_event = EvBegin | EvAcquire | EvGiveUp | EvRelease | EvEnd

definition with_thread :: "nat \<Rightarrow> claim option \<Rightarrow> (lock_registry \<Rightarrow> lock_registry) \<Rightarrow> lock_state \<Rightarrow> lock_state" where
  "with_thread t x f s = s\<lparr>ls_locks := f (ls_locks s), ls_threads := (ls_threads s)(t := x)\<rparr>"

text \<open>\<open>begin\<close> claims the job lock or rejects; \<open>wait_for\<close> returns true with the lock taken, or
  false at the deadline, the condition false; the collection is released when the run is over,
  the job lock last.\<close>

inductive lock_step :: "lock_state \<Rightarrow> lock_event \<Rightarrow> lock_state \<Rightarrow> bool" where
  claims: "ls_threads s t = None \<Longrightarrow> jid \<notin> lk_jobs (ls_locks s) \<Longrightarrow>
    lock_step s EvBegin (with_thread t
      (Some \<lparr>cl_job = jid, cl_collection = c, cl_exclusive = x, cl_phase = Waiting\<rparr>)
      (\<lambda>l. l\<lparr>lk_jobs := insert jid (lk_jobs l)\<rparr>) s)"
| acquires: "ls_threads s t = Some cl \<Longrightarrow> cl_phase cl = Waiting \<Longrightarrow>
    rw_available (cl_exclusive cl) (lk_collections (ls_locks s) (cl_collection cl)) \<Longrightarrow>
    lock_step s EvAcquire (with_thread t (Some (cl\<lparr>cl_phase := Working\<rparr>))
      (set_collection (cl_collection cl) (rw_take (cl_exclusive cl))) s)"
| gives_up: "ls_threads s t = Some cl \<Longrightarrow> cl_phase cl = Waiting \<Longrightarrow>
    \<not> rw_available (cl_exclusive cl) (lk_collections (ls_locks s) (cl_collection cl)) \<Longrightarrow>
    lock_step s EvGiveUp (with_thread t (Some (cl\<lparr>cl_phase := Leaving\<rparr>)) id s)"
| releases: "ls_threads s t = Some cl \<Longrightarrow> cl_phase cl = Working \<Longrightarrow>
    lock_step s EvRelease (with_thread t (Some (cl\<lparr>cl_phase := Leaving\<rparr>))
      (set_collection (cl_collection cl) (rw_release (cl_exclusive cl))) s)"
| ends: "ls_threads s t = Some cl \<Longrightarrow> cl_phase cl = Leaving \<Longrightarrow>
    lock_step s EvEnd (with_thread t None (\<lambda>l. l\<lparr>lk_jobs := lk_jobs l - {cl_job cl}\<rparr>) s)"

inductive_cases lock_stepE: "lock_step s e s'"

definition free_locks :: lock_registry where
  "free_locks = \<lparr>lk_jobs = {}, lk_collections = (\<lambda>c. new_rw_lock)\<rparr>"

inductive lock_reachable :: "lock_state \<Rightarrow> bool" where
  start: "lock_reachable \<lparr>ls_locks = free_locks, ls_threads = Map.empty\<rparr>"
| step: "lock_reachable s \<Longrightarrow> lock_step s e s' \<Longrightarrow> lock_reachable s'"

section \<open>Who holds what\<close>

definition works :: "lock_state \<Rightarrow> string \<Rightarrow> bool \<Rightarrow> nat set" where
  "works s c x = {t. \<exists>cl. ls_threads s t = Some cl \<and> cl_phase cl = Working \<and> cl_collection cl = c \<and> cl_exclusive cl = x}"

definition lock_inv :: "lock_state \<Rightarrow> bool" where
  "lock_inv s \<longleftrightarrow>
     finite (dom (ls_threads s)) \<and>
     lk_jobs (ls_locks s) = {jid. \<exists>t cl. ls_threads s t = Some cl \<and> cl_job cl = jid} \<and>
     (\<forall>t u a b. ls_threads s t = Some a \<longrightarrow> ls_threads s u = Some b \<longrightarrow> cl_job a = cl_job b \<longrightarrow> t = u) \<and>
     (\<forall>c. rw_readers (lk_collections (ls_locks s) c) = card (works s c False) \<and>
        (if rw_writer (lk_collections (ls_locks s) c)
         then (\<exists>t. works s c True = {t}) \<and> works s c False = {} else works s c True = {}))"

lemma works_with_thread:
  "works (with_thread t y f s) c x =
     (case y of None \<Rightarrow> works s c x - {t}
      | Some cl \<Rightarrow> if cl_phase cl = Working \<and> cl_collection cl = c \<and> cl_exclusive cl = x
          then insert t (works s c x) else works s c x - {t})"
  by (auto simp: works_def with_thread_def split: option.split)

lemma works_finite: "finite (dom (ls_threads s)) \<Longrightarrow> finite (works s c x)"
  by (erule rev_finite_subset) (auto simp: works_def)

lemma thread_not_working: "ls_threads s t = Some cl \<Longrightarrow> cl_phase cl \<noteq> Working \<Longrightarrow> t \<notin> works s c x"
  by (auto simp: works_def)

lemma thread_working:
  "ls_threads s t = Some cl \<Longrightarrow> cl_phase cl = Working \<Longrightarrow>
   t \<in> works s c x \<longleftrightarrow> cl_collection cl = c \<and> cl_exclusive cl = x"
  by (auto simp: works_def)

lemma with_thread_simps [simp]:
  "ls_locks (with_thread t y f s) = f (ls_locks s)"
  "ls_threads (with_thread t y f s) = (ls_threads s)(t := y)"
  by (simp_all add: with_thread_def)

lemma set_collection_simps [simp]:
  "lk_jobs (set_collection c f l) = lk_jobs l"
  "lk_collections (set_collection c f l) k = (if k = c then f (lk_collections l c) else lk_collections l k)"
  by (simp_all add: set_collection_def)

text \<open>Which jobs are claimed does not depend on the phase of a claim.\<close>

definition jobs_ok :: "lock_state \<Rightarrow> bool" where
  "jobs_ok s \<longleftrightarrow> finite (dom (ls_threads s)) \<and> lk_jobs (ls_locks s) = {jid. \<exists>t cl. ls_threads s t = Some cl \<and> cl_job cl = jid} \<and>
     (\<forall>t u a b. ls_threads s t = Some a \<longrightarrow> ls_threads s u = Some b \<longrightarrow> cl_job a = cl_job b \<longrightarrow> t = u)"

definition collection_ok :: "lock_state \<Rightarrow> string \<Rightarrow> bool" where
  "collection_ok s c \<longleftrightarrow> rw_readers (lk_collections (ls_locks s) c) = card (works s c False) \<and>
     (if rw_writer (lk_collections (ls_locks s) c)
      then (\<exists>t. works s c True = {t}) \<and> works s c False = {} else works s c True = {})"

lemma lock_inv_split: "lock_inv s \<longleftrightarrow> jobs_ok s \<and> (\<forall>c. collection_ok s c)"
  by (auto simp: lock_inv_def jobs_ok_def collection_ok_def)

text \<open>The jobs that are claimed, by the thread \<open>t\<close> or by others.\<close>

definition others :: "lock_state \<Rightarrow> nat \<Rightarrow> string set" where
  "others s t = {jid. \<exists>u k. u \<noteq> t \<and> ls_threads s u = Some k \<and> cl_job k = jid}"

lemma claimed_with_thread:
  "{jid. \<exists>u k. ((ls_threads s)(t := y)) u = Some k \<and> cl_job k = jid} =
     others s t \<union> (case y of None \<Rightarrow> {} | Some k \<Rightarrow> {cl_job k})"
  by (auto simp: others_def split: option.splits)

lemma jobs_ok_others:
  assumes "jobs_ok s"
  shows "lk_jobs (ls_locks s) = others s t \<union> (case ls_threads s t of None \<Rightarrow> {} | Some k \<Rightarrow> {cl_job k})"
    and "ls_threads s t = Some k \<Longrightarrow> cl_job k \<notin> others s t"
proof -
  show "lk_jobs (ls_locks s) = others s t \<union> (case ls_threads s t of None \<Rightarrow> {} | Some k \<Rightarrow> {cl_job k})"
    using assms claimed_with_thread [of s t "ls_threads s t"] by (simp add: jobs_ok_def)
  show "ls_threads s t = Some k \<Longrightarrow> cl_job k \<notin> others s t"
    using assms unfolding jobs_ok_def others_def by blast
qed

lemma jobs_ok_with_thread:
  assumes "jobs_ok s" and "lk_jobs (f (ls_locks s)) = others s t \<union> (case y of None \<Rightarrow> {} | Some k \<Rightarrow> {cl_job k})"
    and "\<And>k. y = Some k \<Longrightarrow> cl_job k \<notin> others s t"
  shows "jobs_ok (with_thread t y f s)"
proof -
  have "u = v" if "((ls_threads s)(t := y)) u = Some a" "((ls_threads s)(t := y)) v = Some b" "cl_job a = cl_job b" for u v a b
  proof -
    have o: "cl_job k \<in> others s t" if "ls_threads s w = Some k" "w \<noteq> t" for w k
      using that unfolding others_def by blast
    consider "u = t" "v = t" | "u = t" "v \<noteq> t" | "u \<noteq> t" "v = t" | "u \<noteq> t" "v \<noteq> t" by blast
    then show ?thesis
    proof cases
      case 2
      with that o [of v b] assms(3) [of a] show ?thesis by simp
    next
      case 3
      with that o [of u a] assms(3) [of b] show ?thesis by simp
    next
      case 4
      with that assms(1) show ?thesis unfolding jobs_ok_def by (metis fun_upd_other)
    qed simp
  qed
  then have "\<forall>u v a b. ((ls_threads s)(t := y)) u = Some a \<longrightarrow> ((ls_threads s)(t := y)) v = Some b \<longrightarrow>
      cl_job a = cl_job b \<longrightarrow> u = v" by blast
  moreover have "finite (dom ((ls_threads s)(t := y)))" using assms(1) by (simp add: jobs_ok_def)
  moreover note assms(2) [unfolded claimed_with_thread [symmetric]]
  ultimately show ?thesis
    unfolding jobs_ok_def with_thread_simps by (intro conjI)
qed

lemma jobs_ok_phase:
  assumes "jobs_ok s" and "ls_threads s t = Some cl" and "lk_jobs (f (ls_locks s)) = lk_jobs (ls_locks s)"
    and "cl_job cl' = cl_job cl"
  shows "jobs_ok (with_thread t (Some cl') f s)"
  using jobs_ok_others [OF assms(1), of t] assms by (intro jobs_ok_with_thread) simp_all

lemma jobs_ok_begin:
  assumes "jobs_ok s" and "ls_threads s t = None" and "cl_job cl \<notin> lk_jobs (ls_locks s)"
  shows "jobs_ok (with_thread t (Some cl) (\<lambda>l. l\<lparr>lk_jobs := insert (cl_job cl) (lk_jobs l)\<rparr>) s)"
  using jobs_ok_others [OF assms(1), of t] assms by (intro jobs_ok_with_thread) auto

lemma jobs_ok_end:
  assumes "jobs_ok s" and "ls_threads s t = Some cl"
  shows "jobs_ok (with_thread t None (\<lambda>l. l\<lparr>lk_jobs := lk_jobs l - {cl_job cl}\<rparr>) s)"
  using jobs_ok_others [OF assms(1), of t] assms by (intro jobs_ok_with_thread) auto

lemma collection_ok_take:
  assumes "lock_inv s" and "ls_threads s t = Some cl" and "cl_phase cl = Waiting"
    and "rw_available (cl_exclusive cl) (lk_collections (ls_locks s) (cl_collection cl))"
  shows "collection_ok (with_thread t (Some (cl\<lparr>cl_phase := Working\<rparr>))
      (set_collection (cl_collection cl) (rw_take (cl_exclusive cl))) s) c"
proof -
  have t: "t \<notin> works s c x" for x using assms(2,3) by (simp add: thread_not_working)
  have f: "finite (works s c x)" for x using assms(1) by (simp add: lock_inv_def works_finite)
  have ok: "collection_ok s c" using assms(1) by (simp add: lock_inv_split)
  show ?thesis
  proof (cases "c = cl_collection cl")
    case True
    with ok assms(4) t f show ?thesis
      by (cases "cl_exclusive cl") (simp_all add: collection_ok_def works_with_thread rw_take_def rw_available_def)
  next
    case False
    with ok t show ?thesis by (simp add: collection_ok_def works_with_thread)
  qed
qed

lemma collection_ok_release:
  assumes "lock_inv s" and "ls_threads s t = Some cl" and "cl_phase cl = Working"
  shows "collection_ok (with_thread t (Some (cl\<lparr>cl_phase := Leaving\<rparr>))
      (set_collection (cl_collection cl) (rw_release (cl_exclusive cl))) s) c"
proof -
  note t = thread_working [OF assms(2,3)]
  have f: "finite (works s c x)" for x using assms(1) by (simp add: lock_inv_def works_finite)
  have ok: "collection_ok s c" using assms(1) by (simp add: lock_inv_split)
  show ?thesis
  proof (cases "c = cl_collection cl")
    case c: True
    show ?thesis
    proof (cases "cl_exclusive cl")
      case True
      then have "t \<in> works s c True" "t \<notin> works s c False" using c t by simp_all
      with ok c True show ?thesis
        by (auto simp: collection_ok_def works_with_thread rw_release_def split: if_splits)
    next
      case False
      then have "t \<notin> works s c True" "t \<in> works s c False" using c t by simp_all
      with ok c False f show ?thesis
        by (auto simp: collection_ok_def works_with_thread rw_release_def split: if_splits)
    qed
  next
    case False
    with ok t show ?thesis by (simp add: collection_ok_def works_with_thread)
  qed
qed

lemma collection_ok_idle:
  assumes "collection_ok s c" and "\<And>x. t \<notin> works s c x" and "lk_collections (f (ls_locks s)) = lk_collections (ls_locks s)"
    and "\<And>cl. y = Some cl \<Longrightarrow> cl_phase cl \<noteq> Working"
  shows "collection_ok (with_thread t y f s) c"
  using assms by (auto simp: collection_ok_def works_with_thread split: option.split)

lemma lock_step_inv: "lock_inv s \<Longrightarrow> lock_step s e s' \<Longrightarrow> lock_inv s'"
proof (erule lock_stepE)
  fix t jid c x
  assume i: "lock_inv s" "ls_threads s t = None" "jid \<notin> lk_jobs (ls_locks s)"
    and s': "s' = with_thread t (Some \<lparr>cl_job = jid, cl_collection = c, cl_exclusive = x, cl_phase = Waiting\<rparr>)
      (\<lambda>l. l\<lparr>lk_jobs := insert jid (lk_jobs l)\<rparr>) s"
  have "t \<notin> works s k b" for k b using i(2) by (auto simp: works_def)
  with i jobs_ok_begin [of s t "\<lparr>cl_job = jid, cl_collection = c, cl_exclusive = x, cl_phase = Waiting\<rparr>"]
  show "lock_inv s'" unfolding lock_inv_split s' by (auto intro!: collection_ok_idle)
next
  fix t cl
  assume i: "lock_inv s" "ls_threads s t = Some cl" "cl_phase cl = Waiting"
    "rw_available (cl_exclusive cl) (lk_collections (ls_locks s) (cl_collection cl))"
    and s': "s' = with_thread t (Some (cl\<lparr>cl_phase := Working\<rparr>))
      (set_collection (cl_collection cl) (rw_take (cl_exclusive cl))) s"
  from i collection_ok_take [OF i] show "lock_inv s'"
    unfolding lock_inv_split s' by (auto intro: jobs_ok_phase)
next
  fix t cl
  assume i: "lock_inv s" "ls_threads s t = Some cl" "cl_phase cl = Waiting"
    and s': "s' = with_thread t (Some (cl\<lparr>cl_phase := Leaving\<rparr>)) id s"
  have "t \<notin> works s k b" for k b using i by (simp add: thread_not_working)
  with i show "lock_inv s'"
    unfolding lock_inv_split s' by (auto intro: jobs_ok_phase intro!: collection_ok_idle)
next
  fix t cl
  assume i: "lock_inv s" "ls_threads s t = Some cl" "cl_phase cl = Working"
    and s': "s' = with_thread t (Some (cl\<lparr>cl_phase := Leaving\<rparr>))
      (set_collection (cl_collection cl) (rw_release (cl_exclusive cl))) s"
  from i collection_ok_release [OF i] show "lock_inv s'"
    unfolding lock_inv_split s' by (auto intro: jobs_ok_phase)
next
  fix t cl
  assume i: "lock_inv s" "ls_threads s t = Some cl" "cl_phase cl = Leaving"
    and s': "s' = with_thread t None (\<lambda>l. l\<lparr>lk_jobs := lk_jobs l - {cl_job cl}\<rparr>) s"
  have "t \<notin> works s k b" for k b using i by (simp add: thread_not_working)
  with i show "lock_inv s'"
    unfolding lock_inv_split s' by (auto intro: jobs_ok_end intro!: collection_ok_idle)
qed

lemma lock_reachable_inv: "lock_reachable s \<Longrightarrow> lock_inv s"
proof (induction rule: lock_reachable.induct)
  case start
  then show ?case
    by (simp add: lock_inv_def free_locks_def new_rw_lock_def works_def)
next
  case (step s e s')
  then show ?case by (blast intro: lock_step_inv)
qed

section \<open>Progress\<close>

text \<open>The steps other than new claims, and how far a claim is from its end.\<close>

definition drains :: "lock_state \<Rightarrow> lock_state \<Rightarrow> bool" where
  "drains s s' \<longleftrightarrow> (\<exists>e. e \<noteq> EvBegin \<and> lock_step s e s')"

fun phase_weight :: "claim_phase \<Rightarrow> nat" where
  "phase_weight Waiting = 3"
| "phase_weight Working = 2"
| "phase_weight Leaving = 1"

definition load_of :: "lock_state \<Rightarrow> nat" where
  "load_of s = (\<Sum>t \<in> dom (ls_threads s). case ls_threads s t of None \<Rightarrow> 0 | Some cl \<Rightarrow> phase_weight (cl_phase cl))"

lemma load_with_thread:
  assumes "finite (dom (ls_threads s))" and "ls_threads s t = Some cl"
  shows "load_of (with_thread t y f s) + phase_weight (cl_phase cl) =
    load_of s + (case y of None \<Rightarrow> 0 | Some k \<Rightarrow> phase_weight (cl_phase k))"
proof -
  let ?w = "\<lambda>x. case x of None \<Rightarrow> 0 | Some k \<Rightarrow> phase_weight (cl_phase k)"
  let ?rest = "\<Sum>u \<in> dom (ls_threads s) - {t}. ?w (ls_threads s u)"
  have "load_of s = phase_weight (cl_phase cl) + ?rest"
    unfolding load_of_def using assms by (subst sum.remove [of _ t]) auto
  moreover have "load_of (with_thread t y f s) = ?w y + ?rest"
  proof (cases y)
    case None
    then show ?thesis unfolding load_of_def by (auto intro!: sum.cong)
  next
    case (Some k)
    then have d: "dom (ls_threads (with_thread t y f s)) = insert t (dom (ls_threads s) - {t})" by auto
    show ?thesis unfolding load_of_def d using Some assms(1) by (simp del: insert_Diff_single)
  qed
  ultimately show ?thesis by simp
qed

lemma load_drop:
  assumes "finite (dom (ls_threads s))" and "ls_threads s t = Some cl"
  shows "(case y of None \<Rightarrow> 0 | Some k \<Rightarrow> phase_weight (cl_phase k)) < phase_weight (cl_phase cl) \<Longrightarrow>
    load_of (with_thread t y f s) < load_of s"
  using load_with_thread [OF assms, of y f] by simp

lemma drains_load:
  assumes "finite (dom (ls_threads s))" and "drains s s'"
  shows "load_of s' < load_of s"
proof -
  from assms(2) obtain e where e: "e \<noteq> EvBegin" "lock_step s e s'" by (auto simp: drains_def)
  from e(2,1) show ?thesis
    by (cases rule: lock_step.cases) (simp_all add: load_drop [OF assms(1)])
qed

lemma drains_enabled:
  assumes "ls_threads s t = Some cl"
  shows "\<exists>s'. drains s s'"
proof (cases "cl_phase cl")
  case Waiting
  with acquires [OF assms] gives_up [OF assms] show ?thesis unfolding drains_def by blast
next
  case Working
  with releases [OF assms] show ?thesis unfolding drains_def by blast
next
  case Leaving
  with ends [OF assms] show ?thesis unfolding drains_def by blast
qed

section \<open>Properties\<close>

text \<open>C15: Runs exclude each other: in every reachable interleaving two threads never hold the
  same job, and while a thread works exclusively on a collection (a full run) no other thread
  works on it.\<close>

theorem locks_exclude:
  assumes "lock_reachable s" and "ls_threads s t = Some a" and "ls_threads s u = Some b" and "t \<noteq> u"
  shows "cl_job a \<noteq> cl_job b \<and>
    (cl_phase a = Working \<longrightarrow> cl_phase b = Working \<longrightarrow> cl_collection a = cl_collection b \<longrightarrow>
      \<not> cl_exclusive a \<and> \<not> cl_exclusive b)"
proof -
  from assms(1) have i: "jobs_ok s" "collection_ok s (cl_collection a)"
    by (auto simp: lock_inv_split dest: lock_reachable_inv)
  from i(1) assms(2-4) have "cl_job a \<noteq> cl_job b" by (auto simp: jobs_ok_def)
  moreover have "\<not> cl_exclusive a \<and> \<not> cl_exclusive b"
    if w: "cl_phase a = Working" "cl_phase b = Working" "cl_collection a = cl_collection b"
  proof -
    have "t \<in> works s (cl_collection a) (cl_exclusive a)" "u \<in> works s (cl_collection a) (cl_exclusive b)"
      using w assms(2,3) by (auto simp: works_def)
    with i(2) assms(4) show ?thesis
      unfolding collection_ok_def by (cases "cl_exclusive a"; cases "cl_exclusive b") (auto split: if_splits)
  qed
  ultimately show ?thesis by blast
qed

definition sample_claim :: "string \<Rightarrow> claim_phase \<Rightarrow> claim" where
  "sample_claim jid p = \<lparr>cl_job = jid, cl_collection = ''kb'', cl_exclusive = False, cl_phase = p\<rparr>"

definition sample_locks :: lock_state where
  "sample_locks = with_thread 1 (Some (sample_claim ''b'' Waiting)) (\<lambda>l. l\<lparr>lk_jobs := insert ''b'' (lk_jobs l)\<rparr>)
     (with_thread 0 (Some (sample_claim ''a'' Waiting)) (\<lambda>l. l\<lparr>lk_jobs := insert ''a'' (lk_jobs l)\<rparr>)
       \<lparr>ls_locks = free_locks, ls_threads = Map.empty\<rparr>)"

lemma sample_locks_reachable: "lock_reachable sample_locks"
  unfolding sample_locks_def sample_claim_def
  by (rule lock_reachable.step [OF lock_reachable.step [OF lock_reachable.start claims] claims])
    (simp_all add: free_locks_def)

theorem locks_exclude_witness: "cl_job (the (ls_threads sample_locks 0)) \<noteq> cl_job (the (ls_threads sample_locks 1))"
  using locks_exclude [OF sample_locks_reachable, of 0 "sample_claim ''a'' Waiting" 1 "sample_claim ''b'' Waiting"]
  by (simp add: sample_locks_def)

text \<open>C16: Runs never deadlock on the locks: in every reachable interleaving with an active thread
  some thread can go on, any sequence of steps without new claims ends, and once no thread is
  left every lock is free.\<close>

theorem locks_drain:
  assumes "lock_reachable s"
  shows "(ls_threads s \<noteq> Map.empty \<longrightarrow> (\<exists>s'. drains s s')) \<and> (\<forall>s'. drains s s' \<longrightarrow> load_of s' < load_of s) \<and>
    (ls_threads s = Map.empty \<longrightarrow> ls_locks s = free_locks)"
proof (intro conjI impI allI)
  note i = lock_reachable_inv [OF assms]
  show "\<exists>s'. drains s s'" if "ls_threads s \<noteq> Map.empty"
    using that drains_enabled by (metis not_Some_eq ext)
  show "load_of s' < load_of s" if "drains s s'" for s'
    using that i by (simp add: lock_inv_def drains_load)
  assume e: "ls_threads s = Map.empty"
  have w: "works s c x = {}" for c x by (simp add: works_def e)
  have "lk_collections (ls_locks s) c = new_rw_lock" for c
  proof -
    have "collection_ok s c" using i by (simp add: lock_inv_split)
    then show ?thesis
      using w by (cases "lk_collections (ls_locks s) c") (auto simp: collection_ok_def new_rw_lock_def split: if_splits)
  qed
  moreover have "lk_jobs (ls_locks s) = {}" using i e by (simp add: lock_inv_def)
  ultimately show "ls_locks s = free_locks"
    by (cases "ls_locks s") (auto simp: free_locks_def)
qed

theorem locks_drain_witness: "\<exists>s'. drains sample_locks s'"
  using locks_drain [OF sample_locks_reachable] by (simp add: sample_locks_def)

end
