(* ===== verification/Embed.thy ===== *)
theory Embed
  imports Runner
begin

text \<open>
  The embeddings client, \<open>src/src/embed/client.py\<close>, and the rate limiter in front of it,
  \<open>src/src/embed/limiter.py\<close>. The HTTP transport and \<open>time.sleep\<close> are the record \<open>embed_http\<close>; the
  request batches, the retries, the reordering of the answer and the token bucket are modelled.
\<close>

section \<open>One request\<close>

text \<open>A response: its status and what \<open>response.json()\<close> gives. Every httpx error is the exception class
  \<open>HTTPError\<close>, also the one of \<open>raise_for_status\<close>.\<close>

record http_response =
  hr_status :: int
  hr_json :: "exc + jval"

record 'w embed_http =
  eh_post :: "string list \<Rightarrow> ('w, http_response) eff"
  eh_get_models :: "('w, int) eff"
  eh_sleep :: "rat \<Rightarrow> ('w, unit) eff"

definition HTTPError :: "string \<Rightarrow> exc" where
  "HTTPError m = PyError ''HTTPError'' m"

definition raise_for_status :: "http_response \<Rightarrow> exc + unit" where
  "raise_for_status r =
     (if 200 \<le> hr_status r \<and> hr_status r < 300 then Inr ()
      else Inl (HTTPError (''status '' @ str_of_int (hr_status r))))"

text \<open>Numbers as Python compares them, and a vector: a list of numbers (an element that is no number
  is outside the model and raises).\<close>

fun number_of :: "jval \<Rightarrow> rat option" where
  "number_of (JInt i) = Some (of_int i)"
| "number_of (JFloat q) = Some q"
| "number_of (JBool b) = Some (if b then 1 else 0)"
| "number_of v = None"

definition vector_of :: "jval \<Rightarrow> exc + rat list" where
  "vector_of v =
     (case v of
        JList xs \<Rightarrow> if list_all (\<lambda>x. number_of x \<noteq> None) xs then Inr (map (the \<circ> number_of) xs)
          else Inl (PyError ''TypeError'' ''not a number'')
      | _ \<Rightarrow> Inl (PyError ''TypeError'' ''object is not iterable''))"

text \<open>\<open>item.get("index", 0)\<close> and \<open>list(item["embedding"])\<close>.\<close>

definition item_index :: "jval \<Rightarrow> exc + rat" where
  "item_index item =
     (case item of
        JObj kvs \<Rightarrow> (case map_of kvs ''index'' of
            None \<Rightarrow> Inr 0
          | Some v \<Rightarrow> (case number_of v of Some q \<Rightarrow> Inr q
              | None \<Rightarrow> Inl (PyError ''TypeError'' ''indexes are not comparable'')))
      | _ \<Rightarrow> Inl (PyError ''AttributeError'' ''object has no attribute get''))"

definition item_vector :: "jval \<Rightarrow> exc + rat list" where
  "item_vector item =
     (case item of
        JObj kvs \<Rightarrow> (case map_of kvs ''embedding'' of
            None \<Rightarrow> Inl (PyError ''KeyError'' (quoted ''embedding'')) | Some v \<Rightarrow> vector_of v)
      | _ \<Rightarrow> Inl (PyError ''TypeError'' ''object is not subscriptable''))"

fun sum_all :: "(exc + 'a) list \<Rightarrow> exc + 'a list" where
  "sum_all [] = Inr []"
| "sum_all (x # xs) =
     (case x of Inl e \<Rightarrow> Inl e | Inr y \<Rightarrow> (case sum_all xs of Inl e \<Rightarrow> Inl e | Inr ys \<Rightarrow> Inr (y # ys)))"

text \<open>\<open>sorted(data, key=...)\<close> is stable; the keys are computed first.\<close>

definition batch_vectors :: "jval \<Rightarrow> exc + rat list list" where
  "batch_vectors payload =
     (case payload of
        JObj kvs \<Rightarrow>
          (case map_of kvs ''data'' of
             Some (JList items) \<Rightarrow>
               (case sum_all (map item_index items) of
                  Inl e \<Rightarrow> Inl e
                | Inr keys \<Rightarrow> sum_all (map (item_vector \<circ> snd) (sort_key fst (zip keys items))))
           | _ \<Rightarrow> Inl (EmbeddingUnavailableError ''embeddings response has no data array''))
      | _ \<Rightarrow> Inl (PyError ''AttributeError'' ''object has no attribute get''))"

definition request_batch :: "'w embed_http \<Rightarrow> string list \<Rightarrow> ('w, rat list list) eff" where
  "request_batch http texts =
     bindE (eh_post http texts) (\<lambda>response.
       seqE (of_sum (raise_for_status response))
        (bindE (of_sum (hr_json response)) (\<lambda>payload. of_sum (batch_vectors payload))))"

definition embed_ping :: "'w embed_http \<Rightarrow> ('w, bool) eff" where
  "embed_ping http =
     catchE (bindE (eh_get_models http) (\<lambda>status. ret (status < 500)))
       (\<lambda>e. if exc_name e = ''HTTPError'' then ret False else raise e)"

section \<open>Batches and retries\<close>

definition retryable :: "exc \<Rightarrow> bool" where
  "retryable e \<longleftrightarrow> exc_name e \<in> {''HTTPError'', ''KeyError'', ''ValueError''}"

definition gave_up :: "nat \<Rightarrow> exc \<Rightarrow> exc" where
  "gave_up retries e = EmbeddingUnavailableError (''embeddings endpoint failed after '' @ str_of_nat retries @
     '' attempts: '' @ exc_str e)"

text \<open>The second argument counts the attempts that are left.\<close>

primrec embed_attempts ::
  "'w embed_http \<Rightarrow> rat \<Rightarrow> nat \<Rightarrow> string list \<Rightarrow> nat \<Rightarrow> ('w, rat list list) eff" where
  "embed_attempts http delay retries texts 0 = raise (gave_up retries (PyError ''None'' ''None''))"
| "embed_attempts http delay retries texts (Suc n) =
     catchE (request_batch http texts)
       (\<lambda>e. if \<not> retryable e then raise e
            else if n = 0 then raise (gave_up retries e)
            else seqE (eh_sleep http delay) (embed_attempts http delay retries texts n))"

definition retries_of :: "int \<Rightarrow> nat" where
  "retries_of retries = nat (max 1 retries)"

definition embed_batch :: "'w embed_http \<Rightarrow> rat \<Rightarrow> int \<Rightarrow> string list \<Rightarrow> ('w, rat list list) eff" where
  "embed_batch http delay retries texts =
     (if texts = [] then ret [] else embed_attempts http delay (retries_of retries) texts (retries_of retries))"

function slices :: "nat \<Rightarrow> 'a list \<Rightarrow> 'a list list" where
  "slices step xs = (if xs = [] then [] else take (max 1 step) xs # slices step (drop (max 1 step) xs))"
  by pat_completeness auto
termination
  by (relation "measure (\<lambda>(step, xs). length xs)") (auto simp: less_Suc_eq max_def)

declare slices.simps [simp del]

text \<open>\<open>embed_all\<close>, over the slices \<open>texts[start : start + step]\<close>.\<close>

primrec over_slices :: "('a list \<Rightarrow> ('w, 'b list) eff) \<Rightarrow> 'a list list \<Rightarrow> ('w, 'b list) eff" where
  "over_slices f [] = ret []"
| "over_slices f (xs # xss) = bindE (f xs) (\<lambda>ys. bindE (over_slices f xss) (\<lambda>zs. ret (ys @ zs)))"

definition embed_all :: "'w embed_http \<Rightarrow> rat \<Rightarrow> int \<Rightarrow> string list \<Rightarrow> int \<Rightarrow> ('w, rat list list) eff" where
  "embed_all http delay retries texts batch_size =
     over_slices (embed_batch http delay retries) (slices (nat (max 1 batch_size)) texts)"

definition probe_dimension :: "'w embed_http \<Rightarrow> rat \<Rightarrow> int \<Rightarrow> ('w, nat) eff" where
  "probe_dimension http delay retries =
     bindE (embed_batch http delay retries [''dimension-probe'']) (\<lambda>vectors.
       case vectors of
         v # vs \<Rightarrow> if v = [] then raise (EmbeddingUnavailableError ''dimension probe returned no vector'')
           else ret (length v)
       | [] \<Rightarrow> raise (EmbeddingUnavailableError ''dimension probe returned no vector''))"

definition embedding_client :: "'w embed_http \<Rightarrow> rat \<Rightarrow> int \<Rightarrow> 'w embedder" where
  "embedding_client http delay retries =
     \<lparr>eb_probe_dimension = probe_dimension http delay retries, eb_embed_all = embed_all http delay retries\<rparr>"

section \<open>The limiter\<close>

record limiter =
  lm_rps :: rat
  lm_allowance :: rat
  lm_capacity :: rat
  lm_last_refill :: rat
  lm_permits :: nat

definition new_limiter :: "int \<Rightarrow> rat \<Rightarrow> rat \<Rightarrow> limiter" where
  "new_limiter concurrency rps now =
     \<lparr>lm_rps = rps, lm_allowance = max 1 rps, lm_capacity = max 1 rps, lm_last_refill = now,
      lm_permits = nat (max 1 concurrency)\<rparr>"

text \<open>One pass of the loop under the bucket lock: None when a token was taken, else the wait.\<close>

definition token_step :: "rat \<Rightarrow> limiter \<Rightarrow> rat option \<times> limiter" where
  "token_step now l =
     (let allowance = min (lm_capacity l) (lm_allowance l + (now - lm_last_refill l) * lm_rps l) in
      if 1 \<le> allowance then (None, l\<lparr>lm_allowance := allowance - 1, lm_last_refill := now\<rparr>)
      else (Some ((1 - allowance) / lm_rps l), l\<lparr>lm_allowance := allowance, lm_last_refill := now\<rparr>))"

text \<open>The loop, with fuel for its passes; the result is whether a token was taken within it. The bucket is
  shared and its lock is free while a thread sleeps, so \<open>sleep\<close> acts on the limiter too: it is the time
  that passes and what the other threads do to the bucket meanwhile.\<close>

primrec token_loop :: "('w, rat) eff \<Rightarrow> (rat \<Rightarrow> (limiter \<times> 'w, unit) eff) \<Rightarrow> nat \<Rightarrow> (limiter \<times> 'w, bool) eff" where
  "token_loop clock sleep 0 = ret False"
| "token_loop clock sleep (Suc fuel) =
     bindE (\<lambda>s. case clock (snd s) of (r, w) \<Rightarrow> (r, (fst s, w))) (\<lambda>now.
     bindE (\<lambda>s. (Inr (fst (token_step now (fst s))), (snd (token_step now (fst s)), snd s))) (\<lambda>wait.
       case wait of
         None \<Rightarrow> ret True
       | Some t \<Rightarrow> seqE (sleep t) (token_loop clock sleep fuel)))"

definition take_token :: "('w, rat) eff \<Rightarrow> (rat \<Rightarrow> (limiter \<times> 'w, unit) eff) \<Rightarrow> nat \<Rightarrow> (limiter \<times> 'w, bool) eff" where
  "take_token clock sleep fuel s = (if lm_rps (fst s) \<le> 0 then (Inr True, s) else token_loop clock sleep fuel s)"

text \<open>\<open>slot\<close>: \<open>wait\<close> is what the other threads do until a permit is free; it is given back on every
  way out.\<close>

definition NoToken :: exc where
  "NoToken = PyError ''NoToken'' []"

definition slot ::
  "(limiter \<times> 'w, unit) eff \<Rightarrow> ('w, rat) eff \<Rightarrow> (rat \<Rightarrow> (limiter \<times> 'w, unit) eff) \<Rightarrow> nat \<Rightarrow> ('w, 'a) eff \<Rightarrow>
   (limiter \<times> 'w, 'a) eff" where
  "slot wait clock sleep fuel body =
     seqE (bindE (gets fst) (\<lambda>l. if 0 < lm_permits l then ret () else wait))
    (seqE (modify (\<lambda>(l, w). (l\<lparr>lm_permits := lm_permits l - 1\<rparr>, w)))
     (\<lambda>s. case bindE (take_token clock sleep fuel) (\<lambda>taken.
            if taken then (\<lambda>(l, w). case body w of (r, w') \<Rightarrow> (r, (l, w'))) else raise NoToken) s of
        (r, (l, w)) \<Rightarrow> (r, (l\<lparr>lm_permits := lm_permits l + 1\<rparr>, w))))"

definition limited_probe ::
  "(limiter \<times> 'w, unit) eff \<Rightarrow> ('w, rat) eff \<Rightarrow> (rat \<Rightarrow> (limiter \<times> 'w, unit) eff) \<Rightarrow> nat \<Rightarrow> 'w embedder \<Rightarrow>
   (limiter \<times> 'w, nat) eff" where
  "limited_probe wait clock sleep fuel e = slot wait clock sleep fuel (eb_probe_dimension e)"

definition limited_embed_all ::
  "(limiter \<times> 'w, unit) eff \<Rightarrow> ('w, rat) eff \<Rightarrow> (rat \<Rightarrow> (limiter \<times> 'w, unit) eff) \<Rightarrow> nat \<Rightarrow> 'w embedder \<Rightarrow>
   string list \<Rightarrow> int \<Rightarrow> (limiter \<times> 'w, rat list list) eff" where
  "limited_embed_all wait clock sleep fuel e texts batch_size =
     (let step = nat (max 1 batch_size) in
      over_slices (\<lambda>ts. slot wait clock sleep fuel (eb_embed_all e ts (int step))) (slices step texts))"

section \<open>The answer in order\<close>

definition embedding_item :: "nat \<times> rat list \<Rightarrow> jval" where
  "embedding_item p = JObj [(''index'', JInt (int (fst p))), (''embedding'', JList (map JFloat (snd p)))]"

lemma sum_all_map_Inr: "(\<And>x. x \<in> set xs \<Longrightarrow> f x = Inr (g x)) \<Longrightarrow> sum_all (map f xs) = Inr (map g xs)"
  by (induction xs) simp_all

lemma item_simps:
  "item_index (embedding_item p) = Inr (of_nat (fst p))" "item_vector (embedding_item p) = Inr (snd p)"
  by (simp_all add: embedding_item_def item_index_def item_vector_def vector_of_def list_all_iff o_def)

lemma insort_key_map: "insort_key f (g x) (map g xs) = map g (insort_key (\<lambda>y. f (g y)) x xs)"
  by (induction xs) simp_all

lemma sort_key_map: "sort_key f (map g xs) = map g (sort_key (\<lambda>y. f (g y)) xs)"
  by (induction xs) (simp_all add: sort_key_def insort_key_map)

text \<open>An item of an answer: it carries an index and a list of numbers, and whatever else.\<close>

definition is_item :: "jval \<Rightarrow> nat \<times> rat list \<Rightarrow> bool" where
  "is_item item p \<longleftrightarrow>
     (\<exists>kvs ns. item = JObj kvs \<and> map_of kvs ''index'' = Some (JInt (int (fst p))) \<and>
        map_of kvs ''embedding'' = Some (JList ns) \<and> map number_of ns = map Some (snd p))"

lemma is_item_parts: "is_item item p \<Longrightarrow> item_index item = Inr (of_nat (fst p)) \<and> item_vector item = Inr (snd p)"
proof -
  have numbers: "list_all (\<lambda>x. number_of x \<noteq> None) ns \<and> map (the \<circ> number_of) ns = v"
    if "map number_of ns = map Some v" for ns v
    using that by (induction ns arbitrary: v) auto
  show "is_item item p \<Longrightarrow> item_index item = Inr (of_nat (fst p)) \<and> item_vector item = Inr (snd p)"
    by (auto simp: is_item_def item_index_def item_vector_def vector_of_def dest!: numbers)
qed

lemma embedding_item_is_item: "is_item (embedding_item p) p"
  by (simp add: is_item_def embedding_item_def o_def)

text \<open>The client puts the vectors back into the order of the texts: whatever order the endpoint lists
  its indexed embeddings in, the result is the embeddings by index.\<close>

lemma batch_vectors_reordered:
  assumes "list_all2 is_item js items" and "mset items = mset (enumerate 0 vs)"
    and "map_of kvs ''data'' = Some (JList js)"
  shows "batch_vectors (JObj kvs) = Inr vs"
proof -
  let ?k = "\<lambda>p. of_nat (fst p) :: rat" and ?z = "zip items js"
  have len: "length js = length items" using assms(1) by (rule list_all2_lengthD)
  have item: "is_item (snd z) (fst z)" if "z \<in> set ?z" for z
    using that assms(1) by (auto simp: list_all2_conv_all_nth in_set_zip)
  have "map item_index js = map Inr (map ?k items)"
    using assms(1) by (induction rule: list_all2_induct) (simp_all add: is_item_parts)
  then have keys: "sum_all (map item_index js) = Inr (map ?k items)"
    using sum_all_map_Inr [of "map ?k items" Inr id] by simp
  have zip: "zip (map ?k items) js = map (\<lambda>z. (?k (fst z), snd z)) ?z"
    using len by (simp add: zip_map1 split_def)
  have "sort_key ?k items = enumerate 0 vs"
  proof (rule sort_key_inj_key_eq [OF assms(2)])
    have "set items = set (enumerate 0 vs)" using assms(2) by (metis set_mset_mset)
    then show "inj_on ?k (set items)" by (auto simp: inj_on_def in_set_enumerate_eq)
    show "sorted (map ?k (enumerate 0 vs))"
      by (simp add: sorted_iff_nth_mono nth_enumerate_eq)
  qed
  then have "map fst (sort_key (\<lambda>z. ?k (fst z)) ?z) = enumerate 0 vs"
    using sort_key_map [of ?k fst ?z] len by simp
  then have order: "map (\<lambda>z. snd (fst z)) (sort_key (\<lambda>z. ?k (fst z)) ?z) = vs"
    by (metis (no_types, lifting) map_snd_enumerate list.map_comp comp_apply map_eq_conv)
  have "map (item_vector \<circ> snd) (sort_key fst (map (\<lambda>z. (?k (fst z), snd z)) ?z)) =
      map (\<lambda>z. Inr (snd (fst z))) (sort_key (\<lambda>z. ?k (fst z)) ?z)"
    by (simp add: sort_key_map o_def item is_item_parts)
  then have "sum_all (map (item_vector \<circ> snd) (sort_key fst (map (\<lambda>z. (?k (fst z), snd z)) ?z))) = Inr vs"
    using order by (simp add: sum_all_map_Inr)
  then show ?thesis
    unfolding batch_vectors_def jval.case assms(3) option.case keys sum.case zip .
qed

theorem batch_vectors_in_order:
  assumes "mset items = mset (enumerate 0 vs)"
  shows "batch_vectors (JObj [(''data'', JList (map embedding_item items))]) = Inr vs"
  by (rule batch_vectors_reordered [OF _ assms])
    (simp_all add: list_all2_map1 list.rel_refl embedding_item_is_item)

section \<open>Batches, retries and the limiter do not matter\<close>

lemma concat_text_slices: "concat (slices step xs) = xs"
  by (induction step xs rule: slices.induct) (subst slices.simps, simp)

text \<open>An endpoint that embeds each text by a function \<open>f\<close>: its answers of status 2xx hold one item for each
  text, with the index of the text, in any order. It may fail as often as it likes, with an httpx
  error, a status outside 2xx or a text that is no JSON (a \<open>ValueError\<close>); sleeping does not raise.\<close>

definition embeds :: "(string \<Rightarrow> rat list) \<Rightarrow> string list \<Rightarrow> jval \<Rightarrow> bool" where
  "embeds f texts payload \<longleftrightarrow>
     (\<exists>kvs js items. payload = JObj kvs \<and> map_of kvs ''data'' = Some (JList js) \<and>
        list_all2 is_item js items \<and> mset items = mset (enumerate 0 (map f texts)))"

definition honest :: "'w embed_http \<Rightarrow> (string \<Rightarrow> rat list) \<Rightarrow> bool" where
  "honest http f \<longleftrightarrow>
     (\<forall>texts w. case fst (eh_post http texts w) of
        Inl e \<Rightarrow> retryable e
      | Inr r \<Rightarrow> raise_for_status r = Inr () \<longrightarrow>
          (case hr_json r of Inl e \<Rightarrow> retryable e | Inr payload \<Rightarrow> embeds f texts payload)) \<and>
     (\<forall>t w. \<exists>w'. eh_sleep http t w = (Inr (), w'))"

text \<open>The failures in a row stay below a bound: there is a count of the failures still to come, below
  the bound in every world, that each failed request lowers and that sleeping does not raise.\<close>

definition answered :: "exc + http_response \<Rightarrow> bool" where
  "answered r \<longleftrightarrow> (case r of Inl e \<Rightarrow> False
     | Inr resp \<Rightarrow> raise_for_status resp = Inr () \<and> (case hr_json resp of Inl e \<Rightarrow> False | Inr p \<Rightarrow> True))"

definition recovers :: "'w embed_http \<Rightarrow> nat \<Rightarrow> bool" where
  "recovers http n \<longleftrightarrow>
     (\<exists>failures. (\<forall>w. failures w < n) \<and>
        (\<forall>texts w. answered (fst (eh_post http texts w)) \<or> failures (snd (eh_post http texts w)) < failures w) \<and>
        (\<forall>t w. failures (snd (eh_sleep http t w)) \<le> failures w))"

lemma request_batch_honest:
  assumes "honest http f"
  shows "(if answered (fst (eh_post http texts w)) then fst (request_batch http texts w) = Inr (map f texts)
      else \<exists>e. fst (request_batch http texts w) = Inl e \<and> retryable e) \<and>
    snd (request_batch http texts w) = snd (eh_post http texts w)"
proof -
  obtain r w' where p: "eh_post http texts w = (r, w')" by fastforce
  from assms have h: "case r of Inl e \<Rightarrow> retryable e
      | Inr r \<Rightarrow> raise_for_status r = Inr () \<longrightarrow>
          (case hr_json r of Inl e \<Rightarrow> retryable e | Inr payload \<Rightarrow> embeds f texts payload)"
    unfolding honest_def by (metis p fst_conv)
  have vectors: "embeds f texts payload \<Longrightarrow> batch_vectors payload = Inr (map f texts)" for payload
    by (auto simp: embeds_def batch_vectors_reordered)
  have status: "raise_for_status resp = Inl e \<Longrightarrow> retryable e" for resp e
    by (auto simp: raise_for_status_def HTTPError_def retryable_def split: if_splits)
  show ?thesis
    using h vectors status
    by (auto simp: request_batch_def p answered_def bindE_def seqE_def of_sum_def split: sum.splits)
qed

lemma embed_attempts_honest:
  assumes "honest http f"
  shows "fst (embed_attempts http delay retries texts (Suc n) w) = Inr (map f texts) \<or>
    (\<exists>m. fst (embed_attempts http delay retries texts (Suc n) w) = Inl (EmbeddingUnavailableError m))"
proof (induction n arbitrary: w)
  case 0
  show ?case
    using request_batch_honest [OF assms, of texts w]
    by (cases "request_batch http texts w") (auto simp: catchE_def gave_up_def raise_def split: if_splits sum.splits)
next
  case (Suc n)
  obtain r w1 where r: "request_batch http texts w = (r, w1)" by fastforce
  obtain w2 where w2: "eh_sleep http delay w1 = (Inr (), w2)" using assms unfolding honest_def by blast
  have "r = Inr (map f texts) \<or> (\<exists>e. r = Inl e \<and> retryable e)"
    using request_batch_honest [OF assms, of texts w] r by (auto split: if_splits)
  then show ?case
  proof
    assume "\<exists>e. r = Inl e \<and> retryable e"
    then have "embed_attempts http delay retries texts (Suc (Suc n)) w =
        embed_attempts http delay retries texts (Suc n) w2"
      using r w2 by (auto simp: catchE_def seqE_def bindE_def simp del: embed_attempts.simps(2)
          intro: trans [OF fun_cong [OF embed_attempts.simps(2)]])
    then show ?thesis using Suc.IH [of w2] by simp
  qed (use r in \<open>simp add: catchE_def\<close>)
qed

lemma embed_attempts_recovers:
  assumes "honest http f"
    and "\<And>texts w. answered (fst (eh_post http texts w)) \<or> failures (snd (eh_post http texts w)) < failures w"
    and "\<And>t w. failures (snd (eh_sleep http t w)) \<le> failures w"
  shows "failures w < n \<Longrightarrow> fst (embed_attempts http delay retries texts n w) = Inr (map f texts)"
proof (induction n arbitrary: w)
  case (Suc n)
  obtain r w1 where r: "request_batch http texts w = (r, w1)" by fastforce
  obtain w2 where w2: "eh_sleep http delay w1 = (Inr (), w2)" using assms(1) unfolding honest_def by blast
  note q = request_batch_honest [OF assms(1), of texts w, unfolded r fst_conv snd_conv]
  show ?case
  proof (cases "answered (fst (eh_post http texts w))")
    case True
    then show ?thesis using q r by (simp add: catchE_def)
  next
    case False
    then obtain e where e: "r = Inl e" "retryable e" using q by auto
    have "failures w1 < failures w" using False q assms(2) [of texts w] by simp
    then have "failures w2 < n" using Suc.prems assms(3) [of delay w1] by (simp add: w2)
    then show ?thesis
      using Suc.IH [of w2] r e w2 by (cases n) (auto simp: catchE_def seqE_def bindE_def)
  qed
qed simp

lemma retries_of_Suc: "\<exists>n. retries_of retries = Suc n"
  unfolding retries_of_def by (metis One_nat_def Suc_le_D max.cobounded1 nat_le_iff nat_mono nat_one_as_int)

lemma embed_batch_honest:
  assumes "honest http f"
  shows "fst (embed_batch http delay retries texts w) = Inr (map f texts) \<or>
      (\<exists>m. fst (embed_batch http delay retries texts w) = Inl (EmbeddingUnavailableError m))"
    and "recovers http (retries_of retries) \<Longrightarrow> fst (embed_batch http delay retries texts w) = Inr (map f texts)"
proof -
  obtain n where n: "retries_of retries = Suc n" using retries_of_Suc by blast
  show "fst (embed_batch http delay retries texts w) = Inr (map f texts) \<or>
      (\<exists>m. fst (embed_batch http delay retries texts w) = Inl (EmbeddingUnavailableError m))"
    using embed_attempts_honest [OF assms, of delay "Suc n" texts n w]
    by (auto simp: embed_batch_def n ret_def simp del: embed_attempts.simps)
  assume "recovers http (retries_of retries)"
  then obtain failures where "\<And>w. failures w < retries_of retries"
    "\<And>texts w. answered (fst (eh_post http texts w)) \<or> failures (snd (eh_post http texts w)) < failures w"
    "\<And>t w. failures (snd (eh_sleep http t w)) \<le> failures w"
    unfolding recovers_def by blast
  from embed_attempts_recovers [OF assms this(2,3,1)]
  show "fst (embed_batch http delay retries texts w) = Inr (map f texts)"
    by (simp add: embed_batch_def ret_def)
qed

text \<open>What holds of every slice holds of the list: the results join in order, and the first failure
  ends the loop.\<close>

lemma over_slices_outcome:
  assumes "\<And>xs s. fst (g xs s) = Inr (map f xs) \<or> (\<exists>e. fst (g xs s) = Inl e \<and> P e)"
  shows "fst (over_slices g xss s) = Inr (map f (concat xss)) \<or> (\<exists>e. fst (over_slices g xss s) = Inl e \<and> P e)"
proof (induction xss arbitrary: s)
  case (Cons xs xss)
  obtain r s1 where r: "g xs s = (r, s1)" by fastforce
  obtain q s2 where q: "over_slices g xss s1 = (q, s2)" by fastforce
  show ?case
    using assms [of xs s] Cons [of s1] by (auto simp: bindE_def r q ret_def)
qed (simp add: ret_def)

lemma embed_all_honest:
  assumes "honest http f"
  shows "fst (embed_all http delay retries texts batch_size w) = Inr (map f texts) \<or>
      (\<exists>e. fst (embed_all http delay retries texts batch_size w) = Inl e \<and> exc_name e = ''EmbeddingUnavailableError'')"
    and "recovers http (retries_of retries) \<Longrightarrow> fst (embed_all http delay retries texts batch_size w) = Inr (map f texts)"
proof -
  have slice: "fst (embed_batch http delay retries ts w) = Inr (map f ts) \<or>
      (\<exists>e. fst (embed_batch http delay retries ts w) = Inl e \<and> exc_name e = ''EmbeddingUnavailableError'')" for ts w
    using embed_batch_honest(1) [OF assms, of delay retries ts w] by auto
  let ?s = "slices (nat (max 1 batch_size)) texts"
  from over_slices_outcome [where f = f and xss = ?s and s = w, OF slice]
  show "fst (embed_all http delay retries texts batch_size w) = Inr (map f texts) \<or>
      (\<exists>e. fst (embed_all http delay retries texts batch_size w) = Inl e \<and> exc_name e = ''EmbeddingUnavailableError'')"
    by (simp add: embed_all_def concat_text_slices)
  assume "recovers http (retries_of retries)"
  then have "fst (embed_batch http delay retries ts w) = Inr (map f ts) \<or>
      (\<exists>e. fst (embed_batch http delay retries ts w) = Inl e \<and> False)" for ts w
    using embed_batch_honest(2) [OF assms] by blast
  from over_slices_outcome [where f = f and xss = ?s and s = w, OF this]
  show "fst (embed_all http delay retries texts batch_size w) = Inr (map f texts)"
    by (simp add: embed_all_def concat_text_slices)
qed

text \<open>Behind the limiter: what comes out is what came out of the call inside the slot.\<close>

lemma slot_Inr:
  assumes "slot wait clock sleep fuel body s = (Inr y, t)"
  shows "\<exists>w w'. body w = (Inr y, w')"
proof -
  let ?m = "bindE (take_token clock sleep fuel) (\<lambda>taken.
    if taken then (\<lambda>(l, w). case body w of (r, w') \<Rightarrow> (r, (l, w'))) else raise NoToken)"
  from assms [unfolded slot_def seqE_Inr] obtain u
    where "(case ?m u of (r, (l, w)) \<Rightarrow> (r, (l\<lparr>lm_permits := lm_permits l + 1\<rparr>, w))) = (Inr y, t)" by blast
  then obtain v where "?m u = (Inr y, v)" by (auto split: prod.splits)
  then obtain taken x where "(if taken then (\<lambda>(l, w). case body w of (r, w') \<Rightarrow> (r, (l, w'))) else raise NoToken) x =
      (Inr y, v)" unfolding bindE_Inr by blast
  then show ?thesis by (auto split: if_splits prod.splits)
qed

lemma over_slices_Inr:
  assumes "\<And>xs s ys t. g xs s = (Inr ys, t) \<Longrightarrow> ys = map f xs"
  shows "over_slices g xss s = (Inr ys, t) \<Longrightarrow> ys = map f (concat xss)"
  by (induction xss arbitrary: s ys t) (auto simp: bindE_Inr dest!: assms)

lemma slot_unpaced:
  assumes "\<And>w. fst (body w) = Inr y" and "lm_rps l \<le> 0" and "0 < lm_permits l"
  shows "\<exists>w'. slot wait clock sleep fuel body (l, w) = (Inr y, (l, w'))"
proof -
  obtain w' where "body w = (Inr y, w')" using assms(1) by (metis prod.collapse)
  with assms(2,3) show ?thesis
    by (simp add: slot_def seqE_def bindE_def gets_def modify_def ret_def take_token_def)
qed

lemma over_slices_slot:
  assumes "\<And>xs w. \<exists>w'. g xs (l, w) = (Inr (map f xs), (l, w'))"
  shows "\<exists>w'. over_slices g xss (l, w) = (Inr (map f (concat xss)), (l, w'))"
proof (induction xss arbitrary: w)
  case (Cons xs xss)
  obtain w1 where w1: "g xs (l, w) = (Inr (map f xs), (l, w1))" using assms by blast
  obtain w2 where "over_slices g xss (l, w1) = (Inr (map f (concat xss)), (l, w2))" using Cons by blast
  with w1 show ?case by (simp add: bindE_def ret_def)
qed simp

text \<open>C37: The embeddings come back as one per text and in the order of the texts, or the client gives up.
  Against an endpoint that embeds each text by a function, answers a request with its items in any
  order and may fail as often as it likes:
  the client, for every batch size and number of retries, either returns the embeddings of all texts
  in order or raises \<open>EmbeddingUnavailableError\<close>, never anything else; when fewer requests in a row
  fail than the attempts it has, it returns; what it returns from behind the limiter, with any bucket,
  any waiting and whatever the other threads do to the limiter, is the same embeddings; and without
  pacing and with a free permit it returns from there too, with all its permits.\<close>
theorem embed_all_is_map:
  assumes "honest http f"
  shows "(case fst (embed_all http delay retries texts batch_size w) of
      Inr vs \<Rightarrow> vs = map f texts | Inl e \<Rightarrow> exc_name e = ''EmbeddingUnavailableError'') \<and>
    (recovers http (retries_of retries) \<longrightarrow> fst (embed_all http delay retries texts batch_size w) = Inr (map f texts)) \<and>
    (\<forall>vs t. limited_embed_all wait clock sleep fuel (embedding_client http delay retries) texts batch_size s = (Inr vs, t) \<longrightarrow>
      vs = map f texts) \<and>
    (recovers http (retries_of retries) \<and> lm_rps l \<le> 0 \<and> 0 < lm_permits l \<longrightarrow>
      (\<exists>w'. limited_embed_all wait clock sleep fuel (embedding_client http delay retries) texts batch_size (l, w) =
        (Inr (map f texts), (l, w'))))"
proof (intro conjI impI allI)
  show "case fst (embed_all http delay retries texts batch_size w) of
      Inr vs \<Rightarrow> vs = map f texts | Inl e \<Rightarrow> exc_name e = ''EmbeddingUnavailableError''"
    using embed_all_honest(1) [OF assms, of delay retries texts batch_size w] by auto
  show "recovers http (retries_of retries) \<Longrightarrow> fst (embed_all http delay retries texts batch_size w) = Inr (map f texts)"
    by (rule embed_all_honest(2) [OF assms])
next
  let ?g = "\<lambda>ts. slot wait clock sleep fuel (eb_embed_all (embedding_client http delay retries) ts
    (int (nat (max 1 batch_size))))"
  fix vs t
  assume "limited_embed_all wait clock sleep fuel (embedding_client http delay retries) texts batch_size s = (Inr vs, t)"
  then have o: "over_slices ?g (slices (nat (max 1 batch_size)) texts) s = (Inr vs, t)"
    by (simp only: limited_embed_all_def Let_def)
  have "ys = map f ts" if "?g ts s = (Inr ys, t)" for ts s ys t
  proof -
    from slot_Inr [OF that] obtain w w' where
      "eb_embed_all (embedding_client http delay retries) ts (int (nat (max 1 batch_size))) w = (Inr ys, w')" by blast
    then show ?thesis
      using embed_all_honest(1) [OF assms, of delay retries ts "int (nat (max 1 batch_size))" w]
      by (auto simp: embedding_client_def)
  qed
  from over_slices_Inr [of ?g f, OF this o] show "vs = map f texts" by (simp only: concat_text_slices)
next
  let ?g = "\<lambda>ts. slot wait clock sleep fuel (eb_embed_all (embedding_client http delay retries) ts
    (int (nat (max 1 batch_size))))"
  assume a: "recovers http (retries_of retries) \<and> lm_rps l \<le> 0 \<and> 0 < lm_permits l"
  then have "\<exists>w'. ?g ts (l, w) = (Inr (map f ts), (l, w'))" for ts w
    by (intro slot_unpaced) (simp_all add: embedding_client_def embed_all_honest(2) [OF assms])
  then have "\<exists>w'. over_slices ?g (slices (nat (max 1 batch_size)) texts) (l, w) =
      (Inr (map f (concat (slices (nat (max 1 batch_size)) texts))), (l, w'))"
    by (rule over_slices_slot)
  then show "\<exists>w'. limited_embed_all wait clock sleep fuel (embedding_client http delay retries)
      texts batch_size (l, w) = (Inr (map f texts), (l, w'))"
    by (simp only: limited_embed_all_def Let_def concat_text_slices)
qed

section \<open>Pacing\<close>

text \<open>Waiting for a token ends when the other threads outrun this one only finitely often: the clock
  answers, and after each pass without a token and the sleep that follows, fewer further passes can
  miss. The fuel is enough as soon as it exceeds their number.\<close>

lemma token_loop_returns:
  assumes clock: "\<And>w. \<exists>now w'. clock w = (Inr now, w')"
    and sleep: "\<And>l w now w' t. clock w = (Inr now, w') \<Longrightarrow> fst (token_step now l) = Some t \<Longrightarrow>
      \<exists>s. sleep t (snd (token_step now l), w') = (Inr (), s) \<and> misses s < misses (l, w)"
  shows "misses s < fuel \<Longrightarrow> \<exists>t. token_loop clock sleep fuel s = (Inr True, t)"
proof (induction fuel arbitrary: s)
  case (Suc fuel)
  obtain l w where s: "s = (l, w)" by fastforce
  obtain now w' where c: "clock w = (Inr now, w')" using clock by blast
  show ?case
  proof (cases "fst (token_step now l)")
    case None
    then show ?thesis by (simp add: s c bindE_def ret_def)
  next
    case (Some t)
    obtain u where u: "sleep t (snd (token_step now l), w') = (Inr (), u)" "misses u < misses (l, w)"
      using sleep [OF c Some] by blast
    then have "misses u < fuel" using Suc.prems by (simp add: s)
    from Suc.IH [OF this] show ?thesis by (simp add: s c Some u bindE_def seqE_def)
  qed
qed simp

text \<open>The tokens taken at a list of times (of passes that took one or not).\<close>

primrec tokens_at :: "rat list \<Rightarrow> limiter \<Rightarrow> nat" where
  "tokens_at [] l = 0"
| "tokens_at (t # ts) l = (case token_step t l of (r, l') \<Rightarrow> (if r = None then 1 else 0) + tokens_at ts l')"

lemma tokens_at_bound:
  assumes "0 < lm_rps l" and "1 \<le> lm_capacity l" and "0 \<le> lm_allowance l" and "sorted (lm_last_refill l # ts)"
  shows "of_nat (tokens_at ts l) \<le> lm_allowance l + (last (lm_last_refill l # ts) - lm_last_refill l) * lm_rps l"
  using assms
proof (induction ts arbitrary: l)
  case (Cons t ts)
  define a where "a = min (lm_capacity l) (lm_allowance l + (t - lm_last_refill l) * lm_rps l)"
  obtain r l' where s: "token_step t l = (r, l')" by fastforce
  define k :: rat where "k = (if r = None then 1 else 0)"
  have dt: "0 \<le> (t - lm_last_refill l) * lm_rps l" using Cons.prems by (intro mult_nonneg_nonneg) simp_all
  have a: "0 \<le> a" "a \<le> lm_allowance l + (t - lm_last_refill l) * lm_rps l"
    using Cons.prems dt by (simp_all add: a_def)
  have l': "lm_allowance l' = a - k" "lm_last_refill l' = t" "lm_rps l' = lm_rps l" "lm_capacity l' = lm_capacity l"
    "0 \<le> a - k"
    using s a(1) by (auto simp: token_step_def Let_def a_def k_def split: if_splits)
  have "of_nat (tokens_at ts l') \<le> lm_allowance l' + (last (lm_last_refill l' # ts) - lm_last_refill l') * lm_rps l'"
    using Cons.prems l' by (intro Cons.IH) simp_all
  moreover have "of_nat (tokens_at (t # ts) l) = k + of_nat (tokens_at ts l')" by (simp add: s k_def)
  ultimately have "of_nat (tokens_at (t # ts) l) \<le> a + (last (t # ts) - t) * lm_rps l" by (simp only: l')
  also have "\<dots> \<le> lm_allowance l + (t - lm_last_refill l) * lm_rps l + (last (t # ts) - t) * lm_rps l"
    using a(2) by simp
  also have "\<dots> = lm_allowance l + (last (lm_last_refill l # t # ts) - lm_last_refill l) * lm_rps l"
    by (simp add: algebra_simps)
  finally show ?case .
qed simp

text \<open>The bucket paces: whatever passes the threads make through the loop at non-decreasing times,
  the requests let through up to time T are at most the burst \<open>max 1 rps\<close> plus \<open>rps\<close> times the elapsed
  time.\<close>
theorem tokens_paced:
  assumes "0 < rps" and "sorted (start # ts)"
  shows "of_nat (tokens_at ts (new_limiter concurrency rps start)) \<le> max 1 rps + (last (start # ts) - start) * rps"
  using tokens_at_bound [of "new_limiter concurrency rps start" ts] assms by (simp add: new_limiter_def)

section \<open>Witnesses\<close>

theorem batch_vectors_in_order_witness:
  "batch_vectors (JObj [(''data'', JList (map embedding_item [(1, [5]), (0, [4, 2])]))]) = Inr [[4, 2], [5]]"
  by (rule batch_vectors_in_order) (simp add: enumerate_eq_zip)

text \<open>An endpoint that is down at every other request, and then answers in the wrong order; the world
  is whether it is down.\<close>

definition shaky_http :: "bool embed_http" where
  "shaky_http = \<lparr>eh_post = (\<lambda>texts down. if down then (Inl (HTTPError ''connection refused''), False)
       else (Inr \<lparr>hr_status = 200, hr_json = Inr (JObj [(''data'',
         JList (map embedding_item (rev (enumerate 0 (map (\<lambda>t. [of_nat (length t)]) texts)))))])\<rparr>, True)),
     eh_get_models = ret 200, eh_sleep = (\<lambda>t. ret ())\<rparr>"

lemma shaky_honest: "honest shaky_http (\<lambda>t. [of_nat (length t)])"
proof -
  have "embeds (\<lambda>t. [of_nat (length t)]) texts (JObj [(''data'',
      JList (map embedding_item (rev (enumerate 0 (map (\<lambda>t. [of_nat (length t)]) texts)))))])" for texts
    unfolding embeds_def
    by (intro exI conjI [rotated], rule mset_rev)
      (simp_all add: list_all2_map1 list.rel_refl embedding_item_is_item flip: rev_map)
  then show ?thesis
    by (auto simp: honest_def shaky_http_def HTTPError_def retryable_def ret_def)
qed

lemma shaky_recovers: "recovers shaky_http (retries_of 3)"
  unfolding recovers_def
  by (rule exI [where x = "\<lambda>down. if down then 1 else 0"])
    (simp add: shaky_http_def retries_of_def answered_def raise_for_status_def ret_def)

theorem embed_all_is_map_witness:
  "fst (embed_all shaky_http 5 3 [''a'', ''bc'', ''d''] 2 True) = Inr [[1], [2], [1]] \<and>
   (\<exists>w'. limited_embed_all (ret ()) (ret 0) (\<lambda>t. ret ()) 1 (embedding_client shaky_http 5 3) [''a'', ''bc'', ''d''] 2
      (new_limiter 2 0 0, True) = (Inr [[1], [2], [1]], (new_limiter 2 0 0, w')))"
  using embed_all_is_map [OF shaky_honest, where l = "new_limiter 2 0 0" and texts = "[''a'', ''bc'', ''d'']"
      and batch_size = 2 and delay = 5 and retries = 3 and w = True] shaky_recovers
  by (simp add: new_limiter_def)

theorem tokens_paced_witness:
  "(of_nat (tokens_at [0, 0, 1, 2] (new_limiter 1 2 0)) :: rat) \<le> max 1 2 + (2 - 0) * 2"
  using tokens_paced [of 2 0 "[0, 0, 1, 2]" 1] by simp

end
