(* ===== verification/LimiterSteps.thy ===== *)
theory LimiterSteps
  imports Embed
begin

text \<open>
  The embedding limiter under concurrent threads, \<open>src/src/embed/limiter.py\<close>: every thread that calls
  \<open>slot\<close> waits for a permit, passes through the loop of \<open>_take_token\<close>, sleeps between its passes
  while the others use the bucket, embeds, and gives its permit back on every way out; the steps are
  interleaved in any order. The invariant counts the permits. Nothing here rests on the exact
  arithmetic of the bucket, which the code does in floats.
\<close>

section \<open>Threads and steps\<close>

datatype slot_phase = SlotWaiting | SlotTaking | SlotSleeping rat | SlotUsing

record limiter_state =
  lt_limiter :: limiter
  lt_threads :: "nat \<Rightarrow> slot_phase option"
  lt_now :: rat

definition set_phase :: "nat \<Rightarrow> slot_phase option \<Rightarrow> (limiter \<Rightarrow> limiter) \<Rightarrow> limiter_state \<Rightarrow> limiter_state" where
  "set_phase i x f s = s\<lparr>lt_limiter := f (lt_limiter s), lt_threads := (lt_threads s)(i := x)\<rparr>"

text \<open>A step of a thread that is in \<open>slot\<close>: it gets a permit, goes through the loop under the bucket lock
  (without pacing there is nothing to take), wakes up, or leaves.\<close>

inductive slot_step :: "limiter_state \<Rightarrow> nat \<Rightarrow> limiter_state \<Rightarrow> bool" where
  slot_enters: "lt_threads s i = Some SlotWaiting \<Longrightarrow> 0 < lm_permits (lt_limiter s) \<Longrightarrow>
    slot_step s i (set_phase i (Some SlotTaking) (\<lambda>l. l\<lparr>lm_permits := lm_permits l - 1\<rparr>) s)"
| slot_unpaced: "lt_threads s i = Some SlotTaking \<Longrightarrow> lm_rps (lt_limiter s) \<le> 0 \<Longrightarrow>
    slot_step s i (set_phase i (Some SlotUsing) id s)"
| slot_takes: "lt_threads s i = Some SlotTaking \<Longrightarrow> 0 < lm_rps (lt_limiter s) \<Longrightarrow>
    token_step (lt_now s) (lt_limiter s) = (None, l) \<Longrightarrow>
    slot_step s i (set_phase i (Some SlotUsing) (\<lambda>_. l) s)"
| slot_sleeps: "lt_threads s i = Some SlotTaking \<Longrightarrow> 0 < lm_rps (lt_limiter s) \<Longrightarrow>
    token_step (lt_now s) (lt_limiter s) = (Some t, l) \<Longrightarrow>
    slot_step s i (set_phase i (Some (SlotSleeping (lt_now s + t))) (\<lambda>_. l) s)"
| slot_wakes: "lt_threads s i = Some (SlotSleeping until) \<Longrightarrow> until \<le> lt_now s \<Longrightarrow>
    slot_step s i (set_phase i (Some SlotTaking) id s)"
| slot_leaves: "lt_threads s i = Some SlotUsing \<Longrightarrow>
    slot_step s i (set_phase i None (\<lambda>l. l\<lparr>lm_permits := lm_permits l + 1\<rparr>) s)"

text \<open>New threads arrive, and the clock goes on.\<close>

inductive limiter_reachable :: "int \<Rightarrow> rat \<Rightarrow> limiter_state \<Rightarrow> bool" for concurrency :: int and rps :: rat where
  lr_start: "limiter_reachable concurrency rps
    \<lparr>lt_limiter = new_limiter concurrency rps now, lt_threads = Map.empty, lt_now = now\<rparr>"
| lr_arrives: "limiter_reachable concurrency rps s \<Longrightarrow> lt_threads s i = None \<Longrightarrow>
    limiter_reachable concurrency rps (set_phase i (Some SlotWaiting) id s)"
| lr_ticks: "limiter_reachable concurrency rps s \<Longrightarrow> lt_now s \<le> now \<Longrightarrow>
    limiter_reachable concurrency rps (s\<lparr>lt_now := now\<rparr>)"
| lr_steps: "limiter_reachable concurrency rps s \<Longrightarrow> slot_step s i s' \<Longrightarrow> limiter_reachable concurrency rps s'"

section \<open>The permits\<close>

definition holds_permit :: "limiter_state \<Rightarrow> nat set" where
  "holds_permit s = {i. \<exists>p. lt_threads s i = Some p \<and> p \<noteq> SlotWaiting}"

definition embedding_now :: "limiter_state \<Rightarrow> nat set" where
  "embedding_now s = {i. lt_threads s i = Some SlotUsing}"

definition permits_inv :: "int \<Rightarrow> limiter_state \<Rightarrow> bool" where
  "permits_inv concurrency s \<longleftrightarrow>
     finite (holds_permit s) \<and> lm_permits (lt_limiter s) + card (holds_permit s) = nat (max 1 concurrency)"

lemma holds_permit_set_phase:
  "holds_permit (set_phase i x f s) =
     (if x = None \<or> x = Some SlotWaiting then holds_permit s - {i} else insert i (holds_permit s))"
  by (auto simp: holds_permit_def set_phase_def)

lemma permits_set_phase: "lm_permits (lt_limiter (set_phase i x f s)) = lm_permits (f (lt_limiter s))"
  by (simp add: set_phase_def)

lemma in_holds_permit: "lt_threads s i = Some p \<Longrightarrow> i \<in> holds_permit s \<longleftrightarrow> p \<noteq> SlotWaiting"
  by (auto simp: holds_permit_def)

lemma not_holds_permit: "lt_threads s i = None \<Longrightarrow> i \<notin> holds_permit s"
  by (auto simp: holds_permit_def)

lemma token_step_permits: "token_step now l = (r, l') \<Longrightarrow> lm_permits l' = lm_permits l"
  by (auto simp: token_step_def Let_def split: if_splits)

lemmas permit_rules = permits_inv_def holds_permit_set_phase permits_set_phase in_holds_permit
  not_holds_permit insert_absorb

lemma slot_step_permits: "slot_step s i s' \<Longrightarrow> permits_inv concurrency s \<Longrightarrow> permits_inv concurrency s'"
proof (induction rule: slot_step.induct)
  case (slot_leaves s i)
  then have "i \<in> holds_permit s" "finite (holds_permit s)" by (simp_all add: permit_rules)
  then have "card (holds_permit s) = Suc (card (holds_permit s - {i}))" by (metis card_Suc_Diff1)
  then show ?case using slot_leaves by (simp add: permit_rules)
qed (auto simp: permit_rules dest: token_step_permits)

lemma reachable_permits: "limiter_reachable concurrency rps s \<Longrightarrow> permits_inv concurrency s"
proof (induction rule: limiter_reachable.induct)
  case (lr_start now)
  then show ?case by (simp add: permits_inv_def holds_permit_def new_limiter_def)
next
  case (lr_arrives s i)
  then show ?case by (simp add: permit_rules)
next
  case (lr_ticks s now)
  then show ?case by (simp add: permits_inv_def holds_permit_def)
next
  case (lr_steps s i s')
  then show ?case by (blast intro: slot_step_permits)
qed

text \<open>A thread with a permit can always go on, a sleeper once its time has come.\<close>

lemma permit_goes_on:
  assumes "i \<in> holds_permit s"
  shows "\<exists>now s'. lt_now s \<le> now \<and> slot_step (s\<lparr>lt_now := now\<rparr>) i s'"
proof -
  obtain p where p: "lt_threads s i = Some p" "p \<noteq> SlotWaiting" using assms by (auto simp: holds_permit_def)
  show ?thesis
  proof (cases p)
    case SlotTaking
    obtain r l where t: "token_step (lt_now s) (lt_limiter s) = (r, l)" by fastforce
    have "\<exists>s'. slot_step (s\<lparr>lt_now := lt_now s\<rparr>) i s'"
      using p(1) t SlotTaking
      by (cases "lm_rps (lt_limiter s) \<le> 0"; cases r)
        (auto simp: not_le intro: slot_unpaced slot_takes slot_sleeps)
    then show ?thesis by blast
  next
    case (SlotSleeping until)
    then have "\<exists>s'. slot_step (s\<lparr>lt_now := max until (lt_now s)\<rparr>) i s'"
      using p(1) slot_wakes [of "s\<lparr>lt_now := max until (lt_now s)\<rparr>" i until] by auto
    then show ?thesis using max.cobounded2 by blast
  next
    case SlotUsing
    then have "\<exists>s'. slot_step (s\<lparr>lt_now := lt_now s\<rparr>) i s'" using p(1) by (auto intro: slot_leaves)
    then show ?thesis by blast
  qed (use p in simp)
qed

text \<open>C38: The limiter bounds the requests in flight and never locks up: whatever the threads do and in
  whatever order, the free permits and the threads that hold one are together the configured
  concurrency (at least one), so that never more threads than that embed at a time and all permits
  are back when no thread holds one; and as long as a thread is in \<open>slot\<close>, some thread there can go
  on, at once or when the clock has reached the end of a sleep.\<close>

theorem embed_slots_bounded:
  assumes "limiter_reachable concurrency rps s"
  shows "lm_permits (lt_limiter s) + card (holds_permit s) = nat (max 1 concurrency) \<and>
    card (embedding_now s) \<le> nat (max 1 concurrency) \<and>
    (lt_threads s \<noteq> Map.empty \<longrightarrow>
      (\<exists>i now s'. lt_now s \<le> now \<and> slot_step (s\<lparr>lt_now := now\<rparr>) i s'))"
proof (intro conjI impI)
  from reachable_permits [OF assms] have fin: "finite (holds_permit s)"
    and sum: "lm_permits (lt_limiter s) + card (holds_permit s) = nat (max 1 concurrency)"
    by (simp_all add: permits_inv_def)
  from sum show "lm_permits (lt_limiter s) + card (holds_permit s) = nat (max 1 concurrency)" .
  have "embedding_now s \<subseteq> holds_permit s" by (auto simp: embedding_now_def holds_permit_def)
  from card_mono [OF fin this] sum show "card (embedding_now s) \<le> nat (max 1 concurrency)" by simp
  assume "lt_threads s \<noteq> Map.empty"
  then obtain i p where p: "lt_threads s i = Some p" by (metis not_Some_eq ext)
  show "\<exists>i now s'. lt_now s \<le> now \<and> slot_step (s\<lparr>lt_now := now\<rparr>) i s'"
  proof (cases "holds_permit s = {}")
    case True
    with in_holds_permit [OF p] sum have "p = SlotWaiting" "0 < lm_permits (lt_limiter s)" by simp_all
    then have "\<exists>s'. slot_step (s\<lparr>lt_now := lt_now s\<rparr>) i s'" using p by (auto intro: slot_enters)
    then show ?thesis by blast
  next
    case False
    then show ?thesis using permit_goes_on by blast
  qed
qed

text \<open>The call of one thread gives its permit back, whatever the body does, when the waiting and the
  sleeping leave the number of permits as it is in the end.\<close>

lemma slot_gives_back:
  assumes "0 < lm_permits (fst s)"
    and sleep: "\<And>t s. lm_permits (fst (snd (sleep t s))) = lm_permits (fst s)"
  shows "lm_permits (fst (snd (slot wait clock sleep fuel body s))) = lm_permits (fst s)"
proof -
  have loop: "lm_permits (fst (snd (token_loop clock sleep fuel s))) = lm_permits (fst s)" for s
  proof (induction fuel arbitrary: s)
    case (Suc fuel)
    obtain l w where s: "s = (l, w)" by fastforce
    obtain r w' where c: "clock w = (r, w')" by fastforce
    show ?case
    proof (cases r)
      case (Inr now)
      obtain q l' where t: "token_step now l = (q, l')" by fastforce
      note p = token_step_permits [OF t]
      show ?thesis
      proof (cases q)
        case (Some d)
        obtain x u where u: "sleep d (l', w') = (x, u)" by (metis prod.exhaust)
        have "lm_permits (fst u) = lm_permits l" using sleep [of d "(l', w')"] p by (simp add: u)
        then show ?thesis using Suc [of u] by (cases x) (simp_all add: s c Inr t Some u bindE_def seqE_def)
      qed (simp add: s c Inr t p bindE_def ret_def)
    qed (simp add: s c bindE_def)
  qed (simp add: ret_def)
  obtain l w where s: "s = (l, w)" by fastforce
  let ?u = "(l\<lparr>lm_permits := lm_permits l - 1\<rparr>, w)"
  have take: "lm_permits (fst (snd (take_token clock sleep fuel ?u))) = lm_permits l - 1"
    using loop [of ?u] by (simp add: take_token_def)
  let ?m = "bindE (take_token clock sleep fuel) (\<lambda>taken.
      if taken then (\<lambda>(l, w). case body w of (r, w') \<Rightarrow> (r, (l, w'))) else raise NoToken)"
  obtain r l' w' where m: "?m ?u = (r, (l', w'))" by (metis prod.exhaust)
  then have "lm_permits l' = lm_permits l - 1"
    using take by (auto simp: bindE_def raise_def split: prod.splits sum.splits if_splits)
  then show ?thesis
    using assms(1) m by (simp add: slot_def seqE_def bindE_def gets_def modify_def ret_def s)
qed

text \<open>Two threads, one permit: the first embeds, the second waits.\<close>

definition sample_slots :: limiter_state where
  "sample_slots = set_phase 1 (Some SlotWaiting) id (set_phase 0 (Some SlotTaking) (\<lambda>l. l\<lparr>lm_permits := lm_permits l - 1\<rparr>)
     (set_phase 0 (Some SlotWaiting) id
       \<lparr>lt_limiter = new_limiter 1 2 0, lt_threads = Map.empty, lt_now = 0\<rparr>))"

lemma sample_slots_reachable: "limiter_reachable 1 2 sample_slots"
  unfolding sample_slots_def
  by (intro lr_arrives lr_steps [OF lr_arrives [OF lr_start] slot_enters])
    (simp_all add: set_phase_def new_limiter_def)

theorem embed_slots_bounded_witness:
  "lm_permits (lt_limiter sample_slots) = 0 \<and> card (holds_permit sample_slots) = 1 \<and>
   (\<exists>i now s'. 0 \<le> now \<and> slot_step (sample_slots\<lparr>lt_now := now\<rparr>) i s')"
proof -
  have p: "lm_permits (lt_limiter sample_slots) = 0" "lt_now sample_slots = 0" "lt_threads sample_slots \<noteq> Map.empty"
    by (auto simp: sample_slots_def set_phase_def new_limiter_def fun_eq_iff split: if_splits)
  with embed_slots_bounded [OF sample_slots_reachable] show ?thesis by simp
qed

end
