(* ===== verification/Secrets.thy ===== *)
theory Secrets
  imports Runner
begin

text \<open>
  Credentials: the references of \<open>src/src/catalog/secrets.py\<close>, the token format of
  \<open>src/src/connections/crypto.py\<close>, and the secret store with the layered environment of
  \<open>src/src/catalog/secret_store.py\<close>. Fernet, SHA-256, base64, YAML and pydantic are
  parameters; the file is seen through its \<open>stat\<close> and its content.
\<close>

section \<open>References\<close>

definition is_ref_char :: "char \<Rightarrow> bool" where
  "is_ref_char c = (let n = (of_char c :: nat) in
     is_digit c \<or> 65 \<le> n \<and> n \<le> 90 \<or> 97 \<le> n \<and> n \<le> 122 \<or> n = 95)"

definition is_name_char :: "char \<Rightarrow> bool" where
  "is_name_char c = (let n = (of_char c :: nat) in is_digit c \<or> 65 \<le> n \<and> n \<le> 90 \<or> n = 95)"

text \<open>\<open>_REF_RE\<close>, \<open>^\$\{env:([A-Za-z0-9_]+)\}$\<close>, with its group; \<open>$\<close> also matches before a final
  newline.\<close>

definition ref_prefix :: string where
  "ref_prefix = [CHR 0x24] @ ''{env:''"

definition ref_match :: "string \<Rightarrow> string option" where
  "ref_match s =
     (if \<not> starts_with ref_prefix s then None
      else let r = drop (length ref_prefix) s; name = takeWhile is_ref_char r; e = dropWhile is_ref_char r
        in if name \<noteq> [] \<and> (e = ''}'' \<or> e = ''}'' @ [NL]) then Some name else None)"

text \<open>\<open>_ALLOWED_NAME_RE\<close> and \<open>NAME_PATTERN\<close>, \<open>^QI_SECRET_[A-Z0-9_]+$\<close>.\<close>

definition SECRET_PREFIX :: string where
  "SECRET_PREFIX = ''QI_SECRET_''"

definition allowed_name :: "string \<Rightarrow> bool" where
  "allowed_name s =
     (starts_with SECRET_PREFIX s \<and>
      (let r = drop (length SECRET_PREFIX) s; e = dropWhile is_name_char r
       in takeWhile is_name_char r \<noteq> [] \<and> (e = [] \<or> e = [NL])))"

definition parse_secret_ref :: "jval \<Rightarrow> exc + string" where
  "parse_secret_ref value =
     (case value of
        JStr s \<Rightarrow>
          (case ref_match (py_strip s) of
             None \<Rightarrow> Inl (PyError ''ValueError'' (''literal credential values are not allowed in jobs.yaml; '' @
               ''use '' @ ref_prefix @ ''QI_SECRET_<NAME>} and put the value into the environment''))
           | Some name \<Rightarrow>
               if allowed_name name then Inr name
               else Inl (PyError ''ValueError'' (quoted name @ '' is not resolvable from jobs.yaml; '' @
                 ''only QI_SECRET_<NAME> variables may be referenced'')))
      | _ \<Rightarrow> Inl (PyError ''ValueError'' (''secret fields accept only a '' @ ref_prefix @
          ''QI_SECRET_<NAME>} reference'')))"

text \<open>An environment: its values, and what it can say about a name that has none (a plain
  mapping has nothing to say).\<close>

record environ =
  en_get :: "string \<Rightarrow> string option"
  en_why :: "string \<Rightarrow> string option"

definition plain_environ :: "(string \<Rightarrow> string option) \<Rightarrow> environ" where
  "plain_environ values = \<lparr>en_get = values, en_why = (\<lambda>name. None)\<rparr>"

definition explain_missing :: "string \<Rightarrow> environ \<Rightarrow> string option" where
  "explain_missing name env =
     (case en_why env name of None \<Rightarrow> None | Some d \<Rightarrow> if d = [] then None else Some d)"

definition SecretResolutionError :: "string \<Rightarrow> exc" where
  "SecretResolutionError m = PyError ''SecretResolutionError'' m"

definition resolve_secret :: "string \<Rightarrow> environ \<Rightarrow> exc + string" where
  "resolve_secret name env =
     (case or_else (en_get env name) None of
        Some v \<Rightarrow> if v = [] then Inl (SecretResolutionError (case explain_missing name env of
            Some d \<Rightarrow> d | None \<Rightarrow> ''environment variable '' @ quoted name @ '' is not set'')) else Inr v
      | None \<Rightarrow> Inl (SecretResolutionError (case explain_missing name env of
            Some d \<Rightarrow> d | None \<Rightarrow> ''environment variable '' @ quoted name @ '' is not set'')))"

section \<open>Encrypted values\<close>

text \<open>The library: SHA-256, base64, Fernet with the random part of an encryption as an argument,
  and the decoding of UTF-8.\<close>

record crypto_lib =
  cl_sha256 :: "string \<Rightarrow> string"
  cl_b64 :: "string \<Rightarrow> string"
  cl_encrypt :: "string \<Rightarrow> string \<Rightarrow> string \<Rightarrow> string"
  cl_decrypt :: "string \<Rightarrow> string \<Rightarrow> string option"
  cl_utf8_decode :: "string \<Rightarrow> string option"

definition ENC_PREFIX :: string where
  "ENC_PREFIX = ''enc:1:''"

definition ConnectionSecretError :: "string \<Rightarrow> exc" where
  "ConnectionSecretError m = PyError ''ConnectionSecretError'' m"

definition fernet_key :: "crypto_lib \<Rightarrow> string \<Rightarrow> exc + string" where
  "fernet_key lib secret =
     (if secret = [] then Inl (ConnectionSecretError ''QI_CONNECTIONS_SECRET is not set'')
      else Inr (cl_b64 lib (cl_sha256 lib (utf8_encode secret))))"

definition is_encrypted :: "string \<Rightarrow> bool" where
  "is_encrypted value = starts_with ENC_PREFIX value"

definition encrypt :: "crypto_lib \<Rightarrow> string \<Rightarrow> string \<Rightarrow> string \<Rightarrow> exc + string" where
  "encrypt lib nonce plaintext secret =
     (case fernet_key lib secret of
        Inl e \<Rightarrow> Inl e
      | Inr key \<Rightarrow> Inr (ENC_PREFIX @ cl_encrypt lib nonce key (utf8_encode plaintext)))"

definition is_ascii :: "string \<Rightarrow> bool" where
  "is_ascii s \<longleftrightarrow> (\<forall>c \<in> set s. (of_char c :: nat) < 128)"

definition undecryptable :: exc where
  "undecryptable = ConnectionSecretError
     ''api-key could not be decrypted; QI_CONNECTIONS_SECRET may have changed''"

definition decrypt :: "crypto_lib \<Rightarrow> string \<Rightarrow> string \<Rightarrow> exc + string" where
  "decrypt lib stored secret =
     (if \<not> is_encrypted stored then Inl (ConnectionSecretError ''value is not an enc:1: token'')
      else let token = drop (length ENC_PREFIX) stored in
        case fernet_key lib secret of
          Inl e \<Rightarrow> Inl e
        | Inr key \<Rightarrow>
            if \<not> is_ascii token then Inl undecryptable
            else (case cl_decrypt lib key token of
                None \<Rightarrow> Inl undecryptable
              | Some bytes \<Rightarrow> (case cl_utf8_decode lib bytes of None \<Rightarrow> Inl undecryptable | Some p \<Rightarrow> Inr p)))"

section \<open>The secret store\<close>

text \<open>\<open>SecretsDocument.model_validate\<close>: \<open>shape\<close> is what pydantic checks by itself (types, the version,
  the name pattern, unknown keys); the two validators are the code's.\<close>

record stored_secret =
  ss_name :: string
  ss_value :: string

definition secret_encrypted :: "string \<Rightarrow> exc + string" where
  "secret_encrypted value =
     (if starts_with ENC_PREFIX value then Inr value
      else Inl (PyError ''ValueError'' (''secret values are stored encrypted ('' @ ENC_PREFIX @ ''...)'')))"

fun unique_names :: "string list \<Rightarrow> string list \<Rightarrow> exc + unit" where
  "unique_names seen [] = Inr ()"
| "unique_names seen (n # ns) =
     (if n \<in> set seen then Inl (PyError ''ValueError'' (''duplicate secret name '' @ quoted n))
      else unique_names (n # seen) ns)"

text \<open>What \<open>_read\<close> needs of the libraries: YAML (its error text), pydantic's own checks, and the
  place and text of the first validation error.\<close>

record secret_lib =
  sl_crypto :: crypto_lib
  sl_yaml :: "string \<Rightarrow> string + jval"
  sl_shape :: "jval \<Rightarrow> stored_secret list option"
  sl_first_error :: "jval \<Rightarrow> string"

definition document_secrets :: "secret_lib \<Rightarrow> jval \<Rightarrow> stored_secret list option" where
  "document_secrets lib loaded =
     (case sl_shape lib loaded of
        None \<Rightarrow> None
      | Some es \<Rightarrow>
          if list_ex (\<lambda>e. isl (secret_encrypted (ss_value e))) es then None
          else case unique_names [] (map ss_name es) of Inl e \<Rightarrow> None | Inr u \<Rightarrow> Some es)"

record secret_state =
  st_values :: "(string \<times> string) list"
  st_unreadable :: "(string \<times> string) list"
  st_error :: "string option"
  st_broken :: bool

definition EMPTY_STATE :: secret_state where
  "EMPTY_STATE = \<lparr>st_values = [], st_unreadable = [], st_error = None, st_broken = False\<rparr>"

definition broken_state :: "string \<Rightarrow> secret_state" where
  "broken_state m = EMPTY_STATE\<lparr>st_error := Some m, st_broken := True\<rparr>"

definition yaml_first_line :: "string \<Rightarrow> string" where
  "yaml_first_line text = (let t = py_strip text in if t = [] then ''invalid YAML'' else hd (py_splitlines t))"

fun decrypt_all ::
  "crypto_lib \<Rightarrow> string \<Rightarrow> stored_secret list \<Rightarrow> (string \<times> string) list \<times> (string \<times> string) list" where
  "decrypt_all lib key [] = ([], [])"
| "decrypt_all lib key (e # es) =
     (case decrypt_all lib key es of (values, unreadable) \<Rightarrow>
        (case decrypt lib (ss_value e) key of
           Inr v \<Rightarrow> ((ss_name e, v) # values, unreadable)
         | Inl x \<Rightarrow> (values, (ss_name e,
             ''cannot be decrypted; QI_CONNECTIONS_SECRET may have changed since it was stored'') # unreadable)))"

definition read_store :: "secret_lib \<Rightarrow> string \<Rightarrow> string \<Rightarrow> exc + string \<Rightarrow> secret_state" where
  "read_store lib name key content =
     (case content of
        Inl e \<Rightarrow> broken_state (name @ '' cannot be read: '' @ exc_str e)
      | Inr raw \<Rightarrow>
     (case sl_yaml lib raw of
        Inl t \<Rightarrow> broken_state (name @ '' is not valid YAML: '' @ yaml_first_line t)
      | Inr loaded \<Rightarrow>
     if loaded = JNull then EMPTY_STATE
     else (case document_secrets lib loaded of
        None \<Rightarrow> broken_state (name @ '': '' @ sl_first_error lib loaded)
      | Some es \<Rightarrow>
          if es = [] then EMPTY_STATE
          else if key = [] then
            EMPTY_STATE\<lparr>st_unreadable := map (\<lambda>e. (ss_name e, ''cannot be read: QI_CONNECTIONS_SECRET is not set'')) es,
              st_error := Some ''QI_CONNECTIONS_SECRET is not set, so the stored secrets cannot be read''\<rparr>
          else (case decrypt_all (sl_crypto lib) key es of (values, unreadable) \<Rightarrow>
            \<lparr>st_values = values, st_unreadable = unreadable,
             st_error = (if unreadable = [] then None else Some (str_of_nat (length unreadable) @
               '' stored secret(s) cannot be decrypted; QI_CONNECTIONS_SECRET may have changed'')),
             st_broken = False\<rparr>))))"

text \<open>One look at the file: its \<open>stat\<close> (None when there is no file), and what a read that
  follows returns.\<close>

record file_view =
  fv_signature :: "(int \<times> int \<times> int) option"
  fv_content :: "exc + string"

record secret_store =
  sc_signature :: "(int \<times> int \<times> int) option"
  sc_cached :: secret_state
  sc_loaded :: bool

definition new_store :: secret_store where
  "new_store = \<lparr>sc_signature = None, sc_cached = EMPTY_STATE, sc_loaded = False\<rparr>"

definition fresh_state :: "secret_lib \<Rightarrow> string \<Rightarrow> string \<Rightarrow> file_view \<Rightarrow> secret_state" where
  "fresh_state lib name key v =
     (if fv_signature v = None then EMPTY_STATE else read_store lib name key (fv_content v))"

definition store_state ::
  "secret_lib \<Rightarrow> string \<Rightarrow> string \<Rightarrow> file_view \<Rightarrow> secret_store \<Rightarrow> secret_state \<times> secret_store" where
  "store_state lib name key v st =
     (if sc_loaded st \<and> fv_signature v = sc_signature st then (sc_cached st, st)
      else let state = fresh_state lib name key v
        in (state, \<lparr>sc_signature = fv_signature v, sc_cached = state, sc_loaded = True\<rparr>))"

definition store_get :: "secret_state \<Rightarrow> string \<Rightarrow> string option" where
  "store_get state name = map_of (st_values state) name"

definition store_names :: "secret_state \<Rightarrow> string list" where
  "store_names state = map fst (st_values state)"

definition store_problem :: "secret_state \<Rightarrow> string option" where
  "store_problem state = st_error state"

definition why_unavailable :: "secret_state \<Rightarrow> string \<Rightarrow> string option" where
  "why_unavailable state name =
     (case map_of (st_unreadable state) name of
        Some reason \<Rightarrow> Some (''the stored secret '' @ quoted name @ '' '' @ reason)
      | None \<Rightarrow>
          if st_broken state \<and> map_of (st_values state) name = None \<and> allowed_name name
          then Some (quoted name @ '' is not set, and the secret store is unusable: '' @
            (case st_error state of None \<Rightarrow> ''None'' | Some m \<Rightarrow> m))
          else None)"

section \<open>The layered environment\<close>

definition layered_get :: "(string \<Rightarrow> string option) \<Rightarrow> secret_state \<Rightarrow> string \<Rightarrow> string option" where
  "layered_get base state key =
     (case base key of
        Some v \<Rightarrow> if v \<noteq> [] then Some v
          else (case store_get state key of Some stored \<Rightarrow> Some stored | None \<Rightarrow> Some v)
      | None \<Rightarrow> store_get state key)"

text \<open>The names: those of the process environment, then the stored ones it has not, in order.\<close>

definition layered_names :: "(string \<times> string) list \<Rightarrow> secret_state \<Rightarrow> string list" where
  "layered_names base state =
     map fst base @ filter (\<lambda>n. n \<notin> fst ` set base) (sort_key (map of_char :: string \<Rightarrow> nat list) (store_names state))"

definition layered_environ :: "(string \<times> string) list \<Rightarrow> secret_state \<Rightarrow> environ" where
  "layered_environ base state = \<lparr>en_get = layered_get (map_of base) state, en_why = why_unavailable state\<rparr>"

section \<open>References name only stored credentials\<close>

lemma takeWhile_all: "list_all P xs \<Longrightarrow> takeWhile P xs = xs"
  by (induction xs) auto

lemma list_all_takeWhile: "list_all P (takeWhile P xs)"
  by (induction xs) auto

lemma starts_with_split: "starts_with p s \<longleftrightarrow> (\<exists>r. s = p @ r)"
  unfolding starts_with_def by (metis append_eq_conv_conj)

lemma name_is_ref: "is_name_char c \<Longrightarrow> is_ref_char c"
  by (auto simp: is_name_char_def is_ref_char_def Let_def)

lemma takeWhile_stop: "list_all P xs \<Longrightarrow> \<not> P y \<Longrightarrow> takeWhile P (xs @ y # ys) = xs"
  by (induction xs) auto

lemma dropWhile_stop: "list_all P xs \<Longrightarrow> \<not> P y \<Longrightarrow> dropWhile P (xs @ y # ys) = y # ys"
  by (induction xs) auto

lemma ref_match_iff:
  "ref_match s = Some n \<longleftrightarrow>
     n \<noteq> [] \<and> list_all is_ref_char n \<and> (s = ref_prefix @ n @ ''}'' \<or> s = ref_prefix @ n @ ''}'' @ [NL])"
  (is "?l \<longleftrightarrow> ?r")
proof
  assume ?l
  then obtain r where s: "s = ref_prefix @ r" and n: "n = takeWhile is_ref_char r" "n \<noteq> []"
    and e: "dropWhile is_ref_char r = ''}'' \<or> dropWhile is_ref_char r = ''}'' @ [NL]"
    by (auto simp: ref_match_def starts_with_split Let_def split: if_splits)
  have "r = n @ dropWhile is_ref_char r" using n(1) by simp
  with e have "r = n @ ''}'' \<or> r = n @ ''}'' @ [NL]" by metis
  moreover have "list_all is_ref_char n" unfolding n(1) by (rule list_all_takeWhile)
  ultimately show ?r using s n(2) by auto
next
  have "\<not> is_ref_char CHR 0x7D" by (simp add: is_ref_char_def is_digit_def)
  moreover assume ?r
  ultimately show ?l
    by (auto simp: ref_match_def starts_with_def Let_def takeWhile_stop dropWhile_stop)
qed

definition credential_name :: "string \<Rightarrow> bool" where
  "credential_name n \<longleftrightarrow> starts_with SECRET_PREFIX n \<and>
     drop (length SECRET_PREFIX) n \<noteq> [] \<and> list_all is_name_char (drop (length SECRET_PREFIX) n)"

lemma name_char_NL: "\<not> is_name_char NL" "\<not> is_ref_char NL"
  by (simp_all add: is_name_char_def is_ref_char_def is_digit_def)

lemma allowed_nameD:
  assumes "allowed_name n" and "list_all is_ref_char n"
  shows "credential_name n"
proof -
  let ?r = "drop (length SECRET_PREFIX) n"
  have t: "takeWhile is_name_char ?r \<noteq> []" "dropWhile is_name_char ?r = [] \<or> dropWhile is_name_char ?r = [NL]"
    and p: "starts_with SECRET_PREFIX n" using assms(1) by (auto simp: allowed_name_def Let_def)
  have "NL \<notin> set ?r" using assms(2) name_char_NL(2) by (auto simp: list_all_iff dest: in_set_dropD)
  then have "dropWhile is_name_char ?r \<noteq> [NL]" by (metis list.set_intros(1) set_dropWhileD)
  with t(2) have "takeWhile is_name_char ?r = ?r" by (metis append_Nil2 takeWhile_dropWhile_id)
  with t(1) p show ?thesis
    unfolding credential_name_def by (metis list_all_takeWhile)
qed

lemma credential_nameD:
  assumes "credential_name n"
  shows "allowed_name n" and "list_all is_ref_char n" and "n \<noteq> []"
proof -
  let ?r = "drop (length SECRET_PREFIX) n"
  obtain r where n: "n = SECRET_PREFIX @ r" using assms by (auto simp: credential_name_def starts_with_split)
  have r: "r \<noteq> []" "list_all is_name_char r" using assms by (auto simp: credential_name_def n)
  have "takeWhile is_name_char r = r" by (rule takeWhile_all [OF r(2)])
  then have "takeWhile is_name_char r \<noteq> []" and "dropWhile is_name_char r = []"
    using r(1) by (metis, simp add: takeWhile_eq_all_conv)
  then show "allowed_name n" by (simp add: allowed_name_def n starts_with_def Let_def del: takeWhile_eq_Nil_iff)
  have "list_all is_ref_char SECRET_PREFIX" by (simp add: SECRET_PREFIX_def is_ref_char_def is_digit_def)
  with r(2) show "list_all is_ref_char n" by (auto simp: n list_all_iff name_is_ref)
  show "n \<noteq> []" using r(1) by (simp add: n)
qed

lemma py_strip_no_trailing: "py_strip s \<noteq> x @ ''}'' @ [NL]"
proof
  assume "py_strip s = x @ ''}'' @ [NL]"
  then have "hd (rev (py_strip s)) = NL" and "rev (py_strip s) \<noteq> []" by simp_all
  moreover have "rev (py_strip s) = dropWhile is_space (rev (py_lstrip s))"
    by (simp add: py_strip_def py_rstrip_def)
  ultimately show False using hd_dropWhile [of is_space "rev (py_lstrip s)"]
    by (simp add: is_space_def)
qed

text \<open>The catalog can reference credentials and nothing else: a secret field is accepted exactly
  when it is text that, stripped, is \<open>${env:N}\<close> with N \<open>QI_SECRET_\<close> followed by upper-case letters,
  digits and underscores, and the field then holds N. A literal value, and any other variable of the
  process (\<open>QI_API_TOKEN\<close>, \<open>QI_QDRANT_API_KEY\<close>), is refused.\<close>
theorem parse_secret_ref_exactly:
  "parse_secret_ref value = Inr n \<longleftrightarrow>
     credential_name n \<and> (\<exists>s. value = JStr s \<and> py_strip s = ref_prefix @ n @ ''}'')"
proof (cases "value")
  case (JStr s)
  have "ref_match (py_strip s) = Some n \<longleftrightarrow>
      n \<noteq> [] \<and> list_all is_ref_char n \<and> py_strip s = ref_prefix @ n @ ''}''"
    using py_strip_no_trailing [of s "ref_prefix @ n"] by (simp add: ref_match_iff)
  moreover have "parse_secret_ref value = Inr n \<longleftrightarrow> ref_match (py_strip s) = Some n \<and> allowed_name n"
    by (auto simp: JStr parse_secret_ref_def split: option.splits)
  ultimately show ?thesis using JStr allowed_nameD credential_nameD by blast
qed (simp_all add: parse_secret_ref_def)

section \<open>The cache is invisible\<close>

text \<open>A sequence of lookups, each with the look at the file it takes.\<close>

primrec store_run :: "secret_lib \<Rightarrow> string \<Rightarrow> string \<Rightarrow> file_view list \<Rightarrow> secret_store \<Rightarrow> secret_state list" where
  "store_run lib name key [] st = []"
| "store_run lib name key (v # vs) st =
     (case store_state lib name key v st of (state, st') \<Rightarrow> state # store_run lib name key vs st')"

definition cache_valid :: "secret_lib \<Rightarrow> string \<Rightarrow> string \<Rightarrow> file_view set \<Rightarrow> secret_store \<Rightarrow> bool" where
  "cache_valid lib name key V st \<longleftrightarrow>
     (sc_loaded st \<longrightarrow> (\<exists>v \<in> V. fv_signature v = sc_signature st \<and> sc_cached st = fresh_state lib name key v))"

definition signed_by_stat :: "file_view set \<Rightarrow> bool" where
  "signed_by_stat V \<longleftrightarrow> (\<forall>v \<in> V. \<forall>w \<in> V. fv_signature v = fv_signature w \<longrightarrow> fv_content v = fv_content w)"

lemma store_state_fresh:
  assumes "signed_by_stat V" and "v \<in> V" and "cache_valid lib name key V st"
    and "store_state lib name key v st = (state, st')"
  shows "state = fresh_state lib name key v" and "cache_valid lib name key V st'"
proof -
  have hit: "sc_cached st = fresh_state lib name key v"
    if h: "sc_loaded st" "fv_signature v = sc_signature st"
  proof -
    obtain w where w: "w \<in> V" "fv_signature w = sc_signature st" "sc_cached st = fresh_state lib name key w"
      using assms(3) h(1) unfolding cache_valid_def by blast
    then have "fv_signature v = fv_signature w" using h(2) by simp
    moreover from this have "fv_content v = fv_content w"
      using assms(1,2) w(1) unfolding signed_by_stat_def by blast
    ultimately show ?thesis by (simp add: w(3) fresh_state_def)
  qed
  show "state = fresh_state lib name key v" and "cache_valid lib name key V st'"
  proof (atomize (full), cases "sc_loaded st \<and> fv_signature v = sc_signature st")
    case True
    then have "state = sc_cached st" and "st' = st" using assms(4) by (auto simp: store_state_def)
    with hit True assms(3) show "state = fresh_state lib name key v \<and> cache_valid lib name key V st'" by blast
  next
    case False
    then have "state = fresh_state lib name key v"
      and "st' = \<lparr>sc_signature = fv_signature v, sc_cached = fresh_state lib name key v, sc_loaded = True\<rparr>"
      using assms(4) by (auto simp: store_state_def Let_def)
    with assms(2) show "state = fresh_state lib name key v \<and> cache_valid lib name key V st'"
      by (auto simp: cache_valid_def)
  qed
qed

lemma store_run_fresh:
  "signed_by_stat V \<Longrightarrow> set vs \<subseteq> V \<Longrightarrow> cache_valid lib name key V st \<Longrightarrow>
   store_run lib name key vs st = map (fresh_state lib name key) vs"
proof (induction vs arbitrary: st)
  case (Cons v vs)
  obtain state st' where s: "store_state lib name key v st = (state, st')" by fastforce
  from store_state_fresh [OF Cons.prems(1) _ Cons.prems(3) s] Cons show ?case by (simp add: s)
qed simp

text \<open>C34: The cache of the secret store is invisible: as long as two looks at the file with the same
  stat signature (mtime, size, inode, or no file) mean the same content, every lookup of a process
  answers exactly what reading the file at that moment gives, so that an added, rotated or removed
  secret counts from the next lookup on, without a restart.\<close>
theorem secret_cache_invisible:
  assumes "signed_by_stat (set vs)"
  shows "store_run lib name key vs new_store = map (fresh_state lib name key) vs"
  by (rule store_run_fresh [OF assms order_refl]) (simp add: cache_valid_def new_store_def)

section \<open>A stored secret is found again\<close>

text \<open>What the code relies on: decryption under the same key gives back what was encrypted, tokens
  are text, UTF-8 decodes what it encoded.\<close>

definition crypto_laws :: "crypto_lib \<Rightarrow> bool" where
  "crypto_laws lib \<longleftrightarrow>
     (\<forall>nonce k p. cl_decrypt lib k (cl_encrypt lib nonce k p) = Some p \<and> is_ascii (cl_encrypt lib nonce k p)) \<and>
     (\<forall>p. cl_utf8_decode lib (utf8_encode p) = Some p)"

lemma decrypt_encrypt:
  assumes "crypto_laws lib" and "key \<noteq> []" and "encrypt lib nonce p key = Inr token"
  shows "decrypt lib token key = Inr p"
  using assms
  by (auto simp: crypto_laws_def encrypt_def decrypt_def fernet_key_def is_encrypted_def starts_with_def
      Let_def)

lemma map_of_decrypt_all:
  "map_of es name = Some token \<Longrightarrow> decrypt lib token key = Inr p \<Longrightarrow>
   map_of (fst (decrypt_all lib key (map (\<lambda>(n, t). \<lparr>ss_name = n, ss_value = t\<rparr>) es))) name = Some p"
  by (induction es) (auto split: prod.splits sum.splits if_splits)

text \<open>C35: A secret stored under the connections key is found again: if the file is readable YAML that
  validates, and the entry of a name holds the encryption of a text under \<open>QI_CONNECTIONS_SECRET\<close>,
  then resolving the reference gives that text whenever the process environment has no value, or an
  empty one, of the name; and a value of the process environment takes precedence over it.\<close>
theorem stored_secret_resolves:
  assumes "crypto_laws (sl_crypto lib)" and "key \<noteq> []"
    and "sl_yaml lib raw = Inr loaded" and "loaded \<noteq> JNull"
    and "document_secrets lib loaded = Some (map (\<lambda>(n, t). \<lparr>ss_name = n, ss_value = t\<rparr>) es)"
    and "map_of es name = Some token" and "encrypt (sl_crypto lib) nonce p key = Inr token" and "p \<noteq> []"
  shows "resolve_secret name (layered_environ base (read_store lib file_name key (Inr raw))) =
     Inr (case map_of base name of None \<Rightarrow> p | Some v \<Rightarrow> if v = [] then p else v)"
proof -
  let ?es = "map (\<lambda>(n, t). \<lparr>ss_name = n, ss_value = t\<rparr>) es"
  have "?es \<noteq> []" using assms(6) by auto
  then have "st_values (read_store lib file_name key (Inr raw)) = fst (decrypt_all (sl_crypto lib) key ?es)"
    using assms(2-5) by (simp add: read_store_def split: jval.splits prod.splits)
  then have "store_get (read_store lib file_name key (Inr raw)) name = Some p"
    using map_of_decrypt_all [OF assms(6) decrypt_encrypt [OF assms(1,2,7)]] by (simp add: store_get_def)
  with assms(8) show ?thesis
    by (auto simp: resolve_secret_def layered_environ_def layered_get_def or_else_def split: option.splits)
qed

section \<open>Witnesses\<close>

text \<open>A library whose laws hold by computation: a token spells each byte with two letters.\<close>

fun nibbles :: "string \<Rightarrow> string" where
  "nibbles [] = []"
| "nibbles (c # cs) = (let n = (of_char c :: nat) in
     char_of (64 + n div 16) # char_of (64 + n mod 16) # nibbles cs)"

fun unnibbles :: "string \<Rightarrow> string" where
  "unnibbles (a # b # cs) = char_of (16 * ((of_char a :: nat) - 64) + (of_char b - 64)) # unnibbles cs"
| "unnibbles cs = []"

fun utf8_text :: "string \<Rightarrow> string" where
  "utf8_text [] = []"
| "utf8_text (a # cs) =
     (if (of_char a :: nat) < 128 then a # utf8_text cs
      else case cs of [] \<Rightarrow> []
        | b # r \<Rightarrow> char_of (64 * ((of_char a :: nat) - 192) + (of_char b - 128)) # utf8_text r)"

definition letter_crypto :: crypto_lib where
  "letter_crypto = \<lparr>cl_sha256 = id, cl_b64 = id, cl_encrypt = (\<lambda>nonce k p. nibbles p),
     cl_decrypt = (\<lambda>k t. Some (unnibbles t)), cl_utf8_decode = (\<lambda>b. Some (utf8_text b))\<rparr>"

lemma byte_cases:
  obtains n where "c = (char_of (n :: nat) :: char)" and "n < 256"
  by (rule that [of "of_char c"]) simp_all

lemma unnibbles_nibbles: "unnibbles (nibbles p) = p"
proof (induction p)
  case (Cons c cs)
  obtain n where "c = char_of (n :: nat)" "n < 256" by (rule byte_cases)
  moreover from this have "(64 + n div 16) mod 256 = 64 + n div 16" by (intro mod_less) linarith
  ultimately show ?case using Cons by (simp add: Let_def)
qed simp

lemma is_ascii_nibbles: "is_ascii (nibbles p)"
proof (induction p)
  case (Cons c cs)
  obtain n where n: "c = char_of (n :: nat)" "n < 256" by (rule byte_cases)
  then have "(64 + n div 16) mod 256 = 64 + n div 16" by (intro mod_less) linarith
  moreover have "64 + n div 16 < 128" "64 + n mod 16 < 128" using n(2) by linarith+
  ultimately show ?case using Cons n by (simp add: is_ascii_def Let_def)
qed (simp add: is_ascii_def)

lemma utf8_text_encode: "utf8_text (utf8_encode p) = p"
proof (induction p)
  case (Cons c cs)
  obtain n where n: "c = char_of (n :: nat)" "n < 256" by (rule byte_cases)
  then have "(192 + n div 64) mod 256 = 192 + n div 64" by (intro mod_less) linarith
  moreover have "64 * (n div 64) + n mod 64 = n" by simp
  ultimately show ?case using Cons n
    by (auto simp: utf8_encode_def utf8_char_def Let_def simp del: char_of_mod_256)
qed (simp add: utf8_encode_def)

lemma letter_crypto_laws: "crypto_laws letter_crypto"
  by (simp add: crypto_laws_def letter_crypto_def unnibbles_nibbles is_ascii_nibbles utf8_text_encode)

definition sample_lib :: secret_lib where
  "sample_lib = \<lparr>sl_crypto = letter_crypto, sl_yaml = (\<lambda>raw. Inr (JStr raw)),
     sl_shape = (\<lambda>v. case v of JStr t \<Rightarrow> Some [\<lparr>ss_name = ''QI_SECRET_A'', ss_value = t\<rparr>] | _ \<Rightarrow> None),
     sl_first_error = (\<lambda>v. '''')\<rparr>"

theorem secret_cache_invisible_witness:
  "let v = \<lparr>fv_signature = Some (1, 9, 7), fv_content = Inr ''enc:1:FA''\<rparr>;
       w = \<lparr>fv_signature = Some (1, 9, 8), fv_content = Inr ''enc:1:FK''\<rparr>;
       gone = \<lparr>fv_signature = None, fv_content = Inl (PyError ''OSError'' '''')\<rparr>
   in store_run sample_lib ''secrets.yaml'' ''key'' [gone, v, v, w] new_store =
      map (fresh_state sample_lib ''secrets.yaml'' ''key'') [gone, v, v, w] \<and>
      store_get (fresh_state sample_lib ''secrets.yaml'' ''key'' w) ''QI_SECRET_A'' = Some ''k''"
  unfolding Let_def
  by (intro conjI secret_cache_invisible) (simp add: signed_by_stat_def, code_simp)

theorem stored_secret_resolves_witness:
  "resolve_secret ''QI_SECRET_A'' (layered_environ [(''QI_SECRET_A'', '''')]
     (read_store sample_lib ''secrets.yaml'' ''key'' (Inr ''enc:1:FKFN''))) = Inr ''kn''"
proof -
  let ?es = "[(''QI_SECRET_A'', ''enc:1:FKFN'')]" and ?raw = "''enc:1:FKFN''"
  have laws: "crypto_laws (sl_crypto sample_lib)" using letter_crypto_laws by (simp add: sample_lib_def)
  have yaml: "sl_yaml sample_lib ?raw = Inr (JStr ?raw)" by (simp add: sample_lib_def)
  have doc: "document_secrets sample_lib (JStr ?raw) = Some (map (\<lambda>(n, t). \<lparr>ss_name = n, ss_value = t\<rparr>) ?es)"
    by code_simp
  have enc: "encrypt (sl_crypto sample_lib) [] ''kn'' ''key'' = Inr ?raw" by code_simp
  show ?thesis
    using stored_secret_resolves [OF laws _ yaml _ doc _ enc, where name = "''QI_SECRET_A''"] by simp
qed

end
