(* ===== verification/Catalog.thy ===== *)
theory Catalog
  imports Secrets
begin

text \<open>
  The catalog loader, \<open>src/src/catalog/loader.py\<close> with \<open>src/src/catalog/location.py\<close>: the merge
  of defaults, the checks of one job and between jobs, and the loading of a document. YAML, pydantic's
  field checks, the cron parser and SHA-256 are the record \<open>catalog_lib\<close>.
\<close>

section \<open>Issues and results\<close>

record catalog_issue =
  ci_job_id :: "string option"
  ci_field :: string
  ci_message :: string

definition issue :: "string option \<Rightarrow> string \<Rightarrow> string \<Rightarrow> catalog_issue" where
  "issue jid f m = \<lparr>ci_job_id = jid, ci_field = f, ci_message = m\<rparr>"

record load_result =
  lr_path :: string
  lr_jobs :: "job list"
  lr_errors :: "catalog_issue list"
  lr_checksum :: "string option"
  lr_loaded_at :: string

definition new_result :: "string \<Rightarrow> string \<Rightarrow> load_result" where
  "new_result path now = \<lparr>lr_path = path, lr_jobs = [], lr_errors = [], lr_checksum = None, lr_loaded_at = now\<rparr>"

definition load_ok :: "load_result \<Rightarrow> bool" where
  "load_ok r \<longleftrightarrow> lr_errors r = []"

definition config_error :: "load_result \<Rightarrow> string option" where
  "config_error r =
     (case lr_errors r of
        [] \<Rightarrow> None
      | first # others \<Rightarrow>
          Some ((case or_else (ci_job_id first) None of Some j \<Rightarrow> ''job '' @ quoted j @ '': '' | None \<Rightarrow> []) @
            ci_field first @ '': '' @ ci_message first @
            (if others \<noteq> [] then '' (+'' @ str_of_nat (length others) @ '' more)'' else [])))"

definition add_error :: "catalog_issue \<Rightarrow> load_result \<Rightarrow> load_result" where
  "add_error e r = r\<lparr>lr_errors := lr_errors r @ [e]\<rparr>"

section \<open>Merging the defaults\<close>

text \<open>An object is an association list with distinct keys, in insertion order.\<close>

fun obj_set :: "string \<Rightarrow> jval \<Rightarrow> (string \<times> jval) list \<Rightarrow> (string \<times> jval) list" where
  "obj_set k v [] = [(k, v)]"
| "obj_set k v ((l, w) # kvs) = (if k = l then (l, v) # kvs else (l, w) # obj_set k v kvs)"

function deep_merge :: "(string \<times> jval) list \<Rightarrow> (string \<times> jval) list \<Rightarrow> (string \<times> jval) list" where
  "deep_merge merged [] = merged"
| "deep_merge merged ((k, v) # override) =
     deep_merge (obj_set k (case (v, map_of merged k) of
         (JObj o', Some (JObj b)) \<Rightarrow> JObj (deep_merge b o')
       | _ \<Rightarrow> v) merged) override"
  by pat_completeness auto
termination
  by (relation "measure (\<lambda>(b, o'). size_list (size_prod (\<lambda>x. 0) size) o')") auto

text \<open>\<open>bool(v)\<close> is false.\<close>

fun falsy :: "jval \<Rightarrow> bool" where
  "falsy JNull = True"
| "falsy (JBool b) = (\<not> b)"
| "falsy (JInt i) = (i = 0)"
| "falsy (JFloat q) = (q = 0)"
| "falsy (JStr s) = (s = [])"
| "falsy (JList xs) = (xs = [])"
| "falsy (JObj kvs) = (kvs = [])"

section \<open>The checks of one job\<close>

record catalog_lib =
  cg_sha256 :: "string \<Rightarrow> string"
  cg_yaml :: "string \<Rightarrow> string + jval"
  cg_repr :: "jval \<Rightarrow> string"
  cg_fields :: "jval \<Rightarrow> (string \<times> string) list + job"
  cg_validator_errors :: "jval \<Rightarrow> (string \<times> string) list"
  cg_cron_error :: "string \<Rightarrow> string option"

definition issues_from_validation_error :: "string option \<Rightarrow> (string \<times> string) list \<Rightarrow> catalog_issue list" where
  "issues_from_validation_error jid errors =
     map (\<lambda>(loc, m). issue jid (if loc = [] then ''<root>'' else loc) m) errors"

definition validate_schedule :: "catalog_lib \<Rightarrow> job \<Rightarrow> catalog_issue list" where
  "validate_schedule lib j =
     (case sch_cron (job_schedule j) of
        None \<Rightarrow> []
      | Some c \<Rightarrow> (case cg_cron_error lib c of
            None \<Rightarrow> []
          | Some m \<Rightarrow> [issue (Some (job_id j)) ''schedule.cron'' (''invalid cron expression: '' @ m)]))"

definition env_truthy :: "environ \<Rightarrow> string \<Rightarrow> bool" where
  "env_truthy env name = (case en_get env name of None \<Rightarrow> False | Some v \<Rightarrow> v \<noteq> [])"

definition validate_secrets :: "job \<Rightarrow> environ \<Rightarrow> catalog_issue list" where
  "validate_secrets j env =
     [issue (Some (job_id j)) (''source.'' @ f)
        (case explain_missing name env of Some d \<Rightarrow> d
         | None \<Rightarrow> ''referenced environment variable '' @ quoted name @ '' is not set'').
      (f, name) \<leftarrow> secret_env_names (job_source j), \<not> env_truthy env name]"

definition validate_embedding_model :: "job \<Rightarrow> catalog_issue list" where
  "validate_embedding_model j =
     (if job_enabled j \<and> emb_model (job_embedding j) = None
      then [issue (Some (job_id j)) ''embedding.model''
        ''no embedding model set; add defaults.embedding.model or this job's embedding.model'']
      else [])"

abbreviation job_connection :: "job \<Rightarrow> string" where
  "job_connection j \<equiv> tgt_connection (job_target j)"

definition validate_connection_ref :: "job \<Rightarrow> string list option \<Rightarrow> catalog_issue list" where
  "validate_connection_ref j known =
     (case known of
        None \<Rightarrow> []
      | Some names \<Rightarrow>
          if job_connection j \<notin> set names
          then [issue (Some (job_id j)) ''target.connection''
            (''unknown connection '' @ quoted (job_connection j) @ ''; define it in connections.yaml'')]
          else [])"

text \<open>\<open>os.path.normpath\<close> of POSIX: two leading slashes stay two.\<close>

fun norm_comps :: "bool \<Rightarrow> string list \<Rightarrow> string list \<Rightarrow> string list" where
  "norm_comps absolute acc [] = rev acc"
| "norm_comps absolute acc (c # cs) =
     (if c = [] \<or> c = ''.'' then norm_comps absolute acc cs
      else if c \<noteq> ''..'' \<or> (\<not> absolute \<and> acc = []) \<or> (acc \<noteq> [] \<and> hd acc = ''..'') then norm_comps absolute (c # acc) cs
      else norm_comps absolute (tl acc) cs)"

definition initial_slashes :: "string \<Rightarrow> nat" where
  "initial_slashes p =
     (if \<not> starts_with ''/'' p then 0 else if starts_with ''//'' p \<and> \<not> starts_with ''///'' p then 2 else 1)"

definition normpath :: "string \<Rightarrow> string" where
  "normpath p =
     (if p = [] then ''.''
      else let r = replicate (initial_slashes p) (CHR ''/'') @
                 py_join ''/'' (norm_comps (initial_slashes p \<noteq> 0) [] (split_char (CHR ''/'') p))
        in if r = [] then ''.'' else r)"

definition BACKSLASH :: char where
  "BACKSLASH = CHR 0x5C"

definition rstrip_char :: "char \<Rightarrow> string \<Rightarrow> string" where
  "rstrip_char c s = rev (dropWhile (\<lambda>d. d = c) (rev s))"

definition under_mount :: "string \<Rightarrow> string \<Rightarrow> bool" where
  "under_mount mount normalized \<longleftrightarrow> normalized = mount \<or> starts_with (mount @ ''/'') normalized"

definition validate_local_path :: "job \<Rightarrow> settings \<Rightarrow> catalog_issue list" where
  "validate_local_path j st =
     (case local_path (src_kind (job_source j)) of
        None \<Rightarrow> []
      | Some path \<Rightarrow>
          let mount = rstrip_char (CHR ''/'') (replace_char BACKSLASH ''/'' (normpath (set_local_dir st)));
              normalized = replace_char BACKSLASH ''/'' (normpath path)
          in if \<not> under_mount mount normalized
             then [issue (Some (job_id j)) ''source.path'' (''local source paths must live under '' @ quoted mount @
               '' (got '' @ quoted path @ '')'')]
             else [])"

section \<open>The checks between jobs\<close>

fun duplicate_id_issues :: "string list \<Rightarrow> job list \<Rightarrow> catalog_issue list" where
  "duplicate_id_issues seen [] = []"
| "duplicate_id_issues seen (j # js) =
     (if job_id j \<in> set seen then [issue (Some (job_id j)) ''id'' ''duplicate job id''] else []) @
     duplicate_id_issues (job_id j # seen) js"

definition system_collections :: "settings \<Rightarrow> string list" where
  "system_collections st = [set_embed_meta_collection st, set_rbac_acl_collection st]"

definition system_collection_issues :: "settings \<Rightarrow> job list \<Rightarrow> catalog_issue list" where
  "system_collection_issues st js =
     [issue (Some (job_id j)) ''target.collection''
        (quoted (job_collection j) @ '' is a system collection and cannot be a target'').
      j \<leftarrow> js, job_collection j \<in> set (system_collections st)]"

text \<open>The three loops over the enabled jobs, each with its dictionary: the first job of a key
  claims it, a later one is an issue (of a label, always; of a model or connection, when it
  differs).\<close>

fun label_issues :: "(string \<times> string \<rightharpoonup> string) \<Rightarrow> job list \<Rightarrow> catalog_issue list" where
  "label_issues labels [] = []"
| "label_issues labels (j # js) =
     (case labels (job_collection j, job_label j) of
        Some other \<Rightarrow>
          issue (Some (job_id j)) ''source.label'' (''label '' @ quoted (job_label j) @ '' already serves collection '' @
            quoted (job_collection j) @ '' via job '' @ quoted other @ ''; labels must be unique per collection so '' @
            ''`source` URIs stay disjoint'') # label_issues labels js
      | None \<Rightarrow> label_issues (labels((job_collection j, job_label j) \<mapsto> job_id j)) js)"

fun model_issues :: "(string \<rightharpoonup> string \<times> string) \<Rightarrow> job list \<Rightarrow> catalog_issue list" where
  "model_issues models [] = []"
| "model_issues models (j # js) =
     (case emb_model (job_embedding j) of
        None \<Rightarrow> model_issues models js
      | Some model \<Rightarrow>
     (case models (job_collection j) of
        None \<Rightarrow> model_issues (models(job_collection j \<mapsto> (model, job_id j))) js
      | Some (m, other) \<Rightarrow>
          (if m \<noteq> model then [issue (Some (job_id j)) ''embedding.model'' (''collection '' @ quoted (job_collection j) @
             '' is already served with model '' @ quoted m @ '' by job '' @ quoted other @
             ''; one embedding model per collection'')] else []) @ model_issues models js))"

fun connection_issues :: "(string \<rightharpoonup> string \<times> string) \<Rightarrow> job list \<Rightarrow> catalog_issue list" where
  "connection_issues conns [] = []"
| "connection_issues conns (j # js) =
     (case conns (job_collection j) of
        None \<Rightarrow> connection_issues (conns(job_collection j \<mapsto> (job_connection j, job_id j))) js
      | Some (c, other) \<Rightarrow>
          (if c \<noteq> job_connection j then [issue (Some (job_id j)) ''target.connection'' (''collection '' @
             quoted (job_collection j) @ '' is already served over connection '' @ quoted c @ '' by job '' @
             quoted other @ ''; one connection per collection'')] else []) @ connection_issues conns js)"

definition cross_job_issues :: "job list \<Rightarrow> settings \<Rightarrow> catalog_issue list" where
  "cross_job_issues js st =
     (let enabled = filter job_enabled js in
      duplicate_id_issues [] js @ system_collection_issues st js @ label_issues Map.empty enabled @
      model_issues Map.empty enabled @ connection_issues Map.empty enabled)"

section \<open>Loading a document\<close>

definition obj_get :: "(string \<times> jval) list \<Rightarrow> string \<Rightarrow> jval" where
  "obj_get kvs k = (case map_of kvs k of None \<Rightarrow> JNull | Some v \<Rightarrow> v)"

definition DEFAULTS_SECTIONS :: "string list" where
  "DEFAULTS_SECTIONS = [''embedding'', ''chunking'', ''filters'', ''schedule'', ''safety'']"

text \<open>Python's \<open>==\<close> with the integer 1.\<close>

definition version_one :: "jval \<Rightarrow> bool" where
  "version_one v \<longleftrightarrow> v = JInt 1 \<or> v = JBool True \<or> v = JFloat 1"

text \<open>\<open>JobConfig.model_validate\<close>: \<open>cg_fields\<close> are pydantic's own type checks, which build the job or
  report errors; the constraints and validators of the schema follow.\<close>

definition model_validate :: "catalog_lib \<Rightarrow> jval \<Rightarrow> (string \<times> string) list + job" where
  "model_validate lib v =
     (case cg_fields lib v of
        Inl errors \<Rightarrow> Inl errors
      | Inr j \<Rightarrow> if job_valid j then Inr j else Inl (cg_validator_errors lib v))"

definition raw_job_id :: "(string \<times> jval) list \<Rightarrow> string option" where
  "raw_job_id raw = (case obj_get raw ''id'' of JStr s \<Rightarrow> Some s | _ \<Rightarrow> None)"

definition job_issues ::
  "catalog_lib \<Rightarrow> settings \<Rightarrow> environ \<Rightarrow> string list option \<Rightarrow> job \<Rightarrow> catalog_issue list" where
  "job_issues lib st env known j =
     validate_schedule lib j @ validate_secrets j env @ validate_local_path j st @
     validate_embedding_model j @ validate_connection_ref j known"

definition known_defaults :: "(string \<times> jval) list \<Rightarrow> (string \<times> jval) list" where
  "known_defaults defaults = filter (\<lambda>(k, v). k \<in> set DEFAULTS_SECTIONS) defaults"

definition index_name :: "nat \<Rightarrow> string" where
  "index_name i = ''jobs['' @ str_of_nat i @ '']''"

definition load_job ::
  "catalog_lib \<Rightarrow> settings \<Rightarrow> environ \<Rightarrow> string list option \<Rightarrow> (string \<times> jval) list \<Rightarrow> nat \<Rightarrow> jval \<Rightarrow>
   load_result \<Rightarrow> load_result" where
  "load_job lib st env known defaults i raw result =
     (case raw of
        JObj kvs \<Rightarrow>
          (case model_validate lib (JObj (deep_merge (known_defaults defaults) kvs)) of
             Inl errors \<Rightarrow>
               result\<lparr>lr_errors := lr_errors result @ issues_from_validation_error
                 (or_else (raw_job_id kvs) (Some (index_name i))) errors\<rparr>
           | Inr j \<Rightarrow>
               result\<lparr>lr_errors := lr_errors result @ job_issues lib st env known j,
                 lr_jobs := lr_jobs result @ [j]\<rparr>)
      | _ \<Rightarrow> add_error (issue None (index_name i) ''job must be a mapping'') result)"

primrec load_jobs ::
  "catalog_lib \<Rightarrow> settings \<Rightarrow> environ \<Rightarrow> string list option \<Rightarrow> (string \<times> jval) list \<Rightarrow> nat \<Rightarrow> jval list \<Rightarrow>
   load_result \<Rightarrow> load_result" where
  "load_jobs lib st env known defaults i [] result = result"
| "load_jobs lib st env known defaults i (raw # raws) result =
     load_jobs lib st env known defaults (Suc i) raws (load_job lib st env known defaults i raw result)"

text \<open>The last steps: the checks between the jobs, then only the jobs no issue names are kept.\<close>

definition finish_jobs :: "settings \<Rightarrow> load_result \<Rightarrow> load_result" where
  "finish_jobs st result =
     (let r = result\<lparr>lr_errors := lr_errors result @ cross_job_issues (lr_jobs result) st\<rparr> in
      if lr_errors r \<noteq> []
      then r\<lparr>lr_jobs := filter (\<lambda>j. Some (job_id j) \<notin> ci_job_id ` set (lr_errors r)) (lr_jobs r)\<rparr>
      else r)"

definition sort_strings :: "string list \<Rightarrow> string list" where
  "sort_strings xs = sort_key (map of_char :: string \<Rightarrow> nat list) xs"

definition validate_jobs ::
  "catalog_lib \<Rightarrow> settings \<Rightarrow> environ \<Rightarrow> string list option \<Rightarrow> (string \<times> jval) list \<Rightarrow> (string \<times> jval) list \<Rightarrow>
   load_result \<Rightarrow> load_result" where
  "validate_jobs lib st env known document defaults result =
     (let unknown = filter (\<lambda>k. k \<notin> set DEFAULTS_SECTIONS) (map fst defaults);
          result = (if unknown = [] then result else add_error (issue None ''defaults''
            (''unsupported defaults sections: '' @ py_join '', '' (sort_strings unknown))) result);
          jobs = (if falsy (obj_get document ''jobs'') then JList [] else obj_get document ''jobs'')
      in case jobs of
           JList raws \<Rightarrow> finish_jobs st (load_jobs lib st env known defaults 0 raws result)
         | _ \<Rightarrow> add_error (issue None ''jobs'' ''jobs must be a list'') result)"

definition validate_document ::
  "catalog_lib \<Rightarrow> load_result \<Rightarrow> string \<Rightarrow> settings \<Rightarrow> environ \<Rightarrow> string list option \<Rightarrow> load_result" where
  "validate_document lib result raw st env known =
     (let result = result\<lparr>lr_checksum := Some (cg_sha256 lib raw)\<rparr> in
      case cg_yaml lib raw of
        Inl e \<Rightarrow> add_error (issue None ''jobs_file'' (''invalid YAML: '' @ e)) result
      | Inr loaded \<Rightarrow>
     (case (if loaded = JNull then JObj [] else loaded) of
        JObj document \<Rightarrow>
          if \<not> version_one (obj_get document ''version'')
          then add_error (issue None ''version'' (''unsupported catalog version '' @
            cg_repr lib (obj_get document ''version'') @ ''; expected 1'')) result
          else (case (if falsy (obj_get document ''defaults'') then JObj [] else obj_get document ''defaults'') of
              JObj defaults \<Rightarrow> validate_jobs lib st env known document defaults result
            | _ \<Rightarrow> add_error (issue None ''defaults'' ''defaults must be a mapping'') result)
      | _ \<Rightarrow> add_error (issue None ''jobs_file'' ''top level must be a mapping'') result))"

text \<open>The file: whether it is one, and what reading it returns.\<close>

definition load_catalog ::
  "catalog_lib \<Rightarrow> string \<Rightarrow> bool \<Rightarrow> exc + string \<Rightarrow> string \<Rightarrow> settings \<Rightarrow> environ \<Rightarrow> string list option \<Rightarrow>
   load_result" where
  "load_catalog lib path is_file content now st env known =
     (if \<not> is_file then add_error (issue None ''jobs_file'' ''jobs.yaml not found'') (new_result path now)
      else case content of
        Inl e \<Rightarrow> add_error (issue None ''jobs_file'' (''unreadable: '' @ exc_str e)) (new_result path now)
      | Inr raw \<Rightarrow> validate_document lib (new_result path now) raw st env known)"

definition load_catalog_bytes ::
  "catalog_lib \<Rightarrow> string + string \<Rightarrow> string \<Rightarrow> settings \<Rightarrow> environ \<Rightarrow> string list option \<Rightarrow> string \<Rightarrow> load_result" where
  "load_catalog_bytes lib raw now st env known path =
     validate_document lib (new_result path now)
       (case raw of Inl text \<Rightarrow> utf8_encode text | Inr bytes \<Rightarrow> bytes) st env known"

section \<open>The location of the catalog\<close>

record catalog_location =
  cl_path :: string
  cl_legacy :: bool

definition resolve_location :: "(string \<Rightarrow> bool) \<Rightarrow> settings \<Rightarrow> catalog_location" where
  "resolve_location is_file st =
     (let primary = set_jobs_file st; legacy = set_jobs_file_legacy st in
      if \<not> is_file primary \<and> legacy \<noteq> primary \<and> is_file legacy
      then \<lparr>cl_path = legacy, cl_legacy = True\<rparr> else \<lparr>cl_path = primary, cl_legacy = False\<rparr>)"

section \<open>What a loaded catalog guarantees\<close>

abbreviation flagged :: "catalog_issue list \<Rightarrow> string option set" where
  "flagged es \<equiv> ci_job_id ` set es"

abbreviation kept :: "string option set \<Rightarrow> job list \<Rightarrow> job list" where
  "kept bad js \<equiv> filter (\<lambda>j. Some (job_id j) \<notin> bad) js"

lemma issue_job_id [simp]: "ci_job_id (issue jid f m) = jid"
  by (simp add: issue_def)

lemma kept_distinct_ids:
  "flagged (duplicate_id_issues seen js) \<subseteq> bad \<Longrightarrow>
   distinct (map job_id (kept bad js)) \<and> (\<forall>j \<in> set (kept bad js). job_id j \<notin> set seen)"
proof (induction js arbitrary: seen)
  case (Cons j js)
  then have "flagged (duplicate_id_issues (job_id j # seen) js) \<subseteq> bad" by auto
  from Cons.IH [OF this] Cons.prems show ?case by (auto split: if_splits)
qed simp

lemma kept_distinct_labels:
  "flagged (label_issues labels js) \<subseteq> bad \<Longrightarrow>
   distinct (map (\<lambda>j. (job_collection j, job_label j)) (kept bad js)) \<and>
   (\<forall>j \<in> set (kept bad js). labels (job_collection j, job_label j) = None)"
proof (induction js arbitrary: labels)
  case (Cons j js)
  show ?case
  proof (cases "labels (job_collection j, job_label j)")
    case None
    with Cons.prems have "flagged (label_issues (labels((job_collection j, job_label j) \<mapsto> job_id j)) js) \<subseteq> bad"
      by simp
    from Cons.IH [OF this] None show ?thesis by (auto split: if_splits)
  next
    case (Some other)
    with Cons.prems have "flagged (label_issues labels js) \<subseteq> bad" and "Some (job_id j) \<in> bad" by auto
    from Cons.IH [OF this(1)] this(2) show ?thesis by simp
  qed
qed simp

text \<open>A dictionary is extended by a choice of one value per collection.\<close>

definition extends :: "(string \<rightharpoonup> string \<times> string) \<Rightarrow> (string \<Rightarrow> string) \<Rightarrow> bool" where
  "extends d f \<longleftrightarrow> (\<forall>c v i. d c = Some (v, i) \<longrightarrow> f c = v)"

lemma extends_upd: "extends (d(c \<mapsto> (v, i))) f \<Longrightarrow> d c = None \<Longrightarrow> extends d f \<and> f c = v"
  unfolding extends_def by (metis fun_upd_apply option.distinct(1))

lemma extendsD: "extends d f \<Longrightarrow> d c = Some (v, i) \<Longrightarrow> f c = v"
  by (auto simp: extends_def)

lemma extends_empty: "extends Map.empty f"
  by (simp add: extends_def)

lemma kept_same_model:
  "flagged (model_issues models js) \<subseteq> bad \<Longrightarrow>
   \<exists>f. extends models f \<and>
     (\<forall>j \<in> set (kept bad js). \<forall>m. emb_model (job_embedding j) = Some m \<longrightarrow> m = f (job_collection j))"
proof (induction js arbitrary: models)
  case Nil
  show ?case by (rule exI [of _ "\<lambda>c. case models c of Some (v, i) \<Rightarrow> v | None \<Rightarrow> []"]) (simp add: extends_def)
next
  case (Cons j js)
  consider (none) "emb_model (job_embedding j) = None"
    | (claim) m where "emb_model (job_embedding j) = Some m" "models (job_collection j) = None"
    | (check) m m' i where "emb_model (job_embedding j) = Some m" "models (job_collection j) = Some (m', i)"
    by (cases "emb_model (job_embedding j)"; cases "models (job_collection j)") auto
  then show ?case
  proof cases
    case none
    with Cons.prems have "flagged (model_issues models js) \<subseteq> bad" by simp
    from Cons.IH [OF this] none show ?thesis by auto
  next
    case (claim m)
    with Cons.prems have "flagged (model_issues (models(job_collection j \<mapsto> (m, job_id j))) js) \<subseteq> bad" by simp
    from Cons.IH [OF this] obtain f where "extends (models(job_collection j \<mapsto> (m, job_id j))) f"
      and f: "\<forall>j \<in> set (kept bad js). \<forall>m. emb_model (job_embedding j) = Some m \<longrightarrow> m = f (job_collection j)"
      by blast
    then have "extends models f \<and> f (job_collection j) = m" using extends_upd claim(2) by blast
    with f claim(1) show ?thesis by (intro exI [of _ f]) simp
  next
    case (check m m' i)
    with Cons.prems have "flagged (model_issues models js) \<subseteq> bad" and e: "m' \<noteq> m \<Longrightarrow> Some (job_id j) \<in> bad"
      by auto
    from Cons.IH [OF this(1)] obtain f where x: "extends models f"
      and f: "\<forall>j \<in> set (kept bad js). \<forall>m. emb_model (job_embedding j) = Some m \<longrightarrow> m = f (job_collection j)"
      by blast
    have "f (job_collection j) = m'" by (rule extendsD [OF x check(2)])
    with x f e check(1) show ?thesis by (intro exI [of _ f]) auto
  qed
qed

lemma kept_same_connection:
  "flagged (connection_issues conns js) \<subseteq> bad \<Longrightarrow>
   \<exists>f. extends conns f \<and> (\<forall>j \<in> set (kept bad js). job_connection j = f (job_collection j))"
proof (induction js arbitrary: conns)
  case Nil
  show ?case by (rule exI [of _ "\<lambda>c. case conns c of Some (v, i) \<Rightarrow> v | None \<Rightarrow> []"]) (simp add: extends_def)
next
  case (Cons j js)
  show ?case
  proof (cases "conns (job_collection j)")
    case None
    with Cons.prems have "flagged (connection_issues (conns(job_collection j \<mapsto> (job_connection j, job_id j))) js) \<subseteq> bad"
      by simp
    from Cons.IH [OF this] obtain f where "extends (conns(job_collection j \<mapsto> (job_connection j, job_id j))) f"
      and f: "\<forall>j \<in> set (kept bad js). job_connection j = f (job_collection j)" by blast
    then have "extends conns f \<and> f (job_collection j) = job_connection j" using extends_upd None by blast
    with f show ?thesis by (intro exI [of _ f]) simp
  next
    case (Some p)
    obtain c i where p: "p = (c, i)" by fastforce
    with Some Cons.prems have "flagged (connection_issues conns js) \<subseteq> bad"
      and e: "c \<noteq> job_connection j \<Longrightarrow> Some (job_id j) \<in> bad" by auto
    from Cons.IH [OF this(1)] obtain f where x: "extends conns f"
      and f: "\<forall>j \<in> set (kept bad js). job_connection j = f (job_collection j)" by blast
    have "f (job_collection j) = c" using extendsD [OF x] Some p by blast
    with x f e show ?thesis by (intro exI [of _ f]) auto
  qed
qed

text \<open>Every loaded job passed the schema, and its issues are among the errors.\<close>

definition jobs_checked ::
  "catalog_lib \<Rightarrow> settings \<Rightarrow> environ \<Rightarrow> string list option \<Rightarrow> load_result \<Rightarrow> bool" where
  "jobs_checked lib st env known r \<longleftrightarrow>
     (\<forall>j \<in> set (lr_jobs r). job_valid j \<and> set (job_issues lib st env known j) \<subseteq> set (lr_errors r))"

definition merged_job :: "catalog_lib \<Rightarrow> (string \<times> jval) list \<Rightarrow> jval \<Rightarrow> job \<Rightarrow> bool" where
  "merged_job lib defaults raw j \<longleftrightarrow>
     (case raw of
        JObj kvs \<Rightarrow> model_validate lib (JObj (deep_merge (known_defaults defaults) kvs)) = Inr j
      | _ \<Rightarrow> False)"

definition reports_errors :: "catalog_lib \<Rightarrow> bool" where
  "reports_errors lib \<longleftrightarrow> (\<forall>v. cg_fields lib v \<noteq> Inl [] \<and> cg_validator_errors lib v \<noteq> [])"

lemma load_job_cases:
  obtains (job) j where "merged_job lib d raw j" "job_valid j" "load_job lib st env known d i raw r =
      r\<lparr>lr_errors := lr_errors r @ job_issues lib st env known j, lr_jobs := lr_jobs r @ [j]\<rparr>"
  | (refused) es where "load_job lib st env known d i raw r = r\<lparr>lr_errors := lr_errors r @ es\<rparr>"
      "reports_errors lib \<Longrightarrow> es \<noteq> []"
proof (cases raw)
  case (JObj kvs)
  let ?v = "JObj (deep_merge (known_defaults d) kvs)"
  show thesis
  proof (cases "model_validate lib ?v")
    case (Inl errors)
    then have "reports_errors lib \<Longrightarrow> errors \<noteq> []"
      by (auto simp: model_validate_def reports_errors_def split: sum.splits if_splits)
    then show thesis
      by (intro refused [of "issues_from_validation_error (or_else (raw_job_id kvs) (Some (index_name i))) errors"])
        (simp_all add: load_job_def JObj Inl issues_from_validation_error_def)
  next
    case (Inr j)
    then have "job_valid j" by (auto simp: model_validate_def split: sum.splits if_splits)
    with Inr show thesis by (intro job [of j]) (simp_all add: load_job_def merged_job_def JObj)
  qed
qed (rule refused [of "[issue None (index_name i) ''job must be a mapping'']"];
  simp add: load_job_def add_error_def)+

lemma load_jobs_checked:
  "jobs_checked lib st env known r \<Longrightarrow> jobs_checked lib st env known (load_jobs lib st env known d i raws r)"
proof (induction raws arbitrary: i r)
  case (Cons raw raws)
  show ?case
  proof (cases rule: load_job_cases [of lib d raw st env known i r])
    case (job j)
    with Cons.prems have "jobs_checked lib st env known (load_job lib st env known d i raw r)"
      by (auto simp: jobs_checked_def)
    from Cons.IH [OF this] show ?thesis by simp
  next
    case (refused es)
    with Cons.prems have "jobs_checked lib st env known (load_job lib st env known d i raw r)"
      by (auto simp: jobs_checked_def)
    from Cons.IH [OF this] show ?thesis by simp
  qed
qed simp

lemma job_issues_id: "e \<in> set (job_issues lib st env known j) \<Longrightarrow> ci_job_id e = Some (job_id j)"
  by (auto simp: job_issues_def validate_schedule_def validate_secrets_def validate_local_path_def Let_def
      validate_embedding_model_def validate_connection_ref_def split: option.splits if_splits)

definition job_accepted :: "catalog_lib \<Rightarrow> settings \<Rightarrow> environ \<Rightarrow> string list option \<Rightarrow> job \<Rightarrow> bool" where
  "job_accepted lib st env known j \<longleftrightarrow>
     job_valid j \<and> job_collection j \<notin> set (system_collections st) \<and>
     (job_enabled j \<longrightarrow> emb_model (job_embedding j) \<noteq> None) \<and>
     list_all (\<lambda>(f, name). env_truthy env name) (secret_env_names (job_source j)) \<and>
     (case known of None \<Rightarrow> True | Some names \<Rightarrow> job_connection j \<in> set names) \<and>
     validate_schedule lib j = [] \<and> validate_local_path j st = []"

definition jobs_compatible :: "job list \<Rightarrow> bool" where
  "jobs_compatible js \<longleftrightarrow> distinct (map job_id js) \<and>
     distinct (map (\<lambda>j. (job_collection j, job_label j)) (filter job_enabled js)) \<and>
     (\<forall>j \<in> set js. \<forall>k \<in> set js. job_enabled j \<and> job_enabled k \<and> job_collection j = job_collection k \<longrightarrow>
        job_connection j = job_connection k \<and> emb_model (job_embedding j) = emb_model (job_embedding k))"

lemma comprehension_Nil:
  "concat (map (\<lambda>(f, name). if \<not> P name then [g f name] else []) xs) = [] \<longleftrightarrow> list_all (\<lambda>(f, name). P name) xs"
  by (induction xs) (auto split: if_splits)

lemma validate_secrets_Nil:
  "validate_secrets j env = [] \<longleftrightarrow> list_all (\<lambda>(f, name). env_truthy env name) (secret_env_names (job_source j))"
  unfolding validate_secrets_def by (rule comprehension_Nil)

lemma validate_embedding_model_Nil:
  "validate_embedding_model j = [] \<longleftrightarrow> (job_enabled j \<longrightarrow> emb_model (job_embedding j) \<noteq> None)"
  by (simp add: validate_embedding_model_def)

lemma validate_connection_ref_Nil:
  "validate_connection_ref j known = [] \<longleftrightarrow>
   (case known of None \<Rightarrow> True | Some names \<Rightarrow> job_connection j \<in> set names)"
  by (simp add: validate_connection_ref_def split: option.split)

lemma system_collection_flagged:
  "j \<in> set js \<Longrightarrow> job_collection j \<in> set (system_collections st) \<Longrightarrow>
   Some (job_id j) \<in> flagged (system_collection_issues st js)"
  by (force simp: system_collection_issues_def)

lemma job_accepted_no_issues:
  assumes "job_valid j" and "job_issues lib st env known j = []" and "job_collection j \<notin> set (system_collections st)"
  shows "job_accepted lib st env known j"
  using assms unfolding job_accepted_def job_issues_def
  by (simp only: append_is_Nil_conv validate_secrets_Nil validate_embedding_model_Nil validate_connection_ref_Nil)
    simp

lemma unflagged_job_accepted:
  assumes "jobs_checked lib st env known r" and "j \<in> set (lr_jobs r)"
    and "Some (job_id j) \<notin> flagged (lr_errors r @ cross_job_issues (lr_jobs r) st)"
  shows "job_accepted lib st env known j"
proof (rule job_accepted_no_issues)
  show "job_valid j" using assms by (auto simp: jobs_checked_def)
  show "job_issues lib st env known j = []"
  proof (rule ccontr)
    assume "job_issues lib st env known j \<noteq> []"
    then obtain e where "e \<in> set (job_issues lib st env known j)" by fastforce
    with assms(1,2) have "e \<in> set (lr_errors r)" and "ci_job_id e = Some (job_id j)"
      by (auto simp: jobs_checked_def dest: job_issues_id)
    with assms(3) show False by (metis Un_iff image_eqI set_append)
  qed
  show "job_collection j \<notin> set (system_collections st)"
    using system_collection_flagged [OF assms(2)] assms(3) by (auto simp: cross_job_issues_def Let_def)
qed

lemma kept_jobs_agree:
  assumes "flagged (model_issues Map.empty js) \<subseteq> bad" and "flagged (connection_issues Map.empty js) \<subseteq> bad"
    and "\<forall>j \<in> set (kept bad js). emb_model (job_embedding j) \<noteq> None"
    and "j \<in> set (kept bad js)" "k \<in> set (kept bad js)" "job_collection j = job_collection k"
  shows "job_connection j = job_connection k \<and> emb_model (job_embedding j) = emb_model (job_embedding k)"
proof
  obtain g where g: "\<forall>j \<in> set (kept bad js). job_connection j = g (job_collection j)"
    using kept_same_connection [OF assms(2)] by blast
  show "job_connection j = job_connection k" using bspec [OF g assms(4)] bspec [OF g assms(5)] assms(6) by simp
  obtain f where f: "\<forall>j \<in> set (kept bad js). \<forall>m. emb_model (job_embedding j) = Some m \<longrightarrow> m = f (job_collection j)"
    using kept_same_model [OF assms(1)] by blast
  obtain a b where ab: "emb_model (job_embedding j) = Some a" "emb_model (job_embedding k) = Some b"
    using bspec [OF assms(3) assms(4)] bspec [OF assms(3) assms(5)] by blast
  have "a = f (job_collection j)" by (rule mp [OF spec [OF bspec [OF f assms(4)]] ab(1)])
  moreover have "b = f (job_collection k)" by (rule mp [OF spec [OF bspec [OF f assms(5)]] ab(2)])
  ultimately show "emb_model (job_embedding j) = emb_model (job_embedding k)" using ab assms(6) by simp
qed

lemma finish_jobs_accepted:
  assumes "jobs_checked lib st env known r"
  shows "list_all (job_accepted lib st env known) (lr_jobs (finish_jobs st r)) \<and> jobs_compatible (lr_jobs (finish_jobs st r))"
proof -
  let ?es = "lr_errors r @ cross_job_issues (lr_jobs r) st" and ?js = "lr_jobs (finish_jobs st r)"
  let ?bad = "flagged ?es" and ?on = "filter job_enabled (lr_jobs r)"
  have js: "?js = kept ?bad (lr_jobs r)" by (simp add: finish_jobs_def Let_def)
  have en: "filter job_enabled ?js = kept ?bad ?on" unfolding js by (simp add: conj_commute)
  have bad: "flagged (duplicate_id_issues [] (lr_jobs r)) \<subseteq> ?bad" "flagged (label_issues Map.empty ?on) \<subseteq> ?bad"
    "flagged (model_issues Map.empty ?on) \<subseteq> ?bad" "flagged (connection_issues Map.empty ?on) \<subseteq> ?bad"
    by (auto simp: cross_job_issues_def Let_def)
  have "job_accepted lib st env known j" if "j \<in> set ?js" for j
  proof (rule unflagged_job_accepted [OF assms])
    show "j \<in> set (lr_jobs r)" "Some (job_id j) \<notin> ?bad" using that unfolding js by simp_all
  qed
  then have acc: "list_all (job_accepted lib st env known) ?js" unfolding list_all_iff by blast
  have model: "emb_model (job_embedding j) \<noteq> None" if "j \<in> set (kept ?bad ?on)" for j
  proof -
    from that have "j \<in> set ?js" "job_enabled j" unfolding js by auto
    with acc have "job_accepted lib st env known j" unfolding list_all_iff by blast
    with \<open>job_enabled j\<close> show ?thesis unfolding job_accepted_def by blast
  qed
  have "job_connection j = job_connection k \<and> emb_model (job_embedding j) = emb_model (job_embedding k)"
    if "j \<in> set ?js" "k \<in> set ?js" "job_enabled j" "job_enabled k" "job_collection j = job_collection k" for j k
  proof (rule kept_jobs_agree [OF bad(3,4)])
    show "\<forall>j \<in> set (kept ?bad ?on). emb_model (job_embedding j) \<noteq> None" using model by blast
    show "j \<in> set (kept ?bad ?on)" using that(1,3) unfolding en [symmetric] by (simp only: set_filter mem_Collect_eq)
    show "k \<in> set (kept ?bad ?on)" using that(2,4) unfolding en [symmetric] by (simp only: set_filter mem_Collect_eq)
  qed (rule that(5))
  moreover have "distinct (map job_id ?js)"
    unfolding js using kept_distinct_ids [OF bad(1)] by blast
  moreover have "distinct (map (\<lambda>j. (job_collection j, job_label j)) (filter job_enabled ?js))"
    unfolding en using kept_distinct_labels [OF bad(2)] by blast
  ultimately show ?thesis using acc unfolding jobs_compatible_def by blast
qed

abbreviation accepted ::
  "catalog_lib \<Rightarrow> settings \<Rightarrow> environ \<Rightarrow> string list option \<Rightarrow> job list \<Rightarrow> bool" where
  "accepted lib st env known js \<equiv> list_all (job_accepted lib st env known) js \<and> jobs_compatible js"

lemma lr_jobs_add_error [simp]: "lr_jobs (add_error i r) = lr_jobs r"
  by (simp add: add_error_def)

lemma new_result_jobs [simp]: "lr_jobs (new_result path now) = []"
  by (simp add: new_result_def)

lemma accepted_Nil: "js = [] \<Longrightarrow> accepted lib st env known js"
  by (simp add: jobs_compatible_def)

lemma validate_jobs_accepted:
  assumes "lr_jobs r = []"
  shows "accepted lib st env known (lr_jobs (validate_jobs lib st env known document defaults r))"
proof -
  define unknown where "unknown = filter (\<lambda>k. k \<notin> set DEFAULTS_SECTIONS) (map fst defaults)"
  define r0 where "r0 = (if unknown = [] then r else add_error (issue None ''defaults''
    (''unsupported defaults sections: '' @ py_join '', '' (sort_strings unknown))) r)"
  define raws where "raws = (if falsy (obj_get document ''jobs'') then JList [] else obj_get document ''jobs'')"
  have r0: "lr_jobs r0 = []" using assms by (simp add: r0_def)
  then have "jobs_checked lib st env known r0" by (simp add: jobs_checked_def)
  note fin = finish_jobs_accepted [OF load_jobs_checked [OF this]]
  have err: "accepted lib st env known (lr_jobs (add_error i r0))" for i by (rule accepted_Nil) (simp add: r0)
  have "validate_jobs lib st env known document defaults r =
      (case raws of JList rs \<Rightarrow> finish_jobs st (load_jobs lib st env known defaults 0 rs r0)
       | _ \<Rightarrow> add_error (issue None ''jobs'' ''jobs must be a list'') r0)"
    unfolding validate_jobs_def Let_def r0_def unknown_def raws_def by (rule refl)
  with fin err show ?thesis by (cases raws) (simp_all only: jval.case)
qed

lemma validate_document_accepted:
  "accepted lib st env known (lr_jobs (validate_document lib (new_result path now) raw st env known))"
proof -
  define r where "r = (new_result path now)\<lparr>lr_checksum := Some (cg_sha256 lib raw)\<rparr>"
  have r: "lr_jobs r = []" by (simp add: r_def new_result_def)
  note jobs = validate_jobs_accepted [OF r]
  have err: "accepted lib st env known (lr_jobs (add_error i r))" for i by (rule accepted_Nil) (simp add: r)
  show ?thesis
    unfolding validate_document_def Let_def r_def [symmetric]
    by (intro conjI; simp only: split: sum.split jval.split if_split) (use jobs err in blast)+
qed

text \<open>C19: Whatever is wrong with a catalog, the jobs a load returns can run together: every one passed
  the schema and all per-job checks (a known connection, its secrets present, a model if enabled, a
  valid schedule, a local path under the mount, no system collection as target), their ids are
  distinct, and the enabled ones of a collection have distinct labels, one connection and one
  embedding model.\<close>
theorem loaded_jobs_compatible:
  "list_all (job_accepted lib st env known) (lr_jobs (load_catalog lib path is_file content now st env known)) \<and>
   jobs_compatible (lr_jobs (load_catalog lib path is_file content now st env known))"
  by (cases content; cases is_file)
    (simp_all add: load_catalog_def validate_document_accepted accepted_Nil new_result_jobs)

section \<open>Nothing is dropped silently\<close>

lemma load_jobs_errors: "lr_errors (load_jobs lib st env known d i raws r) = [] \<Longrightarrow> lr_errors r = []"
proof (induction raws arbitrary: i r)
  case (Cons raw raws)
  from Cons.prems have "lr_errors (load_jobs lib st env known d (Suc i) raws (load_job lib st env known d i raw r)) = []"
    by simp
  then have "lr_errors (load_job lib st env known d i raw r) = []" by (rule Cons.IH)
  then show ?case by (cases rule: load_job_cases [of lib d raw st env known i r]) simp_all
qed simp

lemma load_jobs_all:
  assumes "reports_errors lib"
  shows "lr_errors (load_jobs lib st env known d i raws r) = [] \<Longrightarrow>
    \<exists>js. lr_jobs (load_jobs lib st env known d i raws r) = lr_jobs r @ js \<and> list_all2 (merged_job lib d) raws js"
proof (induction raws arbitrary: i r)
  case (Cons raw raws)
  let ?r = "load_job lib st env known d i raw r"
  have step: "load_jobs lib st env known d i (raw # raws) r = load_jobs lib st env known d (Suc i) raws ?r" by simp
  note prems = Cons.prems [unfolded step]
  from Cons.IH [OF prems] obtain js where
    js: "lr_jobs (load_jobs lib st env known d (Suc i) raws ?r) = lr_jobs ?r @ js" "list_all2 (merged_job lib d) raws js"
    by blast
  from prems have "lr_errors ?r = []" by (rule load_jobs_errors)
  with assms obtain j where "merged_job lib d raw j" "lr_jobs (load_job lib st env known d i raw r) = lr_jobs r @ [j]"
    by (cases rule: load_job_cases [of lib d raw st env known i r]) auto
  with js show ?case unfolding step by (intro exI [of _ "j # js"]) simp
qed simp

lemma finish_jobs_ok: "lr_errors (finish_jobs st r) = [] \<Longrightarrow> lr_errors r = [] \<and> lr_jobs (finish_jobs st r) = lr_jobs r"
  by (auto simp: finish_jobs_def Let_def split: if_splits)

text \<open>A load without errors lost nothing: as long as the validation library reports at least one
  error for what it refuses, a catalog that loads without an issue returns one job for every entry of
  \<open>jobs\<close>, in the order of the file, each the validated merge of the entry over the supported
  sections of \<open>defaults\<close>.\<close>
theorem clean_load_keeps_every_job:
  assumes "reports_errors lib" and "cg_yaml lib raw = Inr (JObj document)"
    and "obj_get document ''jobs'' = JList raws" and "obj_get document ''defaults'' = JObj defaults"
    and "load_ok (validate_document lib (new_result path now) raw st env known)"
  shows "list_all2 (merged_job lib defaults) raws
    (lr_jobs (validate_document lib (new_result path now) raw st env known))"
proof -
  define r where "r = (new_result path now)\<lparr>lr_checksum := Some (cg_sha256 lib raw)\<rparr>"
  have j: "(if falsy (JList raws) then JList [] else JList raws) = JList raws" by simp
  have doc: "validate_document lib (new_result path now) raw st env known =
      (if \<not> version_one (obj_get document ''version'')
       then add_error (issue None ''version'' (''unsupported catalog version '' @
         cg_repr lib (obj_get document ''version'') @ ''; expected 1'')) r
       else validate_jobs lib st env known document defaults r)"
    unfolding validate_document_def Let_def r_def [symmetric] by (cases "defaults = []") (simp_all add: assms(2,4))
  with assms(5) have v: "validate_document lib (new_result path now) raw st env known =
      validate_jobs lib st env known document defaults r"
    by (auto simp: load_ok_def add_error_def split: if_splits)
  define r0 where "r0 = (if filter (\<lambda>k. k \<notin> set DEFAULTS_SECTIONS) (map fst defaults) = [] then r
    else add_error (issue None ''defaults'' (''unsupported defaults sections: '' @
      py_join '', '' (sort_strings (filter (\<lambda>k. k \<notin> set DEFAULTS_SECTIONS) (map fst defaults))))) r)"
  have vj: "validate_jobs lib st env known document defaults r =
      finish_jobs st (load_jobs lib st env known defaults 0 raws r0)"
    unfolding validate_jobs_def Let_def r0_def [symmetric] assms(3) j by simp
  have jobs: "lr_jobs r0 = []" by (simp add: r0_def r_def new_result_def)
  from assms(5) have "lr_errors (finish_jobs st (load_jobs lib st env known defaults 0 raws r0)) = []"
    by (simp add: load_ok_def v vj)
  note fin = finish_jobs_ok [OF this]
  from load_jobs_all [OF assms(1) conjunct1 [OF fin]] fin jobs show ?thesis unfolding v vj by auto
qed

section \<open>Defaults fill in, jobs win\<close>

fun wf_json :: "jval \<Rightarrow> bool" where
  "wf_json (JObj kvs) = (distinct (map fst kvs) \<and> list_all (\<lambda>(k, v). wf_json v) kvs)"
| "wf_json (JList xs) = list_all wf_json xs"
| "wf_json v = True"

text \<open>The value at a path of keys, and the paths that \<open>override\<close> leaves to the base.\<close>

fun path_get :: "jval \<Rightarrow> string list \<Rightarrow> jval option" where
  "path_get v [] = Some v"
| "path_get (JObj kvs) (k # p) = (case map_of kvs k of None \<Rightarrow> None | Some v \<Rightarrow> path_get v p)"
| "path_get v (k # p) = None"

fun untouched :: "jval \<Rightarrow> string list \<Rightarrow> bool" where
  "untouched (JObj kvs) (k # p) = (case map_of kvs k of None \<Rightarrow> True | Some v \<Rightarrow> untouched v p)"
| "untouched v p = False"

fun is_obj :: "jval \<Rightarrow> bool" where
  "is_obj (JObj kvs) = True"
| "is_obj v = False"

lemma map_of_obj_set: "map_of (obj_set k v kvs) = (map_of kvs)(k \<mapsto> v)"
  by (induction k v kvs rule: obj_set.induct) auto

definition merged_value :: "jval \<Rightarrow> jval option \<Rightarrow> jval" where
  "merged_value v old =
     (case (v, old) of (JObj o', Some (JObj b)) \<Rightarrow> JObj (deep_merge b o') | _ \<Rightarrow> v)"

lemma deep_merge_lookup:
  "distinct (map fst ov) \<Longrightarrow>
   map_of (deep_merge b ov) k = (case map_of ov k of None \<Rightarrow> map_of b k | Some v \<Rightarrow> Some (merged_value v (map_of b k)))"
proof (induction ov arbitrary: b)
  case (Cons kv ov)
  obtain l v where kv: "kv = (l, v)" by fastforce
  have "deep_merge b (kv # ov) = deep_merge (obj_set l (merged_value v (map_of b l)) b) ov"
    by (simp add: kv merged_value_def)
  moreover have "map_of ov l = None" using Cons.prems by (simp add: kv map_of_eq_None_iff)
  ultimately show ?case using Cons by (cases "k = l"; cases "map_of ov k") (simp_all add: kv map_of_obj_set)
qed simp

lemma untouched_path: "untouched v p \<Longrightarrow> path_get v p = None \<and> p \<noteq> []"
  by (induction v p rule: untouched.induct) (auto split: option.splits)

lemma path_get_leaf: "\<not> is_obj v \<Longrightarrow> p \<noteq> [] \<Longrightarrow> path_get v p = None"
  by (cases v; cases p) auto

lemma merged_value_objs: "merged_value (JObj ov) (Some (JObj b)) = JObj (deep_merge b ov)"
  by (simp add: merged_value_def)

lemma merged_value_other: "\<not> (is_obj v \<and> old \<noteq> None \<and> is_obj (the old)) \<Longrightarrow> merged_value v old = v"
  by (auto simp: merged_value_def split: jval.split option.split)

lemma is_objE: "is_obj v \<Longrightarrow> (\<And>kvs. v = JObj kvs \<Longrightarrow> P) \<Longrightarrow> P"
  by (cases v) auto

lemma path_get_merged:
  "wf_json v \<Longrightarrow> (path_get v p = Some x \<and> \<not> is_obj x \<longrightarrow> path_get (merged_value v old) p = Some x) \<and>
     (untouched v p \<longrightarrow> path_get (merged_value v old) p = (case old of None \<Rightarrow> None | Some b \<Rightarrow> path_get b p))"
proof (induction p arbitrary: v old)
  case Nil
  have "\<not> untouched v []" by (cases v) simp_all
  moreover have "\<not> is_obj v \<Longrightarrow> merged_value v old = v" by (simp add: merged_value_other)
  ultimately show ?case by auto
next
  case (Cons k p)
  show ?case
  proof (cases "is_obj v \<and> old \<noteq> None \<and> is_obj (the old)")
    case True
    then obtain ov b where vb: "v = JObj ov" "old = Some (JObj b)" by (auto elim!: is_objE)
    have look: "map_of (deep_merge b ov) k =
        (case map_of ov k of None \<Rightarrow> map_of b k | Some w \<Rightarrow> Some (merged_value w (map_of b k)))"
      using Cons.prems deep_merge_lookup by (simp add: vb)
    show ?thesis
    proof (cases "map_of ov k")
      case None
      then show ?thesis by (simp add: vb look merged_value_objs)
    next
      case (Some w)
      then have "(k, w) \<in> set ov" by (rule map_of_SomeD)
      with Cons.prems have "wf_json w" by (auto simp: vb list_all_iff)
      from Cons.IH [OF this, of "map_of b k"] show ?thesis by (simp add: vb look Some merged_value_objs)
    qed
  next
    case False
    then have m: "merged_value v old = v" by (rule merged_value_other)
    have "path_get v (k # p) = None \<and> (case old of None \<Rightarrow> None | Some b \<Rightarrow> path_get b (k # p)) = None"
      if u: "untouched v (k # p)"
    proof -
      have "is_obj v" using u by (cases v) simp_all
      with False have "old = None \<or> \<not> is_obj (the old)" by blast
      then show ?thesis using untouched_path [OF u] path_get_leaf [of "the old" "k # p"] by (cases old) auto
    qed
    then show ?thesis unfolding m by simp
  qed
qed

text \<open>Defaults fill in and jobs win, at every depth: a value the job gives at some path of keys is
  the value of the merged job there, and where the job says nothing along a path the merged job has
  what the defaults have, whatever either of them holds next to it.\<close>
theorem deep_merge_paths:
  assumes "wf_json (JObj override)"
  shows "(path_get (JObj override) p = Some x \<and> \<not> is_obj x \<longrightarrow>
      path_get (JObj (deep_merge base override)) p = Some x) \<and>
    (untouched (JObj override) p \<longrightarrow>
      path_get (JObj (deep_merge base override)) p = path_get (JObj base) p)"
  using path_get_merged [OF assms, of p x "Some (JObj base)"] by (simp add: merged_value_objs)

theorem deep_merge_paths_witness:
  "let base = [(''chunking'', JObj [(''words'', JInt 100), (''overlap'', JInt 5)])];
       override = [(''chunking'', JObj [(''words'', JInt 7)])]
   in path_get (JObj (deep_merge base override)) [''chunking'', ''words''] = Some (JInt 7) \<and>
      path_get (JObj (deep_merge base override)) [''chunking'', ''overlap''] = Some (JInt 5)"
  unfolding Let_def
  using deep_merge_paths [of "[(''chunking'', JObj [(''words'', JInt 7)])]" "[''chunking'', ''words'']" "JInt 7"
      "[(''chunking'', JObj [(''words'', JInt 100), (''overlap'', JInt 5)])]"]
    deep_merge_paths [of "[(''chunking'', JObj [(''words'', JInt 7)])]" "[''chunking'', ''overlap'']" JNull
      "[(''chunking'', JObj [(''words'', JInt 100), (''overlap'', JInt 5)])]"]
  by simp

section \<open>Local sources stay under the mount\<close>

lemma split_char_ne [simp]: "split_char c s \<noteq> []"
  by (induction s) (auto split: list.split)

lemma split_char_append: "split_char c (a @ c # b) = split_char c a @ split_char c b"
proof (induction a)
  case (Cons d a)
  then show ?case by (cases "split_char c a") simp_all
qed simp

lemma split_char_free: "c \<notin> set a \<Longrightarrow> split_char c a = [a]"
  by (induction a) auto

lemma split_char_elem: "x \<in> set (split_char c s) \<Longrightarrow> c \<notin> set x \<and> set x \<subseteq> set s"
proof (induction s arbitrary: x)
  case (Cons d s)
  obtain p ps where s: "split_char c s = p # ps" using split_char_ne [of c s] by (cases "split_char c s") blast+
  have p: "c \<notin> set p \<and> set p \<subseteq> set s" using Cons.IH [of p] by (simp add: s)
  have ps: "y \<in> set ps \<Longrightarrow> c \<notin> set y \<and> set y \<subseteq> set s" for y using Cons.IH [of y] by (simp add: s)
  show ?case
  proof (cases "d = c")
    case True
    with Cons.prems Cons.IH show ?thesis by auto
  next
    case False
    with Cons.prems consider "x = d # p" | "x \<in> set ps" by (auto simp: s)
    then show ?thesis using False p ps by cases auto
  qed
qed simp

lemma split_char_join: "xs \<noteq> [] \<Longrightarrow> (\<And>x. x \<in> set xs \<Longrightarrow> c \<notin> set x) \<Longrightarrow> split_char c (py_join [c] xs) = xs"
  by (induction "[c]" xs rule: py_join.induct) (auto simp: split_char_append split_char_free)

definition parts :: "string \<Rightarrow> string list" where
  "parts s = filter (\<lambda>x. x \<noteq> []) (split_char (CHR ''/'') s)"

lemma parts_append: "parts (a @ CHR ''/'' # b) = parts a @ parts b"
  by (simp add: parts_def split_char_append)

lemma parts_rstrip: "parts (rstrip_char (CHR ''/'') s) = parts s"
proof (induction s rule: rev_induct)
  case (snoc c s)
  show ?case
  proof (cases "c = CHR ''/''")
    case True
    have "parts (s @ [CHR ''/'']) = parts s" using parts_append [of s "[]"] by (simp add: parts_def)
    with snoc True show ?thesis by (simp add: rstrip_char_def)
  qed (simp add: rstrip_char_def)
qed (simp add: rstrip_char_def)

lemma parts_slashes: "parts (replicate n (CHR ''/'') @ s) = parts s"
  by (induction n) (simp_all add: parts_def)

text \<open>The components of an absolute path, with \<open>.\<close> and \<open>..\<close> resolved.\<close>

abbreviation comps :: "string \<Rightarrow> string list" where
  "comps p \<equiv> norm_comps True [] (split_char (CHR ''/'') p)"

definition plain_comp :: "string set \<Rightarrow> string \<Rightarrow> bool" where
  "plain_comp A x \<longleftrightarrow> x \<in> A \<and> x \<noteq> [] \<and> x \<noteq> ''.'' \<and> x \<noteq> ''..''"

lemma norm_comps_abs:
  "list_all (plain_comp A) acc \<Longrightarrow> set cs \<subseteq> A \<Longrightarrow> list_all (plain_comp A) (norm_comps True acc cs)"
proof (induction cs arbitrary: acc)
  case (Cons c cs)
  have up: "\<not> (acc \<noteq> [] \<and> hd acc = ''..'')" using Cons.prems(1) by (cases acc) (auto simp: plain_comp_def)
  have tl: "list_all (plain_comp A) (tl acc)" using Cons.prems(1) by (cases acc) simp_all
  have cs: "set cs \<subseteq> A" using Cons.prems(2) by simp
  consider (skip) "c = [] \<or> c = ''.''" | (push) "c \<noteq> []" "c \<noteq> ''.''" "c \<noteq> ''..''" | (pop) "c = ''..''" by blast
  then show ?case
  proof cases
    case skip
    then show ?thesis using Cons.IH [OF Cons.prems(1) cs] by auto
  next
    case push
    moreover have "c \<in> A" using Cons.prems(2) by simp
    ultimately have "plain_comp A c" by (simp add: plain_comp_def)
    then have "list_all (plain_comp A) (c # acc)" using Cons.prems(1) by simp
    from Cons.IH [OF this cs] push show ?thesis by simp
  next
    case pop
    from Cons.IH [OF tl cs] pop up show ?thesis by auto
  qed
qed simp

lemma comps_elem:
  assumes "x \<in> set (comps p)"
  shows "x \<noteq> [] \<and> x \<noteq> ''..'' \<and> CHR ''/'' \<notin> set x \<and> set x \<subseteq> set p"
proof -
  have "list_all (plain_comp (set (split_char (CHR ''/'') p))) (comps p)" by (rule norm_comps_abs) simp_all
  with assms have "plain_comp (set (split_char (CHR ''/'') p)) x" by (simp add: list_all_iff)
  then show ?thesis using split_char_elem unfolding plain_comp_def by blast
qed

lemma parts_join_comps: "parts (py_join ''/'' (comps p)) = comps p"
proof (cases "comps p = []")
  case False
  then have "split_char (CHR ''/'') (py_join ''/'' (comps p)) = comps p"
    using comps_elem by (intro split_char_join) blast+
  then show ?thesis using comps_elem by (auto simp: parts_def intro!: filter_True)
qed (simp add: parts_def)

lemma set_py_join: "set (py_join sep xs) \<subseteq> set sep \<union> \<Union> (set ` set xs)"
  by (induction sep xs rule: py_join.induct) auto

lemma replace_char_none: "c \<notin> set s \<Longrightarrow> replace_char c r s = s"
  by (induction s) (auto simp: replace_char_def)

lemma replace_char_one: "replace_char c [r] s = map (\<lambda>d. if d = c then r else d) s"
  by (induction s) (auto simp: replace_char_def)

lemma normpath_join:
  "starts_with ''/'' p \<Longrightarrow>
     normpath p = replicate (initial_slashes p) (CHR ''/'') @ py_join ''/'' (comps p)"
  by (auto simp: normpath_def Let_def initial_slashes_def starts_with_def)

lemma normpath_parts: "starts_with ''/'' p \<Longrightarrow> parts (normpath p) = comps p"
  by (simp add: normpath_join parts_slashes parts_join_comps)

lemma normpath_plain:
  assumes "starts_with ''/'' p" and "BACKSLASH \<notin> set p"
  shows "replace_char BACKSLASH ''/'' (normpath p) = normpath p"
proof (rule replace_char_none)
  show "BACKSLASH \<notin> set (normpath p)"
    using set_py_join [of "''/''" "comps p"] comps_elem [of _ p] assms(2)
    by (fastforce simp: normpath_join [OF assms(1)] BACKSLASH_def)
qed

text \<open>The mount, as the check writes it: normalised, without a slash at the end.\<close>

abbreviation mount_text :: "settings \<Rightarrow> string" where
  "mount_text st \<equiv> rstrip_char (CHR ''/'') (normpath (set_local_dir st))"

text \<open>A text that begins with the mount once its backslashes are read as slashes begins with it as it
  stands, where no backslash is among the characters compared.\<close>

lemma plain_prefix:
  assumes "replace_char BACKSLASH ''/'' s = m @ x" and "BACKSLASH \<notin> set (take (length m) s)"
  obtains y where "s = m @ y"
proof -
  let ?f = "\<lambda>d. if d = BACKSLASH then CHR ''/'' else d"
  have "map ?f s = m @ x" using assms(1) by (simp add: replace_char_one)
  then have "map ?f (take (length m) s) = m" by (metis append_eq_conv_conj take_map)
  moreover have "map ?f (take (length m) s) = take (length m) s"
    using assms(2) by (intro map_idI) auto
  ultimately have "s = m @ drop (length m) s" by (metis append_take_drop_id)
  then show thesis by (rule that)
qed

text \<open>C27: A local source that the check accepts lies under the mount, unless a backslash stands where
  the name of the mount is compared. Let the mount be an absolute path without a backslash, and the
  path of the job absolute. When the check reports nothing, then either resolving the \<open>.\<close> and \<open>..\<close> of
  the path gives the components of the mount followed by further names, none of them \<open>..\<close>, or the
  normalised path has a backslash among its first characters, as many as the mount and one slash
  have: the check reads a backslash as a slash, which it is not on the file system. A path that
  continues the last name of the mount (\<open>/data/localx\<close>) and one that climbs out
  (\<open>/data/local/../etc\<close>) are refused; backslashes below the mount do no harm.\<close>
theorem local_source_confined:
  assumes "src_kind (job_source j) = LocalSource p" and "validate_local_path j st = []"
    and "starts_with ''/'' p"
    and "starts_with ''/'' (set_local_dir st)" and "BACKSLASH \<notin> set (set_local_dir st)"
  shows "(\<exists>rest. comps p = comps (set_local_dir st) @ rest \<and> ''..'' \<notin> set rest) \<or>
    BACKSLASH \<in> set (take (length (mount_text st) + 1) (normpath p))"
proof (rule disjCI)
  assume plain: "BACKSLASH \<notin> set (take (length (mount_text st) + 1) (normpath p))"
  let ?norm = "replace_char BACKSLASH ''/'' (normpath p)"
  have m: "parts (mount_text st) = comps (set_local_dir st)"
    by (simp add: parts_rstrip normpath_parts [OF assms(4)])
  have n: "parts (normpath p) = comps p" by (rule normpath_parts [OF assms(3)])
  have "under_mount (mount_text st) ?norm"
    using assms(1,2) normpath_plain [OF assms(4,5)] by (simp add: validate_local_path_def Let_def split: if_splits)
  then consider "?norm = mount_text st" | x where "?norm = (mount_text st @ ''/'') @ x"
    by (auto simp: under_mount_def starts_with_split)
  then obtain rest where "comps p = comps (set_local_dir st) @ rest"
  proof cases
    case 1
    have "length ?norm = length (normpath p)" by (simp add: replace_char_one)
    with 1 plain have "?norm = normpath p" by (intro replace_char_none) simp
    with 1 m n that [of "[]"] show thesis by simp
  next
    case (2 x)
    from plain have "BACKSLASH \<notin> set (take (length (mount_text st @ ''/'')) (normpath p))" by simp
    from plain_prefix [OF 2 this] obtain y where "normpath p = (mount_text st @ ''/'') @ y" .
    then show thesis using m n that [of "parts y"] parts_append [of "mount_text st" y] by simp
  qed
  moreover from this have "''..'' \<notin> set rest" using comps_elem [of "''..''" p] by auto
  ultimately show "\<exists>rest. comps p = comps (set_local_dir st) @ rest \<and> ''..'' \<notin> set rest" by blast
qed

theorem local_source_confined_witness:
  "\<exists>rest. comps ''/data/local/./a/../b'' = comps ''/data/local'' @ rest \<and> ''..'' \<notin> set rest"
  using local_source_confined [of "sample_job\<lparr>job_source := (job_source sample_job)
      \<lparr>src_kind := LocalSource ''/data/local/./a/../b''\<rparr>\<rparr>" "''/data/local/./a/../b''" sample_settings]
  by (simp add: validate_local_path_def sample_settings_def starts_with_def normpath_def initial_slashes_def
      BACKSLASH_def replace_char_def rstrip_char_def under_mount_def)

text \<open>The exception is real: the path whose last name is the mount's, a backslash and more is a
  sibling of the mount on the file system, and the check accepts it.\<close>

lemma backslash_sibling_accepted:
  fixes p :: string
  defines "p \<equiv> ''/data/local'' @ [BACKSLASH] @ ''x''"
  shows "validate_local_path (sample_job\<lparr>job_source := (job_source sample_job)\<lparr>src_kind := LocalSource p\<rparr>\<rparr>)
      sample_settings = [] \<and>
    comps p = [''data'', ''local'' @ [BACKSLASH] @ ''x''] \<and> comps (set_local_dir sample_settings) = [''data'', ''local'']"
  by (simp add: p_def validate_local_path_def sample_settings_def starts_with_def normpath_def initial_slashes_def
      BACKSLASH_def replace_char_def rstrip_char_def under_mount_def)

section \<open>Witnesses, and one directory for two jobs\<close>

definition plain_lib :: "job list \<Rightarrow> catalog_lib" where
  "plain_lib js = \<lparr>cg_sha256 = id,
     cg_yaml = (\<lambda>raw. Inr (JObj [(''version'', JInt 1), (''defaults'', JObj []),
       (''jobs'', JList (map (\<lambda>j. JObj [(''id'', JStr (job_id j))]) js))])),
     cg_repr = (\<lambda>v. ''?''),
     cg_fields = (\<lambda>v. case v of
        JObj kvs \<Rightarrow> (case find (\<lambda>j. raw_job_id kvs = Some (job_id j)) js of
          Some j \<Rightarrow> Inr j | None \<Rightarrow> Inl [(''id'', ''unknown'')])
      | _ \<Rightarrow> Inl [([], ''not a mapping'')]),
     cg_validator_errors = (\<lambda>v. [([], ''invalid'')]), cg_cron_error = (\<lambda>c. None)\<rparr>"

lemma plain_lib_reports: "reports_errors (plain_lib js)"
  by (auto simp: reports_errors_def plain_lib_def split: jval.splits option.splits)

definition sample_remote :: "string \<Rightarrow> string \<Rightarrow> job" where
  "sample_remote jid collection =
     sample_job\<lparr>job_id := jid, job_target := (job_target sample_job)\<lparr>tgt_collection := collection\<rparr>,
       job_source := \<lparr>src_label = ''docs'', src_rclone_flags = [], src_kind = HttpSource ''http://x''\<rparr>\<rparr>"

theorem clean_load_keeps_every_job_witness:
  "let lib = plain_lib [sample_remote ''a'' ''kb''];
       r = validate_document lib (new_result [] []) [] sample_settings (plain_environ Map.empty) None
   in list_all2 (merged_job lib []) [JObj [(''id'', JStr ''a'')]] (lr_jobs r)"
proof -
  let ?lib = "plain_lib [sample_remote ''a'' ''kb'']"
  have ok: "load_ok (validate_document ?lib (new_result [] []) [] sample_settings (plain_environ Map.empty) None)"
    by code_simp
  show ?thesis
    unfolding Let_def
    by (rule clean_load_keeps_every_job [OF plain_lib_reports _ _ _ ok, where document = "[(''version'', JInt 1),
        (''defaults'', JObj []), (''jobs'', JList [JObj [(''id'', JStr ''a'')]])]"])
      (simp_all add: plain_lib_def obj_get_def sample_remote_def)
qed

text \<open>Unique labels per collection do not separate the local copies: two enabled remote jobs with
  one label and different collections load without an issue, and both sync into, and scan, the same
  directory \<open>cache_dir/label\<close>; a sync of one removes the other's files from it, which the other's
  next run then takes for deletions.\<close>
theorem same_label_shares_directory:
  "let js = [sample_remote ''a'' ''kb'', sample_remote ''b'' ''wiki''];
       r = validate_document (plain_lib js) (new_result [] []) [] sample_settings (plain_environ Map.empty) None
   in load_ok r \<and> lr_jobs r = js \<and> scan_root sample_settings (js ! 0) = scan_root sample_settings (js ! 1)"
  by code_simp

end
