(* ===== verification/Rclone.thy ===== *)
theory Rclone
  imports Catalog
begin

text \<open>
  The sync of a remote source through the rclone binary, \<open>src/src/sources/rclone.py\<close>: the
  configuration of a remote, the command line with its deletion limit, and the run of the
  subprocess. What the process and the file system do is the record \<open>rclone_env\<close>.
\<close>

section \<open>The configuration of a remote\<close>

text \<open>The file system and the processes: \<open>rc_run\<close> gets the argument vector, the text on standard
  input if any, and the timeout if any.\<close>

record proc =
  pr_returncode :: int
  pr_stdout :: string
  pr_stderr :: string

record 'w rclone_env =
  rc_fs :: "'w fs"
  rc_mkdir :: "string \<Rightarrow> ('w, unit) eff"
  rc_write_text :: "string \<Rightarrow> string \<Rightarrow> ('w, unit) eff"
  rc_chmod :: "string \<Rightarrow> nat \<Rightarrow> ('w, unit) eff"
  rc_monotonic :: "('w, rat) eff"
  rc_run :: "string list \<Rightarrow> string option \<Rightarrow> rat option \<Rightarrow> ('w, proc) eff"

definition CalledProcessError :: "int \<Rightarrow> exc" where
  "CalledProcessError rc =
     PyError ''CalledProcessError'' (''Command returned non-zero exit status '' @ str_of_int rc @ ''.'')"

definition obscure_with_binary :: "'w rclone_env \<Rightarrow> string \<Rightarrow> string \<Rightarrow> ('w, string) eff" where
  "obscure_with_binary env binary text =
     bindE (rc_run env [binary, ''obscure'', ''-''] (Some text) None) (\<lambda>p.
       if pr_returncode p \<noteq> 0 then raise (CalledProcessError (pr_returncode p))
       else ret (py_strip (pr_stdout p)))"

text \<open>\<open>s.replace("\r\n", "\n").replace("\n", "\\n")\<close>.\<close>

fun unix_newlines :: "string \<Rightarrow> string" where
  "unix_newlines (a # b # s) =
     (if a = CHR 0x0D \<and> b = NL then NL # unix_newlines s else a # unix_newlines (b # s))"
| "unix_newlines s = s"

definition single_line_pem :: "string \<Rightarrow> string" where
  "single_line_pem pem = replace_char NL [BACKSLASH, CHR ''n''] (unix_newlines (py_strip pem))"

text \<open>A field of a source is written when it is truthy; a secret is resolved when its line is built.\<close>

definition opt_line :: "string \<Rightarrow> string \<Rightarrow> string list" where
  "opt_line key s = (if s = [] then [] else [key @ '' = '' @ s])"

definition resolved :: "environ \<Rightarrow> string \<Rightarrow> ('w, string) eff" where
  "resolved env name = of_sum (resolve_secret name env)"

definition secret_line ::
  "environ \<Rightarrow> (string \<Rightarrow> ('w, string) eff) \<Rightarrow> string \<Rightarrow> string option \<Rightarrow> ('w, string list) eff" where
  "secret_line env convert key ref =
     (case or_else ref None of
        None \<Rightarrow> ret []
      | Some name \<Rightarrow> bindE (resolved env name) (\<lambda>v. bindE (convert v) (\<lambda>w. ret [key @ '' = '' @ w])))"

definition with_lines :: "string list \<Rightarrow> ('w, string list) eff \<Rightarrow> ('w, string list) eff" where
  "with_lines before m = bindE m (\<lambda>ls. ret (before @ ls))"

definition both_lines :: "('w, string list) eff \<Rightarrow> ('w, string list) eff \<Rightarrow> ('w, string list) eff" where
  "both_lines m k = bindE m (\<lambda>ls. bindE k (\<lambda>ms. ret (ls @ ms)))"

definition set_ref :: "string option \<Rightarrow> bool" where
  "set_ref ref \<longleftrightarrow> or_else ref None \<noteq> None"

fun remote_lines ::
  "environ \<Rightarrow> (string \<Rightarrow> ('w, string) eff) \<Rightarrow> source_kind \<Rightarrow> ('w, string list) eff" where
  "remote_lines env obscure (S3Source b pre pr reg ep a sk) =
     with_lines ([''type = s3'', ''provider = '' @ pr] @ opt_line ''region'' reg @ opt_line ''endpoint'' ep @
       (if set_ref a \<or> set_ref sk then [''env_auth = false''] else []))
       (both_lines (secret_line env ret ''access_key_id'' a) (secret_line env ret ''secret_access_key'' sk))"
| "remote_lines env obscure (WebdavSource url vendor user pw) =
     with_lines ([''type = webdav'', ''url = '' @ url, ''vendor = '' @ vendor] @ opt_line ''user'' user)
       (secret_line env obscure ''pass'' pw)"
| "remote_lines env obscure (SftpSource host port user pw key path) =
     with_lines ([''type = sftp'', ''host = '' @ host, ''port = '' @ str_of_int port] @ opt_line ''user'' user)
       (both_lines (secret_line env obscure ''pass'' pw)
         (secret_line env (\<lambda>v. ret (single_line_pem v)) ''key_pem'' key))"
| "remote_lines env obscure (SmbSource host share user pw path) =
     with_lines ([''type = smb'', ''host = '' @ host] @ opt_line ''user'' user) (secret_line env obscure ''pass'' pw)"
| "remote_lines env obscure (FtpSource host port user pw path tls) =
     with_lines ([''type = ftp'', ''host = '' @ host, ''port = '' @ str_of_int port] @ opt_line ''user'' user)
       (both_lines (secret_line env obscure ''pass'' pw) (ret (if tls then [''explicit_tls = true''] else [])))"
| "remote_lines env obscure (GdriveSource sa token folder) =
     with_lines [''type = drive'', ''scope = drive.readonly'']
       (both_lines (secret_line env (\<lambda>v. ret (py_join '' '' (py_split v))) ''service_account_credentials'' sa)
         (both_lines (secret_line env ret ''token'' token) (ret (opt_line ''root_folder_id'' folder))))"
| "remote_lines env obscure (AzureBlobSource account container key sas pre) =
     with_lines [''type = azureblob'', ''account = '' @ account]
       (both_lines (secret_line env ret ''key'' key) (secret_line env ret ''sas_url'' sas))"
| "remote_lines env obscure (HttpSource url) = ret [''type = http'', ''url = '' @ url]"
| "remote_lines env obscure (LocalSource p) =
     raise (PyError ''ValueError'' ''local sources have no rclone remote'')"

definition below :: "string \<Rightarrow> string \<Rightarrow> string" where
  "below share pre = (let p = strip_char (CHR ''/'') pre in share @ (if p = [] then [] else CHR ''/'' # p))"

fun remote_path :: "source_kind \<Rightarrow> string" where
  "remote_path (S3Source b pre pr reg ep a sk) = below b pre"
| "remote_path (WebdavSource url vendor user pw) = []"
| "remote_path (SftpSource host port user pw key path) = path"
| "remote_path (SmbSource host share user pw path) = below share path"
| "remote_path (FtpSource host port user pw path tls) = lstrip_char (CHR ''/'') path"
| "remote_path (GdriveSource sa token folder) = []"
| "remote_path (AzureBlobSource account container key sas pre) = below container pre"
| "remote_path (HttpSource url) = []"
| "remote_path (LocalSource p) = []"

definition build_remote_config ::
  "source \<Rightarrow> environ \<Rightarrow> (string \<Rightarrow> ('w, string) eff) \<Rightarrow> ('w, string \<times> string) eff" where
  "build_remote_config src env obscure =
     bindE (remote_lines env obscure (src_kind src)) (\<lambda>lines.
       ret (py_join [NL] ((CHR ''['' # src_label src @ '']'') # lines) @ [NL],
            src_label src @ '':'' @ remote_path (src_kind src)))"

section \<open>The command line\<close>

primrec count_entries :: "'w fs \<Rightarrow> (string \<times> string) list \<Rightarrow> ('w, nat) eff" where
  "count_entries fs [] = ret 0"
| "count_entries fs (e # es) =
     bindE (fs_is_file fs (fst e)) (\<lambda>b. bindE (count_entries fs es) (\<lambda>n. ret (if b then Suc n else n)))"

definition count_files :: "'w fs \<Rightarrow> string \<Rightarrow> ('w, nat) eff" where
  "count_files fs folder =
     bindE (fs_is_dir fs folder) (\<lambda>d. if \<not> d then ret 0 else bindE (fs_rglob fs folder) (count_entries fs))"

text \<open>A product of a float and an integer, as binary64 rounds it: 53 significant bits for a quotient
  of at least one, too.\<close>

definition float_quot :: "nat \<Rightarrow> nat \<Rightarrow> rat" where
  "float_quot a b =
     (if a < b then float_div a b
      else let e = norm_shift b (a div 2 + 1)
        in of_nat (round_half_even (a * 2 ^ 52) (b * 2 ^ e)) * 2 ^ e / 2 ^ 52)"

definition float_times :: "rat \<Rightarrow> nat \<Rightarrow> rat" where
  "float_times q n = (case quotient_of q of (p, d) \<Rightarrow> float_quot (nat p * n) (nat d))"

definition max_delete :: "rat \<Rightarrow> nat \<Rightarrow> int" where
  "max_delete ratio existing = max 1 (ceiling (float_times ratio existing))"

definition build_sync_command ::
  "string \<Rightarrow> string \<Rightarrow> string \<Rightarrow> string \<Rightarrow> job \<Rightarrow> nat \<Rightarrow> string list" where
  "build_sync_command binary conf_path remote dest j existing =
     [binary, ''--config'', conf_path, ''sync'', remote, dest, ''--transfers'', ''4'', ''--checkers'', ''4''] @
     rclone_filter_args (job_filters j) @
     (if 0 < existing then [''--max-delete'', str_of_int (max_delete (saf_max_delete_ratio (job_safety j)) existing)] else []) @
     src_rclone_flags (job_source j)"

section \<open>The sync\<close>

definition parent_dir :: "string \<Rightarrow> string" where
  "parent_dir p = rev (tl (dropWhile (\<lambda>c. c \<noteq> CHR ''/'') (rev p)))"

definition STDERR_TAIL_CHARS :: nat where
  "STDERR_TAIL_CHARS = 4000"

text \<open>\<open>f"{x:.0f}"\<close> of a non-negative number.\<close>

definition fixed0 :: "rat \<Rightarrow> string" where
  "fixed0 x = (case quotient_of x of (p, d) \<Rightarrow> str_of_nat (round_half_even (nat p) (nat d)))"

definition failed_sync :: "'w rclone_env \<Rightarrow> rat \<Rightarrow> string \<Rightarrow> ('w, sync_result) eff" where
  "failed_sync env started m =
     bindE (rc_monotonic env) (\<lambda>now. ret \<lparr>sy_ok = False, sy_returncode = -1, sy_stderr_tail = m,
       sy_duration_seconds = now - started, sy_skipped = False\<rparr>)"

definition execute_sync ::
  "'w rclone_env \<Rightarrow> string \<Rightarrow> string \<Rightarrow> string \<Rightarrow> string \<Rightarrow> string \<Rightarrow> job \<Rightarrow> rat \<Rightarrow> ('w, sync_result) eff" where
  "execute_sync env binary conf_text conf_path remote dest j timeout =
     seqE (rc_mkdir env (parent_dir conf_path))
    (seqE (rc_write_text env conf_path conf_text)
    (seqE (catchE (rc_chmod env conf_path 384) (\<lambda>e. if exc_name e = ''OSError'' then ret () else raise e))
    (seqE (rc_mkdir env dest)
    (bindE (count_files (rc_fs env) dest) (\<lambda>existing.
     bindE (rc_monotonic env) (\<lambda>started.
       bindE (catchE
        (bindE (rc_run env (build_sync_command binary conf_path remote dest j existing) None (Some timeout)) (\<lambda>p. ret (Inr p)))
        (\<lambda>e. if exc_name e = ''FileNotFoundError''
             then bindE (failed_sync env started (''rclone binary not found: '' @ binary)) (\<lambda>r. ret (Inl r))
             else if exc_name e = ''TimeoutExpired''
             then bindE (failed_sync env started (''rclone sync timed out after '' @ fixed0 timeout @ ''s'')) (\<lambda>r. ret (Inl r))
             else raise e)) (\<lambda>outcome.
       case outcome of
         Inl r \<Rightarrow> ret r
       | Inr p \<Rightarrow> bindE (rc_monotonic env) (\<lambda>now.
           ret \<lparr>sy_ok = (pr_returncode p = 0), sy_returncode = pr_returncode p,
             sy_stderr_tail = drop (length (pr_stderr p) - STDERR_TAIL_CHARS) (pr_stderr p),
             sy_duration_seconds = now - started, sy_skipped = False\<rparr>))))))))"

definition sync_job ::
  "'w rclone_env \<Rightarrow> string \<Rightarrow> rat \<Rightarrow> environ \<Rightarrow> job \<Rightarrow> settings \<Rightarrow> ('w, sync_result) eff" where
  "sync_job env binary timeout environ j st =
     (if is_local j
      then ret \<lparr>sy_ok = True, sy_returncode = 0, sy_stderr_tail = [], sy_duration_seconds = 0, sy_skipped = True\<rparr>
      else bindE (build_remote_config (job_source j) environ (obscure_with_binary env binary)) (\<lambda>(conf_text, remote).
        execute_sync env binary conf_text (path_join (set_state_dir st) (''rclone-'' @ job_id j @ ''.conf'')) remote
          (path_join (set_cache_dir st) (job_label j)) j timeout))"

section \<open>The deletion limit\<close>

lemma norm_shift_least: "0 < a \<Longrightarrow> norm_shift a b = Suc k \<Longrightarrow> a * 2 ^ k < b"
proof (induction a b arbitrary: k rule: norm_shift.induct)
  case (1 a b)
  have ab: "\<not> (a = 0 \<or> b \<le> a)" using "1.prems" by (metis norm_shift.simps nat.distinct(1))
  then have k: "norm_shift (2 * a) b = k" using "1.prems"(2) by (subst (asm) norm_shift.simps) simp
  show ?case
  proof (cases k)
    case 0
    with ab show ?thesis by simp
  next
    case (Suc l)
    with "1.IH" [OF ab] k ab show ?thesis by simp
  qed
qed

lemma norm_shift_below:
  assumes "0 < b" and "b \<le> a"
  shows "b * 2 ^ norm_shift b (a div 2 + 1) \<le> a"
proof (cases "norm_shift b (a div 2 + 1)")
  case (Suc k)
  from norm_shift_least [OF assms(1) this] have "b * 2 ^ k \<le> a div 2" by simp
  then have "b * 2 ^ Suc k \<le> a" by simp
  then show ?thesis by (simp only: Suc)
qed (simp add: assms(2))

lemma float_quot_error:
  assumes "0 < b"
  shows "\<bar>float_quot a b - of_nat a / of_nat b\<bar> \<le> of_nat a / of_nat b / 2 ^ 53"
proof (cases "a < b")
  case True
  then show ?thesis using float_div_error [OF assms] by (simp add: float_quot_def)
next
  case False
  define e where "e = norm_shift b (a div 2 + 1)"
  have b: "(0::rat) < of_nat b" using assms by simp
  have "b * 2 ^ e \<le> a" unfolding e_def using False assms by (intro norm_shift_below) simp_all
  then have "(of_nat b * 2 ^ e :: rat) \<le> of_nat a"
    by (metis of_nat_le_iff of_nat_mult of_nat_numeral of_nat_power)
  then have q: "(2 ^ e :: rat) \<le> of_nat a / of_nat b" using b by (simp add: le_divide_eq mult.commute)
  have f: "float_quot a b = of_nat (round_half_even (a * 2 ^ 52) (b * 2 ^ e)) * (2 ^ e / 2 ^ 52)"
    using False by (simp only: float_quot_def Let_def e_def if_False times_divide_eq_right)
  have s: "(of_nat a / of_nat b :: rat) = of_nat (a * 2 ^ 52) / of_nat (b * 2 ^ e) * (2 ^ e / 2 ^ 52)" by simp
  have "\<bar>float_quot a b - of_nat a / of_nat b\<bar> =
      \<bar>of_nat (round_half_even (a * 2 ^ 52) (b * 2 ^ e)) - of_nat (a * 2 ^ 52) / of_nat (b * 2 ^ e)\<bar> * (2 ^ e / 2 ^ 52 :: rat)"
    unfolding f by (subst s) (simp only: left_diff_distrib [symmetric] abs_mult abs_divide power_abs abs_numeral)
  also have "\<dots> \<le> (1 / 2 :: rat) * (2 ^ e / 2 ^ 52)"
    using assms by (intro mult_right_mono round_half_even_error) simp_all
  also have "\<dots> = 2 ^ e / 2 ^ 53" by simp
  also have "\<dots> \<le> of_nat a / of_nat b / 2 ^ 53" using q by (rule divide_right_mono) simp
  finally show ?thesis .
qed

lemma float_times_error:
  assumes "0 \<le> q"
  shows "\<bar>float_times q n - q * of_nat n\<bar> \<le> q * of_nat n / 2 ^ 53"
proof -
  obtain p d where pd: "quotient_of q = (p, d)" by fastforce
  have d: "0 < d" by (rule quotient_of_denom_pos [OF pd])
  have q: "q = of_int p / of_int d" by (rule quotient_of_div [OF pd])
  have p: "0 \<le> p" using assms d by (simp add: q zero_le_divide_iff)
  have "of_nat (nat p * n) / of_nat (nat d) = q * of_nat n" using p d by (simp add: q)
  with float_quot_error [of "nat d" "nat p * n"] d show ?thesis by (simp add: float_times_def pd)
qed

text \<open>The limit handed to rclone is the configured share of the files there are, rounded up: for a
  non-empty cache it is at least one, at least \<open>max_delete_ratio\<close> times the count and less than one
  file above it (or exactly one), up to the rounding of one float product, one part in \<open>2 ^ 53\<close>.\<close>
theorem max_delete_share:
  assumes "0 \<le> ratio"
  shows "1 \<le> max_delete ratio n \<and> ratio * of_nat n * (1 - 1 / 2 ^ 53) \<le> of_int (max_delete ratio n) \<and>
    (max_delete ratio n = 1 \<or> of_int (max_delete ratio n) < ratio * of_nat n * (1 + 1 / 2 ^ 53) + 1)"
proof -
  let ?x = "float_times ratio n" and ?y = "ratio * of_nat n"
  define z where "z = ?y / 2 ^ 53"
  have "\<bar>?x - ?y\<bar> \<le> z" using float_times_error [OF assms, of n] by (simp only: z_def)
  then have e: "?y - z \<le> ?x" "?x \<le> ?y + z" by linarith+
  have c: "?x \<le> of_int (ceiling ?x)" "of_int (ceiling ?x) < ?x + 1" by (rule le_of_int_ceiling) linarith
  have lo: "?y * (1 - 1 / 2 ^ 53) = ?y - z" and hi: "?y * (1 + 1 / 2 ^ 53) = ?y + z"
    by (simp_all add: z_def algebra_simps)
  have m: "of_int (ceiling ?x) \<le> (of_int (max_delete ratio n) :: rat)" by (simp add: max_delete_def)
  show ?thesis
  proof (intro conjI)
    show "1 \<le> max_delete ratio n" by (simp add: max_delete_def)
    show "?y * (1 - 1 / 2 ^ 53) \<le> of_int (max_delete ratio n)" unfolding lo using e(1) c(1) m by linarith
    show "max_delete ratio n = 1 \<or> of_int (max_delete ratio n) < ?y * (1 + 1 / 2 ^ 53) + 1"
    proof (cases "ceiling ?x \<le> 1")
      case False
      then have "max_delete ratio n = ceiling ?x" by (simp add: max_delete_def)
      then show ?thesis unfolding hi using e(2) c(2) by simp
    qed (simp add: max_delete_def)
  qed
qed

theorem max_delete_share_witness:
  "1 \<le> max_delete (1 / 4) 10 \<and> (1 / 4) * of_nat 10 * (1 - 1 / 2 ^ 53) \<le> (of_int (max_delete (1 / 4) 10) :: rat) \<and>
   (max_delete (1 / 4) 10 = 1 \<or> of_int (max_delete (1 / 4) 10) < (1 / 4) * of_nat 10 * (1 + 1 / 2 ^ 53) + (1 :: rat))"
  by (rule max_delete_share) simp

section \<open>Credentials stay off the command line\<close>

text \<open>Where the arguments of a process come from: the remote and the command line are functions of
  the job, the settings and the files on disk.\<close>

lemma build_remote_config_remote:
  "build_remote_config src env obscure w = (Inr (text, remote), w') \<Longrightarrow>
   remote = src_label src @ '':'' @ remote_path (src_kind src)"
  by (auto simp: build_remote_config_def eff_InrE)

end
