(* ===== verification/Connections.thy ===== *)
theory Connections
  imports Catalog
begin

text \<open>
  \<open>src/src/connections/\<close>: the schema of a connection, the loading of \<open>connections.yaml\<close> with the
  decryption of api-keys, and the registry with its cache of writers. The token format is in the
  theory Secrets.
\<close>

section \<open>The schema\<close>

record connection_config =
  cc_name :: string
  cc_url :: string
  cc_api_key :: "string option"

definition http_scheme :: "string \<Rightarrow> bool" where
  "http_scheme url \<longleftrightarrow> starts_with ''http://'' url \<or> starts_with ''https://'' url"

text \<open>The validator of the api-key: None, the normalised value, or a refusal.\<close>

definition encrypted_only :: "string option \<Rightarrow> string option option" where
  "encrypted_only key =
     (case or_else key None of
        None \<Rightarrow> Some None
      | Some k \<Rightarrow> if starts_with ENC_PREFIX k then Some (Some k) else None)"

section \<open>Loading\<close>

record resolved_connection =
  rv_name :: string
  rv_url :: string
  rv_api_key :: "string option"

record connections_result =
  cr_path :: string
  cr_connections :: "resolved_connection list"
  cr_errors :: "catalog_issue list"
  cr_checksum :: "string option"
  cr_loaded_at :: string

text \<open>\<open>ConnectionIssue\<close> has the fields of a catalog issue, with the connection's name for the job id.\<close>

record connections_lib =
  cx_crypto :: crypto_lib
  cx_sha256 :: "string \<Rightarrow> string"
  cx_yaml :: "string \<Rightarrow> string + jval"
  cx_repr :: "jval \<Rightarrow> string"
  cx_fields :: "jval \<Rightarrow> (string \<times> string) list + connection_config"
  cx_validator_errors :: "jval \<Rightarrow> (string \<times> string) list"

definition connection_validate :: "connections_lib \<Rightarrow> jval \<Rightarrow> (string \<times> string) list + connection_config" where
  "connection_validate lib v =
     (case cx_fields lib v of
        Inl errors \<Rightarrow> Inl errors
      | Inr c \<Rightarrow>
          (case encrypted_only (cc_api_key c) of
             None \<Rightarrow> Inl (cx_validator_errors lib v)
           | Some key \<Rightarrow>
               if is_slug (cc_name c) \<and> cc_url c \<noteq> [] \<and> http_scheme (cc_url c) then Inr (c\<lparr>cc_api_key := key\<rparr>)
               else Inl (cx_validator_errors lib v)))"

definition cr_ok :: "connections_result \<Rightarrow> bool" where
  "cr_ok r \<longleftrightarrow> cr_errors r = []"

definition error_summary :: "connections_result \<Rightarrow> string option" where
  "error_summary r =
     (case cr_errors r of
        [] \<Rightarrow> None
      | first # others \<Rightarrow>
          Some ((case or_else (ci_job_id first) None of Some n \<Rightarrow> ''connection '' @ quoted n @ '': '' | None \<Rightarrow> []) @
            ci_field first @ '': '' @ ci_message first @
            (if others \<noteq> [] then '' (+'' @ str_of_nat (length others) @ '' more)'' else [])))"

definition cr_names :: "connections_result \<Rightarrow> string list" where
  "cr_names r = map rv_name (cr_connections r)"

definition cr_add_error :: "catalog_issue \<Rightarrow> connections_result \<Rightarrow> connections_result" where
  "cr_add_error e r = r\<lparr>cr_errors := cr_errors r @ [e]\<rparr>"

definition connection_index_name :: "nat \<Rightarrow> string" where
  "connection_index_name i = ''connections['' @ str_of_nat i @ '']''"

definition raw_name :: "(string \<times> jval) list \<Rightarrow> string option" where
  "raw_name raw = (case obj_get raw ''name'' of JStr s \<Rightarrow> Some s | _ \<Rightarrow> None)"

text \<open>One entry of the loop, with the set of names seen so far.\<close>

definition load_connection ::
  "connections_lib \<Rightarrow> string \<Rightarrow> nat \<Rightarrow> jval \<Rightarrow> string list \<times> connections_result \<Rightarrow> string list \<times> connections_result" where
  "load_connection lib secret i raw st =
     (case st of (seen, r) \<Rightarrow>
      (case raw of
         JObj kvs \<Rightarrow>
           (case connection_validate lib raw of
              Inl errors \<Rightarrow> (seen, r\<lparr>cr_errors := cr_errors r @
                issues_from_validation_error (or_else (raw_name kvs) (Some (connection_index_name i))) errors\<rparr>)
            | Inr c \<Rightarrow>
                let r = (if cc_name c \<in> set seen
                      then cr_add_error (issue (Some (cc_name c)) ''name'' ''duplicate connection name'') r else r);
                    seen = cc_name c # seen
                in (case cc_api_key c of
                      None \<Rightarrow> (seen, r\<lparr>cr_connections := cr_connections r @
                        [\<lparr>rv_name = cc_name c, rv_url = cc_url c, rv_api_key = None\<rparr>]\<rparr>)
                    | Some token \<Rightarrow>
                        (case decrypt (cx_crypto lib) token secret of
                           Inl e \<Rightarrow> (seen, cr_add_error (issue (Some (cc_name c)) ''api_key'' (exc_str e)) r)
                         | Inr key \<Rightarrow> (seen, r\<lparr>cr_connections := cr_connections r @
                             [\<lparr>rv_name = cc_name c, rv_url = cc_url c, rv_api_key = Some key\<rparr>]\<rparr>))))
       | _ \<Rightarrow> (seen, cr_add_error (issue None (connection_index_name i) ''connection must be a mapping'') r)))"

primrec load_all ::
  "connections_lib \<Rightarrow> string \<Rightarrow> nat \<Rightarrow> jval list \<Rightarrow> string list \<times> connections_result \<Rightarrow> string list \<times> connections_result" where
  "load_all lib secret i [] st = st"
| "load_all lib secret i (raw # raws) st = load_all lib secret (Suc i) raws (load_connection lib secret i raw st)"

definition drop_failed :: "connections_result \<Rightarrow> connections_result" where
  "drop_failed r =
     (if cr_errors r \<noteq> []
      then r\<lparr>cr_connections := filter (\<lambda>c. Some (rv_name c) \<notin> ci_job_id ` set (cr_errors r)) (cr_connections r)\<rparr>
      else r)"

definition connections_document ::
  "connections_lib \<Rightarrow> settings \<Rightarrow> (string \<times> jval) list \<Rightarrow> connections_result \<Rightarrow> connections_result" where
  "connections_document lib st document r =
     (if \<not> version_one (obj_get document ''version'')
      then cr_add_error (issue None ''version'' (''unsupported connections version '' @
        cx_repr lib (obj_get document ''version'') @ ''; expected 1'')) r
      else (case (if falsy (obj_get document ''connections'') then JList [] else obj_get document ''connections'') of
          JList raws \<Rightarrow> drop_failed (snd (load_all lib (set_connections_secret st) 0 raws ([], r)))
        | _ \<Rightarrow> cr_add_error (issue None ''connections'' ''connections must be a list'') r))"

definition connections_bytes ::
  "connections_lib \<Rightarrow> settings \<Rightarrow> string \<Rightarrow> connections_result \<Rightarrow> connections_result" where
  "connections_bytes lib st raw r =
     (case cx_yaml lib raw of
        Inl e \<Rightarrow> cr_add_error (issue None ''connections_file'' (''invalid YAML: '' @ e)) r
      | Inr loaded \<Rightarrow>
          (case (if loaded = JNull then JObj [] else loaded) of
             JObj document \<Rightarrow> connections_document lib st document r
           | _ \<Rightarrow> cr_add_error (issue None ''connections_file'' ''top level must be a mapping'') r))"

definition load_connections ::
  "connections_lib \<Rightarrow> bool \<Rightarrow> exc + string \<Rightarrow> string \<Rightarrow> settings \<Rightarrow> connections_result" where
  "load_connections lib is_file content now st =
     (let r = \<lparr>cr_path = set_connections_file st, cr_connections = [], cr_errors = [], cr_checksum = None,
            cr_loaded_at = now\<rparr> in
      if \<not> is_file then cr_add_error (issue None ''connections_file'' ''connections.yaml not found'') r
      else case content of
        Inl e \<Rightarrow> cr_add_error (issue None ''connections_file'' (''unreadable: '' @ exc_str e)) r
      | Inr raw \<Rightarrow> connections_bytes lib st raw (r\<lparr>cr_checksum := Some (cx_sha256 lib raw)\<rparr>))"

section \<open>The registry\<close>

text \<open>The cached writers, by name, url and api-key. A writer is a value of \<open>'w qwriter\<close> that the
  client library builds (\<open>connect\<close>) from a url and an api-key.\<close>

type_synonym writer_key = "string \<times> string \<times> string option"

record 'w registry =
  rg_connections :: "(string \<times> resolved_connection) list"
  rg_writers :: "writer_key \<rightharpoonup> 'w qwriter"
  rg_last_load :: "connections_result option"

definition new_registry :: "'w registry" where
  "new_registry = \<lparr>rg_connections = [], rg_writers = Map.empty, rg_last_load = None\<rparr>"

definition UnknownConnectionError :: "string \<Rightarrow> exc" where
  "UnknownConnectionError name = PyError ''UnknownConnectionError'' (''unknown connection '' @ quoted name)"

text \<open>A dictionary of the connections by name; a later entry replaces the value of an earlier one.\<close>

fun by_name :: "resolved_connection list \<Rightarrow> (string \<times> resolved_connection) list \<Rightarrow> (string \<times> resolved_connection) list" where
  "by_name [] d = d"
| "by_name (c # cs) d =
     by_name cs (if map_of d (rv_name c) = None then d @ [(rv_name c, c)]
       else map (\<lambda>(n, x). if n = rv_name c then (n, c) else (n, x)) d)"

definition reload_registry :: "connections_result \<Rightarrow> bool \<Rightarrow> 'w registry \<Rightarrow> 'w registry" where
  "reload_registry loaded initial g =
     (let g' = (if cr_ok loaded \<or> initial \<or> rg_connections g = []
          then g\<lparr>rg_connections := by_name (cr_connections loaded) [], rg_writers := Map.empty\<rparr> else g)
      in g'\<lparr>rg_last_load := Some loaded\<rparr>)"

definition registry_error :: "'w registry \<Rightarrow> string option" where
  "registry_error g = (case rg_last_load g of None \<Rightarrow> None | Some r \<Rightarrow> error_summary r)"

record registry_info =
  ri_path :: string
  ri_checksum :: "string option"
  ri_loaded_at :: "string option"
  ri_valid :: bool
  ri_count :: nat
  ri_errors :: "catalog_issue list"

definition registry_info :: "settings \<Rightarrow> 'w registry \<Rightarrow> registry_info" where
  "registry_info st g =
     \<lparr>ri_path = set_connections_file st,
      ri_checksum = (case rg_last_load g of None \<Rightarrow> None | Some r \<Rightarrow> cr_checksum r),
      ri_loaded_at = map_option cr_loaded_at (rg_last_load g),
      ri_valid = (case rg_last_load g of None \<Rightarrow> False | Some r \<Rightarrow> cr_ok r),
      ri_count = length (rg_connections g),
      ri_errors = (case rg_last_load g of None \<Rightarrow> [] | Some r \<Rightarrow> cr_errors r)\<rparr>"

definition registry_names :: "'w registry \<Rightarrow> string list" where
  "registry_names g = map fst (rg_connections g)"

definition registry_get :: "'w registry \<Rightarrow> string \<Rightarrow> resolved_connection option" where
  "registry_get g name = map_of (rg_connections g) name"

definition registry_all :: "'w registry \<Rightarrow> resolved_connection list" where
  "registry_all g = map snd (rg_connections g)"

definition writer_for ::
  "(string \<Rightarrow> string option \<Rightarrow> 'w qwriter) \<Rightarrow> string \<Rightarrow> 'w registry \<Rightarrow> (exc + 'w qwriter) \<times> 'w registry" where
  "writer_for connect name g =
     (case map_of (rg_connections g) name of
        None \<Rightarrow> (Inl (UnknownConnectionError name), g)
      | Some c \<Rightarrow>
          let key = (rv_name c, rv_url c, rv_api_key c) in
          (case rg_writers g key of
             Some wr \<Rightarrow> (Inr wr, g)
           | None \<Rightarrow> let wr = connect (rv_url c) (or_else (rv_api_key c) None)
               in (Inr wr, g\<lparr>rg_writers := (rg_writers g)(key \<mapsto> wr)\<rparr>)))"

text \<open>Probes, over the registry and the world.\<close>

definition on_registry :: "('r \<Rightarrow> (exc + 'a) \<times> 'r) \<Rightarrow> ('r \<times> 'w, 'a) eff" where
  "on_registry m s = (case m (fst s) of (r, g) \<Rightarrow> (r, (g, snd s)))"

definition on_outside :: "('w, 'a) eff \<Rightarrow> ('r \<times> 'w, 'a) eff" where
  "on_outside m s = (case m (snd s) of (r, w) \<Rightarrow> (r, (fst s, w)))"

definition registry_ping ::
  "(string \<Rightarrow> string option \<Rightarrow> 'w qwriter) \<Rightarrow> string \<Rightarrow> ('w registry \<times> 'w, bool) eff" where
  "registry_ping connect name =
     catchE (bindE (on_registry (writer_for connect name)) (\<lambda>wr. on_outside (ping wr)))
       (\<lambda>e. if exc_name e = ''UnknownConnectionError'' then ret False else raise e)"

primrec ping_all ::
  "(string \<Rightarrow> string option \<Rightarrow> 'w qwriter) \<Rightarrow> string list \<Rightarrow> ('w registry \<times> 'w, bool) eff" where
  "ping_all connect [] = ret True"
| "ping_all connect (n # ns) =
     bindE (registry_ping connect n) (\<lambda>up. if \<not> up then ret False else ping_all connect ns)"

section \<open>Loaded connections\<close>

lemma cr_add_error_simps [simp]:
  "cr_connections (cr_add_error e r) = cr_connections r" "cr_errors (cr_add_error e r) = cr_errors r @ [e]"
  by (simp_all add: cr_add_error_def)

text \<open>Of the entries so far: every name was seen, and a name that came twice is in an error.\<close>

definition names_checked :: "string list \<times> connections_result \<Rightarrow> bool" where
  "names_checked st \<longleftrightarrow>
     (let bad = ci_job_id ` set (cr_errors (snd st)); names = map rv_name (cr_connections (snd st)) in
      set names \<subseteq> set (fst st) \<and> distinct (filter (\<lambda>n. Some n \<notin> bad) names))"

lemma load_connection_checked:
  assumes "names_checked st"
  shows "names_checked (load_connection lib secret i raw st)"
proof -
  obtain seen r where st: "st = (seen, r)" by fastforce
  have more: "names_checked (seen', r')"
    if "cr_connections r' = cr_connections r" "set seen \<subseteq> set seen'" "set (cr_errors r) \<subseteq> set (cr_errors r')" for seen' r'
  proof -
    let ?names = "map rv_name (cr_connections r)"
    have "filter (\<lambda>n. Some n \<notin> ci_job_id ` set (cr_errors r')) ?names =
        filter (\<lambda>n. Some n \<notin> ci_job_id ` set (cr_errors r')) (filter (\<lambda>n. Some n \<notin> ci_job_id ` set (cr_errors r)) ?names)"
      using that(3) by (auto intro!: filter_cong)
    then show ?thesis using assms that(1,2) unfolding st names_checked_def Let_def
      by (auto simp del: filter_filter intro: distinct_filter)
  qed
  show ?thesis
  proof (cases "\<exists>kvs c. raw = JObj kvs \<and> connection_validate lib raw = Inr c")
    case False
    then show ?thesis
      by (cases raw) (auto simp: st load_connection_def intro!: more split: sum.split)
  next
    case True
    then obtain kvs c where raw: "raw = JObj kvs" "connection_validate lib (JObj kvs) = Inr c" by blast
    define r1 where "r1 = (if cc_name c \<in> set seen
      then cr_add_error (issue (Some (cc_name c)) ''name'' ''duplicate connection name'') r else r)"
    have r1: "cr_connections r1 = cr_connections r" "set (cr_errors r) \<subseteq> set (cr_errors r1)" by (auto simp: r1_def)
    have new: "names_checked (cc_name c # seen, r1\<lparr>cr_connections := cr_connections r1 @
        [\<lparr>rv_name = cc_name c, rv_url = u, rv_api_key = k\<rparr>]\<rparr>)" for u k
    proof -
      have "names_checked (cc_name c # seen, r1)" by (rule more) (use r1 in auto)
      moreover have "cc_name c \<in> set (map rv_name (cr_connections r)) \<Longrightarrow> Some (cc_name c) \<in> ci_job_id ` set (cr_errors r1)"
        using assms by (auto simp: names_checked_def st r1_def)
      ultimately show ?thesis using r1(1) by (auto simp: names_checked_def Let_def)
    qed
    have bad: "names_checked (cc_name c # seen, cr_add_error e r1)" for e
      by (rule more) (use r1 in auto)
    have "load_connection lib secret i raw st = (case cc_api_key c of
        None \<Rightarrow> (cc_name c # seen, r1\<lparr>cr_connections := cr_connections r1 @
          [\<lparr>rv_name = cc_name c, rv_url = cc_url c, rv_api_key = None\<rparr>]\<rparr>)
      | Some token \<Rightarrow> (case decrypt (cx_crypto lib) token secret of
          Inl e \<Rightarrow> (cc_name c # seen, cr_add_error (issue (Some (cc_name c)) ''api_key'' (exc_str e)) r1)
        | Inr key \<Rightarrow> (cc_name c # seen, r1\<lparr>cr_connections := cr_connections r1 @
            [\<lparr>rv_name = cc_name c, rv_url = cc_url c, rv_api_key = Some key\<rparr>]\<rparr>)))"
      unfolding load_connection_def st raw(1) Let_def r1_def by (simp only: prod.case jval.case raw(2) sum.case)
    with new bad show ?thesis by (simp split: option.split sum.split)
  qed
qed

lemma load_all_checked: "names_checked st \<Longrightarrow> names_checked (load_all lib secret i raws st)"
  by (induction raws arbitrary: i st) (simp_all add: load_connection_checked)

lemma drop_failed_distinct:
  assumes "names_checked st"
  shows "distinct (cr_names (drop_failed (snd st)))"
proof (cases "cr_errors (snd st) = []")
  case True
  then show ?thesis using assms by (simp add: names_checked_def drop_failed_def cr_names_def)
next
  case False
  then show ?thesis using assms
    by (simp add: names_checked_def drop_failed_def cr_names_def Let_def filter_map o_def)
qed

lemma no_connections_distinct: "cr_connections r = [] \<Longrightarrow> distinct (cr_names (cr_add_error e r))"
  by (simp add: cr_names_def)

lemma connections_document_distinct:
  assumes "cr_connections r = []"
  shows "distinct (cr_names (connections_document lib st document r))"
proof -
  have "names_checked ([], r)" by (simp add: names_checked_def assms)
  note loaded = drop_failed_distinct [OF load_all_checked [OF this]]
  show ?thesis
    unfolding connections_document_def
    by (cases "version_one (obj_get document ''version'')";
        cases "if falsy (obj_get document ''connections'') then JList [] else obj_get document ''connections''")
      (simp_all only: jval.case loaded no_connections_distinct [OF assms] if_True if_False simp_thms)
qed

lemma connections_bytes_distinct:
  "cr_connections r = [] \<Longrightarrow> distinct (cr_names (connections_bytes lib st raw r))"
  by (simp add: connections_bytes_def connections_document_distinct no_connections_distinct split: sum.split jval.split)

lemma load_connections_distinct: "distinct (cr_names (load_connections lib is_file content now st))"
  by (simp add: load_connections_def Let_def connections_bytes_distinct no_connections_distinct split: sum.split)

section \<open>Writers are those of the current connections\<close>

datatype registry_op =
    ReloadOp connections_result bool
  | WriterOp string

definition registry_step ::
  "(string \<Rightarrow> string option \<Rightarrow> 'w qwriter) \<Rightarrow> registry_op \<Rightarrow> 'w registry \<Rightarrow> 'w registry" where
  "registry_step connect op g =
     (case op of
        ReloadOp loaded initial \<Rightarrow> reload_registry loaded initial g
      | WriterOp name \<Rightarrow> snd (writer_for connect name g))"

definition writers_current :: "(string \<Rightarrow> string option \<Rightarrow> 'w qwriter) \<Rightarrow> 'w registry \<Rightarrow> bool" where
  "writers_current connect g \<longleftrightarrow>
     (\<forall>n u k wr. rg_writers g (n, u, k) = Some wr \<longrightarrow> wr = connect u (or_else k None))"

lemma registry_step_current: "writers_current connect g \<Longrightarrow> writers_current connect (registry_step connect op g)"
  by (auto simp: registry_step_def reload_registry_def writer_for_def Let_def writers_current_def
      split: registry_op.split option.split)

lemma registry_steps_current:
  "writers_current connect g \<Longrightarrow> writers_current connect (fold (registry_step connect) ops g)"
  by (induction ops arbitrary: g) (simp_all add: registry_step_current)

text \<open>C29: A writer always belongs to the connection its name stands for now: after any sequence of
  reloads and uses, asking for the writer of a known connection gives a client of that
  connection's current url and api-key, cached or not, and an unknown name raises; a refused
  reload of a non-empty registry changes neither the connections nor the cache.\<close>
theorem writer_is_current:
  assumes "g = fold (registry_step connect) ops new_registry"
  shows "fst (writer_for connect name g) =
      (case registry_get g name of
         None \<Rightarrow> Inl (UnknownConnectionError name)
       | Some c \<Rightarrow> Inr (connect (rv_url c) (or_else (rv_api_key c) None))) \<and>
    (rg_connections g \<noteq> [] \<and> \<not> cr_ok bad \<longrightarrow>
      rg_connections (reload_registry bad False g) = rg_connections g \<and>
      rg_writers (reload_registry bad False g) = rg_writers g)"
proof
  have "writers_current connect g"
    unfolding assms by (rule registry_steps_current) (simp add: writers_current_def new_registry_def)
  then show "fst (writer_for connect name g) =
      (case registry_get g name of
         None \<Rightarrow> Inl (UnknownConnectionError name)
       | Some c \<Rightarrow> Inr (connect (rv_url c) (or_else (rv_api_key c) None)))"
    by (auto simp: writer_for_def registry_get_def writers_current_def Let_def split: option.split)
qed (simp add: reload_registry_def)

theorem writer_is_current_witness:
  "let loaded = (\<lambda>u. \<lparr>cr_path = [], cr_connections = [\<lparr>rv_name = ''q'', rv_url = u, rv_api_key = None\<rparr>],
        cr_errors = [], cr_checksum = None, cr_loaded_at = []\<rparr>);
       connect = (\<lambda>u k. \<lparr>qw_client = undefined, qw_meta_collection = u, qw_uuid5 = (\<lambda>a b. b)\<rparr> :: unit qwriter);
       g = fold (registry_step connect) [ReloadOp (loaded ''http://a'') True, WriterOp ''q'',
         ReloadOp (loaded ''http://b'') False] new_registry
   in fst (writer_for connect ''q'' g) = Inr (connect ''http://b'' None)"
  unfolding Let_def
  by (subst conjunct1 [OF writer_is_current [OF refl, where bad = undefined]])
    (simp add: registry_step_def reload_registry_def new_registry_def cr_ok_def registry_get_def writer_for_def
      or_else_def)

end
