(* ===== verification/Migrations.thy ===== *)
theory Migrations
  imports Schema
begin

text \<open>
  The forward-only schema migrations of the state database, \<open>src/src/state/migrations.py\<close>: its
  statements as data, what SQLite does with them, and the application in one transaction. A column
  is its name with its declaration; the rows a statement leaves alone are not modelled.
\<close>

section \<open>Statements and schemas\<close>

type_synonym column = "string \<times> string"

datatype sql_statement =
    CreateTable string "column list" "string list"
  | CreateIndex string string "string list"
  | AddColumn string column

text \<open>A schema: the tables with their columns and composite key, the indexes, and the row of
  \<open>schema_meta\<close> with the version.\<close>

record schema =
  sm_tables :: "(string \<times> column list \<times> string list) list"
  sm_indexes :: "(string \<times> string \<times> string list) list"
  sm_version :: "string option"

definition empty_schema :: schema where
  "empty_schema = \<lparr>sm_tables = [], sm_indexes = [], sm_version = None\<rparr>"

definition OperationalError :: "string \<Rightarrow> exc" where
  "OperationalError m = PyError ''OperationalError'' m"

text \<open>\<open>conn.execute(statement)\<close>: a table or an index that exists, a column that exists, and a table
  that does not are refused.\<close>

fun run_statement :: "sql_statement \<Rightarrow> schema \<Rightarrow> exc + schema" where
  "run_statement (CreateTable t cols key) s =
     (if map_of (sm_tables s) t \<noteq> None then Inl (OperationalError (''table '' @ t @ '' already exists''))
      else Inr (s\<lparr>sm_tables := sm_tables s @ [(t, cols, key)]\<rparr>))"
| "run_statement (CreateIndex i t cols) s =
     (if map_of (sm_tables s) t = None then Inl (OperationalError (''no such table: '' @ t))
      else if map_of (sm_indexes s) i \<noteq> None then Inl (OperationalError (''index '' @ i @ '' already exists''))
      else Inr (s\<lparr>sm_indexes := sm_indexes s @ [(i, t, cols)]\<rparr>))"
| "run_statement (AddColumn t c) s =
     (case map_of (sm_tables s) t of
        None \<Rightarrow> Inl (OperationalError (''no such table: '' @ t))
      | Some (cols, key) \<Rightarrow>
          if fst c \<in> fst ` set cols then Inl (OperationalError (''duplicate column name: '' @ fst c))
          else Inr (s\<lparr>sm_tables := map (\<lambda>(u, cs, k). if u = t then (u, cs @ [c], k) else (u, cs, k)) (sm_tables s)\<rparr>))"

fun run_statements :: "sql_statement list \<Rightarrow> schema \<Rightarrow> exc + schema" where
  "run_statements [] s = Inr s"
| "run_statements (x # xs) s = (case run_statement x s of Inl e \<Rightarrow> Inl e | Inr t \<Rightarrow> run_statements xs t)"

section \<open>The migrations\<close>

definition V1 :: "sql_statement list" where
  "V1 = [
     CreateTable ''documents''
       [(''job_id'', ''TEXT NOT NULL''),
        (''collection'', ''TEXT NOT NULL''),
        (''source'', ''TEXT NOT NULL''),
        (''rel_path'', ''TEXT NOT NULL''),
        (''size'', ''INTEGER NOT NULL''),
        (''mtime_ns'', ''INTEGER NOT NULL''),
        (''content_sha'', ''TEXT NOT NULL''),
        (''text_sha'', ''TEXT''),
        (''params_sha'', ''TEXT NOT NULL''),
        (''media_type'', ''TEXT''),
        (''chunk_count'', ''INTEGER NOT NULL DEFAULT 0''),
        (''status'', ''TEXT NOT NULL''),
        (''last_error'', ''TEXT''),
        (''last_run_id'', ''TEXT NOT NULL''),
        (''indexed_at'', ''TEXT NOT NULL'')]
       [''job_id'', ''source''],
     CreateIndex ''idx_documents_collection'' ''documents'' [''collection'', ''source''],
     CreateTable ''runs''
       [(''run_id'', ''TEXT PRIMARY KEY''),
        (''job_id'', ''TEXT NOT NULL''),
        (''mode'', ''TEXT NOT NULL''),
        (''full_scope'', ''TEXT''),
        (''trigger'', ''TEXT NOT NULL''),
        (''started_at'', ''TEXT NOT NULL''),
        (''finished_at'', ''TEXT''),
        (''status'', ''TEXT NOT NULL''),
        (''sync_status'', ''TEXT''),
        (''sync_stderr_tail'', ''TEXT''),
        (''files_seen'', ''INTEGER DEFAULT 0''),
        (''docs_indexed'', ''INTEGER DEFAULT 0''),
        (''docs_unchanged'', ''INTEGER DEFAULT 0''),
        (''docs_skipped_changed'', ''INTEGER DEFAULT 0''),
        (''docs_failed'', ''INTEGER DEFAULT 0''),
        (''docs_deleted'', ''INTEGER DEFAULT 0''),
        (''chunks_upserted'', ''INTEGER DEFAULT 0''),
        (''bytes_read'', ''INTEGER DEFAULT 0''),
        (''embed_calls'', ''INTEGER DEFAULT 0''),
        (''error'', ''TEXT'')]
       [],
     CreateIndex ''idx_runs_job'' ''runs'' [''job_id'', ''started_at DESC''],
     CreateTable ''run_events''
       [(''run_id'', ''TEXT NOT NULL''),
        (''seq'', ''INTEGER NOT NULL''),
        (''ts'', ''TEXT NOT NULL''),
        (''level'', ''TEXT NOT NULL''),
        (''source'', ''TEXT''),
        (''message'', ''TEXT NOT NULL'')]
       [''run_id'', ''seq''],
     CreateTable ''schema_meta''
       [(''key'', ''TEXT PRIMARY KEY''),
        (''value'', ''TEXT NOT NULL'')]
       []]"

definition V2 :: "sql_statement list" where
  "V2 = [
     AddColumn ''runs'' (''dry_run'', ''INTEGER NOT NULL DEFAULT 0''),
     AddColumn ''runs'' (''files_done'', ''INTEGER NOT NULL DEFAULT 0''),
     AddColumn ''runs'' (''phase'', ''TEXT''),
     AddColumn ''runs'' (''current'', ''TEXT'')]"

definition MIGRATIONS :: "(nat \<times> sql_statement list) list" where
  "MIGRATIONS = [(1, V1), (2, V2)]"

definition LATEST_VERSION :: nat where
  "LATEST_VERSION = fst (last MIGRATIONS)"

text \<open>\<open>int(value)\<close> of a stored version: digits only, anything else is refused.\<close>

definition current_version :: "schema \<Rightarrow> exc + nat" where
  "current_version s =
     (if map_of (sm_tables s) ''schema_meta'' = None then Inr 0
      else case sm_version s of
        None \<Rightarrow> Inr 0
      | Some v \<Rightarrow> if v \<noteq> [] \<and> list_all is_digit v then Inr (nat_of_digits v)
          else Inl (PyError ''ValueError'' (''invalid literal for int() with base 10: '' @ quoted v)))"

definition set_version :: "nat \<Rightarrow> schema \<Rightarrow> exc + schema" where
  "set_version n s =
     (if map_of (sm_tables s) ''schema_meta'' = None then Inl (OperationalError ''no such table: schema_meta'')
      else Inr (s\<lparr>sm_version := Some (str_of_nat n)\<rparr>))"

fun run_pending :: "(nat \<times> sql_statement list) list \<Rightarrow> schema \<Rightarrow> exc + schema" where
  "run_pending [] s = Inr s"
| "run_pending ((target, statements) # rest) s =
     (case run_statements statements s of
        Inl e \<Rightarrow> Inl e
      | Inr t \<Rightarrow> (case set_version target t of Inl e \<Rightarrow> Inl e | Inr u \<Rightarrow> run_pending rest u))"

definition SchemaVersionError :: "nat \<Rightarrow> exc" where
  "SchemaVersionError version = PyError ''SchemaVersionError'' (''state database schema is version '' @
     str_of_nat version @ '', but this release supports at most '' @ str_of_nat LATEST_VERSION)"

text \<open>\<open>begin\<close> is the outcome of \<open>BEGIN IMMEDIATE\<close>; an exception inside the transaction rolls back.\<close>

definition apply_migrations :: "exc + unit \<Rightarrow> (schema, unit) eff" where
  "apply_migrations begin_result s =
     (case current_version s of
        Inl e \<Rightarrow> (Inl e, s)
      | Inr version \<Rightarrow>
          if LATEST_VERSION < version then (Inl (SchemaVersionError version), s)
          else let pending = filter (\<lambda>m. version < fst m) MIGRATIONS in
            if pending = [] then (Inr (), s)
            else case begin_result of
                Inl e \<Rightarrow> (Inl e, s)
              | Inr u \<Rightarrow> (case run_pending pending s of Inl e \<Rightarrow> (Inl e, s) | Inr t \<Rightarrow> (Inr (), t)))"

section \<open>What an application leaves\<close>

definition schema_v1 :: schema where
  "schema_v1 = (case run_pending [(1, V1)] empty_schema of Inr s \<Rightarrow> s | Inl e \<Rightarrow> empty_schema)"

definition schema_v2 :: schema where
  "schema_v2 = (case run_pending MIGRATIONS empty_schema of Inr s \<Rightarrow> s | Inl e \<Rightarrow> empty_schema)"

lemma fresh_install: "run_pending MIGRATIONS empty_schema = Inr schema_v2"
  unfolding schema_v2_def by code_simp

lemma upgrade_from_v1: "run_pending [(2, V2)] schema_v1 = Inr schema_v2"
  by code_simp

lemma schema_versions: "current_version schema_v1 = Inr 1" "current_version schema_v2 = Inr 2"
  "current_version empty_schema = Inr 0"
  by code_simp+

text \<open>C36: Migration is all or nothing and forward only: a new database and one of version 1 end at the
  same schema, applying again changes nothing, a database of a newer version, a failing statement or
  a lock that cannot be taken leave the schema as it was, and success means the latest version.\<close>
theorem migrations_forward_only:
  "apply_migrations (Inr ()) empty_schema = (Inr (), schema_v2) \<and>
   apply_migrations (Inr ()) schema_v1 = (Inr (), schema_v2) \<and>
   apply_migrations b schema_v2 = (Inr (), schema_v2) \<and>
   (\<forall>e t. apply_migrations b s = (Inl e, t) \<longrightarrow> t = s) \<and>
   (\<forall>t. apply_migrations b s = (Inr (), t) \<longrightarrow> current_version t = Inr LATEST_VERSION)"
proof (intro conjI allI impI)
  have l: "LATEST_VERSION = 2" by (simp add: LATEST_VERSION_def MIGRATIONS_def)
  show "apply_migrations (Inr ()) empty_schema = (Inr (), schema_v2)"
    using fresh_install by (simp add: apply_migrations_def schema_versions l) (simp add: MIGRATIONS_def)
  show "apply_migrations (Inr ()) schema_v1 = (Inr (), schema_v2)"
    using upgrade_from_v1 by (simp add: apply_migrations_def schema_versions l) (simp add: MIGRATIONS_def)
  show "apply_migrations b schema_v2 = (Inr (), schema_v2)"
    by (simp add: apply_migrations_def schema_versions l) (simp add: MIGRATIONS_def)
  show "t = s" if "apply_migrations b s = (Inl e, t)" for e t
    using that by (auto simp: apply_migrations_def Let_def split: sum.splits if_splits)
  show "current_version t = Inr LATEST_VERSION" if ok: "apply_migrations b s = (Inr (), t)" for t
  proof -
    obtain v where v: "current_version s = Inr v" "v \<le> 2"
      using ok by (auto simp: apply_migrations_def l split: sum.splits if_splits)
    consider "v = 2" | "filter (\<lambda>m. v < fst m) MIGRATIONS = MIGRATIONS" | "filter (\<lambda>m. v < fst m) MIGRATIONS = [(2, V2)]"
      using v(2) by (cases "v = 0"; cases "v = 1") (auto simp: MIGRATIONS_def)
    then show ?thesis
    proof cases
      case 1
      then show ?thesis using ok v by (simp add: apply_migrations_def l MIGRATIONS_def)
    qed (use ok v in \<open>auto simp: apply_migrations_def l MIGRATIONS_def set_version_def current_version_def
        list_all_iff str_of_nat_digits split: sum.splits if_splits\<close>)
  qed
qed

theorem migrations_forward_only_witness:
  "apply_migrations (Inl (OperationalError ''database is locked'')) schema_v1 =
     (Inl (OperationalError ''database is locked''), schema_v1) \<and>
   current_version (snd (apply_migrations (Inr ()) schema_v1)) = Inr LATEST_VERSION"
proof -
  have "apply_migrations (Inl (OperationalError ''database is locked'')) schema_v1 =
      (Inl (OperationalError ''database is locked''), schema_v1)"
    by (simp add: apply_migrations_def schema_versions LATEST_VERSION_def) (simp add: MIGRATIONS_def)
  moreover have "\<forall>t. apply_migrations (Inr ()) schema_v1 = (Inr (), t) \<longrightarrow> current_version t = Inr LATEST_VERSION"
    and "apply_migrations (Inr ()) schema_v1 = (Inr (), schema_v2)"
    using migrations_forward_only [of "Inr ()" schema_v1] by blast+
  ultimately show ?thesis by simp
qed

end
