(* ===== verification/Tika.thy ===== *)
theory Tika
  imports Embed Catalog
begin

text \<open>
  The Tika client, \<open>src/src/extract/tika.py\<close>: the request with its bounded retries, the
  classification of answers, and the parsing of the \<open>rmeta\<close> envelope. The HTTP transport, the
  Unicode decomposition and \<open>str\<close> of a JSON value are parameters.
\<close>

section \<open>Parsing the envelope\<close>

definition first_str :: "(string \<times> jval) list \<Rightarrow> string \<Rightarrow> string option" where
  "first_str metadata key =
     (case map_of metadata key of
        Some (JList (JStr s # vs)) \<Rightarrow> Some s
      | Some (JStr s) \<Rightarrow> Some s
      | _ \<Rightarrow> None)"

text \<open>\<open>int(s)\<close> without underscores: surrounding whitespace, a sign, digits.\<close>

definition py_int :: "string \<Rightarrow> int option" where
  "py_int s =
     (let t = py_strip s;
          neg = starts_with ''-'' t;
          ds = (if neg \<or> starts_with ''+'' t then drop 1 t else t)
      in if ds \<noteq> [] \<and> list_all is_digit ds
         then Some (if neg then - int (nat_of_digits ds) else int (nat_of_digits ds)) else None)"

text \<open>\<open>get("X-TIKA:content") or ""\<close>; a truthy value that is no text has no \<open>strip\<close> (for an embedded
  document, where the code would pass it on, it is outside the model and raises too).\<close>

definition content_of :: "(string \<times> jval) list \<Rightarrow> exc + string" where
  "content_of metadata =
     (let v = obj_get metadata ''X-TIKA:content'' in
      if falsy v then Inr []
      else case v of JStr s \<Rightarrow> Inr s | _ \<Rightarrow> Inl (PyError ''AttributeError'' ''object has no attribute strip''))"

definition embedded_name :: "(string \<times> jval) list \<Rightarrow> nat \<Rightarrow> string" where
  "embedded_name element before =
     lstrip_char (CHR ''/'')
       (case or_else (first_str element ''resourceName'')
               (or_else (first_str element ''X-TIKA:embedded_resource_path'') None) of
          Some n \<Rightarrow> n
        | None \<Rightarrow> ''embedded-'' @ str_of_nat (before + 1))"

fun embedded_documents :: "embedded_document list \<Rightarrow> jval list \<Rightarrow> exc + embedded_document list" where
  "embedded_documents acc [] = Inr acc"
| "embedded_documents acc (JObj element # rest) =
     (case content_of element of
        Inl e \<Rightarrow> Inl e
      | Inr text \<Rightarrow> embedded_documents (acc @ [\<lparr>emd_name = embedded_name element (length acc), emd_text = text,
          emd_media_type = first_str element ''Content-Type''\<rparr>]) rest)"
| "embedded_documents acc (v # rest) = embedded_documents acc rest"

definition tika_exceptions :: "(jval \<Rightarrow> string) \<Rightarrow> (string \<times> jval) list \<Rightarrow> string list" where
  "tika_exceptions str container =
     map (\<lambda>(k, v). k @ '': '' @ str v) (filter (\<lambda>(k, v). starts_with ''X-TIKA:EXCEPTION'' k) container)"

definition parse_rmeta :: "(jval \<Rightarrow> string) \<Rightarrow> exc + jval \<Rightarrow> exc + extraction_result" where
  "parse_rmeta str body =
     (case body of
        Inl e \<Rightarrow> if exc_name e = ''ValueError'' then Inl (TikaError ''tika returned invalid JSON'' False) else Inl e
      | Inr (JList (container # rest)) \<Rightarrow>
          (case container of
             JObj meta \<Rightarrow>
               (case content_of meta of
                  Inl e \<Rightarrow> Inl e
                | Inr text \<Rightarrow>
                    (case embedded_documents [] rest of
                       Inl e \<Rightarrow> Inl e
                     | Inr embedded \<Rightarrow> Inr
                         \<lparr>ext_text = py_strip text, ext_media_type = first_str meta ''Content-Type'',
                          ext_title = map_option py_strip (or_else (first_str meta ''dc:title'') None),
                          ext_pages = (case or_else (first_str meta ''xmpTPg:NPages'') None of
                             None \<Rightarrow> None | Some s \<Rightarrow> py_int s),
                          ext_exceptions = tika_exceptions str meta, ext_embedded = embedded\<rparr>))
           | _ \<Rightarrow> Inl (TikaError ''tika returned a malformed envelope'' False))
      | Inr v \<Rightarrow> Inl (TikaError ''tika returned an empty envelope'' False))"

section \<open>The request\<close>

definition ascii_filename :: "(string \<Rightarrow> string) \<Rightarrow> string \<Rightarrow> string" where
  "ascii_filename nfkd_ascii name =
     (let cleaned = filter (\<lambda>c. 32 \<le> (of_char c :: nat) \<and> (of_char c :: nat) \<le> 126 \<and> c \<noteq> CHR 0x22 \<and> c \<noteq> BACKSLASH)
            (nfkd_ascii name)
      in if cleaned = [] then ''file'' else cleaned)"

record 'w tika_env =
  tk_put :: "string \<Rightarrow> (string \<times> string) list \<Rightarrow> ('w, http_response) eff"
  tk_get :: "('w, int) eff"
  tk_sleep :: "rat \<Rightarrow> ('w, unit) eff"
  tk_nfkd_ascii :: "string \<Rightarrow> string"
  tk_str :: "jval \<Rightarrow> string"
  tk_ocr_language :: string
  tk_pdf_ocr_strategy :: string

definition RETRY_DELAYS :: "rat list" where
  "RETRY_DELAYS = [1 / 2, 1]"

definition tika_headers :: "'w tika_env \<Rightarrow> string \<Rightarrow> (string \<times> string) list" where
  "tika_headers env name =
     [(''Accept'', ''application/json''), (''Content-Type'', ''application/octet-stream''),
      (''Content-Disposition'', ''attachment; filename='' @ [CHR 0x22] @ name @ [CHR 0x22]),
      (''X-Tika-PDFOcrStrategy'', tk_pdf_ocr_strategy env), (''X-Tika-OCRLanguage'', tk_ocr_language env),
      (''X-Tika-PDFextractInlineImages'', ''false'')]"

definition tika_ping :: "'w tika_env \<Rightarrow> ('w, bool) eff" where
  "tika_ping env =
     catchE (bindE (tk_get env) (\<lambda>status. ret (status < 500)))
       (\<lambda>e. if exc_name e = ''HTTPError'' then ret False else raise e)"

text \<open>The attempts, one per delay that is left and a last one. A file that cannot be opened raises what
  opening it raises.\<close>

fun tika_attempts ::
  "'w tika_env \<Rightarrow> string \<Rightarrow> (string \<times> string) list \<Rightarrow> rat list \<Rightarrow> ('w, extraction_result) eff" where
  "tika_attempts env path headers delays =
     bindE (catchE (bindE (tk_put env path headers) (\<lambda>r. ret (Inr r)))
         (\<lambda>e. if exc_name e = ''HTTPError'' then ret (Inl e) else raise e)) (\<lambda>outcome.
       case outcome of
         Inl e \<Rightarrow>
           (case delays of
              d # ds \<Rightarrow> seqE (tk_sleep env d) (tika_attempts env path headers ds)
            | [] \<Rightarrow> raise (TikaError (''tika unreachable: '' @ exc_str e) False))
       | Inr r \<Rightarrow>
           if hr_status r = 422
           then raise (TikaError ''tika cannot parse this file (unsupported or encrypted)'' True)
           else if 400 \<le> hr_status r \<and> hr_status r < 500
           then raise (TikaError (''tika rejected the request with '' @ str_of_int (hr_status r)) True)
           else if 500 \<le> hr_status r
           then (case delays of
              d # ds \<Rightarrow> seqE (tk_sleep env d) (tika_attempts env path headers ds)
            | [] \<Rightarrow> raise (TikaError (''tika kept failing with '' @ str_of_int (hr_status r)) False))
           else of_sum (parse_rmeta (tk_str env) (hr_json r)))"

declare tika_attempts.simps [simp del]

definition tika_extract :: "'w tika_env \<Rightarrow> string \<Rightarrow> string \<Rightarrow> ('w, extraction_result) eff" where
  "tika_extract env path file_name =
     tika_attempts env path (tika_headers env (ascii_filename (tk_nfkd_ascii env) file_name)) RETRY_DELAYS"

section \<open>Retries\<close>

text \<open>A transport that plays a script of outcomes and logs the pauses.\<close>

datatype put_outcome =
    Reply http_response
  | Down string

type_synonym script = "put_outcome list \<times> rat list"

definition play :: "(script, http_response) eff" where
  "play s = (case fst s of
     [] \<Rightarrow> (Inl (HTTPError ''script is over''), s)
   | Reply r # os \<Rightarrow> (Inr r, (os, snd s))
   | Down m # os \<Rightarrow> (Inl (HTTPError m), (os, snd s)))"

definition script_env :: "(string \<Rightarrow> string) \<Rightarrow> (jval \<Rightarrow> string) \<Rightarrow> script tika_env" where
  "script_env nfkd str = \<lparr>tk_put = (\<lambda>p h. play), tk_get = ret 200,
     tk_sleep = (\<lambda>d s. (Inr (), (fst s, snd s @ [d]))), tk_nfkd_ascii = nfkd, tk_str = str,
     tk_ocr_language = ''deu+eng'', tk_pdf_ocr_strategy = ''auto''\<rparr>"

fun passing :: "put_outcome \<Rightarrow> bool" where
  "passing (Down m) = True"
| "passing (Reply r) = (500 \<le> hr_status r)"

fun last_word :: "put_outcome \<Rightarrow> exc" where
  "last_word (Down m) = TikaError (''tika unreachable: '' @ m) False"
| "last_word (Reply r) = TikaError (''tika kept failing with '' @ str_of_int (hr_status r)) False"

definition answer_of :: "(jval \<Rightarrow> string) \<Rightarrow> http_response \<Rightarrow> exc + extraction_result" where
  "answer_of str r =
     (if hr_status r = 422 then Inl (TikaError ''tika cannot parse this file (unsupported or encrypted)'' True)
      else if 400 \<le> hr_status r then Inl (TikaError (''tika rejected the request with '' @ str_of_int (hr_status r)) True)
      else parse_rmeta str (hr_json r))"

lemma attempts_pass:
  assumes "passing x"
  shows "tika_attempts (script_env nfkd str) p h (d # ds) (x # xs, lg) =
    tika_attempts (script_env nfkd str) p h ds (xs, lg @ [d])"
  using assms
  by (cases x; subst tika_attempts.simps)
    (simp_all add: script_env_def play_def catchE_def bindE_def seqE_def ret_def HTTPError_def)

lemma attempts_last:
  assumes "passing x"
  shows "tika_attempts (script_env nfkd str) p h [] (x # xs, lg) = (Inl (last_word x), (xs, lg))"
  using assms
  by (cases x; subst tika_attempts.simps)
    (simp_all add: script_env_def play_def catchE_def bindE_def ret_def raise_def HTTPError_def)

lemma attempts_answer:
  assumes "hr_status r < 500"
  shows "tika_attempts (script_env nfkd str) p h ds (Reply r # xs, lg) = (answer_of str r, (xs, lg))"
  using assms
  by (subst tika_attempts.simps)
    (simp add: script_env_def play_def catchE_def bindE_def ret_def raise_def of_sum_def answer_of_def)

lemma attempts_pass_all:
  "list_all passing pre \<Longrightarrow> length pre \<le> length ds \<Longrightarrow>
   tika_attempts (script_env nfkd str) p h ds (pre @ xs, lg) =
   tika_attempts (script_env nfkd str) p h (drop (length pre) ds) (xs, lg @ take (length pre) ds)"
proof (induction pre arbitrary: ds lg)
  case (Cons x pre)
  then obtain d ds' where ds: "ds = d # ds'" by (cases ds) auto
  with Cons show ?case by (simp add: attempts_pass)
qed simp

text \<open>Tika is asked at most three times and only as long as that can help: failures of the connection
  and 5xx answers are retried after 0.5 and 1 second; the first other answer decides, a 4xx at once as
  a terminal error and anything else as the parse of its body; three failures in a row are a
  non-terminal error that tells the last of them.\<close>
theorem tika_extract_retries:
  assumes "list_all passing pre" and "length pre \<le> 2"
  shows "(hr_status r < 500 \<longrightarrow>
      tika_extract (script_env nfkd str) p f (pre @ Reply r # xs, []) =
        (answer_of str r, (xs, take (length pre) [1 / 2, 1]))) \<and>
    (length pre = 2 \<and> passing x \<longrightarrow>
      tika_extract (script_env nfkd str) p f (pre @ x # xs, []) = (Inl (last_word x), (xs, [1 / 2, 1])))"
proof -
  have "length pre \<le> length RETRY_DELAYS" using assms(2) by (simp add: RETRY_DELAYS_def)
  note pass = attempts_pass_all [OF assms(1) this]
  show ?thesis by (auto simp: tika_extract_def pass attempts_answer attempts_last) (simp_all add: RETRY_DELAYS_def attempts_last)
qed

theorem tika_extract_retries_witness:
  "tika_extract (script_env id (\<lambda>v. [])) ''/x'' ''x'' ([Down ''refused'', Reply \<lparr>hr_status = 422, hr_json = Inr JNull\<rparr>], []) =
     (Inl (TikaError ''tika cannot parse this file (unsupported or encrypted)'' True), ([], [1 / 2])) \<and>
   tika_extract (script_env id (\<lambda>v. [])) ''/x'' ''x''
     ([Down ''a'', Down ''b'', Reply \<lparr>hr_status = 503, hr_json = Inr JNull\<rparr>], []) =
     (Inl (TikaError ''tika kept failing with 503'' False), ([], [1 / 2, 1]))"
proof -
  have n: "str_of_int 503 = ''503''" by code_simp
  show ?thesis
    using tika_extract_retries [of "[Down ''refused'']" "\<lparr>hr_status = 422, hr_json = Inr JNull\<rparr>" id "\<lambda>v. []" "''/x''" "''x''" "[]"]
      tika_extract_retries [of "[Down ''a'', Down ''b'']" undefined id "\<lambda>v. []" "''/x''" "''x''" "[]"
        "Reply \<lparr>hr_status = 503, hr_json = Inr JNull\<rparr>"]
    by (simp add: answer_of_def n)
qed

end
