(* ===== verification/Access.thy ===== *)
theory Access
  imports Embed Catalog
begin

text \<open>
  Who may do what: the bearer check of the REST surface (\<open>src/src/api/auth.py\<close>), the OIDC validator
  (\<open>src/src/mcp_app/oidc.py\<close>), the gate in front of the MCP application
  (\<open>src/src/mcp_app/server.py\<close>), and the mode an MCP caller may trigger
  (\<open>src/src/mcp_app/tools.py\<close>). PyJWT, the HTTP client and the clock are parameters.
\<close>

section \<open>The bearer token of the REST surface\<close>

record http_error =
  he_status :: int
  he_detail :: string

definition unauthorized :: "string \<Rightarrow> http_error" where
  "unauthorized detail = \<lparr>he_status = 401, he_detail = detail\<rparr>"

text \<open>\<open>header.partition(" ")\<close>: the text before the first space and the text after it.\<close>

definition partition_space :: "string \<Rightarrow> string \<times> string" where
  "partition_space s = (takeWhile (\<lambda>c. c \<noteq> CHR '' '') s, drop 1 (dropWhile (\<lambda>c. c \<noteq> CHR '' '') s))"

definition check_bearer :: "settings \<Rightarrow> string option \<Rightarrow> http_error + unit" where
  "check_bearer st header =
     (if set_api_token st = [] then Inl (unauthorized ''api token not configured'')
      else case partition_space (case header of None \<Rightarrow> [] | Some h \<Rightarrow> h) of (scheme, candidate) \<Rightarrow>
        if py_lower scheme \<noteq> ''bearer'' \<or> candidate = [] then Inl (unauthorized ''missing bearer token'')
        else if utf8_encode candidate \<noteq> utf8_encode (set_api_token st) then Inl (unauthorized ''invalid token'')
        else Inr ())"

section \<open>The OIDC validator\<close>

definition ALLOWED_ALGS :: "string list" where
  "ALLOWED_ALGS = [''RS256'', ''RS384'', ''RS512'', ''ES256'', ''ES384'', ''ES512'']"

definition InvalidTokenError :: "string \<Rightarrow> exc" where
  "InvalidTokenError m = PyError ''InvalidTokenError'' m"

record oidc_claims =
  oc_sub :: string
  oc_email :: jval
  oc_preferred_username :: jval
  oc_realm_roles :: "jval list"
  oc_client_roles :: "jval list"

text \<open>\<open>set(realm_roles) | set(client_roles)\<close>; a list or an object is not hashable.\<close>

definition all_roles :: "oidc_claims \<Rightarrow> exc + jval set" where
  "all_roles c =
     (let rs = oc_realm_roles c @ oc_client_roles c in
      if list_ex (\<lambda>r. case r of JList x \<Rightarrow> True | JObj x \<Rightarrow> True | _ \<Rightarrow> False) rs
      then Inl (PyError ''TypeError'' ''unhashable type'') else Inr (set rs))"

text \<open>PyJWT: the key id of the unverified header, the verification of a token with a key and one
  algorithm, an audience if it is checked, and an issuer, which gives the payload, and which
  exceptions are its \<open>PyJWTError\<close>. The HTTP client gives the JSON object of an answer, or raises.\<close>

record 'w oidc_env =
  ov_header_kid :: "string \<Rightarrow> exc + string option"
  ov_decode :: "string \<Rightarrow> (string \<times> jval) list \<Rightarrow> string \<Rightarrow> string option \<Rightarrow> string \<Rightarrow> exc + (string \<times> jval) list"
  ov_jwt_error :: "exc \<Rightarrow> bool"
  ov_fetch :: "string \<Rightarrow> ('w, (string \<times> jval) list) eff"
  ov_monotonic :: "('w, rat) eff"
  ov_issuer_url :: string
  ov_audience :: string
  ov_cache_ttl :: int

record oidc_state =
  os_discovery :: "(string \<times> jval) list option"
  os_discovery_at :: rat
  os_jwks :: "(string \<times> jval) list option"
  os_jwks_at :: rat

type_synonym ('w, 'a) oidc_eff = "(oidc_state \<times> 'w, 'a) eff"

definition oidc_io :: "('w, 'a) eff \<Rightarrow> ('w, 'a) oidc_eff" where
  "oidc_io m s = (case m (snd s) of (r, w) \<Rightarrow> (r, (fst s, w)))"

definition oidc_get :: "(oidc_state \<Rightarrow> 'a) \<Rightarrow> ('w, 'a) oidc_eff" where
  "oidc_get f s = (Inr (f (fst s)), s)"

definition oidc_set :: "(oidc_state \<Rightarrow> oidc_state) \<Rightarrow> ('w, unit) oidc_eff" where
  "oidc_set f s = (Inr (), (f (fst s), snd s))"

definition cached_discovery :: "'w oidc_env \<Rightarrow> ('w, (string \<times> jval) list option) oidc_eff" where
  "cached_discovery env =
     bindE (oidc_get os_discovery) (\<lambda>d. case d of
       None \<Rightarrow> ret None
     | Some doc \<Rightarrow> bindE (oidc_io (ov_monotonic env)) (\<lambda>now. bindE (oidc_get os_discovery_at) (\<lambda>fetched.
         ret (if now - fetched < of_int (ov_cache_ttl env) then Some doc else None))))"

text \<open>\<open>wait\<close> is what the other tasks do until the lock is free.\<close>

definition get_discovery :: "'w oidc_env \<Rightarrow> ('w, unit) oidc_eff \<Rightarrow> ('w, (string \<times> jval) list) oidc_eff" where
  "get_discovery env wait =
     bindE (cached_discovery env) (\<lambda>c. case c of
       Some doc \<Rightarrow> ret doc
     | None \<Rightarrow> seqE wait (bindE (cached_discovery env) (\<lambda>c. case c of
         Some doc \<Rightarrow> ret doc
       | None \<Rightarrow>
           bindE (oidc_io (ov_fetch env (ov_issuer_url env @ ''/.well-known/openid-configuration''))) (\<lambda>doc.
           seqE (oidc_set (\<lambda>o'. o'\<lparr>os_discovery := Some doc\<rparr>))
           (bindE (oidc_io (ov_monotonic env)) (\<lambda>now.
             seqE (oidc_set (\<lambda>o'. o'\<lparr>os_discovery_at := now\<rparr>)) (ret doc)))))))"

definition cached_jwks :: "'w oidc_env \<Rightarrow> bool \<Rightarrow> ('w, (string \<times> jval) list option) oidc_eff" where
  "cached_jwks env force_refresh =
     (if force_refresh then ret None
      else bindE (oidc_get os_jwks) (\<lambda>d. case d of
        None \<Rightarrow> ret None
      | Some doc \<Rightarrow> bindE (oidc_io (ov_monotonic env)) (\<lambda>now. bindE (oidc_get os_jwks_at) (\<lambda>fetched.
          ret (if now - fetched < of_int (ov_cache_ttl env) then Some doc else None)))))"

text \<open>A \<open>jwks_uri\<close> that is truthy and no text is outside the model, and raises as the client would.\<close>

definition get_jwks :: "'w oidc_env \<Rightarrow> ('w, unit) oidc_eff \<Rightarrow> bool \<Rightarrow> ('w, (string \<times> jval) list) oidc_eff" where
  "get_jwks env wait force_refresh =
     bindE (cached_jwks env force_refresh) (\<lambda>c. case c of
       Some doc \<Rightarrow> ret doc
     | None \<Rightarrow>
     bindE (get_discovery env wait) (\<lambda>discovery.
     seqE wait (bindE (cached_jwks env force_refresh) (\<lambda>c. case c of
       Some doc \<Rightarrow> ret doc
     | None \<Rightarrow>
         (case obj_get discovery ''jwks_uri'' of
            JStr uri \<Rightarrow>
              if uri = [] then raise (InvalidTokenError (''OIDC discovery missing '' @ quoted ''jwks_uri''))
              else bindE (oidc_io (ov_fetch env uri)) (\<lambda>doc.
                seqE (oidc_set (\<lambda>o'. o'\<lparr>os_jwks := Some doc\<rparr>))
                (bindE (oidc_io (ov_monotonic env)) (\<lambda>now.
                  seqE (oidc_set (\<lambda>o'. o'\<lparr>os_jwks_at := now\<rparr>)) (ret doc))))
          | v \<Rightarrow> if falsy v then raise (InvalidTokenError (''OIDC discovery missing '' @ quoted ''jwks_uri''))
              else raise (PyError ''TypeError'' ''Invalid type for url''))))))"

fun find_key_in :: "jval list \<Rightarrow> string \<Rightarrow> exc + (string \<times> jval) list option" where
  "find_key_in [] kid = Inr None"
| "find_key_in (JObj key # keys) kid =
     (if obj_get key ''kid'' \<noteq> JStr kid then find_key_in keys kid
      else if obj_get key ''use'' \<notin> {JNull, JStr ''sig''} then find_key_in keys kid
      else Inr (Some key))"
| "find_key_in (v # keys) kid = Inl (PyError ''AttributeError'' ''object has no attribute get'')"

text \<open>\<open>jwks.get("keys", [])\<close>; a value that is no list of objects raises.\<close>

definition find_key :: "(string \<times> jval) list \<Rightarrow> string \<Rightarrow> exc + (string \<times> jval) list option" where
  "find_key jwks kid =
     (case map_of jwks ''keys'' of
        None \<Rightarrow> Inr None
      | Some (JList keys) \<Rightarrow> find_key_in keys kid
      | Some v \<Rightarrow> Inl (PyError ''TypeError'' ''object is not iterable''))"

definition algorithm_for_key :: "(jval \<Rightarrow> string) \<Rightarrow> (string \<times> jval) list \<Rightarrow> exc + string" where
  "algorithm_for_key repr key =
     (case obj_get key ''alg'' of
        JNull \<Rightarrow>
          if obj_get key ''kty'' = JStr ''RSA'' then Inr ''RS256''
          else if obj_get key ''kty'' = JStr ''EC'' then Inr ''ES256''
          else Inl (InvalidTokenError (''unsupported JWK key type: '' @ repr (obj_get key ''kty'')))
      | JStr alg \<Rightarrow>
          if alg \<in> set ALLOWED_ALGS then Inr alg
          else Inl (InvalidTokenError (''JWK algorithm not permitted: '' @ repr (JStr alg)))
      | JList xs \<Rightarrow> Inl (PyError ''TypeError'' ''unhashable type'')
      | JObj kvs \<Rightarrow> Inl (PyError ''TypeError'' ''unhashable type'')
      | v \<Rightarrow> Inl (InvalidTokenError (''JWK algorithm not permitted: '' @ repr v)))"

text \<open>\<open>list(v)\<close>, and the entries of a mapping that may be missing; the exceptions inside are the two the
  code turns into its own.\<close>

definition list_of :: "jval \<Rightarrow> jval list option" where
  "list_of v =
     (case v of
        JList xs \<Rightarrow> Some xs
      | JStr s \<Rightarrow> Some (map (\<lambda>c. JStr [c]) s)
      | JObj kvs \<Rightarrow> Some (map (JStr \<circ> fst) kvs)
      | _ \<Rightarrow> if falsy v then Some [] else None)"

definition roles_of :: "jval \<Rightarrow> jval list option" where
  "roles_of entry =
     (case (if falsy entry then JObj [] else entry) of
        JObj kvs \<Rightarrow> (let r = obj_get kvs ''roles'' in if falsy r then Some [] else list_of r)
      | _ \<Rightarrow> None)"

fun concat_roles :: "jval list \<Rightarrow> jval list option" where
  "concat_roles [] = Some []"
| "concat_roles (e # es) =
     (case roles_of e of None \<Rightarrow> None | Some rs \<Rightarrow> map_option (\<lambda>more. rs @ more) (concat_roles es))"

definition extract_claims :: "(string \<times> jval) list \<Rightarrow> exc + oidc_claims" where
  "extract_claims payload =
     (case obj_get payload ''sub'' of
        JStr sub \<Rightarrow>
          if sub = [] then Inl (InvalidTokenError (''token missing required '' @ quoted ''sub'' @ '' claim''))
          else (case (roles_of (obj_get payload ''realm_access''),
                  case (if falsy (obj_get payload ''resource_access'') then JObj [] else obj_get payload ''resource_access'') of
                    JObj kvs \<Rightarrow> concat_roles (map snd kvs) | _ \<Rightarrow> None) of
              (Some realm, Some client) \<Rightarrow> Inr
                \<lparr>oc_sub = sub, oc_email = obj_get payload ''email'',
                 oc_preferred_username = obj_get payload ''preferred_username'',
                 oc_realm_roles = realm, oc_client_roles = client\<rparr>
            | _ \<Rightarrow> Inl (InvalidTokenError ''token has malformed role claims''))
      | _ \<Rightarrow> Inl (InvalidTokenError (''token missing required '' @ quoted ''sub'' @ '' claim'')))"

definition resolve_key :: "'w oidc_env \<Rightarrow> ('w, unit) oidc_eff \<Rightarrow> string option \<Rightarrow> ('w, (string \<times> jval) list) oidc_eff" where
  "resolve_key env wait kid =
     (case kid of
        None \<Rightarrow> raise (InvalidTokenError (''token header missing '' @ quoted ''kid''))
      | Some k \<Rightarrow>
          bindE (get_jwks env wait False) (\<lambda>jwks. bindE (of_sum (find_key jwks k)) (\<lambda>found. case found of
            Some key \<Rightarrow> ret key
          | None \<Rightarrow>
              bindE (get_jwks env wait True) (\<lambda>jwks. bindE (of_sum (find_key jwks k)) (\<lambda>found. case found of
                Some key \<Rightarrow> ret key
              | None \<Rightarrow> raise (InvalidTokenError ''signing key not found in JWKS''))))))"

definition issuer_in :: "(jval \<Rightarrow> string) \<Rightarrow> 'w oidc_env \<Rightarrow> (string \<times> jval) list \<Rightarrow> string" where
  "issuer_in str env discovery =
     (case map_of discovery ''issuer'' of
        None \<Rightarrow> ov_issuer_url env | Some (JStr s) \<Rightarrow> s | Some v \<Rightarrow> str v)"

definition issuer_for_validation ::
  "(jval \<Rightarrow> string) \<Rightarrow> 'w oidc_env \<Rightarrow> ('w, unit) oidc_eff \<Rightarrow> ('w, string) oidc_eff" where
  "issuer_for_validation str env wait =
     bindE (get_discovery env wait) (\<lambda>d. ret (issuer_in str env d))"

text \<open>An exception of another class than those of PyJWT leaves as it is.\<close>

definition validate_token ::
  "(jval \<Rightarrow> string) \<Rightarrow> 'w oidc_env \<Rightarrow> ('w, unit) oidc_eff \<Rightarrow> string \<Rightarrow> bool \<Rightarrow> ('w, oidc_claims) oidc_eff" where
  "validate_token str env wait token verify_aud =
     (case ov_header_kid env token of
        Inl e \<Rightarrow> raise (if ov_jwt_error env e then InvalidTokenError ''malformed token header'' else e)
      | Inr kid \<Rightarrow>
          bindE (resolve_key env wait kid) (\<lambda>key.
          bindE (of_sum (algorithm_for_key str key)) (\<lambda>alg.
          bindE (issuer_for_validation str env wait) (\<lambda>issuer.
            case ov_decode env token key alg (if verify_aud then Some (ov_audience env) else None) issuer of
              Inl e \<Rightarrow> raise
                (if exc_name e = ''ExpiredSignatureError'' then InvalidTokenError ''token expired''
                 else if ov_jwt_error env e then InvalidTokenError ''token validation failed'' else e)
            | Inr payload \<Rightarrow> of_sum (extract_claims payload)))))"

section \<open>The gate of the MCP application\<close>

record scope =
  sp_type :: string
  sp_headers :: "(string \<times> string) list"

datatype gate_answer =
    Passed "oidc_claims option"
  | Refused int string

definition get_header :: "scope \<Rightarrow> string \<Rightarrow> string option" where
  "get_header sc name = map_option snd (find (\<lambda>(n, v). py_lower n = name) (sp_headers sc))"

text \<open>\<open>Passed\<close> hands the request to the application, with the claims in its state.\<close>

definition oidc_gate ::
  "string \<Rightarrow> (string \<Rightarrow> ('s, oidc_claims) eff) \<Rightarrow> scope \<Rightarrow> ('s, gate_answer) eff" where
  "oidc_gate operator_role validate sc =
     (if sp_type sc \<noteq> ''http'' then ret (Passed None)
      else case get_header sc ''authorization'' of
        None \<Rightarrow> ret (Refused 401 ''missing_bearer_token'')
      | Some header \<Rightarrow>
          if header = [] \<or> \<not> starts_with ''bearer '' (py_lower header)
          then ret (Refused 401 ''missing_bearer_token'')
          else bindE (catchE (bindE (validate (py_strip (drop 7 header))) (\<lambda>c. ret (Inr c)))
              (\<lambda>e. if exc_name e = ''InvalidTokenError'' then ret (Inl (Refused 401 ''invalid_token''))
                   else ret (Inl (Refused 500 ''auth_internal_error'')))) (\<lambda>outcome.
            case outcome of
              Inl answer \<Rightarrow> ret answer
            | Inr claims \<Rightarrow>
                if operator_role = [] then ret (Passed (Some claims))
                else bindE (of_sum (all_roles claims)) (\<lambda>roles.
                  if JStr operator_role \<notin> roles then ret (Refused 403 ''missing_operator_role'')
                  else ret (Passed (Some claims)))))"

section \<open>The mode of an MCP run\<close>

fun destructiveness :: "mode \<Rightarrow> nat" where
  "destructiveness Append = 0"
| "destructiveness Upsert = 1"
| "destructiveness Full = 2"

definition full_allowed :: "job \<Rightarrow> bool" where
  "full_allowed j \<longleftrightarrow> job_mcp_allow_full j \<and> job_full_scope j \<noteq> ScopeCollection"

definition ModeNotAllowedError :: "string \<Rightarrow> exc" where
  "ModeNotAllowedError m = PyError ''ModeNotAllowedError'' m"

definition resolve_trigger_mode :: "job \<Rightarrow> mode option \<Rightarrow> exc + mode" where
  "resolve_trigger_mode j requested =
     (case requested of
        None \<Rightarrow> if job_mode j = Full \<and> \<not> full_allowed j then Inr Upsert else Inr (job_mode j)
      | Some Full \<Rightarrow>
          if \<not> full_allowed j then Inl (ModeNotAllowedError (''job '' @ quoted (job_id j) @
            '' does not allow full reindexing over MCP (set mcp_allow_full: true, and full_scope must not be '' @
            quoted ''collection'' @ '')''))
          else Inr Full
      | Some m \<Rightarrow>
          if destructiveness m > destructiveness (job_mode j)
          then Inl (ModeNotAllowedError (''job '' @ quoted (job_id j) @ '' is configured as '' @
            quoted (mode_str (job_mode j)) @ ''; '' @ quoted (mode_str m) @ '' would be more destructive''))
          else Inr m)"

section \<open>Who gets through\<close>

lemma py_lower_append: "py_lower (a @ b) = py_lower a @ py_lower b"
  by (simp add: py_lower_def)

lemma lower_bearer_no_space:
  assumes "py_lower s = ''bearer''"
  shows "CHR '' '' \<notin> set s"
proof
  assume "CHR '' '' \<in> set s"
  then have "char_lower CHR '' '' \<in> set (py_lower s)" by (simp add: py_lower_def)
  moreover have "char_lower CHR '' '' = CHR '' ''" by code_simp
  ultimately have "CHR '' '' \<in> set (py_lower s)" by simp
  then show False unfolding assms by simp
qed

text \<open>The REST surface opens for its token only: the check passes exactly when a token is configured
  and the header is the word bearer, in any case, one space, and that token. Without a configured
  token nothing passes.\<close>
theorem check_bearer_exactly:
  "check_bearer st header = Inr () \<longleftrightarrow>
     set_api_token st \<noteq> [] \<and>
     (\<exists>scheme. py_lower scheme = ''bearer'' \<and> header = Some (scheme @ '' '' @ set_api_token st))"
proof
  assume l: "check_bearer st header = Inr ()"
  then obtain h where h: "header = Some h"
    by (cases header) (auto simp: check_bearer_def partition_space_def split: if_splits)
  let ?s = "takeWhile (\<lambda>c. c \<noteq> CHR '' '') h" and ?d = "dropWhile (\<lambda>c. c \<noteq> CHR '' '') h"
  from l have c: "set_api_token st \<noteq> []" "py_lower ?s = ''bearer''" "drop 1 ?d = set_api_token st"
    by (auto simp: check_bearer_def partition_space_def h dest: utf8_encode_inj split: if_splits)
  then obtain x where "?d = x # set_api_token st" by (cases ?d) auto
  moreover from this have "x = CHR '' ''" using hd_dropWhile [of "\<lambda>c. c \<noteq> CHR '' ''" h] by simp
  ultimately have "h = ?s @ '' '' @ set_api_token st" using takeWhile_dropWhile_id [of "\<lambda>c. c \<noteq> CHR '' ''" h] by simp
  with c h show "set_api_token st \<noteq> [] \<and>
     (\<exists>scheme. py_lower scheme = ''bearer'' \<and> header = Some (scheme @ '' '' @ set_api_token st))" by blast
next
  assume "set_api_token st \<noteq> [] \<and>
     (\<exists>scheme. py_lower scheme = ''bearer'' \<and> header = Some (scheme @ '' '' @ set_api_token st))"
  then obtain scheme where t: "set_api_token st \<noteq> []" and s: "py_lower scheme = ''bearer''"
    and h: "header = Some (scheme @ '' '' @ set_api_token st)" by blast
  from lower_bearer_no_space [OF s] have n: "\<forall>c \<in> set scheme. c \<noteq> CHR '' ''" by blast
  have "partition_space (scheme @ '' '' @ set_api_token st) = (scheme, set_api_token st)"
    using n by (simp add: partition_space_def takeWhile_append2 dropWhile_append2)
  then show "check_bearer st header = Inr ()" using t s by (simp add: check_bearer_def h)
qed

subsection \<open>What the provider has served\<close>

text \<open>A document the provider has served under an address; its discovery document stands under the
  well-known address of the configured issuer, and its keys under the address that document names.\<close>

definition served :: "'w oidc_env \<Rightarrow> string \<Rightarrow> (string \<times> jval) list \<Rightarrow> bool" where
  "served env url doc \<longleftrightarrow> (\<exists>w w'. ov_fetch env url w = (Inr doc, w'))"

definition provider_discovery :: "'w oidc_env \<Rightarrow> (string \<times> jval) list \<Rightarrow> bool" where
  "provider_discovery env = served env (ov_issuer_url env @ ''/.well-known/openid-configuration'')"

definition provider_keys :: "'w oidc_env \<Rightarrow> (string \<times> jval) list \<Rightarrow> bool" where
  "provider_keys env jwks \<longleftrightarrow>
     (\<exists>d uri. provider_discovery env d \<and> obj_get d ''jwks_uri'' = JStr uri \<and> served env uri jwks)"

text \<open>The token was verified by the library with a key of the provider's set, the one whose id the
  token names, the algorithm of that key, and the issuer of the provider's discovery document.\<close>

definition verified_by ::
  "(jval \<Rightarrow> string) \<Rightarrow> 'w oidc_env \<Rightarrow> string \<Rightarrow> string option \<Rightarrow> oidc_claims \<Rightarrow> bool" where
  "verified_by str env token aud claims \<longleftrightarrow>
     (\<exists>kid jwks key alg d payload.
        ov_header_kid env token = Inr (Some kid) \<and> provider_keys env jwks \<and>
        find_key jwks kid = Inr (Some key) \<and>
        algorithm_for_key str key = Inr alg \<and> alg \<in> set ALLOWED_ALGS \<and> provider_discovery env d \<and>
        ov_decode env token key alg aud (issuer_in str env d) = Inr payload \<and>
        extract_claims payload = Inr claims)"

text \<open>The caches hold what the provider has served: an invariant of every operation of the validator,
  whatever its outcome, and so of the other tasks that run while one waits for a lock.\<close>

definition genuine_cache :: "'w oidc_env \<Rightarrow> oidc_state \<Rightarrow> bool" where
  "genuine_cache env o' \<longleftrightarrow>
     (\<forall>d. os_discovery o' = Some d \<longrightarrow> provider_discovery env d) \<and>
     (\<forall>k. os_jwks o' = Some k \<longrightarrow> provider_keys env k)"

definition genuine_run :: "'w oidc_env \<Rightarrow> ('w, 'a) oidc_eff \<Rightarrow> ('a \<Rightarrow> bool) \<Rightarrow> bool" where
  "genuine_run env m Q \<longleftrightarrow>
     hoare (\<lambda>s. genuine_cache env (fst s)) m (\<lambda>x s. genuine_cache env (fst s) \<and> Q x)
       (\<lambda>e s. genuine_cache env (fst s))"

lemma genuine_ret [simp, intro!]: "Q x \<Longrightarrow> genuine_run env (ret x) Q"
  by (simp add: genuine_run_def hoare_def ret_def)

lemma genuine_raise [simp, intro!]: "genuine_run env (raise e) Q"
  by (simp add: genuine_run_def hoare_def raise_def)

lemma genuine_of_sum [intro!]: "(\<And>x. r = Inr x \<Longrightarrow> Q x) \<Longrightarrow> genuine_run env (of_sum r) Q"
  by (cases r) (simp_all add: genuine_run_def hoare_def of_sum_def)

lemma genuine_bindE:
  assumes m: "genuine_run env m R" and f: "\<And>x. R x \<Longrightarrow> genuine_run env (f x) Q"
  shows "genuine_run env (bindE m f) Q"
  unfolding genuine_run_def
proof (rule hoare_bindE)
  show "hoare (\<lambda>s. genuine_cache env (fst s)) m (\<lambda>x s. genuine_cache env (fst s) \<and> R x)
      (\<lambda>e s. genuine_cache env (fst s))"
    using m by (simp add: genuine_run_def)
  show "hoare (\<lambda>s. genuine_cache env (fst s) \<and> R x) (f x) (\<lambda>x s. genuine_cache env (fst s) \<and> Q x)
      (\<lambda>e s. genuine_cache env (fst s))" for x
    using f [of x] by (auto simp: genuine_run_def hoare_def)
qed

lemma genuine_seqE: "genuine_run env m (\<lambda>_. True) \<Longrightarrow> genuine_run env k Q \<Longrightarrow> genuine_run env (seqE m k) Q"
  unfolding seqE_def by (rule genuine_bindE)

lemma genuine_io: "(\<And>w x w'. m w = (Inr x, w') \<Longrightarrow> Q x) \<Longrightarrow> genuine_run env (oidc_io m) Q"
  by (fastforce simp: genuine_run_def hoare_def oidc_io_def split: prod.splits sum.splits)

lemma genuine_get: "(\<And>o'. genuine_cache env o' \<Longrightarrow> Q (f o')) \<Longrightarrow> genuine_run env (oidc_get f) Q"
  by (simp add: genuine_run_def hoare_def oidc_get_def)

lemma genuine_set:
  "(\<And>o'. genuine_cache env o' \<Longrightarrow> genuine_cache env (f o')) \<Longrightarrow> genuine_run env (oidc_set f) (\<lambda>_. True)"
  by (simp add: genuine_run_def hoare_def oidc_set_def)

lemma genuine_if: "genuine_run env m Q \<Longrightarrow> genuine_run env k Q \<Longrightarrow> genuine_run env (if b then m else k) Q"
  by simp

lemma genuine_conseq: "genuine_run env m R \<Longrightarrow> (\<And>x. R x \<Longrightarrow> Q x) \<Longrightarrow> genuine_run env m Q"
  unfolding genuine_run_def by (erule hoare_conseq) auto

lemma genuine_fetch: "genuine_run env (oidc_io (ov_fetch env url)) (served env url)"
  by (rule genuine_io) (auto simp: served_def)

lemma genuine_stamp:
  "genuine_run env (bindE (oidc_io (ov_monotonic env)) (\<lambda>now. seqE (oidc_set (\<lambda>o'. o'\<lparr>os_discovery_at := now\<rparr>)) (ret doc)))
     (\<lambda>d. d = doc)"
  "genuine_run env (bindE (oidc_io (ov_monotonic env)) (\<lambda>now. seqE (oidc_set (\<lambda>o'. o'\<lparr>os_jwks_at := now\<rparr>)) (ret doc)))
     (\<lambda>d. d = doc)"
  by (rule genuine_bindE [where R = "\<lambda>_. True"],
      rule genuine_io, simp, rule genuine_seqE, rule genuine_set, simp add: genuine_cache_def, blast)+

lemma genuine_cached:
  "genuine_run env (cached_discovery env) (\<lambda>c. \<forall>d. c = Some d \<longrightarrow> provider_discovery env d)"
  "genuine_run env (cached_jwks env force) (\<lambda>c. \<forall>d. c = Some d \<longrightarrow> provider_keys env d)"
proof -
  show "genuine_run env (cached_discovery env) (\<lambda>c. \<forall>d. c = Some d \<longrightarrow> provider_discovery env d)"
    unfolding cached_discovery_def
    by (rule genuine_bindE [where R = "\<lambda>c. \<forall>d. c = Some d \<longrightarrow> provider_discovery env d"])
      (auto simp: genuine_cache_def split: option.split if_splits
        intro!: genuine_get genuine_io genuine_bindE [where R = "\<lambda>_. True"])
  show "genuine_run env (cached_jwks env force) (\<lambda>c. \<forall>d. c = Some d \<longrightarrow> provider_keys env d)"
    unfolding cached_jwks_def
  proof (rule genuine_if)
    show "genuine_run env (ret None) (\<lambda>c. \<forall>d. c = Some d \<longrightarrow> provider_keys env d)" by simp
  qed (rule genuine_bindE [where R = "\<lambda>c. \<forall>d. c = Some d \<longrightarrow> provider_keys env d"],
      auto simp: genuine_cache_def split: option.split if_splits
        intro!: genuine_get genuine_io genuine_bindE [where R = "\<lambda>_. True"])
qed

lemma get_discovery_genuine:
  assumes wait: "genuine_run env wait (\<lambda>_. True)"
  shows "genuine_run env (get_discovery env wait) (provider_discovery env)"
proof -
  have store: "genuine_run env
      (bindE (oidc_io (ov_fetch env (ov_issuer_url env @ ''/.well-known/openid-configuration''))) (\<lambda>doc.
         seqE (oidc_set (\<lambda>o'. o'\<lparr>os_discovery := Some doc\<rparr>))
         (bindE (oidc_io (ov_monotonic env)) (\<lambda>now.
           seqE (oidc_set (\<lambda>o'. o'\<lparr>os_discovery_at := now\<rparr>)) (ret doc))))) (provider_discovery env)"
    by (rule genuine_bindE [OF genuine_fetch], rule genuine_seqE, rule genuine_set)
      (auto simp: genuine_cache_def provider_discovery_def intro: genuine_conseq [OF genuine_stamp(1)])
  show ?thesis
    unfolding get_discovery_def
    by (rule genuine_bindE [OF genuine_cached(1)])
      (auto split: option.split intro!: genuine_seqE [OF wait] genuine_bindE [OF genuine_cached(1)] store)
qed

lemma keys_served:
  "provider_discovery env d \<Longrightarrow> obj_get d ''jwks_uri'' = JStr uri \<Longrightarrow> served env uri jwks \<Longrightarrow> provider_keys env jwks"
  unfolding provider_keys_def by blast

lemma get_jwks_genuine:
  assumes wait: "genuine_run env wait (\<lambda>_. True)"
  shows "genuine_run env (get_jwks env wait force) (provider_keys env)"
proof -
  have store: "genuine_run env (bindE (oidc_io (ov_fetch env uri)) (\<lambda>doc.
      seqE (oidc_set (\<lambda>o'. o'\<lparr>os_jwks := Some doc\<rparr>))
      (bindE (oidc_io (ov_monotonic env)) (\<lambda>now.
        seqE (oidc_set (\<lambda>o'. o'\<lparr>os_jwks_at := now\<rparr>)) (ret doc))))) (provider_keys env)"
    if "provider_discovery env d" and "obj_get d ''jwks_uri'' = JStr uri" for d uri
    by (rule genuine_bindE [OF genuine_fetch], rule genuine_seqE, rule genuine_set)
      (use that in \<open>auto simp: genuine_cache_def keys_served intro!: genuine_conseq [OF genuine_stamp(2)]\<close>)
  show ?thesis
    unfolding get_jwks_def
    by (rule genuine_bindE [OF genuine_cached(2)])
      (auto split: option.split jval.split
        intro!: genuine_seqE [OF wait] genuine_bindE [OF genuine_cached(2)]
          genuine_bindE [OF get_discovery_genuine [OF wait]] store)
qed

lemma algorithm_allowed: "algorithm_for_key repr key = Inr alg \<Longrightarrow> alg \<in> set ALLOWED_ALGS"
  by (auto simp: algorithm_for_key_def ALLOWED_ALGS_def split: jval.splits if_splits)

lemma resolve_key_genuine:
  assumes wait: "genuine_run env wait (\<lambda>_. True)"
  shows "genuine_run env (resolve_key env wait kid)
    (\<lambda>key. \<exists>k jwks. kid = Some k \<and> provider_keys env jwks \<and> find_key jwks k = Inr (Some key))"
proof (cases kid)
  case (Some k)
  have look: "genuine_run env (of_sum (find_key jwks k)) (\<lambda>found. find_key jwks k = Inr found)" for jwks
    by (rule genuine_of_sum) simp
  show ?thesis
    unfolding resolve_key_def Some option.case
    by (rule genuine_bindE [OF get_jwks_genuine [OF wait]], rule genuine_bindE [OF look])
      (auto split: option.split
        intro!: genuine_bindE [OF get_jwks_genuine [OF wait]] genuine_bindE [OF look])
qed (auto simp: resolve_key_def)

lemma validate_token_genuine:
  assumes wait: "genuine_run env wait (\<lambda>_. True)"
  shows "genuine_run env (validate_token str env wait token verify_aud)
    (verified_by str env token (if verify_aud then Some (ov_audience env) else None))"
proof (cases "ov_header_kid env token")
  case (Inr kid)
  let ?aud = "if verify_aud then Some (ov_audience env) else None"
  have issuer: "genuine_run env (issuer_for_validation str env wait)
      (\<lambda>i. \<exists>d. provider_discovery env d \<and> i = issuer_in str env d)"
    unfolding issuer_for_validation_def
    by (rule genuine_bindE [OF get_discovery_genuine [OF wait]]) auto
  have alg: "genuine_run env (of_sum (algorithm_for_key str key)) (\<lambda>alg. algorithm_for_key str key = Inr alg)" for key
    by (rule genuine_of_sum) simp
  show ?thesis
    unfolding validate_token_def Inr sum.case
  proof (rule genuine_bindE [OF resolve_key_genuine [OF wait]], rule genuine_bindE [OF alg],
      rule genuine_bindE [OF issuer])
    fix key alg issuer
    assume k: "\<exists>k jwks. kid = Some k \<and> provider_keys env jwks \<and> find_key jwks k = Inr (Some key)"
      and a: "algorithm_for_key str key = Inr alg"
      and i: "\<exists>d. provider_discovery env d \<and> issuer = issuer_in str env d"
    have v: "verified_by str env token ?aud claims"
      if "ov_decode env token key alg ?aud issuer = Inr payload" and "extract_claims payload = Inr claims" for payload claims
      unfolding verified_by_def using k a i Inr algorithm_allowed [OF a] that by blast
    show "genuine_run env (case ov_decode env token key alg ?aud issuer of
        Inl e \<Rightarrow> raise
          (if exc_name e = ''ExpiredSignatureError'' then InvalidTokenError ''token expired''
           else if ov_jwt_error env e then InvalidTokenError ''token validation failed'' else e)
      | Inr payload \<Rightarrow> of_sum (extract_claims payload)) (verified_by str env token ?aud)"
    proof (cases "ov_decode env token key alg ?aud issuer")
      case (Inr payload)
      show ?thesis unfolding Inr sum.case by (rule genuine_of_sum) (rule v [OF Inr])
    qed simp
  qed
qed (auto simp: validate_token_def)

text \<open>The other tasks of the event loop, while one waits for a lock of the validator: any sequence of
  validations, of reads of the discovery document or of the keys, each of which waits in the same
  way and ends as it may, and of steps that do not touch the validator.\<close>

definition ended :: "('s, 'a) eff \<Rightarrow> ('s, unit) eff" where
  "ended m s = (Inr (), snd (m s))"

inductive other_tasks :: "(jval \<Rightarrow> string) \<Rightarrow> 'w oidc_env \<Rightarrow> ('w, unit) oidc_eff \<Rightarrow> bool"
  for str :: "jval \<Rightarrow> string" and env :: "'w oidc_env" where
  ot_none: "other_tasks str env (ret ())"
| ot_else: "other_tasks str env w \<Longrightarrow> other_tasks str env (seqE w (ended (oidc_io (m :: ('w, unit) eff))))"
| ot_validate: "other_tasks str env w \<Longrightarrow> other_tasks str env v \<Longrightarrow>
    other_tasks str env (seqE w (ended (validate_token str env v token verify_aud)))"
| ot_discovery: "other_tasks str env w \<Longrightarrow> other_tasks str env v \<Longrightarrow>
    other_tasks str env (seqE w (ended (get_discovery env v)))"
| ot_jwks: "other_tasks str env w \<Longrightarrow> other_tasks str env v \<Longrightarrow>
    other_tasks str env (seqE w (ended (get_jwks env v force)))"

lemma genuine_ended: "genuine_run env m Q \<Longrightarrow> genuine_run env (ended m) (\<lambda>_. True)"
  unfolding genuine_run_def hoare_def ended_def
  by (simp split: prod.splits sum.splits) (metis Inl_Inr_False prod.collapse sum.exhaust)

lemma other_tasks_genuine: "other_tasks str env w \<Longrightarrow> genuine_run env w (\<lambda>_. True)"
proof (induction rule: other_tasks.induct)
  case (ot_else w m)
  then show ?case by (intro genuine_seqE genuine_ended [OF genuine_io [where Q = "\<lambda>_. True"]]) simp_all
next
  case (ot_validate w v token verify_aud)
  then show ?case by (intro genuine_seqE genuine_ended [OF validate_token_genuine])
next
  case (ot_discovery w v)
  then show ?case by (intro genuine_seqE genuine_ended [OF get_discovery_genuine])
next
  case (ot_jwks w v force)
  then show ?case by (intro genuine_seqE genuine_ended [OF get_jwks_genuine])
qed auto

lemma gate_outcome:
  assumes "catchE (bindE m (\<lambda>c. ret (Inr c))) (\<lambda>e. if P e then ret (Inl a) else ret (Inl b)) s = (Inr x, u)"
  shows "(\<exists>claims. x = Inr claims \<and> m s = (Inr claims, u)) \<or> x = Inl a \<or> x = Inl b"
proof -
  obtain r v where m: "m s = (r, v)" by fastforce
  then show ?thesis using assms by (cases r) (auto simp: catchE_def bindE_def ret_def split: if_splits)
qed

text \<open>C22: An HTTP request reaches the MCP application only with a token that the provider vouches for.
  Let the caches of the validator hold documents the provider has served (as the empty ones of a new
  validator do), and let any other tasks use the validator while this one waits. When the gate lets
  the request through, the bearer token of its header was verified by the library with a key of a
  key set that the provider served under the address in its discovery document, the key whose id the
  token names, with an asymmetric algorithm taken from that key (an HMAC or \<open>none\<close> token cannot
  pass), the configured audience and the issuer of the provider's discovery document; its claims are
  the ones handed on, and they contain the operator role if one is configured. The caches hold
  served documents afterwards.\<close>
theorem mcp_gate_sound:
  assumes "sp_type sc = ''http''" and "other_tasks str env wait" and "genuine_cache env (fst s)"
    and "oidc_gate operator_role (\<lambda>token. validate_token str env wait token True) sc s = (Inr (Passed c), t)"
  shows "genuine_cache env (fst t) \<and>
    (\<exists>header claims. get_header sc ''authorization'' = Some header \<and>
       starts_with ''bearer '' (py_lower header) \<and> c = Some claims \<and>
       verified_by str env (py_strip (drop 7 header)) (Some (ov_audience env)) claims \<and>
       (operator_role = [] \<or> JStr operator_role \<in> set (oc_realm_roles claims @ oc_client_roles claims)))"
proof -
  obtain header where header: "get_header sc ''authorization'' = Some header"
    "header \<noteq> []" "starts_with ''bearer '' (py_lower header)"
    using assms by (auto simp: oidc_gate_def split: option.splits if_splits)
  define token where "token = py_strip (drop 7 header)"
  let ?v = "validate_token str env wait token True"
  let ?rest = "\<lambda>outcome. case outcome of
      Inl answer \<Rightarrow> ret answer
    | Inr claims \<Rightarrow>
        if operator_role = [] then ret (Passed (Some claims))
        else bindE (of_sum (all_roles claims)) (\<lambda>roles.
          if JStr operator_role \<notin> roles then ret (Refused 403 ''missing_operator_role'')
          else ret (Passed (Some claims)))"
  have "bindE (catchE (bindE ?v (\<lambda>c. ret (Inr c)))
      (\<lambda>e. if exc_name e = ''InvalidTokenError'' then ret (Inl (Refused 401 ''invalid_token''))
           else ret (Inl (Refused 500 ''auth_internal_error'')))) ?rest s = (Inr (Passed c), t)"
    using assms header by (simp add: oidc_gate_def token_def)
  then obtain outcome u where out: "catchE (bindE ?v (\<lambda>c. ret (Inr c)))
      (\<lambda>e. if exc_name e = ''InvalidTokenError'' then ret (Inl (Refused 401 ''invalid_token''))
           else ret (Inl (Refused 500 ''auth_internal_error''))) s = (Inr outcome, u)"
    and rest_out: "?rest outcome u = (Inr (Passed c), t)"
    unfolding bindE_Inr [of _ ?rest] by blast
  from gate_outcome [OF out] rest_out obtain claims where o: "outcome = Inr claims" and v: "?v s = (Inr claims, u)"
    by auto
  from rest_out have rest: "(if operator_role = [] then ret (Passed (Some claims))
      else bindE (of_sum (all_roles claims)) (\<lambda>roles.
        if JStr operator_role \<notin> roles then ret (Refused 403 ''missing_operator_role'')
        else ret (Passed (Some claims)))) u = (Inr (Passed c), t)" by (simp add: o)
  from rest have "c = Some claims \<and> t = u \<and>
      (operator_role = [] \<or> JStr operator_role \<in> set (oc_realm_roles claims @ oc_client_roles claims))"
    by (auto simp: eff_InrE all_roles_def Let_def split: if_splits)
  moreover have "genuine_cache env (fst u) \<and> verified_by str env token (Some (ov_audience env)) claims"
    using hoare_InrD [OF validate_token_genuine [OF other_tasks_genuine [OF assms(2)], unfolded genuine_run_def]
        assms(3) v] by simp
  ultimately show ?thesis using header by (auto simp: token_def)
qed

text \<open>What an MCP caller may trigger: the mode is never more destructive than the job's own, unless it
  is an explicit full run of a job that opted in; a full run always needs the opt-in and the scope of
  the job; append is never refused; and without a request there is no refusal.\<close>
theorem trigger_mode_bounded:
  "(\<forall>m. resolve_trigger_mode j requested = Inr m \<longrightarrow>
      (m = Full \<longrightarrow> job_mcp_allow_full j \<and> job_full_scope j \<noteq> ScopeCollection) \<and>
      (destructiveness m \<le> destructiveness (job_mode j) \<or> requested = Some Full)) \<and>
   resolve_trigger_mode j (Some Append) = Inr Append \<and>
   (\<exists>m. resolve_trigger_mode j None = Inr m)"
proof -
  have "(m = Full \<longrightarrow> job_mcp_allow_full j \<and> job_full_scope j \<noteq> ScopeCollection) \<and>
      (destructiveness m \<le> destructiveness (job_mode j) \<or> requested = Some Full)"
    if "resolve_trigger_mode j requested = Inr m" for m
    using that
    by (cases requested; cases "the requested"; cases "job_mode j")
      (auto simp: resolve_trigger_mode_def full_allowed_def split: if_splits)
  moreover have "resolve_trigger_mode j (Some Append) = Inr Append" by (simp add: resolve_trigger_mode_def)
  moreover have "\<exists>m. resolve_trigger_mode j None = Inr m" by (auto simp: resolve_trigger_mode_def)
  ultimately show ?thesis by blast
qed

text \<open>The opt-in lifts an append job to a full run: with \<open>mcp_allow_full\<close> set, an MCP caller may
  trigger a full run of a job configured as append or upsert, two steps or one up the ladder that no
  caller is meant to climb.\<close>
theorem mcp_lifts_append_to_full:
  "resolve_trigger_mode (sample_job\<lparr>job_mode := Append, job_mcp_allow_full := True\<rparr>) (Some Full) = Inr Full \<and>
   destructiveness Append < destructiveness Full"
  by (simp add: resolve_trigger_mode_def full_allowed_def)

section \<open>Witnesses\<close>

definition sample_oidc :: "unit oidc_env" where
  "sample_oidc = \<lparr>ov_header_kid = (\<lambda>t. Inr (Some ''k'')),
     ov_decode = (\<lambda>t key alg aud iss. if alg = ''RS256'' then Inr [(''sub'', JStr ''u''),
       (''realm_access'', JObj [(''roles'', JList [JStr ''operator''])])] else Inl (PyError ''PyJWTError'' [])),
     ov_jwt_error = (\<lambda>e. exc_name e = ''PyJWTError''),
     ov_fetch = (\<lambda>url. ret (if url = ''j'' then [(''keys'', JList [JObj [(''kid'', JStr ''k''), (''kty'', JStr ''RSA'')]])]
       else [(''jwks_uri'', JStr ''j'')])),
     ov_monotonic = ret 0, ov_issuer_url = ''i'', ov_audience = ''aud'', ov_cache_ttl = 3600\<rparr>"

definition sample_scope :: scope where
  "sample_scope = \<lparr>sp_type = ''http'', sp_headers = [(''Authorization'', ''Bearer t'')]\<rparr>"

definition fresh_oidc :: oidc_state where
  "fresh_oidc = \<lparr>os_discovery = None, os_discovery_at = 0, os_jwks = None, os_jwks_at = 0\<rparr>"

definition sample_claims :: oidc_claims where
  "sample_claims = \<lparr>oc_sub = ''u'', oc_email = JNull, oc_preferred_username = JNull,
     oc_realm_roles = [JStr ''operator''], oc_client_roles = []\<rparr>"

lemma sample_gate:
  "\<exists>t. oidc_gate ''operator'' (\<lambda>token. validate_token (\<lambda>v. []) sample_oidc (ret ()) token True) sample_scope
     (fresh_oidc, ()) = (Inr (Passed (Some sample_claims)), t)"
proof -
  have h: "get_header sample_scope ''authorization'' = Some ''Bearer t''" by code_simp
  have b: "starts_with ''bearer '' (py_lower ''Bearer t'')" by code_simp
  show ?thesis
    unfolding oidc_gate_def h option.case
    by (simp add: sample_scope_def b)
      (simp add: validate_token_def sample_oidc_def resolve_key_def get_jwks_def cached_jwks_def get_discovery_def
        cached_discovery_def fresh_oidc_def eff_defs oidc_get_def oidc_io_def oidc_set_def find_key_def obj_get_def
        algorithm_for_key_def issuer_for_validation_def extract_claims_def roles_of_def list_of_def all_roles_def
        sample_claims_def Let_def)
qed

text \<open>The sample provider serves its keys under the address of its discovery document, and another task
  validates a token of its own while the lock is held.\<close>

lemma fresh_genuine: "genuine_cache env fresh_oidc"
  by (simp add: genuine_cache_def fresh_oidc_def)

theorem mcp_gate_sound_witness:
  "\<exists>claims. Some sample_claims = Some claims \<and> verified_by (\<lambda>v. []) sample_oidc ''t'' (Some ''aud'') claims \<and>
     JStr ''operator'' \<in> set (oc_realm_roles claims @ oc_client_roles claims)"
proof -
  have h: "sp_type sample_scope = ''http''" by (simp add: sample_scope_def)
  have g: "get_header sample_scope ''authorization'' = Some ''Bearer t''" by code_simp
  have p: "py_strip (drop 7 ''Bearer t'') = ''t''" by code_simp
  obtain t where t: "oidc_gate ''operator'' (\<lambda>token. validate_token (\<lambda>v. []) sample_oidc (ret ()) token True) sample_scope
     (fresh_oidc, ()) = (Inr (Passed (Some sample_claims)), t)" using sample_gate by blast
  from mcp_gate_sound [OF h ot_none _ t] g p show ?thesis by (simp add: sample_oidc_def fresh_genuine)
qed

theorem trigger_mode_bounded_witness:
  "resolve_trigger_mode (sample_job\<lparr>job_mode := Full\<rparr>) None = Inr Upsert \<and>
   destructiveness Upsert \<le> destructiveness Full \<and>
   resolve_trigger_mode (sample_job\<lparr>job_mode := Full\<rparr>) (Some Append) = Inr Append"
proof -
  have m: "resolve_trigger_mode (sample_job\<lparr>job_mode := Full\<rparr>) None = Inr Upsert"
    by (simp add: resolve_trigger_mode_def full_allowed_def sample_job_def)
  with trigger_mode_bounded [of "sample_job\<lparr>job_mode := Full\<rparr>" None] show ?thesis by auto
qed

end
