(* ===== verification/Scheduler.thy ===== *)
theory Scheduler
  imports Catalog
begin

text \<open>
  The scheduler, \<open>src/src/scheduler/aps.py\<close> and \<open>src/src/scheduler/startup.py\<close>: the diff of the
  catalog into APScheduler's job store, pausing and resuming, and the runs to catch up on at
  startup. APScheduler is the record \<open>aps\<close>, with what the code relies on as \<open>aps_laws\<close>.
\<close>

section \<open>APScheduler\<close>

text \<open>A trigger with its timezone and its jitter; an entry of the job store: the trigger, the job it
  passes to the engine, the misfire grace, and whether it is paused.\<close>

datatype job_trigger =
    CronSpec string string "nat option"
  | IntervalSpec nat string "nat option"

record entry =
  ae_trigger :: job_trigger
  ae_job :: job
  ae_misfire :: nat
  ae_paused :: bool

record 's aps =
  ap_ids :: "'s \<Rightarrow> string list"
  ap_entry :: "'s \<Rightarrow> string \<Rightarrow> entry option"
  ap_next :: "'s \<Rightarrow> string \<Rightarrow> string option"
  ap_remove :: "string \<Rightarrow> 's \<Rightarrow> 's"
  ap_modify :: "string \<Rightarrow> job \<Rightarrow> 's \<Rightarrow> 's"
  ap_add :: "string \<Rightarrow> job_trigger \<Rightarrow> job \<Rightarrow> nat \<Rightarrow> 's \<Rightarrow> 's"
  ap_pause :: "string \<Rightarrow> 's \<Rightarrow> 's"
  ap_resume :: "string \<Rightarrow> 's \<Rightarrow> 's"
  ap_trigger_error :: "job_trigger \<Rightarrow> exc option"

definition aps_laws :: "'s aps \<Rightarrow> bool" where
  "aps_laws a \<longleftrightarrow>
     (\<forall>s. set (ap_ids a s) = dom (ap_entry a s)) \<and>
     (\<forall>s i. ap_entry a (ap_remove a i s) = (ap_entry a s)(i := None)) \<and>
     (\<forall>s i j. ap_entry a (ap_modify a i j s) = (ap_entry a s)(i := map_option (\<lambda>e. e\<lparr>ae_job := j\<rparr>) (ap_entry a s i))) \<and>
     (\<forall>s i t j m. ap_entry a (ap_add a i t j m s) =
        (ap_entry a s)(i \<mapsto> \<lparr>ae_trigger = t, ae_job = j, ae_misfire = m, ae_paused = False\<rparr>)) \<and>
     (\<forall>s i. ap_entry a (ap_pause a i s) = (ap_entry a s)(i := map_option (\<lambda>e. e\<lparr>ae_paused := True\<rparr>) (ap_entry a s i))) \<and>
     (\<forall>s i. ap_entry a (ap_resume a i s) = (ap_entry a s)(i := map_option (\<lambda>e. e\<lparr>ae_paused := False\<rparr>) (ap_entry a s i)))"

section \<open>The diff\<close>

record 's scheduler =
  sd_applied :: "string \<rightharpoonup> schedule_config"
  sd_aps :: 's

definition jitter_of :: "schedule_config \<Rightarrow> nat option" where
  "jitter_of s = (if sch_jitter_seconds s = 0 then None else Some (sch_jitter_seconds s))"

definition trigger_spec :: "settings \<Rightarrow> schedule_config \<Rightarrow> job_trigger option" where
  "trigger_spec st s =
     (let tz = (case or_else (sch_timezone s) None of Some z \<Rightarrow> z | None \<Rightarrow> set_timezone st) in
      case sch_cron s of
        Some c \<Rightarrow> Some (CronSpec c tz (jitter_of s))
      | None \<Rightarrow> (case every_seconds s of
            Some n \<Rightarrow> Some (IntervalSpec n tz (jitter_of s))
          | None \<Rightarrow> None))"

text \<open>Building a trigger parses the expression and looks the timezone up.\<close>

definition build_trigger :: "'s aps \<Rightarrow> settings \<Rightarrow> job \<Rightarrow> exc + job_trigger option" where
  "build_trigger a st j =
     (case trigger_spec st (job_schedule j) of
        None \<Rightarrow> Inr None
      | Some t \<Rightarrow> (case ap_trigger_error a t of Some e \<Rightarrow> Inl e | None \<Rightarrow> Inr (Some t)))"

definition scheduled :: "job \<Rightarrow> bool" where
  "scheduled j \<longleftrightarrow> job_enabled j \<and> \<not> is_manual_only (job_schedule j)"

text \<open>The dictionary \<open>desired\<close>; the ids of a catalog are distinct, so it is the list of these jobs.\<close>

definition desired :: "job list \<Rightarrow> job list" where
  "desired js = filter scheduled js"

definition unschedule :: "'s aps \<Rightarrow> job list \<Rightarrow> ('s scheduler, unit) eff" where
  "unschedule a js =
     bindE (gets (\<lambda>s. ap_ids a (sd_aps s))) (\<lambda>ids.
       for_each (filter (\<lambda>i. i \<notin> job_id ` set (desired js)) ids)
         (\<lambda>i. modify (\<lambda>s. s\<lparr>sd_aps := ap_remove a i (sd_aps s)\<rparr>)))"

definition schedule_one :: "'s aps \<Rightarrow> settings \<Rightarrow> job \<Rightarrow> ('s scheduler, unit) eff" where
  "schedule_one a st j =
     bindE (gets id) (\<lambda>s.
       if ap_entry a (sd_aps s) (job_id j) \<noteq> None \<and> sd_applied s (job_id j) = Some (job_schedule j)
       then modify (\<lambda>s. s\<lparr>sd_aps := ap_modify a (job_id j) j (sd_aps s)\<rparr>)
       else bindE (of_sum (build_trigger a st j)) (\<lambda>t. case t of
         None \<Rightarrow> ret ()
       | Some trig \<Rightarrow> modify (\<lambda>s. s\<lparr>
           sd_aps := ap_add a (job_id j) trig j (sch_misfire_grace_seconds (job_schedule j)) (sd_aps s),
           sd_applied := (sd_applied s)(job_id j \<mapsto> job_schedule j)\<rparr>)))"

definition apply_catalog :: "'s aps \<Rightarrow> settings \<Rightarrow> job list \<Rightarrow> ('s scheduler, unit) eff" where
  "apply_catalog a st js =
     seqE (unschedule a js)
    (seqE (modify (\<lambda>s. s\<lparr>sd_applied := (\<lambda>i. if i \<in> job_id ` set (desired js) then sd_applied s i else None)\<rparr>))
          (for_each (desired js) (schedule_one a st)))"

definition scheduled_ids :: "'s aps \<Rightarrow> 's scheduler \<Rightarrow> string set" where
  "scheduled_ids a s = set (ap_ids a (sd_aps s))"

definition next_run_time :: "'s aps \<Rightarrow> 's scheduler \<Rightarrow> string \<Rightarrow> string option" where
  "next_run_time a s i = (if ap_entry a (sd_aps s) i = None then None else ap_next a (sd_aps s) i)"

definition pause_scheduled :: "'s aps \<Rightarrow> string \<Rightarrow> ('s scheduler, bool) eff" where
  "pause_scheduled a i =
     bindE (gets (\<lambda>s. ap_entry a (sd_aps s) i)) (\<lambda>e.
       if e = None then ret False
       else seqE (modify (\<lambda>s. s\<lparr>sd_aps := ap_pause a i (sd_aps s)\<rparr>)) (ret True))"

definition resume_scheduled :: "'s aps \<Rightarrow> string \<Rightarrow> ('s scheduler, bool) eff" where
  "resume_scheduled a i =
     bindE (gets (\<lambda>s. ap_entry a (sd_aps s) i)) (\<lambda>e.
       if e = None then ret False
       else seqE (modify (\<lambda>s. s\<lparr>sd_aps := ap_resume a i (sd_aps s)\<rparr>)) (ret True))"

section \<open>Runs at startup\<close>

text \<open>The seconds between two firings of a cron trigger after a moment, and the seconds from a stored
  timestamp to a moment, are APScheduler's and \<open>datetime\<close>'s.\<close>

record startup_lib =
  su_cron_gap :: "string \<Rightarrow> string \<Rightarrow> string \<Rightarrow> rat option"
  su_elapsed :: "string \<Rightarrow> string \<Rightarrow> exc + rat"

definition nominal_interval_seconds ::
  "'s aps \<Rightarrow> startup_lib \<Rightarrow> settings \<Rightarrow> string \<Rightarrow> job \<Rightarrow> exc + rat option" where
  "nominal_interval_seconds a lib st moment j =
     (case every_seconds (job_schedule j) of
        Some n \<Rightarrow> Inr (Some (of_nat n))
      | None \<Rightarrow>
          (case build_trigger a st j of
             Inl e \<Rightarrow> Inl e
           | Inr (Some (CronSpec c tz jitter)) \<Rightarrow> Inr (su_cron_gap lib c tz moment)
           | Inr (Some (IntervalSpec n tz jitter)) \<Rightarrow> Inr (Some (of_nat n))
           | Inr None \<Rightarrow> Inr None))"

definition MISSED_FACTOR :: rat where
  "MISSED_FACTOR = 3 / 2"

definition due_at_startup ::
  "'s aps \<Rightarrow> startup_lib \<Rightarrow> db \<Rightarrow> settings \<Rightarrow> string \<Rightarrow> job \<Rightarrow> exc + bool" where
  "due_at_startup a lib db st moment j =
     (if \<not> scheduled j then Inr False
      else case sch_run_on_startup (job_schedule j) of
        Never \<Rightarrow> Inr False
      | Always \<Rightarrow> Inr True
      | IfMissed \<Rightarrow>
          (case nominal_interval_seconds a lib st moment j of
             Inl e \<Rightarrow> Inl e
           | Inr None \<Rightarrow> Inr False
           | Inr (Some interval) \<Rightarrow>
               (case last_successful_run db (job_id j) of
                  None \<Rightarrow> Inr True
                | Some last_run \<Rightarrow> (case run_finished_at last_run of
                    None \<Rightarrow> Inr True
                  | Some finished \<Rightarrow>
                      (case su_elapsed lib finished moment of
                         Inl e \<Rightarrow> Inl e
                       | Inr elapsed \<Rightarrow> Inr (elapsed > MISSED_FACTOR * interval))))))"

fun jobs_to_run_on_startup ::
  "'s aps \<Rightarrow> startup_lib \<Rightarrow> db \<Rightarrow> settings \<Rightarrow> string \<Rightarrow> job list \<Rightarrow> exc + job list" where
  "jobs_to_run_on_startup a lib db st moment [] = Inr []"
| "jobs_to_run_on_startup a lib db st moment (j # js) =
     (case due_at_startup a lib db st moment j of
        Inl e \<Rightarrow> Inl e
      | Inr due \<Rightarrow> map_sum id (\<lambda>more. if due then j # more else more) (jobs_to_run_on_startup a lib db st moment js))"

section \<open>What a reload leaves in the scheduler\<close>

text \<open>The entry a job of the catalog gets: the live one with the new definition when its schedule did
  not change, a new one otherwise.\<close>

definition new_entry :: "job_trigger \<Rightarrow> job \<Rightarrow> entry" where
  "new_entry t j = \<lparr>ae_trigger = t, ae_job = j, ae_misfire = sch_misfire_grace_seconds (job_schedule j), ae_paused = False\<rparr>"

definition entry_after ::
  "settings \<Rightarrow> entry option \<Rightarrow> schedule_config option \<Rightarrow> job \<Rightarrow> entry option" where
  "entry_after st live applied j =
     (case live of
        Some e \<Rightarrow> if applied = Some (job_schedule j) then Some (e\<lparr>ae_job := j\<rparr>)
          else map_option (\<lambda>t. new_entry t j) (trigger_spec st (job_schedule j))
      | None \<Rightarrow> map_option (\<lambda>t. new_entry t j) (trigger_spec st (job_schedule j)))"

definition triggers_build :: "'s aps \<Rightarrow> settings \<Rightarrow> job list \<Rightarrow> bool" where
  "triggers_build a st js \<longleftrightarrow> list_all (\<lambda>j. \<exists>t. build_trigger a st j = Inr (Some t)) (desired js)"

lemma build_trigger_SomeD: "build_trigger a st j = Inr (Some t) \<Longrightarrow> trigger_spec st (job_schedule j) = Some t"
  by (auto simp: build_trigger_def split: option.splits)

lemma seqE_modify: "seqE (modify f) m s = m (f s)"
  by (simp add: seqE_def bindE_def modify_def)

lemma for_each_remove:
  assumes "aps_laws a"
  shows "\<exists>s'. for_each is (\<lambda>i. modify (\<lambda>s. s\<lparr>sd_aps := ap_remove a i (sd_aps s)\<rparr>)) s = (Inr (), s') \<and>
    sd_applied s' = sd_applied s \<and>
    ap_entry a (sd_aps s') = (\<lambda>i. if i \<in> set is then None else ap_entry a (sd_aps s) i)"
proof (induction "is" arbitrary: s)
  case (Cons i "is")
  let ?s = "s\<lparr>sd_aps := ap_remove a i (sd_aps s)\<rparr>"
  obtain s' where "for_each is (\<lambda>i. modify (\<lambda>s. s\<lparr>sd_aps := ap_remove a i (sd_aps s)\<rparr>)) ?s = (Inr (), s')"
    "sd_applied s' = sd_applied ?s" "ap_entry a (sd_aps s') = (\<lambda>i. if i \<in> set is then None else ap_entry a (sd_aps ?s) i)"
    using Cons by blast
  moreover have "ap_entry a (sd_aps ?s) = (ap_entry a (sd_aps s))(i := None)" using assms by (simp add: aps_laws_def)
  ultimately show ?case by (intro exI [of _ s']) (auto simp: seqE_modify fun_eq_iff)
qed (simp add: ret_def)

lemma unschedule_entries:
  assumes "aps_laws a"
  shows "\<exists>s'. unschedule a js s = (Inr (), s') \<and> sd_applied s' = sd_applied s \<and>
    ap_entry a (sd_aps s') = (\<lambda>i. if i \<in> job_id ` set (desired js) then ap_entry a (sd_aps s) i else None)"
proof -
  let ?ids = "filter (\<lambda>i. i \<notin> job_id ` set (desired js)) (ap_ids a (sd_aps s))"
  obtain s' where s': "for_each ?ids (\<lambda>i. modify (\<lambda>s. s\<lparr>sd_aps := ap_remove a i (sd_aps s)\<rparr>)) s = (Inr (), s')"
    "sd_applied s' = sd_applied s"
    "ap_entry a (sd_aps s') = (\<lambda>i. if i \<in> set ?ids then None else ap_entry a (sd_aps s) i)"
    using for_each_remove [OF assms] by blast
  have "set (ap_ids a (sd_aps s)) = dom (ap_entry a (sd_aps s))" using assms by (simp add: aps_laws_def)
  with s' show ?thesis
    by (intro exI [of _ s']) (auto simp: unschedule_def bindE_def gets_def fun_eq_iff)
qed

lemma schedule_one_entry:
  assumes "aps_laws a" and "build_trigger a st j = Inr (Some t)"
  shows "\<exists>s'. schedule_one a st j s = (Inr (), s') \<and>
    ap_entry a (sd_aps s') = (ap_entry a (sd_aps s))(job_id j :=
      entry_after st (ap_entry a (sd_aps s) (job_id j)) (sd_applied s (job_id j)) j) \<and>
    sd_applied s' = (sd_applied s)(job_id j \<mapsto> job_schedule j)"
proof -
  have t: "trigger_spec st (job_schedule j) = Some t" by (rule build_trigger_SomeD [OF assms(2)])
  show ?thesis
  proof (cases "ap_entry a (sd_aps s) (job_id j) \<noteq> None \<and> sd_applied s (job_id j) = Some (job_schedule j)")
    case True
    then show ?thesis using assms(1)
      by (auto simp: schedule_one_def bindE_def gets_def modify_def aps_laws_def entry_after_def fun_upd_idem)
  next
    case False
    then show ?thesis using assms t
      by (auto simp: schedule_one_def bindE_def gets_def modify_def of_sum_def aps_laws_def entry_after_def
          new_entry_def split: option.split)
  qed
qed

lemma for_each_schedule:
  assumes "aps_laws a"
  shows "distinct (map job_id js) \<Longrightarrow> list_all (\<lambda>j. \<exists>t. build_trigger a st j = Inr (Some t)) js \<Longrightarrow>
    \<exists>s'. for_each js (schedule_one a st) s = (Inr (), s') \<and>
      (\<forall>j \<in> set js. ap_entry a (sd_aps s') (job_id j) =
         entry_after st (ap_entry a (sd_aps s) (job_id j)) (sd_applied s (job_id j)) j \<and>
         sd_applied s' (job_id j) = Some (job_schedule j)) \<and>
      (\<forall>i. i \<notin> job_id ` set js \<longrightarrow> ap_entry a (sd_aps s') i = ap_entry a (sd_aps s) i \<and> sd_applied s' i = sd_applied s i)"
proof (induction js arbitrary: s)
  case (Cons j js)
  obtain s1 where s1: "schedule_one a st j s = (Inr (), s1)"
    "ap_entry a (sd_aps s1) = (ap_entry a (sd_aps s))(job_id j :=
      entry_after st (ap_entry a (sd_aps s) (job_id j)) (sd_applied s (job_id j)) j)"
    "sd_applied s1 = (sd_applied s)(job_id j \<mapsto> job_schedule j)"
    using schedule_one_entry [OF assms] Cons.prems by fastforce
  obtain s' where s': "for_each js (schedule_one a st) s1 = (Inr (), s')"
    "\<forall>j \<in> set js. ap_entry a (sd_aps s') (job_id j) =
         entry_after st (ap_entry a (sd_aps s1) (job_id j)) (sd_applied s1 (job_id j)) j \<and>
         sd_applied s' (job_id j) = Some (job_schedule j)"
    "\<forall>i. i \<notin> job_id ` set js \<longrightarrow> ap_entry a (sd_aps s') i = ap_entry a (sd_aps s1) i \<and> sd_applied s' i = sd_applied s1 i"
    using Cons.IH [of s1] Cons.prems by auto
  have j: "job_id j \<notin> job_id ` set js" using Cons.prems by simp
  have other: "k \<in> set js \<Longrightarrow> job_id k \<noteq> job_id j" for k using j by (metis imageI)
  show ?case
    by (intro exI [of _ s'] conjI ballI allI impI)
      (use s' s1 j other in \<open>auto simp: seqE_def bindE_def\<close>)
qed (simp add: ret_def)

lemma apply_catalog_entries:
  assumes "aps_laws a" and "distinct (map job_id js)" and "triggers_build a st js"
  shows "\<exists>s'. apply_catalog a st js s = (Inr (), s') \<and>
    list_all (\<lambda>j. ap_entry a (sd_aps s') (job_id j) =
        entry_after st (ap_entry a (sd_aps s) (job_id j)) (sd_applied s (job_id j)) j \<and>
      sd_applied s' (job_id j) = Some (job_schedule j)) (desired js) \<and>
    (\<forall>i. i \<notin> job_id ` set (desired js) \<longrightarrow> ap_entry a (sd_aps s') i = None \<and> sd_applied s' i = None)"
proof -
  let ?ids = "job_id ` set (desired js)"
  obtain s1 where s1: "unschedule a js s = (Inr (), s1)" "sd_applied s1 = sd_applied s"
    "ap_entry a (sd_aps s1) = (\<lambda>i. if i \<in> ?ids then ap_entry a (sd_aps s) i else None)"
    using unschedule_entries [OF assms(1)] by blast
  define s2 where "s2 = s1\<lparr>sd_applied := (\<lambda>i. if i \<in> ?ids then sd_applied s1 i else None)\<rparr>"
  have "distinct (map job_id (desired js))" using assms(2) by (simp add: desired_def distinct_map_filter)
  from for_each_schedule [OF assms(1) this assms(3) [unfolded triggers_build_def]] obtain s' where
    s': "for_each (desired js) (schedule_one a st) s2 = (Inr (), s')"
    "\<forall>j \<in> set (desired js). ap_entry a (sd_aps s') (job_id j) =
         entry_after st (ap_entry a (sd_aps s2) (job_id j)) (sd_applied s2 (job_id j)) j \<and>
         sd_applied s' (job_id j) = Some (job_schedule j)"
    "\<forall>i. i \<notin> ?ids \<longrightarrow> ap_entry a (sd_aps s') i = ap_entry a (sd_aps s2) i \<and> sd_applied s' i = sd_applied s2 i" by blast
  have run: "apply_catalog a st js s = (Inr (), s')"
    using s1(1) s'(1) by (simp add: apply_catalog_def seqE_def bindE_def modify_def s2_def)
  have entries: "list_all (\<lambda>j. ap_entry a (sd_aps s') (job_id j) =
        entry_after st (ap_entry a (sd_aps s) (job_id j)) (sd_applied s (job_id j)) j \<and>
      sd_applied s' (job_id j) = Some (job_schedule j)) (desired js)"
    unfolding list_all_iff using s'(2) s1 by (auto simp: s2_def)
  moreover have "\<forall>i. i \<notin> ?ids \<longrightarrow> ap_entry a (sd_aps s') i = None \<and> sd_applied s' i = None"
    using s'(3) s1(3) by (simp add: s2_def)
  ultimately show ?thesis using run by blast
qed


section \<open>Witness\<close>

text \<open>A job store as an association list; a timezone without a slash that is not UTC is unknown.\<close>

definition list_aps :: "(string \<times> entry) list aps" where
  "list_aps = \<lparr>ap_ids = map fst, ap_entry = map_of, ap_next = (\<lambda>s i. None),
     ap_remove = (\<lambda>i. filter (\<lambda>(k, e). k \<noteq> i)),
     ap_modify = (\<lambda>i j. map (\<lambda>(k, e). (k, if k = i then e\<lparr>ae_job := j\<rparr> else e))),
     ap_add = (\<lambda>i t j m s. (i, \<lparr>ae_trigger = t, ae_job = j, ae_misfire = m, ae_paused = False\<rparr>) #
       filter (\<lambda>(k, e). k \<noteq> i) s),
     ap_pause = (\<lambda>i. map (\<lambda>(k, e). (k, if k = i then e\<lparr>ae_paused := True\<rparr> else e))),
     ap_resume = (\<lambda>i. map (\<lambda>(k, e). (k, if k = i then e\<lparr>ae_paused := False\<rparr> else e))),
     ap_trigger_error = (\<lambda>t. let tz = (case t of CronSpec c z y \<Rightarrow> z | IntervalSpec n z y \<Rightarrow> z) in
       if tz = ''UTC'' \<or> CHR ''/'' \<in> set tz then None else Some (PyError ''ZoneInfoNotFoundError'' tz))\<rparr>"

lemma map_of_filter_key: "map_of (filter (\<lambda>(k, e). k \<noteq> i) s) = (map_of s)(i := None)"
  by (induction s) (auto simp: fun_eq_iff)

lemma map_of_update_key:
  "map_of (map (\<lambda>(k, e). (k, if k = i then f e else e)) s) = (map_of s)(i := map_option f (map_of s i))"
  by (induction s) (auto simp: fun_eq_iff)

lemma list_aps_laws: "aps_laws list_aps"
  by (simp add: aps_laws_def list_aps_def map_of_filter_key map_of_update_key dom_map_of_conv_image_fst)

definition hourly :: job where
  "hourly = sample_job\<lparr>job_schedule := (job_schedule sample_job)\<lparr>sch_every := Some ''1h''\<rparr>\<rparr>"


end
