(* ===== verification/Instants.thy ===== *)
theory Instants
  imports StateDb
begin

text \<open>
  The instants of the state database, \<open>now_iso\<close>, \<open>parse_instant\<close> and \<open>instant_iso\<close> of
  \<open>src/src/state/db.py\<close>. A \<open>datetime\<close> of Python is its calendar fields; one that is stored or
  compared is in UTC. \<open>datetime.fromisoformat\<close> is a parameter that gives the fields and the offset,
  in microseconds, when the text has one. The subtraction of the offset and \<open>isoformat\<close> are written
  out. The lemmas show that the stored texts sort the way the instants do, so that a range of
  texts is a range of instants.
\<close>

section \<open>Calendar\<close>

record datetime =
  dt_year :: nat
  dt_month :: nat
  dt_day :: nat
  dt_hour :: nat
  dt_minute :: nat
  dt_second :: nat
  dt_micro :: nat

definition leap_year :: "nat \<Rightarrow> bool" where
  "leap_year y \<longleftrightarrow> y mod 4 = 0 \<and> (y mod 100 \<noteq> 0 \<or> y mod 400 = 0)"

definition month_days :: "nat \<Rightarrow> nat \<Rightarrow> nat" where
  "month_days y m =
     (if m = 2 then (if leap_year y then 29 else 28) else if m = 4 \<or> m = 6 \<or> m = 9 \<or> m = 11 then 30 else 31)"

definition date_valid :: "datetime \<Rightarrow> bool" where
  "date_valid t \<longleftrightarrow> 1 \<le> dt_year t \<and> dt_year t \<le> 9999 \<and> 1 \<le> dt_month t \<and> dt_month t \<le> 12 \<and>
     1 \<le> dt_day t \<and> dt_day t \<le> month_days (dt_year t) (dt_month t)"

definition datetime_valid :: "datetime \<Rightarrow> bool" where
  "datetime_valid t \<longleftrightarrow> date_valid t \<and> dt_hour t < 24 \<and> dt_minute t < 60 \<and> dt_second t < 60 \<and> dt_micro t < 1000000"

text \<open>Datetimes of one timezone are compared field by field.\<close>

definition datetime_fields :: "datetime \<Rightarrow> nat list" where
  "datetime_fields t = [dt_year t, dt_month t, dt_day t, dt_hour t, dt_minute t, dt_second t, dt_micro t]"

definition datetime_less :: "datetime \<Rightarrow> datetime \<Rightarrow> bool" where
  "datetime_less a b \<longleftrightarrow> datetime_fields a < datetime_fields b"

text \<open>The subtraction of an offset of less than a day: the time of day, then at most one day back or
  on. The years end at 1 and 9999, beyond them Python raises.\<close>

definition micros_of_day :: "datetime \<Rightarrow> int" where
  "micros_of_day t =
     ((int (dt_hour t) * 60 + int (dt_minute t)) * 60 + int (dt_second t)) * 1000000 + int (dt_micro t)"

definition DAY :: int where
  "DAY = 86400000000"

definition at_micros :: "int \<Rightarrow> datetime \<Rightarrow> datetime" where
  "at_micros u t =
     t\<lparr>dt_hour := nat (u div 3600000000), dt_minute := nat (u div 60000000 mod 60),
       dt_second := nat (u div 1000000 mod 60), dt_micro := nat (u mod 1000000)\<rparr>"

definition day_before :: "datetime \<Rightarrow> datetime option" where
  "day_before t =
     (if 1 < dt_day t then Some (t\<lparr>dt_day := dt_day t - 1\<rparr>)
      else if 1 < dt_month t
      then Some (t\<lparr>dt_month := dt_month t - 1, dt_day := month_days (dt_year t) (dt_month t - 1)\<rparr>)
      else if 1 < dt_year t then Some (t\<lparr>dt_year := dt_year t - 1, dt_month := 12, dt_day := 31\<rparr>)
      else None)"

definition day_after :: "datetime \<Rightarrow> datetime option" where
  "day_after t =
     (if dt_day t < month_days (dt_year t) (dt_month t) then Some (t\<lparr>dt_day := dt_day t + 1\<rparr>)
      else if dt_month t < 12 then Some (t\<lparr>dt_month := dt_month t + 1, dt_day := 1\<rparr>)
      else if dt_year t < 9999 then Some (t\<lparr>dt_year := dt_year t + 1, dt_month := 1, dt_day := 1\<rparr>)
      else None)"

definition minus_offset :: "datetime \<Rightarrow> int \<Rightarrow> exc + datetime" where
  "minus_offset t offset =
     (let u = micros_of_day t - offset;
          shifted = (if u < 0 then map_option (at_micros (u + DAY)) (day_before t)
                     else if u \<ge> DAY then map_option (at_micros (u - DAY)) (day_after t)
                     else Some (at_micros u t))
      in case shifted of None \<Rightarrow> Inl (PyError ''OverflowError'' ''date value out of range'') | Some t' \<Rightarrow> Inr t')"

section \<open>Parsing and printing\<close>

definition parse_instant :: "(string \<Rightarrow> exc + datetime \<times> int option) \<Rightarrow> string \<Rightarrow> exc + datetime" where
  "parse_instant fromisoformat value =
     (case fromisoformat (py_strip value) of
        Inl e \<Rightarrow> Inl e
      | Inr (t, None) \<Rightarrow> Inr t
      | Inr (t, Some offset) \<Rightarrow> minus_offset t offset)"

text \<open>A field with leading zeros.\<close>

primrec zero_padded :: "nat \<Rightarrow> nat \<Rightarrow> string" where
  "zero_padded 0 n = []"
| "zero_padded (Suc k) n = digit_char (n div 10 ^ k mod 10) # zero_padded k n"

definition instant_iso :: "datetime \<Rightarrow> string" where
  "instant_iso t =
     zero_padded 4 (dt_year t) @ ''-'' @ zero_padded 2 (dt_month t) @ ''-'' @ zero_padded 2 (dt_day t) @ ''T'' @
     zero_padded 2 (dt_hour t) @ '':'' @ zero_padded 2 (dt_minute t) @ '':'' @ zero_padded 2 (dt_second t) @
     (if dt_micro t = 0 then [] else ''.'' @ zero_padded 6 (dt_micro t)) @ ''+00:00''"

section \<open>The order of the instants\<close>

text \<open>The microseconds since the beginning of year 1.\<close>

definition days_before_year :: "nat \<Rightarrow> int" where
  "days_before_year y = (\<Sum>i \<in> {1..<y}. if leap_year i then 366 else 365)"

definition days_before_month :: "nat \<Rightarrow> nat \<Rightarrow> int" where
  "days_before_month y m = (\<Sum>i \<in> {1..<m}. int (month_days y i))"

definition day_number :: "datetime \<Rightarrow> int" where
  "day_number t = days_before_year (dt_year t) + days_before_month (dt_year t) (dt_month t) + int (dt_day t)"

definition moment :: "datetime \<Rightarrow> int" where
  "moment t = day_number t * DAY + micros_of_day t"

section \<open>Texts sort the way the instants do\<close>

lemma digit_char_less: "d < 10 \<Longrightarrow> e < 10 \<Longrightarrow> digit_char d < digit_char e \<longleftrightarrow> d < e"
  by (simp add: digit_char_def less_char_def)

lemma digit_char_eq: "d < 10 \<Longrightarrow> e < 10 \<Longrightarrow> digit_char d = digit_char e \<longleftrightarrow> d = e"
  by (metis digit_char_less less_irrefl linorder_less_linear)

lemma length_zero_padded [simp]: "length (zero_padded k n) = k"
  by (induction k) auto

lemma mod_power_Suc:
  fixes n :: nat
  shows "n mod 10 ^ Suc k = 10 ^ k * (n div 10 ^ k mod 10) + n mod 10 ^ k"
  using mod_mult2_eq [of n "10 ^ k" 10] by (simp only: power_Suc2)

lemma zero_padded_order:
  "(zero_padded k a < zero_padded k b \<longleftrightarrow> a mod 10 ^ k < b mod 10 ^ k) \<and>
   (zero_padded k a = zero_padded k b \<longleftrightarrow> a mod 10 ^ k = b mod 10 ^ k)"
proof (induction k)
  case (Suc k)
  define p q x y where "p = a div 10 ^ k mod 10" and "q = b div 10 ^ k mod 10"
    and "x = a mod 10 ^ k" and "y = b mod 10 ^ k"
  have e: "a mod 10 ^ Suc k = 10 ^ k * p + x" "b mod 10 ^ Suc k = 10 ^ k * q + y"
    unfolding mod_power_Suc by (simp_all add: p_def q_def x_def y_def)
  have d: "p < 10" "q < 10" "x < 10 ^ k" "y < 10 ^ k" by (simp_all add: p_def q_def x_def y_def)
  have lt: "10 ^ k * p + x < 10 ^ k * q + y" if "p < q" "x < 10 ^ k" for p q x y :: nat
  proof -
    from that have "10 ^ k * p + x < 10 ^ k * Suc p" by simp
    also have "\<dots> \<le> 10 ^ k * q" using that(1) by (intro mult_le_mono2) simp
    finally show ?thesis by simp
  qed
  consider "p < q" | "q < p" | "p = q" by linarith
  then show ?case
  proof cases
    case 1
    then show ?thesis using Suc lt [OF 1 d(3), of y] d unfolding e zero_padded.simps p_def [symmetric] q_def [symmetric]
      by (simp add: digit_char_less digit_char_eq)
  next
    case 2
    then show ?thesis using Suc lt [OF 2 d(4), of x] d unfolding e zero_padded.simps p_def [symmetric] q_def [symmetric]
      by (simp add: digit_char_less digit_char_eq)
  next
    case 3
    then show ?thesis using Suc d unfolding e zero_padded.simps p_def [symmetric] q_def [symmetric]
      by (simp add: x_def y_def)
  qed
qed simp

lemma zero_padded_less: "a < 10 ^ k \<Longrightarrow> b < 10 ^ k \<Longrightarrow> zero_padded k a < zero_padded k b \<longleftrightarrow> a < b"
  using zero_padded_order [of k a b] by simp

lemma zero_padded_eq: "a < 10 ^ k \<Longrightarrow> b < 10 ^ k \<Longrightarrow> zero_padded k a = zero_padded k b \<longleftrightarrow> a = b"
  using zero_padded_order [of k a b] by simp

lemma append_less:
  fixes xs ys :: string
  assumes "length xs = length ys"
  shows "xs @ us < ys @ vs \<longleftrightarrow> xs < ys \<or> xs = ys \<and> us < vs"
  using assms by (induction xs ys rule: list_induct2) auto

lemma fraction_less:
  assumes "m < 1000000" and "n < 1000000"
  shows "(if m = 0 then [] else ''.'' @ zero_padded 6 m) @ ''+00:00'' <
      (if n = 0 then [] else ''.'' @ zero_padded 6 n) @ ''+00:00'' \<longleftrightarrow> m < n"
  using assms zero_padded_less [of m 6 n] zero_padded_eq [of m 6 n]
  by (auto simp: append_less less_char_def)

lemma datetime_valid_bounds:
  assumes "datetime_valid t"
  shows "dt_year t < 10 ^ 4" "dt_month t < 10 ^ 2" "dt_day t < 10 ^ 2" "dt_hour t < 10 ^ 2" "dt_minute t < 10 ^ 2"
    "dt_second t < 10 ^ 2" "dt_micro t < 1000000"
  using assms by (auto simp: datetime_valid_def date_valid_def month_days_def split: if_splits)

lemma iso_less_fields:
  assumes "datetime_valid a" and "datetime_valid b"
  shows "instant_iso a < instant_iso b \<longleftrightarrow> datetime_less a b"
  using datetime_valid_bounds [OF assms(1)] datetime_valid_bounds [OF assms(2)]
  unfolding instant_iso_def datetime_less_def datetime_fields_def
  by (simp add: append_less zero_padded_less zero_padded_eq fraction_less del: zero_padded.simps power_numeral)

section \<open>The order of the instants is the one of their fields\<close>

lemma days_before_year_Suc:
  "1 \<le> y \<Longrightarrow> days_before_year (Suc y) = days_before_year y + (if leap_year y then 366 else 365)"
  by (simp add: days_before_year_def)

lemma days_before_month_Suc: "1 \<le> m \<Longrightarrow> days_before_month y (Suc m) = days_before_month y m + int (month_days y m)"
  by (simp add: days_before_month_def)

lemma days_before_month_year: "days_before_month y 13 = (if leap_year y then 366 else 365)"
  by (simp add: days_before_month_def month_days_def numeral_eq_Suc atLeastLessThanSuc)

lemma days_before_year_mono: "y \<le> y' \<Longrightarrow> days_before_year y \<le> days_before_year y'"
  unfolding days_before_year_def by (rule sum_mono2) auto

lemma days_before_month_mono: "m \<le> m' \<Longrightarrow> days_before_month y m \<le> days_before_month y m'"
  unfolding days_before_month_def by (rule sum_mono2) auto

lemma days_before_month_nonneg: "0 \<le> days_before_month y m"
  unfolding days_before_month_def by (rule sum_nonneg) simp

lemma date_in_year:
  assumes "date_valid t"
  shows "days_before_year (dt_year t) < day_number t" and "day_number t \<le> days_before_year (Suc (dt_year t))"
proof -
  have m: "1 \<le> dt_month t" "Suc (dt_month t) \<le> 13" "1 \<le> dt_day t" "dt_day t \<le> month_days (dt_year t) (dt_month t)"
    "1 \<le> dt_year t" using assms by (auto simp: date_valid_def)
  then show "days_before_year (dt_year t) < day_number t"
    using days_before_month_nonneg [of "dt_year t" "dt_month t"] by (simp add: day_number_def)
  show "day_number t \<le> days_before_year (Suc (dt_year t))"
    using days_before_month_mono [OF m(2), of "dt_year t"] m
    by (simp add: day_number_def days_before_month_year days_before_year_Suc days_before_month_Suc)
qed

lemma date_less_number:
  assumes "date_valid a" and "date_valid b" and "[dt_year a, dt_month a, dt_day a] < [dt_year b, dt_month b, dt_day b]"
  shows "day_number a < day_number b"
proof -
  consider "Suc (dt_year a) \<le> dt_year b" | "dt_year a = dt_year b" "Suc (dt_month a) \<le> dt_month b"
    | "dt_year a = dt_year b" "dt_month a = dt_month b" "dt_day a < dt_day b"
    using assms(3) by auto
  then show ?thesis
  proof cases
    case 1
    then show ?thesis
      using date_in_year(2) [OF assms(1)] date_in_year(1) [OF assms(2)] days_before_year_mono [OF 1] by linarith
  next
    case 2
    have "1 \<le> dt_month a" "1 \<le> dt_day b" "dt_day a \<le> month_days (dt_year a) (dt_month a)"
      using assms(1,2) by (auto simp: date_valid_def)
    then show ?thesis using days_before_month_mono [OF 2(2), of "dt_year a"] 2(1)
      by (simp add: day_number_def days_before_month_Suc)
  next
    case 3
    then show ?thesis by (simp add: day_number_def)
  qed
qed

lemma micros_of_day_bounds:
  assumes "datetime_valid t"
  shows "0 \<le> micros_of_day t" and "micros_of_day t < DAY"
  using assms by (auto simp: datetime_valid_def micros_of_day_def DAY_def)

lemma micros_less:
  assumes "datetime_valid a" and "datetime_valid b"
    and "[dt_hour a, dt_minute a, dt_second a, dt_micro a] < [dt_hour b, dt_minute b, dt_second b, dt_micro b]"
  shows "micros_of_day a < micros_of_day b"
  using assms by (auto simp: datetime_valid_def micros_of_day_def)

lemma fields_less_moment:
  assumes "datetime_valid a" and "datetime_valid b" and "datetime_less a b"
  shows "moment a < moment b"
proof -
  consider "[dt_year a, dt_month a, dt_day a] < [dt_year b, dt_month b, dt_day b]"
    | "dt_year a = dt_year b" "dt_month a = dt_month b" "dt_day a = dt_day b"
      "[dt_hour a, dt_minute a, dt_second a, dt_micro a] < [dt_hour b, dt_minute b, dt_second b, dt_micro b]"
    using assms(3) by (auto simp: datetime_less_def datetime_fields_def)
  then show ?thesis
  proof cases
    case 1
    with assms have "day_number a + 1 \<le> day_number b"
      using date_less_number [of a b] by (simp add: datetime_valid_def)
    then have "(day_number a + 1) * DAY \<le> day_number b * DAY" by (simp add: DAY_def)
    then show ?thesis using micros_of_day_bounds [OF assms(1)] micros_of_day_bounds [OF assms(2)]
      by (simp add: moment_def algebra_simps)
  next
    case 2
    then show ?thesis using micros_less [OF assms(1,2) 2(4)] by (simp add: moment_def day_number_def)
  qed
qed

lemma fields_eq: "datetime_fields a = datetime_fields b \<longleftrightarrow> a = (b :: datetime)"
  by (auto simp: datetime_fields_def)

lemma moment_less_fields:
  assumes "datetime_valid a" and "datetime_valid b"
  shows "moment a < moment b \<longleftrightarrow> datetime_less a b"
  using fields_less_moment [OF assms] fields_less_moment [OF assms(2,1)] fields_eq [of a b]
  unfolding datetime_less_def by fastforce

section \<open>The offset of a parsed text\<close>

lemma at_micros:
  assumes "date_valid t" and "0 \<le> u" and "u < DAY"
  shows "datetime_valid (at_micros u t)" and "micros_of_day (at_micros u t) = u"
    and "day_number (at_micros u t) = day_number t"
proof -
  have "u div 3600000000 < 24" using assms(3) by (simp add: DAY_def)
  then show "datetime_valid (at_micros u t)" using assms
    by (auto simp: datetime_valid_def at_micros_def date_valid_def nat_less_iff)
  define a where "a = u div 1000000"
  have d: "u div 60000000 = a div 60" "u div 3600000000 = a div 60 div 60"
    by (simp_all add: a_def zdiv_zmult2_eq [symmetric])
  have "a div 60 div 60 * 60 + a div 60 mod 60 = a div 60" "a div 60 * 60 + a mod 60 = a" "a * 1000000 + u mod 1000000 = u"
    by (simp_all add: a_def)
  moreover have "0 \<le> a" using assms(2) by (simp add: a_def pos_imp_zdiv_nonneg_iff)
  ultimately show "micros_of_day (at_micros u t) = u" using assms(2)
    by (simp add: micros_of_day_def at_micros_def d a_def [symmetric] pos_imp_zdiv_nonneg_iff)
qed (simp add: day_number_def at_micros_def)

lemma month_days_bounds: "28 \<le> month_days y m" "month_days y m \<le> 31"
  by (auto simp: month_days_def)

lemma day_before_cases:
  assumes "date_valid t" and "day_before t = Some t'"
  obtains d where "dt_day t = Suc d" "1 \<le> d" "t' = t\<lparr>dt_day := d\<rparr>"
  | m where "dt_day t = 1" "dt_month t = Suc m" "1 \<le> m" "t' = t\<lparr>dt_month := m, dt_day := month_days (dt_year t) m\<rparr>"
  | y where "dt_day t = 1" "dt_month t = 1" "dt_year t = Suc y" "1 \<le> y" "t' = t\<lparr>dt_year := y, dt_month := 12, dt_day := 31\<rparr>"
proof -
  have one: "n = 1 \<or> (\<exists>k. n = Suc k \<and> 1 \<le> k)" if "1 \<le> n" for n using that by (cases n) auto
  have "1 \<le> dt_day t" "1 \<le> dt_month t" "1 \<le> dt_year t" using assms(1) by (simp_all add: date_valid_def)
  with one [of "dt_day t"] one [of "dt_month t"] one [of "dt_year t"] assms(2) show ?thesis
    by (auto simp: day_before_def intro: that)
qed

lemma days_before_december: "days_before_month y 12 + 31 = (if leap_year y then 366 else 365)"
proof -
  have "days_before_month y (Suc 12) = days_before_month y 12 + 31"
    by (subst days_before_month_Suc) (simp_all add: month_days_def)
  then show ?thesis using days_before_month_year [of y] by simp
qed

lemma day_before_number:
  assumes "date_valid t" and "day_before t = Some t'"
  shows "date_valid t' \<and> day_number t' = day_number t - 1 \<and> micros_of_day t' = micros_of_day t"
  using assms
proof (cases rule: day_before_cases)
  case (1 d)
  then show ?thesis using assms(1) by (simp add: date_valid_def day_number_def micros_of_day_def)
next
  case (2 m)
  then show ?thesis using assms(1) month_days_bounds [of "dt_year t" m]
    by (simp add: date_valid_def day_number_def micros_of_day_def days_before_month_Suc)
next
  case (3 y)
  have "days_before_month (Suc y) 1 = 0" by (simp add: days_before_month_def)
  with 3 show ?thesis using assms(1) days_before_december [of y]
    by (simp add: date_valid_def day_number_def micros_of_day_def days_before_year_Suc month_days_def)
qed

lemma day_after_number:
  assumes "date_valid t" and "day_after t = Some t'"
  shows "date_valid t' \<and> day_number t' = day_number t + 1 \<and> micros_of_day t' = micros_of_day t"
proof -
  have v: "1 \<le> dt_year t" "1 \<le> dt_month t" "dt_month t \<le> 12" "dt_day t \<le> month_days (dt_year t) (dt_month t)"
    using assms(1) by (simp_all add: date_valid_def)
  consider "dt_day t < month_days (dt_year t) (dt_month t)" "t' = t\<lparr>dt_day := dt_day t + 1\<rparr>"
    | "dt_day t = month_days (dt_year t) (dt_month t)" "dt_month t < 12" "t' = t\<lparr>dt_month := dt_month t + 1, dt_day := 1\<rparr>"
    | "dt_day t = 31" "dt_month t = 12" "dt_year t < 9999" "t' = t\<lparr>dt_year := dt_year t + 1, dt_month := 1, dt_day := 1\<rparr>"
    using assms(2) v by (auto simp: day_after_def month_days_def split: if_splits)
  then show ?thesis
  proof cases
    case 1
    then show ?thesis using assms(1) by (simp add: date_valid_def day_number_def micros_of_day_def)
  next
    case 2
    then show ?thesis using assms(1) v month_days_bounds [of "dt_year t" "Suc (dt_month t)"]
      by (simp add: date_valid_def day_number_def micros_of_day_def days_before_month_Suc)
  next
    case 3
    have "days_before_month (Suc (dt_year t)) 1 = 0" by (simp add: days_before_month_def)
    with 3 show ?thesis using v days_before_december [of "dt_year t"]
      by (simp add: date_valid_def day_number_def micros_of_day_def days_before_year_Suc month_days_def)
  qed
qed

definition first_instant :: datetime where
  "first_instant = \<lparr>dt_year = 1, dt_month = 1, dt_day = 1, dt_hour = 0, dt_minute = 0, dt_second = 0, dt_micro = 0\<rparr>"

definition last_instant :: datetime where
  "last_instant = \<lparr>dt_year = 9999, dt_month = 12, dt_day = 31, dt_hour = 23, dt_minute = 59, dt_second = 59,
     dt_micro = 999999\<rparr>"

text \<open>An offset of less than a day moves the time within the day, to the day before, or to the day after.\<close>

lemma minus_offset_back:
  assumes "datetime_valid t" and "\<bar>off\<bar> < DAY" and "micros_of_day t - off < 0"
  shows "case minus_offset t off of
      Inr u \<Rightarrow> datetime_valid u \<and> moment u = moment t - off
    | Inl e \<Rightarrow> exc_name e = ''OverflowError'' \<and> moment t - off < moment first_instant"
proof -
  have d: "date_valid t" using assms(1) by (simp add: datetime_valid_def)
  define u where "u = micros_of_day t - off"
  have r: "u < 0" "0 \<le> u + DAY" "u + DAY < DAY"
    using assms(2,3) micros_of_day_bounds [OF assms(1)] by (simp_all add: u_def)
  show ?thesis
  proof (cases "day_before t")
    case None
    then have "day_number t = day_number first_instant"
      using d by (auto simp: day_before_def date_valid_def day_number_def first_instant_def split: if_splits)
    moreover have "micros_of_day first_instant = 0" by (simp add: micros_of_day_def first_instant_def)
    ultimately show ?thesis using r(1) None
      by (simp add: minus_offset_def Let_def u_def [symmetric] moment_def)
  next
    case (Some t')
    define v where "v = at_micros (u + DAY) t'"
    have v: "datetime_valid v" "micros_of_day v = u + DAY" "day_number v = day_number t - 1"
      using at_micros [OF _ r(2,3), of t'] day_before_number [OF d Some] by (simp_all add: v_def)
    have "minus_offset t off = Inr v"
      using r(1) Some by (simp add: minus_offset_def Let_def u_def [symmetric] v_def)
    moreover have "moment v = moment t - off" using v by (simp add: moment_def u_def left_diff_distrib distrib_right)
    ultimately show ?thesis using v(1) by simp
  qed
qed

lemma minus_offset_forward:
  assumes "datetime_valid t" and "\<bar>off\<bar> < DAY" and "DAY \<le> micros_of_day t - off"
  shows "case minus_offset t off of
      Inr u \<Rightarrow> datetime_valid u \<and> moment u = moment t - off
    | Inl e \<Rightarrow> exc_name e = ''OverflowError'' \<and> moment last_instant < moment t - off"
proof -
  have d: "date_valid t" using assms(1) by (simp add: datetime_valid_def)
  define u where "u = micros_of_day t - off"
  have r: "DAY \<le> u" "0 \<le> u - DAY" "u - DAY < DAY"
    using assms(2,3) micros_of_day_bounds [OF assms(1)] by (simp_all add: u_def)
  then have p: "\<not> u < 0" by (simp add: DAY_def)
  show ?thesis
  proof (cases "day_after t")
    case None
    then have "day_number t = day_number last_instant"
      using d by (auto simp: day_after_def date_valid_def day_number_def last_instant_def month_days_def split: if_splits)
    moreover have "micros_of_day last_instant < DAY" by (simp add: micros_of_day_def last_instant_def DAY_def)
    ultimately show ?thesis using r(1) p None
      by (simp add: minus_offset_def Let_def u_def [symmetric] moment_def)
  next
    case (Some t')
    define v where "v = at_micros (u - DAY) t'"
    have v: "datetime_valid v" "micros_of_day v = u - DAY" "day_number v = day_number t + 1"
      using at_micros [OF _ r(2,3), of t'] day_after_number [OF d Some] by (simp_all add: v_def)
    have "minus_offset t off = Inr v"
      using r(1) p Some by (simp add: minus_offset_def Let_def u_def [symmetric] v_def)
    moreover have "moment v = moment t - off" using v by (simp add: moment_def u_def left_diff_distrib distrib_right)
    ultimately show ?thesis using v(1) by simp
  qed
qed

lemma minus_offset_moment:
  assumes "datetime_valid t" and "\<bar>off\<bar> < DAY"
  shows "case minus_offset t off of
      Inr u \<Rightarrow> datetime_valid u \<and> moment u = moment t - off
    | Inl e \<Rightarrow> exc_name e = ''OverflowError'' \<and>
        (moment t - off < moment first_instant \<or> moment last_instant < moment t - off)"
proof -
  consider "micros_of_day t - off < 0" | "0 \<le> micros_of_day t - off" "micros_of_day t - off < DAY"
    | "DAY \<le> micros_of_day t - off" by linarith
  then show ?thesis
  proof cases
    case 1
    from minus_offset_back [OF assms 1] show ?thesis by (simp split: sum.splits)
  next
    case 2
    have "date_valid t" using assms(1) by (simp add: datetime_valid_def)
    from at_micros [OF this 2] 2 show ?thesis by (simp add: minus_offset_def Let_def moment_def)
  next
    case 3
    from minus_offset_forward [OF assms 3] show ?thesis by (simp split: sum.splits)
  qed
qed

definition offset_micros :: "int option \<Rightarrow> int" where
  "offset_micros offset = (case offset of None \<Rightarrow> 0 | Some m \<Rightarrow> m)"

section \<open>Properties\<close>

text \<open>The texts the database compares are in the order of the instants they stand for, and different
  instants have different texts, with and without a fraction of a second.\<close>
theorem instant_iso_order:
  assumes "datetime_valid a" and "datetime_valid b"
  shows "(instant_iso a < instant_iso b \<longleftrightarrow> moment a < moment b) \<and>
    (instant_iso a = instant_iso b \<longleftrightarrow> a = b)"
proof -
  have "instant_iso a < instant_iso b \<longleftrightarrow> moment a < moment b"
    by (simp only: iso_less_fields [OF assms] moment_less_fields [OF assms])
  moreover have "a = b" if "\<not> datetime_less a b" "\<not> datetime_less b a"
    using that fields_eq [of a b] unfolding datetime_less_def by fastforce
  ultimately show ?thesis
    using iso_less_fields [OF assms] iso_less_fields [OF assms(2,1)] by (metis order_less_irrefl)
qed

text \<open>What a client writes with an offset is stored as the same instant in UTC, a text without one is in
  UTC already; the only failure of the conversion is an instant outside the years 1 to 9999.\<close>
theorem parse_instant_moment:
  assumes "fromisoformat (py_strip value) = Inr (t, offset)" and "datetime_valid t"
    and "\<bar>offset_micros offset\<bar> < DAY"
  shows "case parse_instant fromisoformat value of
      Inr u \<Rightarrow> datetime_valid u \<and> moment u = moment t - offset_micros offset
    | Inl e \<Rightarrow> exc_name e = ''OverflowError'' \<and>
        (moment t - offset_micros offset < moment first_instant \<or> moment last_instant < moment t - offset_micros offset)"
  using assms(2,3) minus_offset_moment [of t "offset_micros offset"]
  by (cases offset) (auto simp: parse_instant_def assms(1) offset_micros_def split: sum.splits)

lemma in_range_by_instant:
  assumes "datetime_valid t" and "run_started_at r = instant_iso t"
    and "pred_option datetime_valid lower" and "pred_option datetime_valid upper"
  shows "in_range j (map_option instant_iso lower) (map_option instant_iso upper) r \<longleftrightarrow>
    run_job_id r = j \<and> pred_option (\<lambda>l. moment l \<le> moment t) lower \<and> pred_option (\<lambda>u. moment t < moment u) upper"
  using assms iso_less_fields [of t] iso_less_fields [of _ t] moment_less_fields [of t] moment_less_fields [of _ t]
  by (auto simp: in_range_def not_less [symmetric] split: option.splits)

lemma parse_instant_iso:
  "fromisoformat (py_strip (instant_iso t)) = Inr (t, Some 0) \<Longrightarrow> datetime_valid t \<Longrightarrow>
   parse_instant fromisoformat (instant_iso t) = minus_offset t 0"
  by (simp add: parse_instant_def)

text \<open>Half past two on the first of March of a leap year; three hours earlier it is the 29th of February.\<close>

definition sample_instant :: datetime where
  "sample_instant = \<lparr>dt_year = 2024, dt_month = 3, dt_day = 1, dt_hour = 2, dt_minute = 30, dt_second = 0, dt_micro = 0\<rparr>"

theorem instant_iso_order_witness:
  "instant_iso sample_instant < instant_iso (sample_instant\<lparr>dt_micro := 1\<rparr>)"
proof -
  have v: "datetime_valid sample_instant" "datetime_valid (sample_instant\<lparr>dt_micro := 1\<rparr>)" 
    by (simp_all add: sample_instant_def datetime_valid_def date_valid_def month_days_def)
  have "moment sample_instant < moment (sample_instant\<lparr>dt_micro := 1\<rparr>)"
    by (simp add: moment_def day_number_def micros_of_day_def sample_instant_def)
  with instant_iso_order [OF v] show ?thesis by simp
qed

theorem parse_instant_moment_witness:
  "\<exists>u. parse_instant (\<lambda>x. Inr (sample_instant, Some 10800000000)) ''2024-03-01T02:30+03:00'' = Inr u \<and>
     datetime_fields u = [2024, 2, 29, 23, 30, 0, 0] \<and> moment u = moment sample_instant - 10800000000"
proof -
  let ?f = "\<lambda>x. Inr (sample_instant, Some 10800000000)" and ?t = "''2024-03-01T02:30+03:00''"
  define u where "u = \<lparr>dt_year = 2024, dt_month = 2, dt_day = 29, dt_hour = 23, dt_minute = 30, dt_second = 0, dt_micro = 0\<rparr>"
  have "minus_offset sample_instant 10800000000 = Inr u" unfolding u_def
    by (simp add: minus_offset_def micros_of_day_def sample_instant_def day_before_def at_micros_def month_days_def
        leap_year_def DAY_def)
  then have u: "parse_instant ?f ?t = Inr u" "datetime_fields u = [2024, 2, 29, 23, 30, 0, 0]"
    by (simp_all add: parse_instant_def u_def datetime_fields_def)
  have "moment u = moment sample_instant - 10800000000"
    using parse_instant_moment [of ?f ?t sample_instant "Some 10800000000"] u
    by (simp add: offset_micros_def DAY_def) (simp add: sample_instant_def datetime_valid_def date_valid_def month_days_def)
  with u show ?thesis by blast
qed

section \<open>A text that is not normalised\<close>

text \<open>\<open>list_runs\<close> compares its bound as the client wrote it. With a \<open>Z\<close> for the timezone it leaves out the
  runs of the very second it names, although they started later.\<close>
lemma since_with_z_misses_runs:
  assumes "instant_iso (t\<lparr>dt_micro := 0\<rparr>) = s @ ''+00:00''" and "0 < dt_micro t" and "dt_micro t < 1000000"
  shows "instant_iso t < s @ ''Z''" and "moment (t\<lparr>dt_micro := 0\<rparr>) < moment t"
proof -
  have "instant_iso t = s @ ''.'' @ zero_padded 6 (dt_micro t) @ ''+00:00''"
    using assms(1,2) by (simp add: instant_iso_def)
  then show "instant_iso t < s @ ''Z''" by (simp add: append_less less_char_def)
qed (use assms(2) in \<open>simp add: moment_def day_number_def micros_of_day_def\<close>)

end
