(* ===== verification/Service.thy ===== *)
theory Service
  imports Connections Scheduler Locks Instants
begin

text \<open>
  The engine, \<open>src/src/engine/service.py\<close>: its state (catalog, paused jobs, queued follow-ups, run
  threads, dependency probes) together with the registry, the scheduler, the locks and the state
  database, and every operation the REST and MCP surfaces call. One operation is one step; a run
  thread is a value that waits to be executed. What other threads do inside such a step enters as
  a parameter: \<open>ng_wait\<close> while a run waits for its collection, \<open>signals\<close> between its documents.
\<close>

section \<open>State and environment\<close>

text \<open>The arguments of a run, as \<open>trigger_run\<close> takes and queues them.\<close>

record run_request =
  rq_mode :: "mode option"
  rq_full_scope :: "full_scope option"
  rq_dry_run :: bool
  rq_skip_sync :: bool
  rq_force :: bool
  rq_delete_vanished :: bool

definition default_request :: run_request where
  "default_request = \<lparr>rq_mode = None, rq_full_scope = None, rq_dry_run = False, rq_skip_sync = False,
     rq_force = False, rq_delete_vanished = True\<rparr>"

text \<open>A started run thread: what the closure \<open>target\<close> captures.\<close>

record run_thread =
  th_job :: job
  th_trigger :: run_trigger
  th_run_id :: string
  th_request :: run_request

text \<open>\<open>eg_jobs\<close> is the dictionary of the jobs in its order, \<open>eg_paused\<close> a set as a list. \<open>eg_core\<close> are
  the locks and, below them, the database and the world.\<close>

record ('s, 'w) job_engine =
  eg_jobs :: "(string \<times> job) list"
  eg_last_load :: "load_result option"
  eg_config_applied :: bool
  eg_paused :: "string list"
  eg_aborted :: "string set"
  eg_queued :: "string \<rightharpoonup> run_request"
  eg_threads :: "run_thread list"
  eg_shutdown :: bool
  eg_deps :: "(string \<times> bool) list"
  eg_deps_checked_at :: "string option"
  eg_registry :: "'w registry"
  eg_scheduler :: "'s scheduler"
  eg_core :: "'w engine_state"

type_synonym ('s, 'w, 'a) engine_eff = "(('s, 'w) job_engine, 'a) eff"

text \<open>What the constructor is given, and the libraries. \<open>ng_file\<close> is \<open>is_file\<close> of a path with the
  result of reading it, \<open>ng_environ\<close> the environment secrets resolve against at this moment,
  \<open>ng_secret_problem\<close> is absent without a secret store.\<close>

record ('s, 'w) engine_env =
  ng_settings :: settings
  ng_run :: "'w run_env"
  ng_aps :: "'s aps"
  ng_startup :: startup_lib
  ng_catalog :: catalog_lib
  ng_connections :: connections_lib
  ng_connect :: "string \<Rightarrow> string option \<Rightarrow> 'w qwriter"
  ng_file :: "string \<Rightarrow> ('w, bool \<times> (exc + string)) eff"
  ng_stat :: "string \<Rightarrow> ('w, (int \<times> int) option) eff"
  ng_environ :: "('w, environ) eff"
  ng_secret_problem :: "('w, string option) eff option"
  ng_probes :: "(string \<times> ('w, bool) eff) list"
  ng_metrics :: "(run_row \<Rightarrow> ('w, unit) eff) option"
  ng_wait :: "('w engine_state, unit) eff"
  ng_wakeups :: nat
  ng_lock_seconds :: int
  ng_fromisoformat :: "string \<Rightarrow> exc + datetime \<times> int option"
  ng_dump :: "job \<Rightarrow> (string \<times> jval) list"

text \<open>The parts of the state as effects of the whole.\<close>

definition on_core :: "('w engine_state, 'a) eff \<Rightarrow> ('s, 'w, 'a) engine_eff" where
  "on_core m g = (case m (eg_core g) of (r, c) \<Rightarrow> (r, g\<lparr>eg_core := c\<rparr>))"

definition on_world :: "('w, 'a) eff \<Rightarrow> ('s, 'w, 'a) engine_eff" where
  "on_world m = on_core (on_run (in_world m))"

definition on_scheduler :: "('s scheduler, 'a) eff \<Rightarrow> ('s, 'w, 'a) engine_eff" where
  "on_scheduler m g = (case m (eg_scheduler g) of (r, s) \<Rightarrow> (r, g\<lparr>eg_scheduler := s\<rparr>))"

definition state_db :: "('s, 'w) job_engine \<Rightarrow> db" where
  "state_db g = rs_db (es_run (eg_core g))"

text \<open>A write transaction of the state store that reports what it did.\<close>

definition db_change :: "('s, 'w) engine_env \<Rightarrow> (db \<Rightarrow> 'a \<times> db) \<Rightarrow> ('s, 'w, 'a) engine_eff" where
  "db_change ng f =
     on_core (on_run (seqE (in_world (re_begin (ng_run ng)))
       (\<lambda>s. case f (rs_db s) of (x, db) \<Rightarrow> (Inr x, s\<lparr>rs_db := db\<rparr>))))"

definition now_iso :: "('s, 'w) engine_env \<Rightarrow> ('s, 'w, string) engine_eff" where
  "now_iso ng = on_world (re_now (ng_run ng))"

definition UnknownJobError :: "string \<Rightarrow> exc" where
  "UnknownJobError jid = PyError ''UnknownJobError'' jid"

definition JobStillActiveError :: "string \<Rightarrow> exc" where
  "JobStillActiveError jid = PyError ''JobStillActiveError'' jid"

definition ValueError :: "string \<Rightarrow> exc" where
  "ValueError m = PyError ''ValueError'' m"

section \<open>Registry views\<close>

definition engine_jobs :: "('s, 'w) job_engine \<Rightarrow> job list" where
  "engine_jobs g = map snd (eg_jobs g)"

definition get_job :: "string \<Rightarrow> ('s, 'w, job) engine_eff" where
  "get_job jid =
     bindE (gets (\<lambda>g. map_of (eg_jobs g) jid)) (\<lambda>j. case j of None \<Rightarrow> raise (UnknownJobError jid) | Some j \<Rightarrow> ret j)"

definition is_paused :: "('s, 'w) job_engine \<Rightarrow> string \<Rightarrow> bool" where
  "is_paused g jid \<longleftrightarrow> jid \<in> set (eg_paused g)"

definition pause_job :: "('s, 'w) engine_env \<Rightarrow> string \<Rightarrow> ('s, 'w, bool) engine_eff" where
  "pause_job ng jid =
     bindE (get_job jid) (\<lambda>_.
     seqE (modify (\<lambda>g. g\<lparr>eg_paused := List.insert jid (eg_paused g)\<rparr>))
    (bindE (on_scheduler (pause_scheduled (ng_aps ng) jid)) (\<lambda>_. ret True)))"

definition resume_job :: "('s, 'w) engine_env \<Rightarrow> string \<Rightarrow> ('s, 'w, bool) engine_eff" where
  "resume_job ng jid =
     bindE (get_job jid) (\<lambda>_.
     seqE (modify (\<lambda>g. g\<lparr>eg_paused := removeAll jid (eg_paused g)\<rparr>))
          (on_scheduler (resume_scheduled (ng_aps ng) jid)))"

definition sibling_job_ids :: "('s, 'w) job_engine \<Rightarrow> job \<Rightarrow> string list" where
  "sibling_job_ids g j =
     map job_id (filter (\<lambda>k. job_id k \<noteq> job_id j \<and> job_enabled k \<and> job_collection k = job_collection j)
       (engine_jobs g))"

section \<open>Configuration\<close>

text \<open>\<open>{job.id: job for job in jobs}\<close>: a later job replaces the value of an earlier one.\<close>

fun jobs_by_id :: "job list \<Rightarrow> (string \<times> job) list \<Rightarrow> (string \<times> job) list" where
  "jobs_by_id [] d = d"
| "jobs_by_id (j # js) d =
     jobs_by_id js (if map_of d (job_id j) = None then d @ [(job_id j, j)]
       else map (\<lambda>(i, k). if i = job_id j then (i, j) else (i, k)) d)"

definition apply_jobs :: "('s, 'w) engine_env \<Rightarrow> job list \<Rightarrow> ('s, 'w, unit) engine_eff" where
  "apply_jobs ng js =
     seqE (modify (\<lambda>g. let d = jobs_by_id js [] in
       g\<lparr>eg_jobs := d, eg_paused := filter (\<lambda>i. i \<in> set (map fst d)) (eg_paused g)\<rparr>))
    (seqE (on_scheduler (apply_catalog (ng_aps ng) (ng_settings ng) js))
    (bindE (gets eg_paused) (\<lambda>paused.
      for_each paused (\<lambda>i. bindE (on_scheduler (pause_scheduled (ng_aps ng) i)) (\<lambda>_. ret ())))))"

definition read_catalog :: "('s, 'w) engine_env \<Rightarrow> ('s, 'w, load_result) engine_eff" where
  "read_catalog ng =
     bindE (gets (\<lambda>g. registry_names (eg_registry g))) (\<lambda>known.
     bindE (now_iso ng) (\<lambda>now.
     bindE (on_world (ng_file ng (set_jobs_file (ng_settings ng)))) (\<lambda>(is_file, content).
     bindE (on_world (ng_environ ng)) (\<lambda>env.
       ret (load_catalog (ng_catalog ng) (set_jobs_file (ng_settings ng)) is_file content now
         (ng_settings ng) env (Some known))))))"

text \<open>The orphans are read for the log only.\<close>

definition reload_config :: "('s, 'w) engine_env \<Rightarrow> bool \<Rightarrow> ('s, 'w, load_result) engine_eff" where
  "reload_config ng initial =
     bindE (read_catalog ng) (\<lambda>result.
     bindE (gets (\<lambda>g. load_ok result \<or> initial \<or> eg_jobs g = [])) (\<lambda>apply_it.
     seqE (whenE apply_it (apply_jobs ng (lr_jobs result)))
    (seqE (modify (\<lambda>g. g\<lparr>eg_last_load := Some result, eg_config_applied := apply_it\<rparr>))
    (bindE (gets (\<lambda>g. orphan_summary (state_db g) (set (map fst (eg_jobs g))))) (\<lambda>orphans.
          ret result)))))"

definition read_connections :: "('s, 'w) engine_env \<Rightarrow> bool \<Rightarrow> ('s, 'w, unit) engine_eff" where
  "read_connections ng initial =
     bindE (now_iso ng) (\<lambda>now.
     bindE (on_world (ng_file ng (set_connections_file (ng_settings ng)))) (\<lambda>(is_file, content).
       modify (\<lambda>g. g\<lparr>eg_registry := reload_registry
         (load_connections (ng_connections ng) is_file content now (ng_settings ng)) initial (eg_registry g)\<rparr>)))"

definition reload_connections :: "('s, 'w) engine_env \<Rightarrow> bool \<Rightarrow> ('s, 'w, unit) engine_eff" where
  "reload_connections ng initial =
     seqE (read_connections ng initial) (bindE (reload_config ng False) (\<lambda>_. ret ()))"

section \<open>Runs\<close>

text \<open>The runner writes through the registry's writers as they are when the run starts; the entry the
  lookup adds to the writer cache is left out, it does not show in any later lookup.\<close>

definition runner_env :: "('s, 'w) engine_env \<Rightarrow> ('s, 'w) job_engine \<Rightarrow> 'w run_env" where
  "runner_env ng g =
     (ng_run ng)\<lparr>re_writer_factory := (\<lambda>name. of_sum (fst (writer_for (ng_connect ng) name (eg_registry g))))\<rparr>"

definition request_options :: "run_request \<Rightarrow> string list \<Rightarrow> run_options" where
  "request_options rq siblings =
     \<lparr>ro_force = rq_force rq, ro_dry_run = rq_dry_run rq, ro_skip_sync = rq_skip_sync rq,
       ro_delete_vanished = rq_delete_vanished rq, ro_siblings = siblings\<rparr>"

definition abort_requested :: "('s, 'w) job_engine \<Rightarrow> string \<Rightarrow> bool" where
  "abort_requested g rid \<longleftrightarrow> eg_shutdown g \<or> rid \<in> eg_aborted g"

text \<open>The check between two documents: what held when the run started still holds, and \<open>signals\<close> says
  whether another thread has asked since.\<close>

definition checked :: "bool \<Rightarrow> ('w, bool) eff \<Rightarrow> ('w, bool) eff" where
  "checked already signals = bindE signals (\<lambda>b. ret (already \<or> b))"

definition report_metrics :: "('s, 'w) engine_env \<Rightarrow> run_row \<Rightarrow> ('s, 'w, unit) engine_eff" where
  "report_metrics ng run = (case ng_metrics ng of None \<Rightarrow> ret () | Some hook \<Rightarrow> on_world (hook run))"

record trigger_answer =
  ta_run_id :: "string option"
  ta_queued :: bool

text \<open>\<open>setdefault\<close>: one follow-up per job, the first that was asked for.\<close>

definition queue_followup :: "string \<Rightarrow> run_request \<Rightarrow> ('s, 'w, unit) engine_eff" where
  "queue_followup jid rq =
     modify (\<lambda>g. if eg_queued g jid = None then g\<lparr>eg_queued := (eg_queued g)(jid \<mapsto> rq)\<rparr> else g)"

definition trigger_run ::
  "('s, 'w) engine_env \<Rightarrow> string \<Rightarrow> run_trigger \<Rightarrow> run_request \<Rightarrow> bool \<Rightarrow> ('s, 'w, trigger_answer) engine_eff" where
  "trigger_run ng jid trigger rq queue =
     bindE (get_job jid) (\<lambda>j.
     bindE (catchE (seqE (on_core (begin_run j)) (ret True))
       (\<lambda>e. if exc_name e = ''RunRejectedError'' \<and> queue then ret False else raise e)) (\<lambda>claimed.
       if \<not> claimed
       then seqE (queue_followup jid rq) (ret \<lparr>ta_run_id = None, ta_queued = True\<rparr>)
       else bindE (on_world (re_uuid4 (ng_run ng))) (\<lambda>rid.
         seqE (modify (\<lambda>g. g\<lparr>eg_threads := eg_threads g @
             [\<lparr>th_job = j, th_trigger = trigger, th_run_id = rid, th_request = rq\<rparr>]\<rparr>))
           (ret \<lparr>ta_run_id = Some rid, ta_queued = False\<rparr>))))"

text \<open>The body of a run thread: the run with its claimed job lock, then the \<open>finally\<close> part, which
  forgets the thread and its abort and starts the queued follow-up.\<close>

definition thread_body :: "('s, 'w) engine_env \<Rightarrow> ('w, bool) eff \<Rightarrow> run_thread \<Rightarrow> ('s, 'w, unit) engine_eff" where
  "thread_body ng signals th =
     bindE (gets id) (\<lambda>g.
     bindE (on_core (execute_locked (runner_env ng g) (checked (abort_requested g (th_run_id th)) signals)
         (ng_wait ng) (ng_wakeups ng) (ng_lock_seconds ng) (th_job th) (th_trigger th) (Some (th_run_id th))
         (rq_mode (th_request th)) (rq_full_scope (th_request th))
         (request_options (th_request th) (sibling_job_ids g (th_job th)))))
       (report_metrics ng))"

definition forget_thread :: "run_thread \<Rightarrow> ('s, 'w, run_request option) engine_eff" where
  "forget_thread th =
     bindE (gets (\<lambda>g. eg_queued g (job_id (th_job th)))) (\<lambda>followup.
     seqE (modify (\<lambda>g. g\<lparr>eg_aborted := eg_aborted g - {th_run_id th}, eg_threads := remove1 th (eg_threads g),
         eg_queued := (eg_queued g)(job_id (th_job th) := None)\<rparr>))
       (ret followup))"

definition start_followup ::
  "('s, 'w) engine_env \<Rightarrow> run_thread \<Rightarrow> run_request option \<Rightarrow> ('s, 'w, unit) engine_eff" where
  "start_followup ng th followup =
     bindE (gets eg_shutdown) (\<lambda>stopping. case followup of
       None \<Rightarrow> ret ()
     | Some rq \<Rightarrow> if stopping then ret ()
         else catchE (bindE (trigger_run ng (job_id (th_job th)) (th_trigger th) rq False) (\<lambda>_. ret ()))
           (\<lambda>e. if exc_name e = ''RunRejectedError'' \<or> exc_name e = ''UnknownJobError'' then ret () else raise e))"

definition run_target :: "('s, 'w) engine_env \<Rightarrow> ('w, bool) eff \<Rightarrow> run_thread \<Rightarrow> ('s, 'w, unit) engine_eff" where
  "run_target ng signals th =
     finallyE (thread_body ng signals th) (bindE (forget_thread th) (start_followup ng th))"

text \<open>A run in the calling thread: the claim, and the run itself, which cannot be aborted by its id.\<close>

definition sync_body ::
  "('s, 'w) engine_env \<Rightarrow> ('w, bool) eff \<Rightarrow> job \<Rightarrow> run_trigger \<Rightarrow> run_request \<Rightarrow> ('s, 'w, run_row) engine_eff" where
  "sync_body ng signals j trigger rq =
     bindE (gets id) (\<lambda>g.
     bindE (on_core (execute_locked (runner_env ng g) (checked (eg_shutdown g) signals)
         (ng_wait ng) (ng_wakeups ng) (ng_lock_seconds ng) j trigger None (rq_mode rq) (rq_full_scope rq)
         (request_options (rq\<lparr>rq_delete_vanished := True\<rparr>) (sibling_job_ids g j)))) (\<lambda>run.
     seqE (report_metrics ng run) (ret run)))"

definition run_sync ::
  "('s, 'w) engine_env \<Rightarrow> ('w, bool) eff \<Rightarrow> string \<Rightarrow> run_trigger \<Rightarrow> run_request \<Rightarrow> ('s, 'w, run_row) engine_eff" where
  "run_sync ng signals jid trigger rq =
     bindE (get_job jid) (\<lambda>j.
     seqE (on_core (begin_run j)) (sync_body ng signals j trigger rq))"

definition cron_execute :: "('s, 'w) engine_env \<Rightarrow> ('w, bool) eff \<Rightarrow> job \<Rightarrow> ('s, 'w, unit) engine_eff" where
  "cron_execute ng signals j =
     bindE (gets (\<lambda>g. eg_shutdown g \<or> is_paused g (job_id j))) (\<lambda>skip.
       if skip then ret ()
       else catchE (bindE (run_sync ng signals (job_id j) TrigCron default_request) (\<lambda>_. ret ()))
         (\<lambda>e. if exc_name e = ''RunRejectedError'' \<or> exc_name e = ''UnknownJobError'' then ret () else raise e))"

definition request_abort :: "string \<Rightarrow> ('s, 'w, bool) engine_eff" where
  "request_abort rid =
     bindE (gets (\<lambda>g. get_run (state_db g) rid)) (\<lambda>run. case run of
       None \<Rightarrow> ret False
     | Some r \<Rightarrow>
         if run_status r \<noteq> Running then ret False
         else seqE (modify (\<lambda>g. g\<lparr>eg_aborted := insert rid (eg_aborted g)\<rparr>)) (ret True))"

section \<open>Lifecycle\<close>

definition fire_startup_run :: "('s, 'w) engine_env \<Rightarrow> job \<Rightarrow> ('s, 'w, unit) engine_eff" where
  "fire_startup_run ng j =
     catchE (bindE (trigger_run ng (job_id j) TrigStartup default_request False) (\<lambda>_. ret ()))
       (\<lambda>e. if exc_name e = ''RunRejectedError'' then ret () else raise e)"

text \<open>Starting APScheduler and the polling threads has no effect on this state.\<close>

definition startup :: "('s, 'w) engine_env \<Rightarrow> bool \<Rightarrow> ('s, 'w, unit) engine_eff" where
  "startup ng fire_startup_runs =
     bindE (now_iso ng) (\<lambda>now.
     bindE (db_change ng (reconcile_interrupted_runs now)) (\<lambda>reconciled.
     seqE (read_connections ng True)
    (bindE (reload_config ng True) (\<lambda>_.
     whenE fire_startup_runs
       (bindE (now_iso ng) (\<lambda>moment.
        bindE (gets (\<lambda>g. jobs_to_run_on_startup (ng_aps ng) (ng_startup ng) (state_db g) (ng_settings ng) moment
           (engine_jobs g))) (\<lambda>due.
        bindE (of_sum due) (\<lambda>js. for_each js (fire_startup_run ng)))))))))"

definition shutdown :: "('s, 'w, unit) engine_eff" where
  "shutdown = modify (\<lambda>g. g\<lparr>eg_shutdown := True\<rparr>)"

text \<open>One round of the config poll: the last stats of jobs, connections and secrets, and what changed.\<close>

type_synonym stats = "(int \<times> int) option"

definition poll_config ::
  "('s, 'w) engine_env \<Rightarrow> stats \<times> stats \<times> stats \<Rightarrow> ('s, 'w, stats \<times> stats \<times> stats) engine_eff" where
  "poll_config ng seen = (case seen of (last_jobs, last_conn, last_secrets) \<Rightarrow>
     let stat = (\<lambda>p. on_world (ng_stat ng p)); st = ng_settings ng in
     bindE (gets eg_shutdown) (\<lambda>stopping. if stopping then ret seen else
     bindE (stat (set_connections_file st)) (\<lambda>conn.
       if conn \<noteq> last_conn then
         seqE (reload_connections ng False)
           (bindE (stat (set_jobs_file st)) (\<lambda>jobs. ret (jobs, conn, last_secrets)))
       else bindE (stat (set_secrets_file st)) (\<lambda>secrets.
         if secrets \<noteq> last_secrets then
           bindE (reload_config ng False) (\<lambda>_.
             bindE (stat (set_jobs_file st)) (\<lambda>jobs. ret (jobs, conn, secrets)))
         else bindE (stat (set_jobs_file st)) (\<lambda>jobs.
           if jobs \<noteq> last_jobs then bindE (reload_config ng False) (\<lambda>_. ret (jobs, conn, secrets))
           else ret (jobs, conn, secrets))))))"

section \<open>What the engine tells\<close>

record config_info =
  co_path :: string
  co_checksum :: "string option"
  co_loaded_at :: "string option"
  co_valid :: bool
  co_applied :: bool
  co_errors :: "catalog_issue list"
  co_connections :: registry_info

definition config_info :: "('s, 'w) engine_env \<Rightarrow> ('s, 'w) job_engine \<Rightarrow> config_info" where
  "config_info ng g =
     \<lparr>co_path = set_jobs_file (ng_settings ng),
       co_checksum = (case eg_last_load g of None \<Rightarrow> None | Some r \<Rightarrow> lr_checksum r),
       co_loaded_at = map_option lr_loaded_at (eg_last_load g),
       co_valid = (case eg_last_load g of None \<Rightarrow> False | Some r \<Rightarrow> load_ok r),
       co_applied = eg_config_applied g,
       co_errors = (case eg_last_load g of None \<Rightarrow> [] | Some r \<Rightarrow> lr_errors r),
       co_connections = registry_info (ng_settings ng) (eg_registry g)\<rparr>"

record validation =
  va_ok :: bool
  va_errors :: "catalog_issue list"
  va_jobs :: nat

definition validate_catalog :: "('s, 'w) engine_env \<Rightarrow> string \<Rightarrow> ('s, 'w, validation) engine_eff" where
  "validate_catalog ng raw =
     bindE (gets (\<lambda>g. registry_names (eg_registry g))) (\<lambda>known.
     bindE (now_iso ng) (\<lambda>now.
     bindE (on_world (ng_environ ng)) (\<lambda>env.
       let result = load_catalog_bytes (ng_catalog ng) (Inl raw) now (ng_settings ng) env (Some known) ''<candidate>''
       in ret \<lparr>va_ok = load_ok result, va_errors = lr_errors result, va_jobs = length (lr_jobs result)\<rparr>)))"

definition engine_config_error :: "('s, 'w) engine_env \<Rightarrow> ('s, 'w, string option) engine_eff" where
  "engine_config_error ng =
     bindE (gets id) (\<lambda>g.
       let catalog_error = (case eg_last_load g of None \<Rightarrow> None | Some r \<Rightarrow> config_error r) in
       case registry_error (eg_registry g) of
         Some e \<Rightarrow> ret (Some (''connections.yaml: '' @ e))
       | None \<Rightarrow>
           bindE (case ng_secret_problem ng of None \<Rightarrow> ret None | Some problem \<Rightarrow> on_world problem) (\<lambda>p.
             case p of Some e \<Rightarrow> ret (Some (''secrets.yaml: '' @ e)) | None \<Rightarrow> ret catalog_error))"

text \<open>The probes: the caller's, and the engine's own one of Qdrant unless the caller has one. The
  connections are asked in the order of their first job; the code iterates over a set.\<close>

definition registry_writer :: "('s, 'w) engine_env \<Rightarrow> string \<Rightarrow> ('s, 'w, 'w qwriter) engine_eff" where
  "registry_writer ng name g =
     (case writer_for (ng_connect ng) name (eg_registry g) of (r, reg) \<Rightarrow> (r, g\<lparr>eg_registry := reg\<rparr>))"

definition on_registry_world :: "('w registry \<times> 'w, 'a) eff \<Rightarrow> ('s, 'w, 'a) engine_eff" where
  "on_registry_world m g =
     (case m (eg_registry g, rs_world (es_run (eg_core g))) of (r, (reg, w)) \<Rightarrow>
        (r, g\<lparr>eg_registry := reg, eg_core := (eg_core g)\<lparr>es_run := (es_run (eg_core g))\<lparr>rs_world := w\<rparr>\<rparr>\<rparr>))"

definition probe_qdrant :: "('s, 'w) engine_env \<Rightarrow> ('s, 'w, bool) engine_eff" where
  "probe_qdrant ng =
     bindE (gets (\<lambda>g. remdups (map job_connection (filter job_enabled (engine_jobs g))))) (\<lambda>referenced.
       on_registry_world (ping_all (ng_connect ng) referenced))"

definition dep_probes :: "('s, 'w) engine_env \<Rightarrow> (string \<times> ('s, 'w, bool) engine_eff) list" where
  "dep_probes ng =
     map (\<lambda>(n, p). (n, on_world p)) (ng_probes ng) @
     (if ''qdrant'' \<in> fst ` set (ng_probes ng) then [] else [(''qdrant'', probe_qdrant ng)])"

primrec probe_all :: "(string \<times> ('s, 'w, bool) engine_eff) list \<Rightarrow> ('s, 'w, (string \<times> bool) list) engine_eff" where
  "probe_all [] = ret []"
| "probe_all (np # nps) =
     bindE (catchE (snd np) (\<lambda>e. ret False)) (\<lambda>up.
     bindE (probe_all nps) (\<lambda>later. ret ((fst np, up) # later)))"

definition refresh_deps :: "('s, 'w) engine_env \<Rightarrow> ('s, 'w, (string \<times> bool) list) engine_eff" where
  "refresh_deps ng =
     bindE (probe_all (dep_probes ng)) (\<lambda>probed.
     bindE (now_iso ng) (\<lambda>now.
     seqE (modify (\<lambda>g. g\<lparr>eg_deps := probed, eg_deps_checked_at := Some now\<rparr>)) (ret probed)))"

record health =
  he_degraded :: bool
  he_jobs_loaded :: nat
  he_config_error :: "string option"
  he_deps :: "(string \<times> bool) list"
  he_deps_checked_at :: "string option"
  he_features :: "string list"

definition FEATURES :: "string list" where
  "FEATURES = [''run_progress'', ''documents'', ''validate'', ''delete_runs'']"

text \<open>Only an empty error text would not degrade the status.\<close>

definition health :: "('s, 'w) engine_env \<Rightarrow> ('s, 'w, health) engine_eff" where
  "health ng =
     bindE (gets id) (\<lambda>g.
     bindE (engine_config_error ng) (\<lambda>err.
       let deps_down = eg_deps_checked_at g \<noteq> None \<and> \<not> list_all snd (eg_deps g) in
       ret \<lparr>he_degraded = (err \<noteq> None \<and> err \<noteq> Some [] \<or> deps_down), he_jobs_loaded = length (eg_jobs g),
         he_config_error = err, he_deps = eg_deps g, he_deps_checked_at = eg_deps_checked_at g,
         he_features = FEATURES @ (if ng_secret_problem ng = None then [] else [''secret_store''])\<rparr>))"

record job_summary =
  js_id :: string
  js_enabled :: bool
  js_paused :: bool
  js_source_type :: string
  js_label :: string
  js_collection :: string
  js_connection :: string
  js_mode :: mode
  js_cron :: "string option"
  js_every :: "string option"
  js_next_run_at :: "string option"
  js_last_run :: "run_row option"
  js_documents :: "nat \<times> int"

definition job_summary :: "('s, 'w) engine_env \<Rightarrow> ('s, 'w) job_engine \<Rightarrow> job \<Rightarrow> job_summary" where
  "job_summary ng g j =
     \<lparr>js_id = job_id j, js_enabled = job_enabled j, js_paused = is_paused g (job_id j),
       js_source_type = kind_type (src_kind (job_source j)), js_label = job_label j,
       js_collection = job_collection j, js_connection = job_connection j, js_mode = job_mode j,
       js_cron = sch_cron (job_schedule j), js_every = sch_every (job_schedule j),
       js_next_run_at = next_run_time (ng_aps ng) (eg_scheduler g) (job_id j),
       js_last_run = (case list_runs (state_db g) (Some (job_id j)) None 1 None of [] \<Rightarrow> None | r # _ \<Rightarrow> Some r),
       js_documents = document_totals (state_db g) (job_id j)\<rparr>"

text \<open>\<open>job_detail\<close> shows the configuration with every secret reference masked; \<open>ng_dump\<close> is pydantic's
  dump of the job, by alias.\<close>

definition secret_alias :: "string \<Rightarrow> string" where
  "secret_alias f = (if f = ''password'' then ''pass'' else f)"

definition mask_secret :: "string \<Rightarrow> (string \<times> jval) list \<Rightarrow> (string \<times> jval) list" where
  "mask_secret f src =
     (if obj_get src (secret_alias f) = JNull then src else obj_set (secret_alias f) (JStr ''***'') src)"

definition redacted :: "job \<Rightarrow> (string \<times> jval) list \<Rightarrow> (string \<times> jval) list" where
  "redacted j config =
     (case obj_get config ''source'' of
        JObj src \<Rightarrow> obj_set ''source'' (JObj (fold mask_secret (map fst (secret_fields (src_kind (job_source j)))) src)) config
      | _ \<Rightarrow> config)"

record job_detail =
  jd_config :: "(string \<times> jval) list"
  jd_paused :: bool
  jd_next_run_at :: "string option"
  jd_runs :: "run_row list"

definition job_detail :: "('s, 'w) engine_env \<Rightarrow> ('s, 'w) job_engine \<Rightarrow> job \<Rightarrow> job_detail" where
  "job_detail ng g j =
     \<lparr>jd_config = redacted j (ng_dump ng j), jd_paused = is_paused g (job_id j),
       jd_next_run_at = next_run_time (ng_aps ng) (eg_scheduler g) (job_id j),
       jd_runs = list_runs (state_db g) (Some (job_id j)) None 10 None\<rparr>"

definition run_detail :: "('s, 'w) job_engine \<Rightarrow> string \<Rightarrow> (run_row \<times> run_event list) option" where
  "run_detail g rid = map_option (\<lambda>r. (r, list_events (state_db g) rid)) (get_run (state_db g) rid)"

section \<open>Runs and documents\<close>

definition engine_list_runs ::
  "('s, 'w) job_engine \<Rightarrow> string option \<Rightarrow> run_status option \<Rightarrow> int \<Rightarrow> string option \<Rightarrow> run_row list" where
  "engine_list_runs g jid status limit since = list_runs (state_db g) jid status limit since"

definition parse_bound :: "('s, 'w) engine_env \<Rightarrow> string option \<Rightarrow> exc + datetime option" where
  "parse_bound ng x =
     (case or_else x None of
        None \<Rightarrow> Inr None
      | Some t \<Rightarrow> map_sum id Some (parse_instant (ng_fromisoformat ng) t))"

definition engine_delete_runs ::
  "('s, 'w) engine_env \<Rightarrow> string \<Rightarrow> string option \<Rightarrow> string option \<Rightarrow> bool \<Rightarrow> ('s, 'w, delete_report) engine_eff" where
  "engine_delete_runs ng jid since until dry_run =
     bindE (of_sum (parse_bound ng since)) (\<lambda>lower.
     bindE (of_sum (parse_bound ng until)) (\<lambda>upper.
       if (case (lower, upper) of (Some l, Some u) \<Rightarrow> datetime_less u l | _ \<Rightarrow> False)
       then raise (ValueError ''since is later than until'')
       else db_change ng (delete_runs jid (map_option instant_iso lower) (map_option instant_iso upper) dry_run)))"

definition parse_status :: "(jval \<Rightarrow> string) \<Rightarrow> string option \<Rightarrow> exc + doc_status option" where
  "parse_status repr x =
     (case x of
        None \<Rightarrow> Inr None
      | Some t \<Rightarrow> (case find (\<lambda>d. status_str d = t) DOCUMENT_STATUSES of
          None \<Rightarrow> Inl (ValueError (''unknown document status '' @ repr (JStr t)))
        | Some d \<Rightarrow> Inr (Some d)))"

definition parse_order :: "(jval \<Rightarrow> string) \<Rightarrow> string \<Rightarrow> exc + page_order" where
  "parse_order repr t =
     (if t = ''path'' then Inr ByPath else if t = ''recent'' then Inr ByRecent
      else Inl (ValueError (''unknown order '' @ repr (JStr t))))"

record document_item =
  di_source :: string
  di_rel_path :: string
  di_status :: doc_status
  di_last_error :: "string option"
  di_indexed_at :: string
  di_chunk_count :: int
  di_size :: int
  di_media_type :: "string option"
  di_last_run_id :: string

definition document_item :: "document_row \<Rightarrow> document_item" where
  "document_item d =
     \<lparr>di_source = doc_source d, di_rel_path = doc_rel_path d, di_status = doc_status d,
       di_last_error = doc_last_error d, di_indexed_at = doc_indexed_at d, di_chunk_count = doc_chunk_count d,
       di_size = doc_size d, di_media_type = doc_media_type d, di_last_run_id = doc_last_run d\<rparr>"

record document_page =
  dp_total :: nat
  dp_counts :: "(doc_status \<times> nat) list"
  dp_items :: "document_item list"

definition documents ::
  "('s, 'w) engine_env \<Rightarrow> string \<Rightarrow> string option \<Rightarrow> string option \<Rightarrow> string option \<Rightarrow> string \<Rightarrow> int \<Rightarrow> int \<Rightarrow>
   ('s, 'w, document_page) engine_eff" where
  "documents ng jid status query run order limit offset =
     bindE (get_job jid) (\<lambda>_.
     bindE (of_sum (parse_status (cg_repr (ng_catalog ng)) status)) (\<lambda>status.
     bindE (of_sum (parse_order (cg_repr (ng_catalog ng)) order)) (\<lambda>order.
     bindE (gets state_db) (\<lambda>db.
       ret \<lparr>dp_total = count_documents_filtered db jid status query run,
         dp_counts = count_documents_by_status db jid,
         dp_items = map document_item (list_documents_page db jid status query run order limit offset)\<rparr>))))"

section \<open>Collections and orphans\<close>

text \<open>The first job of the collection names the connection; the jobs include disabled ones.\<close>

definition writer_for_collection ::
  "('s, 'w) engine_env \<Rightarrow> string \<Rightarrow> ('s, 'w, 'w qwriter option) engine_eff" where
  "writer_for_collection ng c =
     bindE (gets (\<lambda>g. find (\<lambda>j. job_collection j = c) (engine_jobs g))) (\<lambda>j. case j of
       None \<Rightarrow> ret None
     | Some j \<Rightarrow> catchE (bindE (registry_writer ng (job_connection j)) (\<lambda>wr. ret (Some wr)))
         (\<lambda>e. if exc_name e = ''UnknownConnectionError'' then ret None else raise e))"

record collection_entry =
  ce_collection :: string
  ce_jobs :: "string list"
  ce_points :: nat
  ce_meta :: "payload option"
  ce_indexes :: "string list"

definition collection_entry ::
  "('s, 'w) engine_env \<Rightarrow> string \<Rightarrow> string list \<Rightarrow> ('s, 'w, collection_entry) engine_eff" where
  "collection_entry ng c ids =
     (let empty = \<lparr>ce_collection = c, ce_jobs = sort_strings ids, ce_points = 0, ce_meta = None, ce_indexes = []\<rparr> in
      bindE (writer_for_collection ng c) (\<lambda>writer. case writer of
        None \<Rightarrow> ret empty
      | Some wr \<Rightarrow>
          bindE (on_world (collection_names wr)) (\<lambda>names.
            if c \<notin> names then ret empty
            else bindE (on_world (count_points wr c None)) (\<lambda>n.
              bindE (on_world (read_meta wr c)) (\<lambda>meta.
              bindE (on_world (payload_index_fields wr c)) (\<lambda>fields.
                ret (empty\<lparr>ce_points := n, ce_meta := meta, ce_indexes := sorted_list_of_set fields\<rparr>)))))))"

primrec collection_entries ::
  "('s, 'w) engine_env \<Rightarrow> (string \<times> string list) list \<Rightarrow> ('s, 'w, collection_entry list) engine_eff" where
  "collection_entries ng [] = ret []"
| "collection_entries ng (e # es) =
     bindE (collection_entry ng (fst e) (snd e)) (\<lambda>x.
     bindE (collection_entries ng es) (\<lambda>xs. ret (x # xs)))"

definition by_collection :: "job list \<Rightarrow> (string \<times> string list) list" where
  "by_collection js =
     map (\<lambda>c. (c, map job_id (filter (\<lambda>j. job_collection j = c) js))) (sort_strings (remdups (map job_collection js)))"

definition collections :: "('s, 'w) engine_env \<Rightarrow> ('s, 'w, collection_entry list) engine_eff" where
  "collections ng =
     bindE (gets (\<lambda>g. by_collection (filter job_enabled (engine_jobs g)))) (collection_entries ng)"

primrec all_writers :: "('s, 'w) engine_env \<Rightarrow> string list \<Rightarrow> ('s, 'w, 'w qwriter list) engine_eff" where
  "all_writers ng [] = ret []"
| "all_writers ng (n # ns) =
     bindE (registry_writer ng n) (\<lambda>wr. bindE (all_writers ng ns) (\<lambda>wrs. ret (wr # wrs)))"

definition registry_writers :: "('s, 'w) engine_env \<Rightarrow> ('s, 'w, 'w qwriter list) engine_eff" where
  "registry_writers ng = bindE (gets (\<lambda>g. sort_strings (registry_names (eg_registry g)))) (all_writers ng)"

text \<open>The points of a job in a collection, summed over the writers that have the collection; the
  action \<open>also\<close> runs on each of them after counting.\<close>

primrec sum_points ::
  "('w qwriter \<Rightarrow> ('w, unit) eff) \<Rightarrow> string \<Rightarrow> string \<Rightarrow> 'w qwriter list \<Rightarrow> ('w, nat) eff" where
  "sum_points act c jid [] = ret 0"
| "sum_points act c jid (wr # wrs) =
     bindE (collection_names wr) (\<lambda>names.
     bindE (if c \<in> names then bindE (count_points wr c (Some jid)) (\<lambda>n. seqE (act wr) (ret n)) else ret 0) (\<lambda>n.
     bindE (sum_points act c jid wrs) (\<lambda>m. ret (n + m))))"

primrec orphan_points :: "'w qwriter list \<Rightarrow> orphan list \<Rightarrow> ('w, (orphan \<times> nat) list) eff" where
  "orphan_points wrs [] = ret []"
| "orphan_points wrs (x # xs) =
     bindE (sum_points (\<lambda>wr. ret ()) (orph_collection x) (orph_job_id x) wrs) (\<lambda>n.
     bindE (orphan_points wrs xs) (\<lambda>rest. ret ((x, n) # rest)))"

definition orphans :: "('s, 'w) engine_env \<Rightarrow> ('s, 'w, (orphan \<times> nat) list) engine_eff" where
  "orphans ng =
     bindE (gets (\<lambda>g. job_id ` set (engine_jobs g))) (\<lambda>known.
     bindE (registry_writers ng) (\<lambda>wrs.
     bindE (gets (\<lambda>g. orphan_summary (state_db g) known)) (\<lambda>os. on_world (orphan_points wrs os))))"

primrec delete_collections ::
  "'w qwriter list \<Rightarrow> string \<Rightarrow> string list \<Rightarrow> ('w, nat) eff" where
  "delete_collections wrs jid [] = ret 0"
| "delete_collections wrs jid (c # cs) =
     bindE (sum_points (\<lambda>wr. delete_job_points wr c jid) c jid wrs) (\<lambda>n.
     bindE (delete_collections wrs jid cs) (\<lambda>m. ret (n + m)))"

definition delete_orphan :: "('s, 'w) engine_env \<Rightarrow> string \<Rightarrow> ('s, 'w, nat \<times> nat) engine_eff" where
  "delete_orphan ng jid =
     bindE (gets (\<lambda>g. jid \<in> set (map fst (eg_jobs g)))) (\<lambda>active.
       if active then raise (JobStillActiveError jid)
       else bindE (gets (\<lambda>g. remdups (map orph_collection
              (filter (\<lambda>x. orph_job_id x = jid) (orphan_summary (state_db g) {}))))) (\<lambda>cs.
            bindE (registry_writers ng) (\<lambda>wrs.
            bindE (on_world (delete_collections wrs jid cs)) (\<lambda>deleted_points.
            bindE (db_change ng (delete_documents_for_job jid)) (\<lambda>deleted_rows.
              ret (deleted_points, deleted_rows))))))"

section \<open>Preview\<close>

record preview_item =
  pv_rel_path :: string
  pv_source :: string
  pv_size :: int

text \<open>\<open>files[:limit]\<close>; a negative limit leaves out the last files.\<close>

definition head_slice :: "int \<Rightarrow> 'a list \<Rightarrow> 'a list" where
  "head_slice limit xs = (if 0 \<le> limit then take (nat limit) xs else take (length xs - nat (- limit)) xs)"

fun preview_items :: "job \<Rightarrow> scanned_file list \<Rightarrow> exc + preview_item list" where
  "preview_items j [] = Inr []"
| "preview_items j (f # fs) =
     (case source_uri j (sf_rel_path f) of
        Inl e \<Rightarrow> Inl e
      | Inr src \<Rightarrow> map_sum id (\<lambda>more. \<lparr>pv_rel_path = sf_rel_path f, pv_source = src, pv_size = sf_size f\<rparr> # more)
          (preview_items j fs))"

definition preview :: "('s, 'w) engine_env \<Rightarrow> string \<Rightarrow> int \<Rightarrow> ('s, 'w, preview_item list) engine_eff" where
  "preview ng jid limit =
     bindE (get_job jid) (\<lambda>j.
     bindE (on_world (scan_tree (re_fs (ng_run ng)) (scan_root (ng_settings ng) j) (job_filters j))) (\<lambda>files.
       of_sum (preview_items j (head_slice limit files))))"

section \<open>A new engine\<close>

definition new_engine :: "('s, 'w) engine_env \<Rightarrow> 's \<Rightarrow> 'w engine_state \<Rightarrow> ('s, 'w) job_engine" where
  "new_engine ng s c =
     \<lparr>eg_jobs = [], eg_last_load = None, eg_config_applied = True, eg_paused = [], eg_aborted = {},
       eg_queued = Map.empty, eg_threads = [], eg_shutdown = False,
       eg_deps = map (\<lambda>(n, p). (n, False)) (dep_probes ng), eg_deps_checked_at = None,
       eg_registry = new_registry, eg_scheduler = \<lparr>sd_applied = Map.empty, sd_aps = s\<rparr>, eg_core = c\<rparr>"

end
