(* ===== verification/ServiceInv.thy ===== *)
theory ServiceInv
  imports Service
begin

text \<open>
  What the engine keeps: a refused reload changes nothing it runs by, and in every reachable state
  the jobs are a valid compatible catalog, every entry of the scheduler belongs to a scheduled job
  and fires by a schedule that was applied for it, the scheduler holds exactly what the catalog and
  the paused jobs determine whenever every schedule of the catalog can be built, and the held job
  locks are those of the runs there are.
\<close>

section \<open>What a plan determines\<close>

text \<open>The abstract scheduler: the entry of a job is a function of the catalog and the paused jobs.\<close>

definition planned :: "settings \<Rightarrow> (string \<times> job) list \<Rightarrow> string list \<Rightarrow> string \<Rightarrow> entry option" where
  "planned st jobs paused i =
     (case map_of jobs i of
        None \<Rightarrow> None
      | Some j \<Rightarrow> if scheduled j
          then map_option (\<lambda>t. (new_entry t j)\<lparr>ae_paused := i \<in> set paused\<rparr>) (trigger_spec st (job_schedule j))
          else None)"

definition planned_schedule :: "(string \<times> job) list \<Rightarrow> string \<Rightarrow> schedule_config option" where
  "planned_schedule jobs i =
     (case map_of jobs i of None \<Rightarrow> None | Some j \<Rightarrow> if scheduled j then Some (job_schedule j) else None)"

text \<open>What holds of the scheduler even when a trigger could not be built and a reload was left half done:
  an entry belongs to a scheduled job of the catalog and has the trigger and the grace of the schedule
  that was applied for it, and is paused for a paused job only; without an entry nothing is applied.\<close>

definition entry_ok ::
  "settings \<Rightarrow> (string \<times> job) list \<Rightarrow> string list \<Rightarrow> string \<Rightarrow> entry option \<Rightarrow> schedule_config option \<Rightarrow> bool" where
  "entry_ok st jobs paused i e applied \<longleftrightarrow>
     (case e of
        None \<Rightarrow> applied = None
      | Some e \<Rightarrow> (\<exists>j sch. map_of jobs i = Some j \<and> scheduled j \<and> applied = Some sch \<and>
          trigger_spec st sch = Some (ae_trigger e) \<and> ae_misfire e = sch_misfire_grace_seconds sch \<and>
          (ae_paused e \<longrightarrow> i \<in> set paused)))"

definition entries_sound ::
  "'s aps \<Rightarrow> settings \<Rightarrow> (string \<times> job) list \<Rightarrow> string list \<Rightarrow> 's scheduler \<Rightarrow> bool" where
  "entries_sound a st jobs paused s \<longleftrightarrow>
     (\<forall>i. entry_ok st jobs paused i (ap_entry a (sd_aps s) i) (sd_applied s i))"

definition plan_ok :: "('s, 'w) engine_env \<Rightarrow> ('s, 'w) job_engine \<Rightarrow> bool" where
  "plan_ok ng g \<longleftrightarrow>
     map fst (eg_jobs g) = map job_id (engine_jobs g) \<and> list_all job_valid (engine_jobs g) \<and>
     jobs_compatible (engine_jobs g) \<and>
     entries_sound (ng_aps ng) (ng_settings ng) (eg_jobs g) (eg_paused g) (eg_scheduler g) \<and>
     (triggers_build (ng_aps ng) (ng_settings ng) (engine_jobs g) \<longrightarrow>
        ap_entry (ng_aps ng) (sd_aps (eg_scheduler g)) = planned (ng_settings ng) (eg_jobs g) (eg_paused g) \<and>
        sd_applied (eg_scheduler g) = planned_schedule (eg_jobs g))"

text \<open>What is asked of APScheduler: the laws of its job store. A trigger may fail to build.\<close>

definition scheduler_laws :: "('s, 'w) engine_env \<Rightarrow> bool" where
  "scheduler_laws ng \<longleftrightarrow> aps_laws (ng_aps ng)"

lemma trigger_spec_Some: "job_valid j \<Longrightarrow> scheduled j \<Longrightarrow> \<exists>t. trigger_spec st (job_schedule j) = Some t"
  by (auto simp: job_valid_def schedule_valid_def scheduled_def is_manual_only_def trigger_spec_def
      every_seconds_def Let_def split: option.splits)

lemma valid_triggers_build:
  assumes "\<And>t. ap_trigger_error a t = None" and "list_all job_valid js"
  shows "triggers_build a st js"
  using assms trigger_spec_Some [of _ st]
  by (fastforce simp: triggers_build_def list_all_iff desired_def build_trigger_def)

lemma entry_ok_paused:
  "entry_ok st jobs ps i e applied \<Longrightarrow> i \<in> set ps \<Longrightarrow>
   entry_ok st jobs ps i (map_option (\<lambda>e. e\<lparr>ae_paused := True\<rparr>) e) applied"
  by (cases e) (auto simp: entry_ok_def)

lemma jobs_by_id_distinct:
  "distinct (map job_id js) \<Longrightarrow> fst ` set d \<inter> job_id ` set js = {} \<Longrightarrow>
   jobs_by_id js d = d @ map (\<lambda>j. (job_id j, j)) js"
proof (induction js arbitrary: d)
  case (Cons j js)
  then have "map_of d (job_id j) = None" by (auto simp: map_of_eq_None_iff)
  with Cons show ?case by auto
qed simp

lemma map_of_ids:
  "distinct (map job_id js) \<Longrightarrow> map_of (map (\<lambda>j. (job_id j, j)) js) i = Some j \<longleftrightarrow> j \<in> set js \<and> job_id j = i"
  by (induction js) (auto split: if_splits, metis imageI)

section \<open>Applying a catalog\<close>

lemma pause_scheduled_entry:
  assumes "aps_laws a"
  shows "\<exists>b s'. pause_scheduled a i s = (Inr b, s') \<and> sd_applied s' = sd_applied s \<and>
    ap_entry a (sd_aps s') = (ap_entry a (sd_aps s))(i := map_option (\<lambda>e. e\<lparr>ae_paused := True\<rparr>) (ap_entry a (sd_aps s) i))"
  using assms
  by (cases "ap_entry a (sd_aps s) i")
    (auto simp: pause_scheduled_def bindE_def gets_def ret_def seqE_def modify_def aps_laws_def fun_upd_idem)

lemma resume_scheduled_entry:
  assumes "aps_laws a"
  shows "\<exists>b s'. resume_scheduled a i s = (Inr b, s') \<and> sd_applied s' = sd_applied s \<and>
    ap_entry a (sd_aps s') = (ap_entry a (sd_aps s))(i := map_option (\<lambda>e. e\<lparr>ae_paused := False\<rparr>) (ap_entry a (sd_aps s) i))"
  using assms
  by (cases "ap_entry a (sd_aps s) i")
    (auto simp: resume_scheduled_def bindE_def gets_def ret_def seqE_def modify_def aps_laws_def fun_upd_idem)

lemma pause_all_entries:
  assumes "aps_laws a"
  shows "eg_scheduler g = s \<Longrightarrow>
    \<exists>s'. for_each ps (\<lambda>i. bindE (on_scheduler (pause_scheduled a i)) (\<lambda>_. ret ())) g =
      (Inr (), g\<lparr>eg_scheduler := s'\<rparr>) \<and> sd_applied s' = sd_applied s \<and>
    ap_entry a (sd_aps s') = (\<lambda>i. if i \<in> set ps
      then map_option (\<lambda>e. e\<lparr>ae_paused := True\<rparr>) (ap_entry a (sd_aps s) i) else ap_entry a (sd_aps s) i)"
proof (induction ps arbitrary: g s)
  case Nil
  then show ?case by (intro exI [of _ s]) (auto simp: ret_def)
next
  case (Cons p ps)
  obtain b s1 where s1: "pause_scheduled a p s = (Inr b, s1)" "sd_applied s1 = sd_applied s"
    "ap_entry a (sd_aps s1) = (ap_entry a (sd_aps s))(p :=
       map_option (\<lambda>e. e\<lparr>ae_paused := True\<rparr>) (ap_entry a (sd_aps s) p))"
    using pause_scheduled_entry [OF assms] by metis
  have e: "eg_scheduler (g\<lparr>eg_scheduler := s1\<rparr>) = s1" by simp
  obtain s' where s': "for_each ps (\<lambda>i. bindE (on_scheduler (pause_scheduled a i)) (\<lambda>_. ret ())) (g\<lparr>eg_scheduler := s1\<rparr>) =
      (Inr (), g\<lparr>eg_scheduler := s1, eg_scheduler := s'\<rparr>)" "sd_applied s' = sd_applied s1"
    "ap_entry a (sd_aps s') = (\<lambda>i. if i \<in> set ps
      then map_option (\<lambda>e. e\<lparr>ae_paused := True\<rparr>) (ap_entry a (sd_aps s1) i) else ap_entry a (sd_aps s1) i)"
    using Cons.IH [OF e] by blast
  have "ap_entry a (sd_aps s') = (\<lambda>i. if i \<in> set (p # ps)
      then map_option (\<lambda>e. e\<lparr>ae_paused := True\<rparr>) (ap_entry a (sd_aps s) i) else ap_entry a (sd_aps s) i)"
    by (rule ext) (simp add: s'(3) s1(3) option.map_comp o_def)
  moreover have step: "bindE (on_scheduler (pause_scheduled a p)) (\<lambda>_. ret ()) g = (Inr (), g\<lparr>eg_scheduler := s1\<rparr>)"
    using s1(1) Cons.prems by (simp add: bindE_def on_scheduler_def ret_def)
  then have "for_each (p # ps) (\<lambda>i. bindE (on_scheduler (pause_scheduled a i)) (\<lambda>_. ret ())) g = (Inr (), g\<lparr>eg_scheduler := s'\<rparr>)"
    using s'(1) unfolding for_each.simps seqE_Inr by auto
  ultimately show ?case using s1(2) s'(2) by (intro exI [of _ s'] conjI) simp_all
qed

lemma planned_after:
  assumes "entries_sound a st old paused s"
    and "scheduled j" and "trigger_spec st (job_schedule j) = Some t"
  shows "\<exists>b. entry_after st (ap_entry a (sd_aps s) (job_id j)) (sd_applied s (job_id j)) j =
      Some ((new_entry t j)\<lparr>ae_paused := b\<rparr>) \<and> (b \<longrightarrow> job_id j \<in> set paused)"
proof -
  have ok: "entry_ok st old paused (job_id j) (ap_entry a (sd_aps s) (job_id j)) (sd_applied s (job_id j))"
    using assms(1) by (simp add: entries_sound_def)
  have fresh: "new_entry t j = (new_entry t j)\<lparr>ae_paused := False\<rparr>" by (simp add: new_entry_def)
  show ?thesis
  proof (cases "\<exists>e. ap_entry a (sd_aps s) (job_id j) = Some e \<and> sd_applied s (job_id j) = Some (job_schedule j)")
    case True
    then obtain e where e: "ap_entry a (sd_aps s) (job_id j) = Some e" "sd_applied s (job_id j) = Some (job_schedule j)" by blast
    with ok assms(3) have "ae_trigger e = t \<and> ae_misfire e = sch_misfire_grace_seconds (job_schedule j) \<and>
        (ae_paused e \<longrightarrow> job_id j \<in> set paused)" by (auto simp: entry_ok_def)
    then show ?thesis
      by (intro exI [of _ "ae_paused e"]) (cases e, simp add: e entry_after_def new_entry_def)
  next
    case False
    then have "entry_after st (ap_entry a (sd_aps s) (job_id j)) (sd_applied s (job_id j)) j = Some (new_entry t j)"
      using assms(3) by (auto simp: entry_after_def split: option.split)
    then show ?thesis using fresh by (intro exI [of _ False]) simp
  qed
qed

text \<open>The entries after a reload: what \<open>apply_catalog\<close> leaves, with the paused jobs paused again, is the plan of
  the new catalog.\<close>

lemma reloaded_entries_planned:
  assumes old: "entries_sound a st old paused s"
    and ids: "distinct (map job_id js)" and valid: "list_all job_valid js"
    and new: "list_all (\<lambda>j. ap_entry a (sd_aps s1) (job_id j) =
        entry_after st (ap_entry a (sd_aps s) (job_id j)) (sd_applied s (job_id j)) j \<and>
      sd_applied s1 (job_id j) = Some (job_schedule j)) (desired js)"
    and gone: "\<forall>i. i \<notin> job_id ` set (desired js) \<longrightarrow> ap_entry a (sd_aps s1) i = None \<and> sd_applied s1 i = None"
    and ps: "\<And>j. j \<in> set js \<Longrightarrow> job_id j \<in> set ps \<longleftrightarrow> job_id j \<in> set paused"
    and s2: "sd_applied s2 = sd_applied s1" "ap_entry a (sd_aps s2) = (\<lambda>i. if i \<in> set ps
      then map_option (\<lambda>e. e\<lparr>ae_paused := True\<rparr>) (ap_entry a (sd_aps s1) i) else ap_entry a (sd_aps s1) i)"
    and d: "d = map (\<lambda>j. (job_id j, j)) js"
  shows "ap_entry a (sd_aps s2) i = planned st d ps i \<and> sd_applied s2 i = planned_schedule d i"
proof -
  have at: "map_of d i = Some j \<longleftrightarrow> j \<in> set js \<and> job_id j = i" for j
    unfolding d by (rule map_of_ids [OF ids])
  have des: "j \<in> set (desired js) \<longleftrightarrow> j \<in> set js \<and> scheduled j" for j by (auto simp: desired_def)
  show ?thesis
  proof (cases "\<exists>j. j \<in> set (desired js) \<and> job_id j = i")
    case False
    then have "i \<notin> job_id ` set (desired js)" by blast
    with gone have "ap_entry a (sd_aps s1) i = None \<and> sd_applied s1 i = None" by simp
    moreover have "\<not> scheduled j" if "map_of d i = Some j" for j
      using that False unfolding at des by blast
    ultimately show ?thesis by (auto simp: s2 planned_def planned_schedule_def split: option.split)
  next
    case True
    then obtain j where j: "j \<in> set js" "scheduled j" "job_id j = i" by (auto simp: des)
    obtain t where t: "trigger_spec st (job_schedule j) = Some t"
      using trigger_spec_Some [of j] valid j(1,2) by (auto simp: list_all_iff)
    have "j \<in> set (desired js)" using j by (simp add: des)
    with new have "ap_entry a (sd_aps s1) (job_id j) =
        entry_after st (ap_entry a (sd_aps s) (job_id j)) (sd_applied s (job_id j)) j \<and>
      sd_applied s1 (job_id j) = Some (job_schedule j)" unfolding list_all_iff by blast
    then obtain b where "ap_entry a (sd_aps s1) i = Some ((new_entry t j)\<lparr>ae_paused := b\<rparr>)"
      "b \<longrightarrow> i \<in> set paused" "sd_applied s1 i = Some (job_schedule j)"
      using planned_after [OF old j(2) t] unfolding j(3) by auto
    moreover have "map_of d i = Some j" using j by (simp add: at)
    ultimately show ?thesis using j(2) t ps [OF j(1)] j(3) by (auto simp: s2 planned_def planned_schedule_def)
  qed
qed

text \<open>Each step of a reload keeps the entries sound, also when building a trigger fails.\<close>

definition keeps_sound ::
  "'s aps \<Rightarrow> settings \<Rightarrow> (string \<times> job) list \<Rightarrow> string list \<Rightarrow> 's scheduler \<Rightarrow> 's scheduler \<Rightarrow> bool" where
  "keeps_sound a st jobs paused s s' \<longleftrightarrow> (entries_sound a st jobs paused s \<longrightarrow> entries_sound a st jobs paused s')"

interpretation sound: frame "keeps_sound a st jobs paused" for a st jobs paused
  by unfold_locales (auto simp: keeps_sound_def)

lemma sound_at:
  assumes "entries_sound a st jobs paused s"
    and "\<And>k. k \<noteq> i \<Longrightarrow> ap_entry a (sd_aps s') k = ap_entry a (sd_aps s) k \<and> sd_applied s' k = sd_applied s k"
    and "entry_ok st jobs paused i (ap_entry a (sd_aps s') i) (sd_applied s' i)"
  shows "entries_sound a st jobs paused s'"
  unfolding entries_sound_def
proof
  fix k
  show "entry_ok st jobs paused k (ap_entry a (sd_aps s') k) (sd_applied s' k)"
    using assms by (cases "k = i") (simp_all add: entries_sound_def)
qed

lemma sound_schedule_one:
  fixes a :: "'s aps"
  assumes "aps_laws a" and "map_of jobs (job_id j) = Some j" and "scheduled j"
  shows "steps (keeps_sound a st jobs paused) (schedule_one a st j)"
proof (rule stepsI, unfold keeps_sound_def, rule impI)
  fix s :: "'s scheduler"
  let ?i = "job_id j"
  assume old: "entries_sound a st jobs paused s"
  then have ok: "entry_ok st jobs paused ?i (ap_entry a (sd_aps s) ?i) (sd_applied s ?i)" by (simp add: entries_sound_def)
  consider (live) e where "ap_entry a (sd_aps s) ?i = Some e" "sd_applied s ?i = Some (job_schedule j)"
    | (new) t where "\<not> (ap_entry a (sd_aps s) ?i \<noteq> None \<and> sd_applied s ?i = Some (job_schedule j))"
        "build_trigger a st j = Inr (Some t)"
    | (none) "\<not> (ap_entry a (sd_aps s) ?i \<noteq> None \<and> sd_applied s ?i = Some (job_schedule j))"
        "\<forall>t. build_trigger a st j \<noteq> Inr (Some t)" by blast
  then show "entries_sound a st jobs paused (snd (schedule_one a st j s))"
  proof cases
    case live
    define s' where "s' = s\<lparr>sd_aps := ap_modify a ?i j (sd_aps s)\<rparr>"
    have "ap_entry a (sd_aps s') = (ap_entry a (sd_aps s))(?i \<mapsto> e\<lparr>ae_job := j\<rparr>)"
      using assms(1) live(1) by (simp add: aps_laws_def s'_def)
    moreover have "sd_applied s' = sd_applied s" by (simp add: s'_def)
    ultimately have "entries_sound a st jobs paused s'"
      using ok live by (intro sound_at [OF old, of ?i]) (auto simp: entry_ok_def)
    then show ?thesis using live by (simp add: schedule_one_def bindE_def gets_def modify_def s'_def)
  next
    case new
    define s' where "s' = s\<lparr>
        sd_aps := ap_add a ?i t j (sch_misfire_grace_seconds (job_schedule j)) (sd_aps s),
        sd_applied := (sd_applied s)(?i \<mapsto> job_schedule j)\<rparr>"
    have "ap_entry a (sd_aps s') = (ap_entry a (sd_aps s))(?i \<mapsto> new_entry t j)"
      using assms(1) by (simp add: aps_laws_def s'_def new_entry_def)
    moreover have "sd_applied s' = (sd_applied s)(?i \<mapsto> job_schedule j)" by (simp add: s'_def)
    moreover have "trigger_spec st (job_schedule j) = Some t" by (rule build_trigger_SomeD [OF new(2)])
    ultimately have "entries_sound a st jobs paused s'"
      using assms(2,3) by (intro sound_at [OF old, of ?i]) (auto simp: entry_ok_def new_entry_def)
    moreover have "snd (schedule_one a st j s) = s'"
      using new by (auto simp: schedule_one_def bindE_def gets_def modify_def of_sum_def s'_def)
    ultimately show ?thesis by simp
  next
    case none
    then have "snd (schedule_one a st j s) = s"
      by (auto simp: schedule_one_def bindE_def gets_def of_sum_def ret_def split: sum.split option.split)
    with old show ?thesis by simp
  qed
qed

lemma sound_pause:
  fixes a :: "'s aps"
  assumes "aps_laws a" and "i \<in> set paused"
  shows "steps (keeps_sound a st jobs paused) (pause_scheduled a i)"
proof (rule stepsI, unfold keeps_sound_def, rule impI)
  fix s :: "'s scheduler"
  assume old: "entries_sound a st jobs paused s"
  obtain b s' where s': "pause_scheduled a i s = (Inr b, s')" "sd_applied s' = sd_applied s"
    "ap_entry a (sd_aps s') = (ap_entry a (sd_aps s))(i := map_option (\<lambda>e. e\<lparr>ae_paused := True\<rparr>) (ap_entry a (sd_aps s) i))"
    using pause_scheduled_entry [OF assms(1)] by metis
  have "entry_ok st jobs paused i (ap_entry a (sd_aps s) i) (sd_applied s i)" using old by (simp add: entries_sound_def)
  then have "entries_sound a st jobs paused s'"
    using assms(2) by (intro sound_at [OF old, of i]) (auto simp: s' entry_ok_def split: option.splits)
  with s'(1) show "entries_sound a st jobs paused (snd (pause_scheduled a i s))" by simp
qed

lemma sound_apply_catalog:
  assumes "aps_laws a" and "distinct (map job_id js)" and d: "d = map (\<lambda>j. (job_id j, j)) js"
    and old: "entries_sound a st jobs paused s"
    and ps: "\<And>j. j \<in> set js \<Longrightarrow> job_id j \<in> set paused \<Longrightarrow> job_id j \<in> set ps"
  shows "entries_sound a st d ps (snd (apply_catalog a st js s))"
proof -
  let ?ids = "job_id ` set (desired js)"
  have at: "map_of d (job_id j) = Some j \<and> scheduled j" if "j \<in> set (desired js)" for j
    using that by (auto simp: d desired_def map_of_ids [OF assms(2)])
  obtain s1 where s1: "unschedule a js s = (Inr (), s1)" "sd_applied s1 = sd_applied s"
    "ap_entry a (sd_aps s1) = (\<lambda>i. if i \<in> ?ids then ap_entry a (sd_aps s) i else None)"
    using unschedule_entries [OF assms(1)] by blast
  define s2 where "s2 = s1\<lparr>sd_applied := (\<lambda>i. if i \<in> ?ids then sd_applied s1 i else None)\<rparr>"
  have run: "apply_catalog a st js s = for_each (desired js) (schedule_one a st) s2"
    using s1(1) by (simp add: apply_catalog_def seqE_def bindE_def modify_def s2_def)
  have "entry_ok st d ps i (ap_entry a (sd_aps s2) i) (sd_applied s2 i)" for i
  proof (cases "i \<in> ?ids")
    case True
    then obtain j where j: "j \<in> set (desired js)" "job_id j = i" by blast
    then have "j \<in> set js" by (simp add: desired_def)
    have "entry_ok st jobs paused i (ap_entry a (sd_aps s) i) (sd_applied s i)" using old by (simp add: entries_sound_def)
    then show ?thesis using True at [OF j(1)] ps [OF \<open>j \<in> set js\<close>] j(2)
      by (auto simp: s2_def s1 entry_ok_def split: option.splits)
  qed (simp add: s2_def s1 entry_ok_def)
  then have "entries_sound a st d ps s2" by (simp add: entries_sound_def)
  moreover have "steps (keeps_sound a st d ps) (for_each (desired js) (schedule_one a st))"
    using at sound_schedule_one [OF assms(1)] by (intro sound.steps_for_each) blast
  ultimately show ?thesis unfolding run using stepsD by (metis keeps_sound_def)
qed

lemma apply_jobs_plan:
  assumes "scheduler_laws ng" and "plan_ok ng g" and "list_all job_valid js" and "jobs_compatible js"
  shows "\<exists>r g'. apply_jobs ng js g = (r, g') \<and> engine_jobs g' = js \<and> plan_ok ng g' \<and>
    (triggers_build (ng_aps ng) (ng_settings ng) js \<longrightarrow> r = Inr ()) \<and>
    g' = g\<lparr>eg_jobs := eg_jobs g', eg_paused := eg_paused g', eg_scheduler := eg_scheduler g'\<rparr>"
proof -
  let ?a = "ng_aps ng" and ?st = "ng_settings ng"
  define d where "d = map (\<lambda>j. (job_id j, j)) js"
  define ps where "ps = filter (\<lambda>i. i \<in> set (map fst d)) (eg_paused g)"
  have ids: "distinct (map job_id js)" using assms(4) by (simp add: jobs_compatible_def)
  have d: "jobs_by_id js [] = d" using jobs_by_id_distinct [OF ids, of "[]"] by (simp add: d_def)
  have laws: "aps_laws ?a" using assms(1) by (simp add: scheduler_laws_def)
  let ?s = "eg_scheduler g"
  have old: "entries_sound ?a ?st (eg_jobs g) (eg_paused g) ?s" using assms(2) by (simp add: plan_ok_def)
  have ps: "job_id j \<in> set ps \<longleftrightarrow> job_id j \<in> set (eg_paused g)" if "j \<in> set js" for j
    using that by (auto simp: ps_def d_def)
  obtain r1 s1 where s1: "apply_catalog ?a ?st js ?s = (r1, s1)" by fastforce
  have sound1: "entries_sound ?a ?st d ps s1"
    using sound_apply_catalog [OF laws ids d_def old, of ps] ps s1 by simp
  define g1 where "g1 = g\<lparr>eg_jobs := d, eg_paused := ps, eg_scheduler := s1\<rparr>"
  have g1: "eg_scheduler g1 = s1" by (simp add: g1_def)
  have plan: "modify (\<lambda>g. let d = jobs_by_id js [] in
      g\<lparr>eg_jobs := d, eg_paused := filter (\<lambda>i. i \<in> set (map fst d)) (eg_paused g)\<rparr>) g =
      (Inr (), g\<lparr>eg_jobs := d, eg_paused := ps\<rparr>)"
    by (simp add: modify_def d ps_def)
  have sched: "on_scheduler (apply_catalog ?a ?st js) (g\<lparr>eg_jobs := d, eg_paused := ps\<rparr>) = (r1, g1)"
    using s1(1) by (simp add: on_scheduler_def g1_def)
  obtain s2 where s2: "for_each ps (\<lambda>i. bindE (on_scheduler (pause_scheduled ?a i)) (\<lambda>_. ret ())) g1 =
      (Inr (), g1\<lparr>eg_scheduler := s2\<rparr>)" "sd_applied s2 = sd_applied s1"
    "ap_entry ?a (sd_aps s2) = (\<lambda>i. if i \<in> set ps
      then map_option (\<lambda>e. e\<lparr>ae_paused := True\<rparr>) (ap_entry ?a (sd_aps s1) i) else ap_entry ?a (sd_aps s1) i)"
    using pause_all_entries [OF laws g1] by blast
  define g2 where "g2 = g1\<lparr>eg_scheduler := (case r1 of Inl e \<Rightarrow> s1 | Inr x \<Rightarrow> s2)\<rparr>"
  have run: "apply_jobs ng js g = (r1, g2)"
  proof (cases r1)
    case (Inl e)
    have "apply_jobs ng js g = (Inl e, g1)"
      unfolding apply_jobs_def seqE_Inl using plan sched Inl by blast
    then show ?thesis by (simp add: Inl g2_def g1_def)
  next
    case (Inr x)
    have "gets eg_paused g1 = (Inr ps, g1)" by (simp add: gets_def g1_def)
    with plan sched Inr s2(1) have "apply_jobs ng js g = (Inr (), g1\<lparr>eg_scheduler := s2\<rparr>)"
      unfolding apply_jobs_def seqE_Inr bindE_Inr by blast
    then show ?thesis by (simp add: Inr g2_def)
  qed
  have js: "engine_jobs g2 = js" by (simp add: engine_jobs_def g2_def g1_def d_def o_def)
  have "entry_ok ?st d ps i (ap_entry ?a (sd_aps s2) i) (sd_applied s2 i)" for i
    using sound1 by (simp add: s2(2,3) entries_sound_def entry_ok_paused)
  then have sound2: "entries_sound ?a ?st d ps (eg_scheduler g2)"
    using sound1 by (auto simp: entries_sound_def g2_def split: sum.split)
  have exact: "r1 = Inr () \<and> ap_entry ?a (sd_aps s2) = planned ?st d ps \<and> sd_applied s2 = planned_schedule d"
    if build: "triggers_build ?a ?st js"
  proof -
    from apply_catalog_entries [OF laws ids build, of ?s] s1 have "r1 = Inr ()"
      and new: "list_all (\<lambda>j. ap_entry ?a (sd_aps s1) (job_id j) =
          entry_after ?st (ap_entry ?a (sd_aps ?s) (job_id j)) (sd_applied ?s (job_id j)) j \<and>
        sd_applied s1 (job_id j) = Some (job_schedule j)) (desired js)"
      and gone: "\<forall>i. i \<notin> job_id ` set (desired js) \<longrightarrow> ap_entry ?a (sd_aps s1) i = None \<and> sd_applied s1 i = None"
      by auto
    with reloaded_entries_planned [OF old ids assms(3) new gone ps s2(2,3) d_def] show ?thesis
      by (simp add: fun_eq_iff)
  qed
  have "plan_ok ng g2"
    unfolding plan_ok_def js using assms(3,4) sound2 exact by (auto simp: g2_def g1_def d_def)
  with run js exact show ?thesis by (intro exI [of _ r1] exI [of _ g2]) (simp add: g2_def g1_def)
qed

section \<open>What an operation leaves of the plan and of the claims\<close>

text \<open>\<open>claimed\<close> are the jobs that have a run: those of the run threads and those of the runs in other
  threads (\<open>fs\<close>, the scheduler's pool).\<close>

definition claimed :: "job list \<Rightarrow> ('s, 'w) job_engine \<Rightarrow> string list" where
  "claimed fs g = map (job_id \<circ> th_job) (eg_threads g) @ map job_id fs"

definition held_jobs :: "('s, 'w) job_engine \<Rightarrow> string set" where
  "held_jobs g = lk_jobs (es_locks (eg_core g))"

definition claims_ok :: "job list \<Rightarrow> ('s, 'w) job_engine \<Rightarrow> bool" where
  "claims_ok fs g \<longleftrightarrow> held_jobs g = set (claimed fs g) \<and> distinct (claimed fs g)"

definition keeps_plan :: "('s, 'w) engine_env \<Rightarrow> ('s, 'w) job_engine \<Rightarrow> ('s, 'w) job_engine \<Rightarrow> bool" where
  "keeps_plan ng g g' \<longleftrightarrow> (plan_ok ng g \<longrightarrow> plan_ok ng g')"

definition same_claims :: "('s, 'w) job_engine \<Rightarrow> ('s, 'w) job_engine \<Rightarrow> bool" where
  "same_claims g g' \<longleftrightarrow> eg_threads g' = eg_threads g \<and> held_jobs g' = held_jobs g"

lemma finallyE_snd: "snd (finallyE m k s) = snd (k (snd (m s)))"
  by (auto simp: finallyE_def split: prod.split sum.split)

context frame
begin

lemma steps_finallyE:
  assumes "steps R m" and "steps R k"
  shows "steps R (finallyE m k)"
proof
  fix s
  have "R s (snd (m s))" "R (snd (m s)) (snd (k (snd (m s))))" using assms by (simp_all add: steps_def)
  then show "R s (snd (finallyE m k s))" unfolding finallyE_snd by (rule frame_trans)
qed

end

interpretation plan: frame "keeps_plan ng" for ng
  by unfold_locales (auto simp: keeps_plan_def)

interpretation claims: frame same_claims
  by unfold_locales (auto simp: same_claims_def)

lemma same_claims_ok: "same_claims g g' \<Longrightarrow> claims_ok fs g \<Longrightarrow> claims_ok fs g'"
  by (simp add: same_claims_def claims_ok_def claimed_def)

lemma keeps_plan_same:
  "eg_jobs g' = eg_jobs g \<Longrightarrow> eg_paused g' = eg_paused g \<Longrightarrow> eg_scheduler g' = eg_scheduler g \<Longrightarrow> keeps_plan ng g g'"
  by (simp add: keeps_plan_def plan_ok_def engine_jobs_def)

lemma on_core_fields:
  "on_core m g = (r, g') \<Longrightarrow> g' = g\<lparr>eg_core := eg_core g'\<rparr> \<and> m (eg_core g) = (r, eg_core g')"
  by (auto simp: on_core_def split: prod.splits)

lemma plan_on_core: "steps (keeps_plan ng) (on_core m)"
  by (rule stepsI, rule keeps_plan_same) (simp_all add: on_core_def split: prod.split)

lemma plan_on_world: "steps (keeps_plan ng) (on_world m)"
  unfolding on_world_def by (rule plan_on_core)

lemma claims_on_run: "steps same_claims (on_core (on_run m))"
  by (rule stepsI) (simp add: on_core_def on_run_def same_claims_def held_jobs_def split: prod.split)

lemma claims_on_world: "steps same_claims (on_world m)"
  unfolding on_world_def by (rule claims_on_run)

lemma claims_on_scheduler: "steps same_claims (on_scheduler m)"
  by (rule stepsI) (simp add: on_scheduler_def same_claims_def held_jobs_def split: prod.split)

lemma claims_get_job: "steps same_claims (get_job jid)"
  unfolding get_job_def by (intro claims.steps_rules)

lemma plan_get_job: "steps (keeps_plan ng) (get_job jid)"
  unfolding get_job_def by (intro plan.steps_rules)

lemma get_job_Inr: "get_job jid g = (Inr j, g') \<longleftrightarrow> map_of (eg_jobs g) jid = Some j \<and> g' = g"
  by (auto simp: get_job_def bindE_Inr raise_def split: option.splits)

lemma get_job_id: "plan_ok ng g \<Longrightarrow> map_of (eg_jobs g) i = Some j \<Longrightarrow> job_id j = i"
  by (auto simp: plan_ok_def engine_jobs_def dest!: map_of_SomeD)

section \<open>Reloading\<close>

lemma load_catalog_valid:
  "list_all job_valid (lr_jobs (load_catalog lib path is_file content now st env known)) \<and>
   jobs_compatible (lr_jobs (load_catalog lib path is_file content now st env known))"
proof -
  have "accepted lib st env known (lr_jobs (load_catalog lib path is_file content now st env known))"
    by (cases content; cases is_file)
      (simp_all add: load_catalog_def validate_document_accepted accepted_Nil new_result_jobs)
  then show ?thesis by (auto simp: list_all_iff job_accepted_def)
qed

text \<open>Reading the files changes the world only.\<close>

definition world_only :: "('s, 'w) job_engine \<Rightarrow> ('s, 'w) job_engine \<Rightarrow> bool" where
  "world_only g g' \<longleftrightarrow> g' = g\<lparr>eg_core := eg_core g'\<rparr> \<and> es_locks (eg_core g') = es_locks (eg_core g) \<and>
     state_db g' = state_db g"

interpretation world: frame world_only
proof unfold_locales
  fix s t u :: "('s, 'w) job_engine"
  assume "world_only s t" "world_only t u"
  then show "world_only s u" unfolding world_only_def by (metis job_engine.update_convs(13) job_engine.surjective)
qed (simp add: world_only_def)

lemma world_on_world: "steps world_only (on_world m)"
  by (rule stepsI) (simp add: on_world_def on_core_def on_run_def in_world_def world_only_def state_db_def split: prod.split)

lemma world_read_catalog: "steps world_only (read_catalog ng)"
  unfolding read_catalog_def now_iso_def case_prod_unfold
  by (intro world.steps_rules world_on_world)

lemma read_catalog_valid:
  "read_catalog ng g = (Inr result, g') \<Longrightarrow> list_all job_valid (lr_jobs result) \<and> jobs_compatible (lr_jobs result)"
  by (auto simp: read_catalog_def bindE_Inr case_prod_unfold load_catalog_valid)

lemma world_only_fields:
  "world_only g g' \<Longrightarrow> eg_jobs g' = eg_jobs g \<and> eg_paused g' = eg_paused g \<and> eg_scheduler g' = eg_scheduler g"
  by (cases g; cases g') (simp add: world_only_def)

lemma world_only_plan: "world_only g g' \<Longrightarrow> keeps_plan ng g g'"
  by (rule keeps_plan_same) (simp_all add: world_only_fields)

lemma reload_config_run:
  assumes "read_catalog ng g = (Inr result, g1)"
  shows "reload_config ng initial g =
    (if load_ok result \<or> initial \<or> eg_jobs g = []
     then (case apply_jobs ng (lr_jobs result) g1 of
        (Inl e, g2) \<Rightarrow> (Inl e, g2)
      | (Inr _, g2) \<Rightarrow> (Inr result, g2\<lparr>eg_last_load := Some result, eg_config_applied := True\<rparr>))
     else (Inr result, g1\<lparr>eg_last_load := Some result, eg_config_applied := False\<rparr>))"
proof -
  have "world_only g g1" using stepsD [OF world_read_catalog, of g ng] assms by simp
  then have j: "eg_jobs g1 = eg_jobs g" using world_only_fields by blast
  obtain r g2 where a: "apply_jobs ng (lr_jobs result) g1 = (r, g2)" by fastforce
  show ?thesis
    by (cases r; cases "load_ok result \<or> initial \<or> eg_jobs g = []")
      (simp_all only: reload_config_def bindE_def assms gets_def seqE_def whenE_def modify_def ret_def j a
        if_True if_False prod.case sum.case)
qed

lemma plan_reload_config:
  fixes ng :: "('s, 'w) engine_env"
  assumes "scheduler_laws ng"
  shows "steps (keeps_plan ng) (reload_config ng initial)"
proof
  fix g
  obtain r g1 where g1: "read_catalog ng g = (r, g1)" by fastforce
  then have w: "keeps_plan ng g g1" using stepsD [OF world_read_catalog, of g ng] world_only_plan by force
  show "keeps_plan ng g (snd (reload_config ng initial g))"
  proof (cases r)
    case (Inl e)
    with g1 w show ?thesis by (simp add: reload_config_def bindE_def)
  next
    case (Inr result)
    note read = g1 [unfolded Inr]
    obtain q g2 where a: "apply_jobs ng (lr_jobs result) g1 = (q, g2)" by fastforce
    have "keeps_plan ng g1 g2"
      using apply_jobs_plan [OF assms, of g1 "lr_jobs result"] read_catalog_valid [OF read] a
      by (auto simp: keeps_plan_def)
    moreover have "keeps_plan ng h (h\<lparr>eg_last_load := l, eg_config_applied := b\<rparr>)" for h :: "('s, 'w) job_engine" and l b
      by (rule keeps_plan_same) simp_all
    ultimately show ?thesis
      using w a unfolding reload_config_run [OF read] keeps_plan_def by (auto split: sum.split)
  qed
qed

lemma claims_apply_jobs: "steps same_claims (apply_jobs ng js)"
  unfolding apply_jobs_def
  by (intro claims.steps_rules claims_on_scheduler claims.steps_modify) (simp add: same_claims_def held_jobs_def Let_def)

lemma claims_reload_config: "steps same_claims (reload_config ng initial)"
  unfolding reload_config_def read_catalog_def now_iso_def case_prod_unfold
  by (intro claims.steps_rules claims_on_world claims_apply_jobs claims.steps_modify) (simp add: same_claims_def held_jobs_def)

lemma plan_read_connections: "steps (keeps_plan ng) (read_connections ng initial)"
  unfolding read_connections_def now_iso_def case_prod_unfold
  by (intro plan.steps_rules plan_on_world plan.steps_modify keeps_plan_same) simp_all

lemma claims_read_connections: "steps same_claims (read_connections ng initial)"
  unfolding read_connections_def now_iso_def case_prod_unfold
  by (intro claims.steps_rules claims_on_world claims.steps_modify) (simp add: same_claims_def held_jobs_def)

lemma reload_connections_keeps:
  "scheduler_laws ng \<Longrightarrow> steps (keeps_plan ng) (reload_connections ng initial)"
  "steps same_claims (reload_connections ng initial)"
  unfolding reload_connections_def
  by (intro plan.steps_rules plan_read_connections plan_reload_config; assumption)
    (intro claims.steps_rules claims_read_connections claims_reload_config)

section \<open>Pausing and resuming\<close>

lemma planned_pause:
  "(planned st jobs paused)(i := map_option (\<lambda>e. e\<lparr>ae_paused := True\<rparr>) (planned st jobs paused i)) =
   planned st jobs (List.insert i paused)"
  by (auto simp: planned_def fun_eq_iff option.map_comp o_def split: option.split)

lemma planned_resume:
  "(planned st jobs paused)(i := map_option (\<lambda>e. e\<lparr>ae_paused := False\<rparr>) (planned st jobs paused i)) =
   planned st jobs (removeAll i paused)"
  by (auto simp: planned_def fun_eq_iff option.map_comp o_def split: option.split)

lemma plan_pause_job:
  fixes ng :: "('s, 'w) engine_env"
  assumes "scheduler_laws ng"
  shows "steps (keeps_plan ng) (pause_job ng jid)"
proof
  fix g :: "('s, 'w) job_engine"
  have laws: "aps_laws (ng_aps ng)" using assms by (simp add: scheduler_laws_def)
  obtain b s where s: "pause_scheduled (ng_aps ng) jid (eg_scheduler g) = (Inr b, s)" "sd_applied s = sd_applied (eg_scheduler g)"
    "ap_entry (ng_aps ng) (sd_aps s) = (ap_entry (ng_aps ng) (sd_aps (eg_scheduler g)))(jid :=
       map_option (\<lambda>e. e\<lparr>ae_paused := True\<rparr>) (ap_entry (ng_aps ng) (sd_aps (eg_scheduler g)) jid))"
    using pause_scheduled_entry [OF laws] by metis
  have sound: "entries_sound (ng_aps ng) st jobs paused (eg_scheduler g) \<Longrightarrow>
      entries_sound (ng_aps ng) st jobs (List.insert jid paused) s" for st jobs paused
    unfolding entries_sound_def s(2,3)
    by (intro allI, drule_tac x = i in spec) (auto simp: entry_ok_def split: option.splits)
  show "keeps_plan ng g (snd (pause_job ng jid g))"
    by (cases "map_of (eg_jobs g) jid")
      (auto simp: pause_job_def get_job_def bindE_def gets_def raise_def ret_def seqE_def modify_def on_scheduler_def
        keeps_plan_def plan_ok_def engine_jobs_def s(1) sound s(2,3) planned_pause)
qed

lemma plan_resume_job:
  fixes ng :: "('s, 'w) engine_env"
  assumes "scheduler_laws ng"
  shows "steps (keeps_plan ng) (resume_job ng jid)"
proof
  fix g :: "('s, 'w) job_engine"
  have laws: "aps_laws (ng_aps ng)" using assms by (simp add: scheduler_laws_def)
  obtain b s where s: "resume_scheduled (ng_aps ng) jid (eg_scheduler g) = (Inr b, s)" "sd_applied s = sd_applied (eg_scheduler g)"
    "ap_entry (ng_aps ng) (sd_aps s) = (ap_entry (ng_aps ng) (sd_aps (eg_scheduler g)))(jid :=
       map_option (\<lambda>e. e\<lparr>ae_paused := False\<rparr>) (ap_entry (ng_aps ng) (sd_aps (eg_scheduler g)) jid))"
    using resume_scheduled_entry [OF laws] by metis
  have sound: "entries_sound (ng_aps ng) st jobs paused (eg_scheduler g) \<Longrightarrow>
      entries_sound (ng_aps ng) st jobs (removeAll jid paused) s" for st jobs paused
    unfolding entries_sound_def s(2,3)
    by (intro allI, drule_tac x = i in spec) (auto simp: entry_ok_def split: option.splits)
  show "keeps_plan ng g (snd (resume_job ng jid g))"
    by (cases "map_of (eg_jobs g) jid")
      (auto simp: resume_job_def get_job_def bindE_def gets_def raise_def ret_def seqE_def modify_def on_scheduler_def
        keeps_plan_def plan_ok_def engine_jobs_def s(1) sound s(2,3) planned_resume simp del: removeAll_filter_not_eq)
qed

lemma claims_pause_resume:
  "steps same_claims (pause_job ng jid)" "steps same_claims (resume_job ng jid)"
  unfolding pause_job_def resume_job_def
  by (intro claims.steps_rules claims_get_job claims_on_scheduler claims.steps_modify;
      simp add: same_claims_def held_jobs_def)+

section \<open>Runs and their claims\<close>

text \<open>What is asked of the id generator: it does not fail. Nothing is asked of the other threads: what they
  do while a run waits for its collection are steps of their own, so a run that is one step of the
  engine has no wakeup in it.\<close>

definition run_laws :: "('s, 'w) engine_env \<Rightarrow> bool" where
  "run_laws ng \<longleftrightarrow> (\<forall>w. \<exists>x w'. re_uuid4 (ng_run ng) w = (Inr x, w'))"

definition settled :: "('s, 'w) engine_env \<Rightarrow> ('s, 'w) engine_env" where
  "settled ng = ng\<lparr>ng_wakeups := 0\<rparr>"

lemma settled_simps [simp]: "ng_wakeups (settled ng) = 0" "run_laws (settled ng) = run_laws ng"
  by (simp_all add: settled_def run_laws_def)

definition same_jobs :: "'w engine_state \<Rightarrow> 'w engine_state \<Rightarrow> bool" where
  "same_jobs c c' \<longleftrightarrow> lk_jobs (es_locks c') = lk_jobs (es_locks c)"

interpretation jobs: frame same_jobs
  by unfold_locales (auto simp: same_jobs_def)

lemma jobs_on_run: "steps same_jobs (on_run m)"
  by (rule stepsI) (simp add: on_run_def same_jobs_def split: prod.split)

lemma jobs_collection: "steps same_jobs (on_locks (set_collection c f))"
  by (rule stepsI) (simp add: on_locks_def modify_def same_jobs_def set_collection_def)

lemma jobs_acquire: "steps same_jobs (acquire_collection wait c exclusive 0)"
  by (simp, intro jobs.steps_rules jobs_collection)

text \<open>When a run ends the lock of its job is free, whatever happened while it waited; and if it did not
  wait, no other job lock has changed.\<close>

lemma execute_locked_frees:
  assumes "execute_locked env should_abort wait wakeups seconds j trigger rid md scope opts c = (r, c')"
  shows "job_id j \<notin> lk_jobs (es_locks c')"
proof -
  have "snd (finallyE m (release_job (job_id j)) c) = c' \<Longrightarrow> job_id j \<notin> lk_jobs (es_locks c')" for m :: "('a engine_state, run_row) eff"
    by (auto simp: finallyE_snd release_job_def on_locks_def modify_def)
  then show ?thesis using assms by (metis execute_locked_def snd_conv)
qed

lemma execute_locked_claims:
  assumes "execute_locked env should_abort wait 0 seconds j trigger rid md scope opts c = (r, c')"
  shows "lk_jobs (es_locks c') = lk_jobs (es_locks c) - {job_id j}"
proof -
  let ?md = "or_default md (job_mode j)"
  let ?m = "bindE (acquire_collection wait (job_collection j) (?md = Full) 0) (\<lambda>acquired.
      if \<not> acquired then on_run (record_aborted_lock env j trigger ?md seconds rid)
      else finallyE (on_run (run_job env should_abort j trigger rid md scope opts))
             (release_collection (job_collection j) (?md = Full)))"
  have "steps same_jobs ?m" unfolding release_collection_def
    by (intro jobs.steps_rules jobs_acquire jobs_on_run jobs.steps_finallyE jobs_collection)
  then have "lk_jobs (es_locks (snd (?m c))) = lk_jobs (es_locks c)" by (simp add: steps_def same_jobs_def)
  moreover have "c' = snd (release_job (job_id j) (snd (?m c)))"
    using assms finallyE_snd [of ?m "release_job (job_id j)" c] by (simp add: execute_locked_def Let_def)
  ultimately show ?thesis by (simp add: release_job_def on_locks_def modify_def)
qed

lemma metrics_keep:
  "steps (keeps_plan ng) (report_metrics ng' run)" "steps same_claims (report_metrics ng' run)"
  unfolding report_metrics_def
  by (cases "ng_metrics ng'"; simp add: plan_on_world plan.steps_ret claims_on_world claims.steps_ret)+

text \<open>A run gives up its claim, whatever happens in it.\<close>

definition drops_claim :: "job \<Rightarrow> ('s, 'w) job_engine \<Rightarrow> ('s, 'w) job_engine \<Rightarrow> bool" where
  "drops_claim j g g' \<longleftrightarrow> eg_threads g' = eg_threads g \<and> held_jobs g' = held_jobs g - {job_id j}"

lemma drops_then_same: "drops_claim j g g1 \<Longrightarrow> same_claims g1 g2 \<Longrightarrow> drops_claim j g g2"
  by (simp add: drops_claim_def same_claims_def)

lemma thread_body_drops:
  assumes "ng_wakeups ng = 0"
  shows "drops_claim (th_job th) g (snd (thread_body ng signals th g))"
proof -
  let ?m = "execute_locked (runner_env ng g) (checked (abort_requested g (th_run_id th)) signals)
         (ng_wait ng) (ng_wakeups ng) (ng_lock_seconds ng) (th_job th) (th_trigger th) (Some (th_run_id th))
         (rq_mode (th_request th)) (rq_full_scope (th_request th))
         (request_options (th_request th) (sibling_job_ids g (th_job th)))"
  obtain r c where m: "?m (eg_core g) = (r, c)" by fastforce
  then have d: "drops_claim (th_job th) g (g\<lparr>eg_core := c\<rparr>)"
    using execute_locked_claims [OF m [unfolded assms]] by (simp add: drops_claim_def held_jobs_def)
  show ?thesis
  proof (cases r)
    case (Inl e)
    with m d show ?thesis by (simp add: thread_body_def bindE_def gets_def on_core_def)
  next
    case (Inr run)
    with m have "snd (thread_body ng signals th g) = snd (report_metrics ng run (g\<lparr>eg_core := c\<rparr>))"
      by (simp add: thread_body_def bindE_def gets_def on_core_def)
    with drops_then_same [OF d stepsD [OF metrics_keep(2)]] show ?thesis by simp
  qed
qed

lemma thread_body_frees: "job_id (th_job th) \<notin> held_jobs (snd (thread_body ng signals th g))"
proof -
  let ?m = "execute_locked (runner_env ng g) (checked (abort_requested g (th_run_id th)) signals)
         (ng_wait ng) (ng_wakeups ng) (ng_lock_seconds ng) (th_job th) (th_trigger th) (Some (th_run_id th))
         (rq_mode (th_request th)) (rq_full_scope (th_request th))
         (request_options (th_request th) (sibling_job_ids g (th_job th)))"
  obtain r c where m: "?m (eg_core g) = (r, c)" by fastforce
  have free: "job_id (th_job th) \<notin> held_jobs (g\<lparr>eg_core := c\<rparr>)"
    using execute_locked_frees [OF m] by (simp add: held_jobs_def)
  show ?thesis
  proof (cases r)
    case (Inl e)
    with m free show ?thesis by (simp add: thread_body_def bindE_def gets_def on_core_def)
  next
    case (Inr run)
    with m have "snd (thread_body ng signals th g) = snd (report_metrics ng run (g\<lparr>eg_core := c\<rparr>))"
      by (simp add: thread_body_def bindE_def gets_def on_core_def)
    moreover have "same_claims (g\<lparr>eg_core := c\<rparr>) (snd (report_metrics ng run (g\<lparr>eg_core := c\<rparr>)))"
      by (rule stepsD [OF metrics_keep(2)])
    ultimately show ?thesis using free by (simp add: same_claims_def)
  qed
qed

lemma sync_body_drops:
  assumes "ng_wakeups ng = 0"
  shows "drops_claim j g (snd (sync_body ng signals j trigger rq g))"
proof -
  let ?m = "execute_locked (runner_env ng g) (checked (eg_shutdown g) signals)
         (ng_wait ng) (ng_wakeups ng) (ng_lock_seconds ng) j trigger None (rq_mode rq) (rq_full_scope rq)
         (request_options (rq\<lparr>rq_delete_vanished := True\<rparr>) (sibling_job_ids g j))"
  obtain r c where m: "?m (eg_core g) = (r, c)" by fastforce
  then have d: "drops_claim j g (g\<lparr>eg_core := c\<rparr>)"
    using execute_locked_claims [OF m [unfolded assms]] by (simp add: drops_claim_def held_jobs_def)
  show ?thesis
  proof (cases r)
    case (Inl e)
    with m d show ?thesis by (simp add: sync_body_def bindE_def gets_def on_core_def)
  next
    case (Inr run)
    let ?k = "seqE (report_metrics ng run) (ret run)"
    from m Inr have "snd (sync_body ng signals j trigger rq g) = snd (?k (g\<lparr>eg_core := c\<rparr>))"
      by (simp add: sync_body_def bindE_def gets_def on_core_def)
    moreover have "steps same_claims ?k" by (intro claims.steps_rules metrics_keep)
    then have "same_claims (g\<lparr>eg_core := c\<rparr>) (snd (?k (g\<lparr>eg_core := c\<rparr>)))" by (rule stepsD)
    ultimately show ?thesis using drops_then_same [OF d] by simp
  qed
qed

section \<open>Starting and ending runs\<close>

lemma trigger_run_unknown:
  "map_of (eg_jobs g) jid = None \<Longrightarrow> trigger_run ng jid trigger rq queue g = (Inl (UnknownJobError jid), g)"
  by (simp add: trigger_run_def get_job_def bindE_def gets_def raise_def)

lemma trigger_run_busy:
  assumes "map_of (eg_jobs g) jid = Some j" and "job_id j \<in> held_jobs g"
  shows "trigger_run ng jid trigger rq queue g =
    (if queue then (Inr \<lparr>ta_run_id = None, ta_queued = True\<rparr>,
        if eg_queued g jid = None then g\<lparr>eg_queued := (eg_queued g)(jid \<mapsto> rq)\<rparr> else g)
     else (Inl (RunRejectedError (job_id j)), g))"
proof -
  have "on_core (begin_run j) g = (Inl (RunRejectedError (job_id j)), g)"
    using assms(2) by (simp add: on_core_def begin_run_def bindE_def gets_def raise_def held_jobs_def)
  then show ?thesis using assms(1)
    by (simp add: trigger_run_def get_job_def bindE_def gets_def ret_def seqE_def catchE_def raise_def
        queue_followup_def modify_def RunRejectedError_def)
qed

lemma trigger_run_starts:
  assumes "run_laws ng" and "map_of (eg_jobs g) jid = Some j" and "job_id j \<notin> held_jobs g"
  shows "\<exists>rid c. trigger_run ng jid trigger rq queue g = (Inr \<lparr>ta_run_id = Some rid, ta_queued = False\<rparr>,
      g\<lparr>eg_threads := eg_threads g @ [\<lparr>th_job = j, th_trigger = trigger, th_run_id = rid, th_request = rq\<rparr>], eg_core := c\<rparr>) \<and>
    lk_jobs (es_locks c) = insert (job_id j) (held_jobs g)"
proof -
  let ?c = "(eg_core g)\<lparr>es_locks := (es_locks (eg_core g))\<lparr>lk_jobs := insert (job_id j) (held_jobs g)\<rparr>\<rparr>"
  have b: "on_core (begin_run j) g = (Inr (), g\<lparr>eg_core := ?c\<rparr>)"
    using assms(3) by (simp add: on_core_def begin_run_def bindE_def gets_def on_locks_def modify_def held_jobs_def)
  obtain rid w where u: "re_uuid4 (ng_run ng) (rs_world (es_run (eg_core g))) = (Inr rid, w)"
    using assms(1) unfolding run_laws_def by blast
  let ?d = "?c\<lparr>es_run := (es_run ?c)\<lparr>rs_world := w\<rparr>\<rparr>"
  have i: "on_world (re_uuid4 (ng_run ng)) (g\<lparr>eg_core := ?c\<rparr>) = (Inr rid, g\<lparr>eg_core := ?d\<rparr>)"
    using u by (simp add: on_world_def on_core_def on_run_def in_world_def)
  show ?thesis
    by (intro exI [of _ rid] exI [of _ ?d])
      (simp add: trigger_run_def get_job_def bindE_def gets_def assms(2) ret_def seqE_def catchE_def b i modify_def)
qed

lemma plan_trigger_run: "steps (keeps_plan ng) (trigger_run ng' jid trigger rq queue)"
  unfolding trigger_run_def queue_followup_def
  by (intro plan.steps_rules plan_get_job plan_on_core plan_on_world plan.steps_modify keeps_plan_same) simp_all

lemma claims_ok_started:
  assumes "claims_ok fs g" and "job_id (th_job th) \<notin> held_jobs g"
    and "lk_jobs (es_locks c) = insert (job_id (th_job th)) (held_jobs g)"
  shows "claims_ok fs (g\<lparr>eg_threads := eg_threads g @ [th], eg_core := c\<rparr>)"
  using assms by (auto simp: claims_ok_def claimed_def held_jobs_def)

lemma claims_trigger_run:
  assumes "run_laws ng" and "claims_ok fs g"
  shows "claims_ok fs (snd (trigger_run ng jid trigger rq queue g))"
proof (cases "map_of (eg_jobs g) jid")
  case None
  then show ?thesis using assms(2) by (simp add: trigger_run_unknown)
next
  case (Some j)
  show ?thesis
  proof (cases "job_id j \<in> held_jobs g")
    case True
    have "same_claims g (snd (trigger_run ng jid trigger rq queue g))"
      unfolding trigger_run_busy [OF Some True] by (simp add: same_claims_def held_jobs_def)
    then show ?thesis by (rule same_claims_ok [OF _ assms(2)])
  next
    case False
    then show ?thesis
      using trigger_run_starts [OF assms(1) Some False, of trigger rq queue] claims_ok_started [OF assms(2)] by fastforce
  qed
qed

lemma set_map_remove1:
  "distinct (map f xs) \<Longrightarrow> x \<in> set xs \<Longrightarrow> set (map f (remove1 x xs)) = set (map f xs) - {f x} \<and> distinct (map f (remove1 x xs))"
  by (induction xs) (auto simp: image_iff)

lemma claims_after_thread:
  assumes "claims_ok fs g" and "th \<in> set (eg_threads g)" and "drops_claim (th_job th) g g1"
    and "eg_threads g2 = remove1 th (eg_threads g1)" and "held_jobs g2 = held_jobs g1"
  shows "claims_ok fs g2"
proof -
  have d: "distinct (map (job_id \<circ> th_job) (eg_threads g))"
    and apart: "set (map (job_id \<circ> th_job) (eg_threads g)) \<inter> set (map job_id fs) = {}"
    using assms(1) by (auto simp: claims_ok_def claimed_def)
  note r = set_map_remove1 [OF d assms(2)]
  have t: "eg_threads g2 = remove1 th (eg_threads g)" using assms(3,4) by (simp add: drops_claim_def)
  have "held_jobs g2 = set (claimed fs g) - {job_id (th_job th)}"
    using assms(1,3,5) by (simp add: claims_ok_def drops_claim_def)
  also have "\<dots> = set (claimed fs g2)"
    using r apart assms(2) unfolding claimed_def t set_append by auto
  finally have "held_jobs g2 = set (claimed fs g2)" .
  moreover have "distinct (claimed fs g2)"
    using assms(1) r apart unfolding claims_ok_def claimed_def t distinct_append by blast
  ultimately show ?thesis by (simp add: claims_ok_def)
qed

lemma claims_after_firing:
  assumes "claims_ok fs g" and "j \<in> set fs" and "drops_claim j g g1"
  shows "claims_ok (remove1 j fs) g1"
proof -
  have d: "distinct (map job_id fs)" and apart: "set (map (job_id \<circ> th_job) (eg_threads g)) \<inter> set (map job_id fs) = {}"
    using assms(1) by (auto simp: claims_ok_def claimed_def)
  note r = set_map_remove1 [OF d assms(2)]
  have t: "eg_threads g1 = eg_threads g" using assms(3) by (simp add: drops_claim_def)
  have "held_jobs g1 = set (claimed fs g) - {job_id j}" using assms(1,3) by (simp add: claims_ok_def drops_claim_def)
  also have "\<dots> = set (claimed (remove1 j fs) g1)"
    using r apart assms(2) unfolding claimed_def t set_append by auto
  finally show ?thesis using assms(1) r apart unfolding claims_ok_def claimed_def t by auto
qed

lemma start_followup_keeps:
  "steps (keeps_plan ng) (start_followup ng' th followup)"
  "run_laws ng' \<Longrightarrow> claims_ok fs g \<Longrightarrow> claims_ok fs (snd (start_followup ng' th followup g))"
proof -
  show "steps (keeps_plan ng) (start_followup ng' th followup)"
    unfolding start_followup_def
    by (intro plan.steps_rules plan_trigger_run)
  assume a: "run_laws ng'" "claims_ok fs g"
  show "claims_ok fs (snd (start_followup ng' th followup g))"
  proof (cases "followup = None \<or> eg_shutdown g")
    case True
    with a(2) show ?thesis by (auto simp: start_followup_def bindE_def gets_def ret_def split: option.split)
  next
    case False
    then obtain rq where rq: "followup = Some rq" "\<not> eg_shutdown g" by (cases followup) auto
    have "snd (start_followup ng' th followup g) = snd (trigger_run ng' (job_id (th_job th)) (th_trigger th) rq False g)"
      by (auto simp: start_followup_def bindE_def gets_def rq catchE_def ret_def raise_def split: prod.split sum.split)
    then show ?thesis using claims_trigger_run [OF a] by simp
  qed
qed

lemma plan_run_target: "steps (keeps_plan ng) (run_target ng' signals th)"
  unfolding run_target_def thread_body_def forget_thread_def
  by (intro plan.steps_rules plan.steps_finallyE plan_on_core metrics_keep start_followup_keeps
      plan.steps_modify keeps_plan_same) simp_all

lemma claims_run_target:
  assumes "run_laws ng" and "ng_wakeups ng = 0" and "claims_ok fs g" and "th \<in> set (eg_threads g)"
  shows "claims_ok fs (snd (run_target ng signals th g))"
proof -
  let ?g1 = "snd (thread_body ng signals th g)"
  obtain followup g2 where f: "forget_thread th ?g1 = (Inr followup, g2)"
    "eg_threads g2 = remove1 th (eg_threads ?g1)" "held_jobs g2 = held_jobs ?g1"
    by (simp add: forget_thread_def bindE_def gets_def seqE_def modify_def ret_def held_jobs_def)
  have "claims_ok fs g2"
    by (rule claims_after_thread [OF assms(3,4) thread_body_drops [OF assms(2)] f(2,3)])
  then have "claims_ok fs (snd (start_followup ng th followup g2))" by (rule start_followup_keeps(2) [OF assms(1)])
  then show ?thesis unfolding run_target_def finallyE_snd by (simp add: bindE_def f(1))
qed

section \<open>The engine as a transition system\<close>

text \<open>What reading operations may change: the world outside and the cache of writers.\<close>

definition looks :: "('s, 'w) job_engine \<Rightarrow> ('s, 'w) job_engine \<Rightarrow> bool" where
  "looks g g' \<longleftrightarrow>
     eg_jobs g' = eg_jobs g \<and> eg_last_load g' = eg_last_load g \<and> eg_config_applied g' = eg_config_applied g \<and>
     eg_paused g' = eg_paused g \<and> eg_aborted g' = eg_aborted g \<and> eg_queued g' = eg_queued g \<and>
     eg_threads g' = eg_threads g \<and> eg_shutdown g' = eg_shutdown g \<and> eg_deps g' = eg_deps g \<and>
     eg_deps_checked_at g' = eg_deps_checked_at g \<and> eg_scheduler g' = eg_scheduler g \<and>
     rg_connections (eg_registry g') = rg_connections (eg_registry g) \<and>
     rg_last_load (eg_registry g') = rg_last_load (eg_registry g) \<and>
     es_locks (eg_core g') = es_locks (eg_core g) \<and> state_db g' = state_db g"

interpretation look: frame looks
  by unfold_locales (auto simp: looks_def)

lemma look_on_world: "steps looks (on_world m)"
  by (rule stepsI) (simp add: on_world_def on_core_def on_run_def in_world_def looks_def state_db_def split: prod.split)

lemma look_get_job: "steps looks (get_job jid)"
  unfolding get_job_def by (intro look.steps_rules)

lemma look_registry_writer: "steps looks (registry_writer ng name)"
  by (rule stepsI) (auto simp: registry_writer_def looks_def state_db_def writer_for_def Let_def split: prod.split option.split)

lemma looks_keep: "looks g g' \<Longrightarrow> keeps_plan ng g g'" "looks g g' \<Longrightarrow> same_claims g g'"
  by (auto intro!: keeps_plan_same simp: looks_def same_claims_def held_jobs_def)

text \<open>A state is the engine with the runs of the scheduler's pool. One step is one operation of a
  surface, a poll, the run of a thread to its end, the begin or the run of a scheduled run, or what a
  reader or the world outside changes. A run waits for its collection before its step, while the
  others take theirs; its step is \<open>settled\<close>, without a wakeup.\<close>

inductive engine_step ::
  "('s, 'w) engine_env \<Rightarrow> ('s, 'w) job_engine \<times> job list \<Rightarrow> ('s, 'w) job_engine \<times> job list \<Rightarrow> bool" for ng where
  Startup: "engine_step ng (g, fs) (snd (startup ng fire g), fs)"
| Reload: "engine_step ng (g, fs) (snd (reload_config ng False g), fs)"
| ReloadConnections: "engine_step ng (g, fs) (snd (reload_connections ng False g), fs)"
| Poll: "engine_step ng (g, fs) (snd (poll_config ng seen g), fs)"
| Pause: "engine_step ng (g, fs) (snd (pause_job ng jid g), fs)"
| Resume: "engine_step ng (g, fs) (snd (resume_job ng jid g), fs)"
| Trigger: "engine_step ng (g, fs) (snd (trigger_run ng jid trigger rq queue g), fs)"
| RunEnds: "engine_step ng (g, fs) (snd (run_target (settled ng) signals th g), fs)" if "th \<in> set (eg_threads g)"
| CronBegins: "engine_step ng (g, fs) (g', j # fs)"
    if "\<not> eg_shutdown g" and "\<not> is_paused g jid" and "map_of (eg_jobs g) jid = Some j"
      and "on_core (begin_run j) g = (Inr (), g')"
| CronEnds: "engine_step ng (g, fs) (snd (sync_body (settled ng) signals j TrigCron default_request g), remove1 j fs)"
    if "j \<in> set fs"
| Abort: "engine_step ng (g, fs) (snd (request_abort rid g), fs)"
| Stop: "engine_step ng (g, fs) (snd (shutdown g), fs)"
| Probe: "engine_step ng (g, fs) (snd (refresh_deps ng g), fs)"
| DeleteRuns: "engine_step ng (g, fs) (snd (engine_delete_runs ng jid since until dry_run g), fs)"
| DeleteOrphan: "engine_step ng (g, fs) (snd (delete_orphan ng jid g), fs)"
| Look: "engine_step ng (g, fs) (g', fs)" if "looks g g'"

definition engine_ok :: "('s, 'w) engine_env \<Rightarrow> ('s, 'w) job_engine \<times> job list \<Rightarrow> bool" where
  "engine_ok ng s \<longleftrightarrow> plan_ok ng (fst s) \<and> claims_ok (snd s) (fst s)"

text \<open>An operation that keeps the plan and the claims.\<close>

lemma engine_ok_op:
  assumes "steps (keeps_plan ng) m" and "steps same_claims m" and "engine_ok ng (g, fs)"
  shows "engine_ok ng (snd (m g), fs)"
  using stepsD [OF assms(1), of g] same_claims_ok [OF stepsD [OF assms(2), of g]] assms(3)
  by (simp add: engine_ok_def keeps_plan_def)

lemma other_operations_keep:
  "steps (keeps_plan ng) (request_abort rid)" "steps same_claims (request_abort rid)"
  "steps (keeps_plan ng) shutdown" "steps same_claims shutdown"
  unfolding request_abort_def shutdown_def
  by (intro plan.steps_rules plan.steps_modify keeps_plan_same claims.steps_rules claims.steps_modify;
      simp add: same_claims_def held_jobs_def)+

lemma registry_writer_keeps:
  "steps (keeps_plan ng) (registry_writer ng' name)" "steps same_claims (registry_writer ng' name)"
  "steps (keeps_plan ng) (on_registry_world m)" "steps same_claims (on_registry_world m)"
  by (rule stepsI; simp add: registry_writer_def on_registry_world_def keeps_plan_same same_claims_def held_jobs_def
      split: prod.split)+

lemma steps_probe_all:
  assumes "frame R"
  shows "(\<And>np. np \<in> set nps \<Longrightarrow> steps R (snd np)) \<Longrightarrow> steps R (probe_all nps)"
  by (induction nps) (auto intro!: frame.steps_bindE [OF assms] frame.steps_catchE [OF assms] frame.steps_ret [OF assms])

lemma dep_probes_keep:
  assumes "np \<in> set (dep_probes ng')"
  shows "steps (keeps_plan ng) (snd np)" "steps same_claims (snd np)"
proof -
  from assms consider p where "snd np = on_world p" | "snd np = probe_qdrant ng'"
    by (auto simp: dep_probes_def split: if_splits)
  then show "steps (keeps_plan ng) (snd np)"
    by cases (simp_all only: plan_on_world probe_qdrant_def, intro plan.steps_rules registry_writer_keeps)
  from \<open>np \<in> set (dep_probes ng')\<close> consider p where "snd np = on_world p" | "snd np = probe_qdrant ng'"
    by (auto simp: dep_probes_def split: if_splits)
  then show "steps same_claims (snd np)"
    by cases (simp_all only: claims_on_world probe_qdrant_def, intro claims.steps_rules registry_writer_keeps)
qed

lemma refresh_deps_keeps:
  "steps (keeps_plan ng) (refresh_deps ng')" "steps same_claims (refresh_deps ng')"
  unfolding refresh_deps_def now_iso_def
   apply (intro plan.steps_rules plan_on_world plan.steps_modify keeps_plan_same steps_probe_all plan.frame_axioms
      dep_probes_keep; simp)
  apply (intro claims.steps_rules claims_on_world claims.steps_modify steps_probe_all claims.frame_axioms
      dep_probes_keep; simp add: same_claims_def held_jobs_def)
  done

lemma delete_runs_keeps:
  "steps (keeps_plan ng) (engine_delete_runs ng' jid since until dry_run)"
  "steps same_claims (engine_delete_runs ng' jid since until dry_run)"
  unfolding engine_delete_runs_def db_change_def
  by (intro plan.steps_rules plan_on_core) (intro claims.steps_rules claims_on_run)

lemma delete_orphan_keeps:
  "steps (keeps_plan ng) (delete_orphan ng' jid)" "steps same_claims (delete_orphan ng' jid)"
proof -
  have w: "steps (keeps_plan ng) (all_writers ng' ns)" "steps same_claims (all_writers ng' ns)" for ns
    by (induction ns) (auto intro!: plan.steps_rules claims.steps_rules registry_writer_keeps)
  show "steps (keeps_plan ng) (delete_orphan ng' jid)"
    unfolding delete_orphan_def registry_writers_def db_change_def
    by (intro plan.steps_rules plan_on_core plan_on_world w)
  show "steps same_claims (delete_orphan ng' jid)"
    unfolding delete_orphan_def registry_writers_def db_change_def
    by (intro claims.steps_rules claims_on_run claims_on_world w)
qed

text \<open>Operations that may start runs.\<close>

definition keeps_claims :: "job list \<Rightarrow> ('s, 'w) job_engine \<Rightarrow> ('s, 'w) job_engine \<Rightarrow> bool" where
  "keeps_claims fs g g' \<longleftrightarrow> (claims_ok fs g \<longrightarrow> claims_ok fs g')"

interpretation kept: frame "keeps_claims fs" for fs
  by unfold_locales (auto simp: keeps_claims_def)

lemma same_keeps: "steps same_claims m \<Longrightarrow> steps (keeps_claims fs) m"
  by (erule steps_mono) (simp add: keeps_claims_def same_claims_ok)

lemma startup_keeps:
  assumes "scheduler_laws ng" and "run_laws ng"
  shows "steps (keeps_plan ng) (startup ng fire)" "steps (keeps_claims fs) (startup ng fire)"
proof -
  have t: "steps (keeps_claims fs) (trigger_run ng jid trigger rq queue)" for jid trigger rq queue
    by (rule stepsI) (simp add: keeps_claims_def claims_trigger_run [OF assms(2)])
  show "steps (keeps_plan ng) (startup ng fire)"
    unfolding startup_def fire_startup_run_def now_iso_def db_change_def
    by (intro plan.steps_rules plan_on_core plan_on_world plan_read_connections plan_reload_config [OF assms(1)]
        plan_trigger_run)
  show "steps (keeps_claims fs) (startup ng fire)"
    unfolding startup_def fire_startup_run_def now_iso_def db_change_def
    by (intro kept.steps_rules t same_keeps [OF claims_on_run] same_keeps [OF claims_on_world]
        same_keeps [OF claims_read_connections] same_keeps [OF claims_reload_config])
qed

lemma poll_config_keeps:
  assumes "scheduler_laws ng"
  shows "steps (keeps_plan ng) (poll_config ng seen)" "steps same_claims (poll_config ng seen)"
proof -
  show "steps (keeps_plan ng) (poll_config ng seen)"
    unfolding poll_config_def Let_def case_prod_unfold
    by (intro plan.steps_rules plan_on_world plan_reload_config [OF assms] reload_connections_keeps(1) [OF assms])
  show "steps same_claims (poll_config ng seen)"
    unfolding poll_config_def Let_def case_prod_unfold
    by (intro claims.steps_rules claims_on_world claims_reload_config reload_connections_keeps(2))
qed

lemma engine_step_ok:
  assumes "scheduler_laws ng" and "run_laws ng"
  shows "engine_step ng s t \<Longrightarrow> engine_ok ng s \<Longrightarrow> engine_ok ng t"
proof (induction rule: engine_step.induct)
  case (Startup g fs fire)
  then show ?case using stepsD [OF startup_keeps(1) [OF assms], of g fire] stepsD [OF startup_keeps(2) [OF assms], of fs g fire]
    by (simp add: engine_ok_def keeps_plan_def keeps_claims_def)
next
  case (Trigger g fs jid trigger rq queue)
  then show ?case using stepsD [OF plan_trigger_run, of ng g ng jid trigger rq queue] claims_trigger_run [OF assms(2), of fs g]
    by (simp add: engine_ok_def keeps_plan_def)
next
  case (RunEnds th g fs signals)
  then show ?case using stepsD [OF plan_run_target, of ng g "settled ng" signals th] claims_run_target [of "settled ng" fs g th signals] assms(2)
    by (simp add: engine_ok_def keeps_plan_def)
next
  case (CronBegins g jid j g' fs)
  then have f: "g' = g\<lparr>eg_core := eg_core g'\<rparr>" "begin_run j (eg_core g) = (Inr (), eg_core g')"
    using on_core_fields by blast+
  then have "held_jobs g' = insert (job_id j) (held_jobs g)" "job_id j \<notin> held_jobs g" "eg_threads g' = eg_threads g"
    by (auto simp: begin_run_def bindE_Inr on_locks_def raise_def held_jobs_def split: if_splits)
  then have "claims_ok fs g \<Longrightarrow> claims_ok (j # fs) g'" by (auto simp: claims_ok_def claimed_def)
  moreover have "keeps_plan ng g g'" using stepsD [OF plan_on_core, of ng g "begin_run j"] CronBegins by simp
  ultimately show ?case using CronBegins by (simp add: engine_ok_def keeps_plan_def)
next
  case (CronEnds j fs g signals)
  have "steps (keeps_plan ng) (sync_body (settled ng) signals j TrigCron default_request)"
    unfolding sync_body_def by (intro plan.steps_rules plan_on_core metrics_keep)
  with CronEnds show ?case
    using stepsD [of "keeps_plan ng" _ g] claims_after_firing [OF _ CronEnds(1) sync_body_drops [of "settled ng"]]
    by (simp add: engine_ok_def keeps_plan_def)
next
  case (Look g g' fs)
  then show ?case using looks_keep(1) [of g g' ng] looks_keep(2) [of g g'] same_claims_ok [of g g' fs]
    by (simp add: engine_ok_def keeps_plan_def)
qed (assumption | rule engine_ok_op plan_reload_config [OF assms(1)] claims_reload_config plan_pause_job [OF assms(1)]
    plan_resume_job [OF assms(1)] claims_pause_resume poll_config_keeps [OF assms(1)]
    reload_connections_keeps(1) [OF assms(1)] reload_connections_keeps(2) other_operations_keep refresh_deps_keeps
    delete_runs_keeps delete_orphan_keeps)+

lemma new_engine_ok:
  assumes "ap_entry (ng_aps ng) s = Map.empty" and "lk_jobs (es_locks c) = {}"
  shows "engine_ok ng (new_engine ng s c, [])"
  using assms
  by (auto simp: engine_ok_def plan_ok_def claims_ok_def claimed_def held_jobs_def new_engine_def engine_jobs_def
      jobs_compatible_def planned_def planned_schedule_def fun_eq_iff entries_sound_def entry_ok_def)

section \<open>Properties\<close>

text \<open>C9: A refused reload changes nothing the engine runs by: when the catalog on disk has an error and the
  engine has jobs, reloading only records the result and that it was not applied. Jobs, pauses,
  queue, threads, scheduler, registry, locks and the state database stay as they are.\<close>
theorem refused_reload_changes_nothing:
  assumes "read_catalog ng g = (Inr result, g1)" and "\<not> load_ok result" and "eg_jobs g \<noteq> []"
  shows "\<exists>c. reload_config ng False g =
      (Inr result, g\<lparr>eg_last_load := Some result, eg_config_applied := False, eg_core := c\<rparr>) \<and>
    es_locks c = es_locks (eg_core g) \<and> rs_db (es_run c) = rs_db (es_run (eg_core g))"
proof -
  have "world_only g g1" using stepsD [OF world_read_catalog, of g ng] assms(1) by simp
  then have w: "g1 = g\<lparr>eg_core := eg_core g1\<rparr>" "es_locks (eg_core g1) = es_locks (eg_core g)"
    "rs_db (es_run (eg_core g1)) = rs_db (es_run (eg_core g))" by (simp_all add: world_only_def state_db_def)
  have "reload_config ng False g = (Inr result, g1\<lparr>eg_last_load := Some result, eg_config_applied := False\<rparr>)"
    using assms by (simp add: reload_config_run)
  also have "g1\<lparr>eg_last_load := Some result, eg_config_applied := False\<rparr> =
      g\<lparr>eg_last_load := Some result, eg_config_applied := False, eg_core := eg_core g1\<rparr>"
    by (subst w(1)) simp
  finally show ?thesis using w(2,3) by blast
qed


text \<open>A run touches the engine in its core only.\<close>

definition core_only :: "('s, 'w) job_engine \<Rightarrow> ('s, 'w) job_engine \<Rightarrow> bool" where
  "core_only g g' \<longleftrightarrow> (\<exists>c. g' = g\<lparr>eg_core := c\<rparr>)"

interpretation core: frame core_only
proof unfold_locales
  show "core_only s s" for s :: "('s, 'w) job_engine"
    unfolding core_only_def by (rule exI [of _ "eg_core s"]) simp
qed (auto simp: core_only_def)

lemma core_on_core: "steps core_only (on_core m)"
  by (rule stepsI) (auto simp: on_core_def core_only_def split: prod.split)

lemma core_metrics: "steps core_only (report_metrics ng run)"
  unfolding report_metrics_def on_world_def
  by (cases "ng_metrics ng") (simp_all add: core_on_core core.steps_ret)

lemma core_bodies: "steps core_only (thread_body ng signals th)" "steps core_only (sync_body ng signals j trigger rq)"
  unfolding thread_body_def sync_body_def by (intro core.steps_rules core_on_core core_metrics)+

lemma run_target_followup:
  assumes "run_laws ng" and "plan_ok ng g" and "claims_ok fs g" and "th \<in> set (eg_threads g)"
    and "map_of (eg_jobs g) (job_id (th_job th)) = Some j" and "eg_queued g (job_id (th_job th)) = Some rq"
    and "\<not> eg_shutdown g"
  shows "\<exists>rid. eg_threads (snd (run_target ng signals th g)) = remove1 th (eg_threads g) @
      [\<lparr>th_job = j, th_trigger = th_trigger th, th_run_id = rid, th_request = rq\<rparr>] \<and>
    eg_queued (snd (run_target ng signals th g)) = (eg_queued g)(job_id (th_job th) := None)"
proof -
  let ?i = "job_id (th_job th)" and ?g1 = "snd (thread_body ng signals th g)"
  obtain c where c: "?g1 = g\<lparr>eg_core := c\<rparr>"
    using stepsD [OF core_bodies(1), of g ng signals th] by (auto simp: core_only_def)
  define g2 where "g2 = ?g1\<lparr>eg_aborted := eg_aborted ?g1 - {th_run_id th}, eg_threads := remove1 th (eg_threads ?g1),
      eg_queued := (eg_queued ?g1)(?i := None)\<rparr>"
  have f: "forget_thread th ?g1 = (Inr (Some rq), g2)"
    using assms(6) by (simp add: forget_thread_def bindE_def gets_def seqE_def modify_def ret_def g2_def c)
  have j: "job_id j = ?i" using get_job_id [OF assms(2,5)] .
  have "job_id j \<notin> held_jobs ?g1" using thread_body_frees [of th ng signals g] by (simp add: j)
  then have free: "job_id j \<notin> held_jobs g2" by (simp add: g2_def held_jobs_def)
  have m: "map_of (eg_jobs g2) ?i = Some j" using assms(5) by (simp add: g2_def c)
  obtain rid d where t: "trigger_run ng ?i (th_trigger th) rq False g2 = (Inr \<lparr>ta_run_id = Some rid, ta_queued = False\<rparr>,
      g2\<lparr>eg_threads := eg_threads g2 @ [\<lparr>th_job = j, th_trigger = th_trigger th, th_run_id = rid, th_request = rq\<rparr>],
        eg_core := d\<rparr>)"
    using trigger_run_starts [OF assms(1) m free] by blast
  have "\<not> eg_shutdown g2" using assms(7) by (simp add: g2_def c)
  then have "snd (run_target ng signals th g) =
      g2\<lparr>eg_threads := eg_threads g2 @ [\<lparr>th_job = j, th_trigger = th_trigger th, th_run_id = rid, th_request = rq\<rparr>], eg_core := d\<rparr>"
    unfolding run_target_def finallyE_snd
    by (simp add: bindE_def f start_followup_def gets_def catchE_def t ret_def)
  then show ?thesis by (intro exI [of _ rid]) (simp add: g2_def c)
qed

text \<open>C14: A queued run does happen: asking with \<open>queue\<close> for a run of a job whose thread is working is
  answered as queued, and when that thread ends, however its run went, a thread with the request
  that was queued first is started for the job as the catalog has it then.\<close>
theorem followup_runs:
  assumes "run_laws ng" and "plan_ok ng g" and "claims_ok fs g" and "th \<in> set (eg_threads g)"
    and "map_of (eg_jobs g) (job_id (th_job th)) = Some j" and "\<not> eg_shutdown g"
  shows "\<exists>g'. trigger_run ng (job_id (th_job th)) trigger rq True g = (Inr \<lparr>ta_run_id = None, ta_queued = True\<rparr>, g') \<and>
    (\<exists>rid. eg_threads (snd (run_target ng signals th g')) = remove1 th (eg_threads g) @
      [\<lparr>th_job = j, th_trigger = th_trigger th, th_run_id = rid,
        th_request = or_default (eg_queued g (job_id (th_job th))) rq\<rparr>] \<and>
      eg_queued (snd (run_target ng signals th g')) (job_id (th_job th)) = None)"
proof -
  let ?i = "job_id (th_job th)"
  define g' where "g' = (if eg_queued g ?i = None then g\<lparr>eg_queued := (eg_queued g)(?i \<mapsto> rq)\<rparr> else g)"
  have "job_id j = ?i" using get_job_id [OF assms(2,5)] .
  then have "job_id j \<in> held_jobs g" using assms(3,4) by (auto simp: claims_ok_def claimed_def)
  from trigger_run_busy [OF assms(5) this, of ng trigger rq True]
  have t: "trigger_run ng ?i trigger rq True g = (Inr \<lparr>ta_run_id = None, ta_queued = True\<rparr>, g')" by (simp add: g'_def)
  have same: "same_claims g g'" "plan_ok ng g'"
    using assms(2) by (auto simp: g'_def same_claims_def held_jobs_def plan_ok_def engine_jobs_def)
  have q: "eg_queued g' ?i = Some (or_default (eg_queued g ?i) rq)" by (auto simp: g'_def or_default_def split: option.split)
  have "\<exists>rid. eg_threads (snd (run_target ng signals th g')) = remove1 th (eg_threads g') @
      [\<lparr>th_job = j, th_trigger = th_trigger th, th_run_id = rid, th_request = or_default (eg_queued g ?i) rq\<rparr>] \<and>
    eg_queued (snd (run_target ng signals th g')) = (eg_queued g')(?i := None)"
    by (rule run_target_followup [OF assms(1) same(2) same_claims_ok [OF same(1) assms(3)] _ _ q])
      (use assms(4-6) in \<open>simp_all add: g'_def\<close>)
  with t show ?thesis by (auto simp: g'_def)
qed

section \<open>Witnesses\<close>

text \<open>An engine over the fake store: every trigger builds, \<open>connections.yaml\<close> has the connection
  \<open>primary\<close>, and \<open>jobs.yaml\<close> is there or not.\<close>

definition sample_connections :: connections_lib where
  "sample_connections = \<lparr>cx_crypto = letter_crypto, cx_sha256 = id,
     cx_yaml = (\<lambda>raw. Inr (JObj [(''version'', JInt 1), (''connections'', JList [JObj []])])),
     cx_repr = (\<lambda>v. ''?''), cx_fields = (\<lambda>v. Inr \<lparr>cc_name = ''primary'', cc_url = ''http://q'', cc_api_key = None\<rparr>),
     cx_validator_errors = (\<lambda>v. [])\<rparr>"

definition sample_engine :: "job list \<Rightarrow> bool \<Rightarrow> ((string \<times> entry) list, fake_qdrant) engine_env" where
  "sample_engine js present =
     \<lparr>ng_settings = sample_settings, ng_run = fake_env [], ng_aps = list_aps\<lparr>ap_trigger_error := (\<lambda>t. None)\<rparr>,
       ng_startup = \<lparr>su_cron_gap = (\<lambda>c z m. None), su_elapsed = (\<lambda>f m. Inr 0)\<rparr>,
       ng_catalog = plain_lib js, ng_connections = sample_connections, ng_connect = (\<lambda>u k. fake_writer),
       ng_file = (\<lambda>p. ret (present, Inr [])), ng_stat = (\<lambda>p. ret None),
       ng_environ = ret (plain_environ Map.empty), ng_secret_problem = None, ng_probes = [], ng_metrics = None,
       ng_wait = ret (), ng_wakeups = 0, ng_lock_seconds = 600,
       ng_fromisoformat = (\<lambda>t. Inr (sample_instant, None)), ng_dump = (\<lambda>j. [])\<rparr>"

definition sample_core :: "string set \<Rightarrow> fake_qdrant engine_state" where
  "sample_core held = \<lparr>es_locks = \<lparr>lk_jobs = held, lk_collections = (\<lambda>c. new_rw_lock)\<rparr>, es_run = fake_start\<rparr>"

text \<open>The engine with one manual job, and its run.\<close>

definition sample_running :: "((string \<times> entry) list, fake_qdrant) job_engine" where
  "sample_running = (new_engine (sample_engine [sample_job] False) [] (sample_core {''acme''}))
     \<lparr>eg_jobs := [(''acme'', sample_job)],
       eg_threads := [\<lparr>th_job = sample_job, th_trigger = TrigRest, th_run_id = ''r1'', th_request = default_request\<rparr>]\<rparr>"

lemma sample_laws: "scheduler_laws (sample_engine js present)" "run_laws (sample_engine js present)"
proof -
  have "aps_laws (list_aps\<lparr>ap_trigger_error := (\<lambda>t. None)\<rparr>)" using list_aps_laws by (simp add: aps_laws_def)
  then show "scheduler_laws (sample_engine js present)" by (simp add: scheduler_laws_def sample_engine_def)
  show "run_laws (sample_engine js present)" by (simp add: run_laws_def sample_engine_def fake_env_def ret_def)
qed

lemma sample_running_ok:
  "plan_ok (sample_engine [sample_job] False) sample_running" "claims_ok [] sample_running"
proof -
  have "\<not> scheduled sample_job" by code_simp
  moreover have "list_all job_valid [sample_job]" using sample_job_valid by simp
  ultimately show "plan_ok (sample_engine [sample_job] False) sample_running"
    by (auto simp: plan_ok_def sample_running_def new_engine_def engine_jobs_def jobs_compatible_def planned_def
        planned_schedule_def fun_eq_iff sample_engine_def list_aps_def entries_sound_def entry_ok_def)
qed (simp add: claims_ok_def claimed_def held_jobs_def sample_running_def sample_core_def new_engine_def)

theorem refused_reload_changes_nothing_witness:
  "eg_jobs (snd (reload_config (sample_engine [] False) False sample_running)) = [(''acme'', sample_job)]"
proof -
  obtain result g1 where r: "read_catalog (sample_engine [] False) sample_running = (Inr result, g1)"
    "\<not> load_ok result"
    by (simp add: read_catalog_def bindE_def gets_def now_iso_def on_world_def on_core_def on_run_def in_world_def
        sample_engine_def fake_env_def ret_def load_catalog_def load_ok_def add_error_def new_result_def)
  have "eg_jobs sample_running \<noteq> []" by (simp add: sample_running_def)
  from refused_reload_changes_nothing [OF r this] show ?thesis by (auto simp: sample_running_def)
qed


theorem followup_runs_witness:
  "\<exists>rid. eg_threads (snd (run_target (sample_engine [sample_job] False) (ret False)
     \<lparr>th_job = sample_job, th_trigger = TrigRest, th_run_id = ''r1'', th_request = default_request\<rparr>
     (snd (trigger_run (sample_engine [sample_job] False) ''acme'' TrigMcp (default_request\<lparr>rq_mode := Some Full\<rparr>) True
       sample_running)))) =
   [\<lparr>th_job = sample_job, th_trigger = TrigRest, th_run_id = rid, th_request = default_request\<lparr>rq_mode := Some Full\<rparr>\<rparr>]"
  using followup_runs [OF sample_laws(2) sample_running_ok, of "\<lparr>th_job = sample_job, th_trigger = TrigRest,
      th_run_id = ''r1'', th_request = default_request\<rparr>" sample_job TrigMcp "default_request\<lparr>rq_mode := Some Full\<rparr>" "ret False"]
  by (auto simp: sample_running_def new_engine_def or_default_def)

end
