(* ===== verification/ServiceLimits.thy ===== *)
theory ServiceLimits
  imports ServiceInv
begin

text \<open>
  What the engine shows of secrets, what it deletes for an orphan, and four limits of the code: a
  schedule the scheduler cannot build leaves a reload half done, a follow-up queued during a
  scheduled run is not started by its end, such a run cannot be aborted by its id, and a disabled
  job may name the connection of a collection.
\<close>

section \<open>Secrets stay hidden\<close>

lemma obj_get_set: "obj_get (obj_set k v kvs) k' = (if k' = k then v else obj_get kvs k')"
  by (simp add: obj_get_def map_of_obj_set)

definition hidden :: "jval \<Rightarrow> bool" where
  "hidden v \<longleftrightarrow> v = JNull \<or> v = JStr ''***''"

lemma mask_secret_get:
  "obj_get (mask_secret f src) k =
     (if k = secret_alias f \<and> obj_get src k \<noteq> JNull then JStr ''***'' else obj_get src k)"
  by (auto simp: mask_secret_def obj_get_set)

lemma mask_secret_hides:
  "f = k \<or> hidden (obj_get src (secret_alias k)) \<Longrightarrow> hidden (obj_get (mask_secret f src) (secret_alias k))"
  by (auto simp: mask_secret_get hidden_def)

lemma masked_hidden:
  "k \<in> set fs \<or> hidden (obj_get src (secret_alias k)) \<Longrightarrow>
   hidden (obj_get (fold mask_secret fs src) (secret_alias k))"
proof (induction fs arbitrary: src)
  case (Cons f fs)
  show ?case using Cons.IH [of "mask_secret f src"] Cons.prems mask_secret_hides [of f k src] by auto
qed simp

text \<open>The detail of a job shows no value of a secret field: whatever the dump of the job holds there, the
  answer has null or three stars, and every key that is not a secret of the source is as dumped.\<close>
theorem job_detail_hides_secrets:
  assumes "obj_get (ng_dump ng j) ''source'' = JObj src"
  shows "\<exists>shown. obj_get (jd_config (job_detail ng g j)) ''source'' = JObj shown \<and>
    list_all (\<lambda>(f, ref). hidden (obj_get shown (secret_alias f))) (secret_fields (src_kind (job_source j))) \<and>
    (k \<notin> secret_alias ` fst ` set (secret_fields (src_kind (job_source j))) \<longrightarrow> obj_get shown k = obj_get src k)"
proof -
  let ?fs = "map fst (secret_fields (src_kind (job_source j)))"
  have other: "k \<notin> secret_alias ` set fs \<Longrightarrow> obj_get (fold mask_secret fs s) k = obj_get s k" for fs s
    by (induction fs arbitrary: s) (auto simp: mask_secret_get)
  show ?thesis
    using masked_hidden [of _ ?fs src] other [of ?fs src]
    by (intro exI [of _ "fold mask_secret ?fs src"])
      (force simp: job_detail_def redacted_def assms obj_get_set list_all_iff image_image)
qed

theorem job_detail_hides_secrets_witness:
  "let j = sample_job\<lparr>job_source := \<lparr>src_label = ''docs'', src_rclone_flags = [],
         src_kind = WebdavSource ''http://x'' ''other'' ''me'' (Some ''QI_SECRET_X'')\<rparr>\<rparr>;
       ng = (sample_engine [j] False)\<lparr>ng_dump := (\<lambda>j. [(''source'', JObj [(''pass'', JStr ''QI_SECRET_X''), (''user'', JStr ''me'')])])\<rparr>
   in \<exists>shown. obj_get (jd_config (job_detail ng sample_running j)) ''source'' = JObj shown \<and>
      hidden (obj_get shown ''pass'') \<and> obj_get shown ''user'' = JStr ''me''"
proof -
  define j where "j = sample_job\<lparr>job_source := \<lparr>src_label = ''docs'', src_rclone_flags = [],
         src_kind = WebdavSource ''http://x'' ''other'' ''me'' (Some ''QI_SECRET_X'')\<rparr>\<rparr>"
  define ng where "ng = (sample_engine [j] False)\<lparr>ng_dump := (\<lambda>j. [(''source'',
    JObj [(''pass'', JStr ''QI_SECRET_X''), (''user'', JStr ''me'')])])\<rparr>"
  have "obj_get (ng_dump ng j) ''source'' = JObj [(''pass'', JStr ''QI_SECRET_X''), (''user'', JStr ''me'')]"
    by (simp add: ng_def obj_get_def)
  from job_detail_hides_secrets [OF this, of sample_running "''user''"]
  show ?thesis unfolding Let_def ng_def [symmetric, unfolded j_def] j_def [symmetric] ng_def [symmetric]
    by (auto simp: j_def secret_alias_def obj_get_def)
qed

section \<open>Limits\<close>

text \<open>A schedule the scheduler cannot build: the reload raises after the jobs were replaced and part of
  the entries changed, and records neither the load nor that it was applied.\<close>
lemma unbuildable_schedule_half_applied:
  assumes "read_catalog ng g = (Inr result, g1)" and "load_ok result \<or> initial \<or> eg_jobs g = []"
    and "apply_catalog (ng_aps ng) (ng_settings ng) (lr_jobs result) (eg_scheduler g1) = (Inl e, s)"
  shows "\<exists>g'. reload_config ng initial g = (Inl e, g') \<and> eg_jobs g' = jobs_by_id (lr_jobs result) [] \<and>
    eg_scheduler g' = s \<and> eg_last_load g' = eg_last_load g1 \<and> eg_config_applied g' = eg_config_applied g1"
proof -
  have "\<exists>g'. apply_jobs ng (lr_jobs result) g1 = (Inl e, g') \<and> eg_jobs g' = jobs_by_id (lr_jobs result) [] \<and>
    eg_scheduler g' = s \<and> eg_last_load g' = eg_last_load g1 \<and> eg_config_applied g' = eg_config_applied g1"
    by (simp add: apply_jobs_def seqE_def bindE_def modify_def on_scheduler_def assms(3) Let_def)
  then show ?thesis using assms(2) unfolding reload_config_run [OF assms(1)] by auto
qed

text \<open>The checks of a job do not look at the timezone: this hourly job is valid, its schedule has no
  issue, and no trigger can be built for it.\<close>
lemma unknown_timezone_accepted:
  "let j = hourly\<lparr>job_schedule := (job_schedule hourly)\<lparr>sch_timezone := Some ''Nowhere''\<rparr>\<rparr> in
   job_valid j \<and> validate_schedule (plain_lib [j]) j = [] \<and> \<not> is_ok (build_trigger list_aps sample_settings j)"
  by code_simp

text \<open>A run in a thread of the scheduler leaves the queue as it is: a follow-up that was queued while it
  held the job lock waits for the next run thread of the job.\<close>
lemma sync_run_leaves_followup:
  "eg_queued (snd (sync_body ng signals j trigger rq g)) = eg_queued g \<and>
   eg_threads (snd (sync_body ng signals j trigger rq g)) = eg_threads g"
  using stepsD [OF core_bodies(2), of g ng signals j trigger rq] by (auto simp: core_only_def)

text \<open>And it never looks at the ids whose abort was requested.\<close>
lemma sync_run_ignores_aborts:
  "fst (sync_body ng signals j trigger rq (g\<lparr>eg_aborted := aborted\<rparr>)) = fst (sync_body ng signals j trigger rq g)"
proof -
  have e: "runner_env ng (g\<lparr>eg_aborted := aborted\<rparr>) = runner_env ng g"
    "sibling_job_ids (g\<lparr>eg_aborted := aborted\<rparr>) j = sibling_job_ids g j"
    by (simp_all add: runner_env_def sibling_job_ids_def engine_jobs_def)
  obtain r c where m: "execute_locked (runner_env ng g) (checked (eg_shutdown g) signals)
         (ng_wait ng) (ng_wakeups ng) (ng_lock_seconds ng) j trigger None (rq_mode rq) (rq_full_scope rq)
         (request_options (rq\<lparr>rq_delete_vanished := True\<rparr>) (sibling_job_ids g j)) (eg_core g) = (r, c)" by fastforce
  have w: "fst (report_metrics ng run (h\<lparr>eg_aborted := aborted\<rparr>)) = fst (report_metrics ng run h)" for run h
    by (auto simp: report_metrics_def on_world_def on_core_def ret_def split: option.split prod.split)
  show ?thesis
  proof (cases r)
    case (Inl x)
    then show ?thesis by (simp add: sync_body_def bindE_def gets_def on_core_def e m)
  next
    case (Inr run)
    have "fst (seqE (report_metrics ng run) (ret run) (h\<lparr>eg_aborted := aborted\<rparr>)) =
        fst (seqE (report_metrics ng run) (ret run) h)" for h
      using w [of run h] by (auto simp: seqE_def bindE_def ret_def split: prod.split sum.split)
    moreover have "g\<lparr>eg_core := c, eg_aborted := aborted\<rparr> = g\<lparr>eg_aborted := aborted, eg_core := c\<rparr>"
      by simp
    ultimately have "fst (seqE (report_metrics ng run) (ret run) (g\<lparr>eg_aborted := aborted, eg_core := c\<rparr>)) =
        fst (seqE (report_metrics ng run) (ret run) (g\<lparr>eg_core := c\<rparr>))" by metis
    then show ?thesis using Inr
      by (simp add: sync_body_def bindE_def gets_def on_core_def e m)
  qed
qed

text \<open>The rule of one connection per collection is about enabled jobs, but the writer of a collection is
  looked up through its first job: here that is a disabled one with another connection.\<close>
lemma disabled_job_names_connection:
  "let old = sample_job\<lparr>job_id := ''old'', job_enabled := False, job_target := (job_target sample_job)\<lparr>tgt_connection := ''b''\<rparr>\<rparr>
   in jobs_compatible [old, sample_job] \<and> job_collection old = job_collection sample_job \<and>
      map_option job_connection (find (\<lambda>j. job_collection j = job_collection sample_job) [old, sample_job]) = Some ''b''"
  by (simp add: jobs_compatible_def Let_def sample_job_def)

section \<open>The range of a deletion\<close>

lemma db_change_run:
  assumes "db_change ng f g = (Inr x, g')"
  shows "state_db g' = snd (f (state_db g)) \<and> x = fst (f (state_db g))"
  using assms
  by (auto simp: db_change_def on_core_def on_run_def seqE_def bindE_def in_world_def state_db_def
      split: prod.splits sum.splits)

lemma engine_delete_runs_db:
  assumes "engine_delete_runs ng jid since until dry g = (Inr rep, g')"
    and "parse_bound ng since = Inr lower" and "parse_bound ng until = Inr upper"
  shows "state_db g' =
    snd (delete_runs jid (map_option instant_iso lower) (map_option instant_iso upper) dry (state_db g))"
  using assms db_change_run
  by (fastforce simp: engine_delete_runs_def bindE_def of_sum_def raise_def split: if_splits)

text \<open>C25: Deleting the history of a job between two bounds deletes exactly the finished runs of that job that
  started in the half-open range of instants, however the bounds were written.\<close>
theorem delete_runs_by_instant:
  assumes "engine_delete_runs ng jid since until False g = (Inr rep, g')"
    and "parse_bound ng since = Inr lower" and "parse_bound ng until = Inr upper"
    and "pred_option datetime_valid lower" and "pred_option datetime_valid upper"
    and "r \<in> set (db_runs (state_db g))" and "run_started_at r = instant_iso t" and "datetime_valid t"
  shows "r \<in> set (db_runs (state_db g')) \<longleftrightarrow>
    \<not> (run_job_id r = jid \<and> pred_option (\<lambda>l. moment l \<le> moment t) lower \<and>
       pred_option (\<lambda>u. moment t < moment u) upper \<and> run_status r \<noteq> Running)"
  using assms(6) in_range_by_instant [OF assms(8,7,4,5), of jid]
  unfolding engine_delete_runs_db [OF assms(1-3)] delete_runs_def by (auto simp: Let_def)

text \<open>The engine with one finished run that started at \<open>sample_instant\<close>; the bound is three hours on.\<close>

definition sample_history :: "((string \<times> entry) list, fake_qdrant) job_engine" where
  "sample_history = sample_running\<lparr>eg_core := (eg_core sample_running)\<lparr>es_run := (es_run (eg_core sample_running))
     \<lparr>rs_db := empty_db\<lparr>db_runs := [sample_run ''r1'' (instant_iso sample_instant) Success]\<rparr>\<rparr>\<rparr>\<rparr>"

theorem delete_runs_by_instant_witness:
  "let ng = (sample_engine [] False)\<lparr>ng_fromisoformat := (\<lambda>x. Inr (sample_instant\<lparr>dt_hour := 5\<rparr>, None))\<rparr> in
   sample_run ''r1'' (instant_iso sample_instant) Success \<notin>
     set (db_runs (state_db (snd (engine_delete_runs ng ''acme'' None (Some ''2024-03-01T05:30'') False sample_history))))"
proof -
  define ng where "ng = (sample_engine [] False)\<lparr>ng_fromisoformat := (\<lambda>x. Inr (sample_instant\<lparr>dt_hour := 5\<rparr>, None))\<rparr>"
  let ?r = "sample_run ''r1'' (instant_iso sample_instant) Success"
  have v: "datetime_valid sample_instant" "datetime_valid (sample_instant\<lparr>dt_hour := 5\<rparr>)"
    by (simp_all add: sample_instant_def datetime_valid_def date_valid_def month_days_def)
  have b: "parse_bound ng None = Inr None" "parse_bound ng (Some ''2024-03-01T05:30'') = Inr (Some (sample_instant\<lparr>dt_hour := 5\<rparr>))"
    by (simp_all add: parse_bound_def or_else_def parse_instant_def ng_def)
  have n: "re_begin (ng_run ng) = ret ()" by (simp add: ng_def sample_engine_def fake_env_def)
  have "\<exists>rep g'. engine_delete_runs ng ''acme'' None (Some ''2024-03-01T05:30'') False sample_history = (Inr rep, g')"
    by (simp add: engine_delete_runs_def b db_change_def on_core_def on_run_def seqE_def bindE_def of_sum_def in_world_def
        n ret_def split: prod.split)
  then obtain rep g' where m: "engine_delete_runs ng ''acme'' None (Some ''2024-03-01T05:30'') False sample_history = (Inr rep, g')"
    by blast
  have h: "?r \<in> set (db_runs (state_db sample_history))" by (simp add: sample_history_def state_db_def)
  have "moment sample_instant < moment (sample_instant\<lparr>dt_hour := 5\<rparr>)"
    by (simp add: moment_def day_number_def micros_of_day_def sample_instant_def)
  with delete_runs_by_instant [OF m b _ _ h _ v(1)] v show ?thesis
    unfolding Let_def ng_def [symmetric] by (simp add: m sample_run_def)
qed

end
