(* ===== verification/Rows.thy ===== *)
theory Rows
  imports Migrations StateDb
begin

text \<open>
  The statements of \<open>src/src/state/db.py\<close> as SQL rows: the column lists, the tuples the statements
  bind, the reading of a row by column names, and the insert, update and select of documents and
  runs over tables of such rows. The lemmas show that the typed tables of \<open>StateDb\<close> are an
  abstraction of them, and that the columns are the ones the migrations create.
\<close>

section \<open>Rows of a table\<close>

datatype sql_value = SqlNull | SqlText string | SqlInt int

type_synonym sql_row = "(string \<times> sql_value) list"

record sql_tables =
  tb_documents :: "sql_row list"
  tb_runs :: "sql_row list"

definition DOCUMENT_COLUMNS :: "string list" where
  "DOCUMENT_COLUMNS =
     [''job_id'', ''collection'', ''source'', ''rel_path'', ''size'', ''mtime_ns'', ''content_sha'', ''text_sha'',
      ''params_sha'', ''media_type'', ''chunk_count'', ''status'', ''last_error'', ''last_run_id'', ''indexed_at'']"

definition RUN_COLUMNS :: "string list" where
  "RUN_COLUMNS =
     [''run_id'', ''job_id'', ''mode'', ''full_scope'', ''trigger'', ''started_at'', ''finished_at'', ''status'',
      ''sync_status'', ''sync_stderr_tail'', ''files_seen'', ''docs_indexed'', ''docs_unchanged'',
      ''docs_skipped_changed'', ''docs_failed'', ''docs_deleted'', ''chunks_upserted'', ''bytes_read'',
      ''embed_calls'', ''error'', ''dry_run'', ''files_done'', ''phase'', ''current'']"

definition UPDATE_RUN_COLUMNS :: "string list" where
  "UPDATE_RUN_COLUMNS =
     [''mode'', ''full_scope'', ''finished_at'', ''status'', ''sync_status'', ''sync_stderr_tail'', ''files_seen'',
      ''docs_indexed'', ''docs_unchanged'', ''docs_skipped_changed'', ''docs_failed'', ''docs_deleted'',
      ''chunks_upserted'', ''bytes_read'', ''embed_calls'', ''error'', ''dry_run'', ''files_done'', ''phase'', ''current'']"

definition null_or :: "('a \<Rightarrow> string) \<Rightarrow> 'a option \<Rightarrow> sql_value" where
  "null_or f x = (case x of None \<Rightarrow> SqlNull | Some a \<Rightarrow> SqlText (f a))"

section \<open>Documents\<close>

definition document_values :: "document_row \<Rightarrow> sql_value list" where
  "document_values d =
     [SqlText (doc_job d), SqlText (doc_collection d), SqlText (doc_source d), SqlText (doc_rel_path d),
      SqlInt (doc_size d), SqlInt (doc_mtime_ns d), SqlText (doc_content_sha d), null_or id (doc_text_sha d),
      SqlText (doc_params_sha d), null_or id (doc_media_type d), SqlInt (doc_chunk_count d),
      SqlText (status_str (doc_status d)), null_or id (doc_last_error d), SqlText (doc_last_run d),
      SqlText (doc_indexed_at d)]"

text \<open>Reading a column as Python does: a name the row does not have raises \<open>IndexError\<close>. A value of
  another type than the column's is outside the model, it raises as well.\<close>

definition column_error :: "string \<Rightarrow> exc" where
  "column_error c = PyError ''IndexError'' c"

definition sql_text :: "sql_row \<Rightarrow> string \<Rightarrow> exc + string" where
  "sql_text row c = (case map_of row c of Some (SqlText s) \<Rightarrow> Inr s | _ \<Rightarrow> Inl (column_error c))"

definition sql_int :: "sql_row \<Rightarrow> string \<Rightarrow> exc + int" where
  "sql_int row c = (case map_of row c of Some (SqlInt i) \<Rightarrow> Inr i | _ \<Rightarrow> Inl (column_error c))"

definition sql_text_or_null :: "sql_row \<Rightarrow> string \<Rightarrow> exc + string option" where
  "sql_text_or_null row c =
     (case map_of row c of
        Some SqlNull \<Rightarrow> Inr None
      | Some (SqlText s) \<Rightarrow> Inr (Some s)
      | _ \<Rightarrow> Inl (column_error c))"

text \<open>A word of the vocabulary \<open>words\<close>.\<close>

definition word_of :: "('a \<Rightarrow> string) \<Rightarrow> 'a list \<Rightarrow> string \<Rightarrow> exc + 'a" where
  "word_of f ws s = (case find (\<lambda>w. f w = s) ws of None \<Rightarrow> Inl (column_error s) | Some w \<Rightarrow> Inr w)"

definition andthen :: "exc + 'a \<Rightarrow> ('a \<Rightarrow> exc + 'b) \<Rightarrow> exc + 'b" where
  "andthen x f = (case x of Inl e \<Rightarrow> Inl e | Inr a \<Rightarrow> f a)"

definition word_or_null :: "('a \<Rightarrow> string) \<Rightarrow> 'a list \<Rightarrow> string option \<Rightarrow> exc + 'a option" where
  "word_or_null f ws x = (case x of None \<Rightarrow> Inr None | Some s \<Rightarrow> map_sum id Some (word_of f ws s))"

definition document_from_row :: "sql_row \<Rightarrow> exc + document_row" where
  "document_from_row row =
     andthen (sql_text row ''job_id'') (\<lambda>job_id.
     andthen (sql_text row ''collection'') (\<lambda>collection.
     andthen (sql_text row ''source'') (\<lambda>source.
     andthen (sql_text row ''rel_path'') (\<lambda>rel_path.
     andthen (sql_int row ''size'') (\<lambda>sz.
     andthen (sql_int row ''mtime_ns'') (\<lambda>mtime_ns.
     andthen (sql_text row ''content_sha'') (\<lambda>content_sha.
     andthen (sql_text_or_null row ''text_sha'') (\<lambda>text_sha.
     andthen (sql_text row ''params_sha'') (\<lambda>params_sha.
     andthen (sql_text_or_null row ''media_type'') (\<lambda>media_type.
     andthen (sql_int row ''chunk_count'') (\<lambda>chunk_count.
     andthen (andthen (sql_text row ''status'') (word_of status_str DOCUMENT_STATUSES)) (\<lambda>status.
     andthen (sql_text_or_null row ''last_error'') (\<lambda>last_error.
     andthen (sql_text row ''last_run_id'') (\<lambda>last_run_id.
     andthen (sql_text row ''indexed_at'') (\<lambda>indexed_at.
       Inr \<lparr>doc_job = job_id, doc_collection = collection, doc_source = source, doc_rel_path = rel_path,
         doc_size = sz, doc_mtime_ns = mtime_ns, doc_content_sha = content_sha, doc_params_sha = params_sha,
         doc_status = status, doc_last_run = last_run_id, doc_indexed_at = indexed_at, doc_text_sha = text_sha,
         doc_media_type = media_type, doc_chunk_count = chunk_count, doc_last_error = last_error\<rparr>)))))))))))))))"

text \<open>\<open>INSERT OR REPLACE\<close> removes the row with the same primary key.\<close>

definition same_columns :: "string list \<Rightarrow> sql_row \<Rightarrow> sql_row \<Rightarrow> bool" where
  "same_columns cs a b \<longleftrightarrow> list_all (\<lambda>c. map_of a c = map_of b c) cs"

definition insert_document :: "document_row \<Rightarrow> sql_tables \<Rightarrow> sql_tables" where
  "insert_document d t =
     (let row = zip DOCUMENT_COLUMNS (document_values d) in
      t\<lparr>tb_documents := filter (\<lambda>q. \<not> same_columns [''job_id'', ''source''] q row) (tb_documents t) @ [row]\<rparr>)"

definition select_document :: "sql_tables \<Rightarrow> string \<Rightarrow> string \<Rightarrow> exc + document_row option" where
  "select_document t jid src =
     (case find (\<lambda>q. map_of q ''job_id'' = Some (SqlText jid) \<and> map_of q ''source'' = Some (SqlText src)) (tb_documents t) of
        None \<Rightarrow> Inr None
      | Some q \<Rightarrow> map_sum id Some (document_from_row q))"

section \<open>Runs\<close>

definition run_values :: "run_row \<Rightarrow> sql_value list" where
  "run_values r =
     [SqlText (run_id r), SqlText (run_job_id r), SqlText (mode_str (run_mode r)), null_or scope_str (run_full_scope r),
      SqlText (trigger_str (run_trigger r)), SqlText (run_started_at r), null_or id (run_finished_at r),
      SqlText (run_status_str (run_status r)), null_or id (run_sync_status r), null_or id (run_sync_stderr_tail r),
      SqlInt (run_files_seen r), SqlInt (run_docs_indexed r), SqlInt (run_docs_unchanged r),
      SqlInt (run_docs_skipped_changed r), SqlInt (run_docs_failed r), SqlInt (run_docs_deleted r),
      SqlInt (run_chunks_upserted r), SqlInt (run_bytes_read r), SqlInt (run_embed_calls r), null_or id (run_error r),
      SqlInt (if run_dry_run r then 1 else 0), SqlInt (run_files_done r), null_or phase_str (run_phase r),
      null_or id (run_current r)]"

definition update_run_values :: "run_row \<Rightarrow> sql_value list" where
  "update_run_values r =
     [SqlText (mode_str (run_mode r)), null_or scope_str (run_full_scope r), null_or id (run_finished_at r),
      SqlText (run_status_str (run_status r)), null_or id (run_sync_status r), null_or id (run_sync_stderr_tail r),
      SqlInt (run_files_seen r), SqlInt (run_docs_indexed r), SqlInt (run_docs_unchanged r),
      SqlInt (run_docs_skipped_changed r), SqlInt (run_docs_failed r), SqlInt (run_docs_deleted r),
      SqlInt (run_chunks_upserted r), SqlInt (run_bytes_read r), SqlInt (run_embed_calls r), null_or id (run_error r),
      SqlInt (if run_dry_run r then 1 else 0), SqlInt (run_files_done r), null_or phase_str (run_phase r),
      null_or id (run_current r)]"

definition run_from_row :: "sql_row \<Rightarrow> exc + run_row" where
  "run_from_row row =
     andthen (sql_text row ''run_id'') (\<lambda>rid.
     andthen (sql_text row ''job_id'') (\<lambda>jid.
     andthen (andthen (sql_text row ''mode'') (word_of mode_str [Full, Append, Upsert])) (\<lambda>md.
     andthen (andthen (sql_text_or_null row ''full_scope'') (word_or_null scope_str [ScopeJob, ScopeCollection])) (\<lambda>scp.
     andthen (andthen (sql_text row ''trigger'')
       (word_of trigger_str [TrigCron, TrigRest, TrigMcp, TrigUi, TrigStartup])) (\<lambda>trigger.
     andthen (sql_text row ''started_at'') (\<lambda>started_at.
     andthen (sql_text_or_null row ''finished_at'') (\<lambda>finished_at.
     andthen (andthen (sql_text row ''status'') (word_of run_status_str RUN_STATUSES)) (\<lambda>status.
     andthen (sql_text_or_null row ''sync_status'') (\<lambda>sync_status.
     andthen (sql_text_or_null row ''sync_stderr_tail'') (\<lambda>sync_stderr_tail.
     andthen (sql_int row ''files_seen'') (\<lambda>files_seen.
     andthen (sql_int row ''docs_indexed'') (\<lambda>docs_indexed.
     andthen (sql_int row ''docs_unchanged'') (\<lambda>docs_unchanged.
     andthen (sql_int row ''docs_skipped_changed'') (\<lambda>docs_skipped_changed.
     andthen (sql_int row ''docs_failed'') (\<lambda>docs_failed.
     andthen (sql_int row ''docs_deleted'') (\<lambda>docs_deleted.
     andthen (sql_int row ''chunks_upserted'') (\<lambda>chunks_upserted.
     andthen (sql_int row ''bytes_read'') (\<lambda>bytes_read.
     andthen (sql_int row ''embed_calls'') (\<lambda>embed_calls.
     andthen (sql_text_or_null row ''error'') (\<lambda>err.
     andthen (sql_int row ''dry_run'') (\<lambda>dry_run.
     andthen (sql_int row ''files_done'') (\<lambda>files_done.
     andthen (andthen (sql_text_or_null row ''phase'')
       (word_or_null phase_str [Syncing, Scanning, Embedding, CleaningUp])) (\<lambda>phase.
     andthen (sql_text_or_null row ''current'') (\<lambda>current.
       Inr \<lparr>run_id = rid, run_job_id = jid, run_mode = md, run_trigger = trigger, run_started_at = started_at,
         run_status = status, run_full_scope = scp, run_finished_at = finished_at, run_sync_status = sync_status,
         run_sync_stderr_tail = sync_stderr_tail, run_files_seen = files_seen, run_docs_indexed = docs_indexed,
         run_docs_unchanged = docs_unchanged, run_docs_skipped_changed = docs_skipped_changed,
         run_docs_failed = docs_failed, run_docs_deleted = docs_deleted, run_chunks_upserted = chunks_upserted,
         run_bytes_read = bytes_read, run_embed_calls = embed_calls, run_error = err, run_dry_run = dry_run \<noteq> 0,
         run_files_done = files_done, run_phase = phase, run_current = current\<rparr>))))))))))))))))))))))))"

definition insert_run :: "run_row \<Rightarrow> sql_tables \<Rightarrow> (exc + unit) \<times> sql_tables" where
  "insert_run r t =
     (let row = zip RUN_COLUMNS (run_values r) in
      if list_ex (same_columns [''run_id''] row) (tb_runs t)
      then (Inl (PyError ''IntegrityError'' ''UNIQUE constraint failed: runs.run_id''), t)
      else (Inr (), t\<lparr>tb_runs := tb_runs t @ [row]\<rparr>))"

definition set_columns :: "sql_row \<Rightarrow> sql_row \<Rightarrow> sql_row" where
  "set_columns changes row = map (\<lambda>(c, v). (c, case map_of changes c of None \<Rightarrow> v | Some w \<Rightarrow> w)) row"

definition update_run_row :: "run_row \<Rightarrow> sql_tables \<Rightarrow> sql_tables" where
  "update_run_row r t =
     t\<lparr>tb_runs := map (\<lambda>q. if map_of q ''run_id'' = Some (SqlText (run_id r))
        then set_columns (zip UPDATE_RUN_COLUMNS (update_run_values r)) q else q) (tb_runs t)\<rparr>"

definition select_run :: "sql_tables \<Rightarrow> string \<Rightarrow> exc + run_row option" where
  "select_run t rid =
     (case find (\<lambda>q. map_of q ''run_id'' = Some (SqlText rid)) (tb_runs t) of
        None \<Rightarrow> Inr None
      | Some q \<Rightarrow> map_sum id Some (run_from_row q))"

section \<open>The typed tables are an abstraction\<close>

definition table_rows :: "db \<Rightarrow> sql_tables" where
  "table_rows db =
     \<lparr>tb_documents = map (\<lambda>d. zip DOCUMENT_COLUMNS (document_values d)) (db_documents db),
       tb_runs = map (\<lambda>r. zip RUN_COLUMNS (run_values r)) (db_runs db)\<rparr>"

lemma word_of_word:
  "word_of status_str DOCUMENT_STATUSES (status_str ds) = Inr ds"
  "word_of run_status_str RUN_STATUSES (run_status_str rs) = Inr rs"
  "word_of mode_str [Full, Append, Upsert] (mode_str md) = Inr md"
  "word_of scope_str [ScopeJob, ScopeCollection] (scope_str sc) = Inr sc"
  "word_of trigger_str [TrigCron, TrigRest, TrigMcp, TrigUi, TrigStartup] (trigger_str tr) = Inr tr"
  "word_of phase_str [Syncing, Scanning, Embedding, CleaningUp] (phase_str ph) = Inr ph"
proof -
  show "word_of status_str DOCUMENT_STATUSES (status_str ds) = Inr ds"
    by (cases ds) (simp_all add: word_of_def DOCUMENT_STATUSES_def)
  show "word_of run_status_str RUN_STATUSES (run_status_str rs) = Inr rs"
    by (cases rs) (simp_all add: word_of_def RUN_STATUSES_def)
  show "word_of mode_str [Full, Append, Upsert] (mode_str md) = Inr md" by (cases md) (simp_all add: word_of_def)
  show "word_of scope_str [ScopeJob, ScopeCollection] (scope_str sc) = Inr sc" by (cases sc) (simp_all add: word_of_def)
  show "word_of trigger_str [TrigCron, TrigRest, TrigMcp, TrigUi, TrigStartup] (trigger_str tr) = Inr tr"
    by (cases tr) (simp_all add: word_of_def)
  show "word_of phase_str [Syncing, Scanning, Embedding, CleaningUp] (phase_str ph) = Inr ph"
    by (cases ph) (simp_all add: word_of_def)
qed

lemma column_reads:
  "map_of row c = Some (SqlText s) \<Longrightarrow> sql_text row c = Inr s"
  "map_of row c = Some (SqlInt i) \<Longrightarrow> sql_int row c = Inr i"
  "map_of row c = Some (null_or id x) \<Longrightarrow> sql_text_or_null row c = Inr x"
  "map_of row c = Some (null_or scope_str sc) \<Longrightarrow>
     andthen (sql_text_or_null row c) (word_or_null scope_str [ScopeJob, ScopeCollection]) = Inr sc"
  "map_of row c = Some (null_or phase_str ph) \<Longrightarrow>
     andthen (sql_text_or_null row c) (word_or_null phase_str [Syncing, Scanning, Embedding, CleaningUp]) = Inr ph"
  by (auto simp: sql_text_def sql_int_def sql_text_or_null_def null_or_def andthen_def word_or_null_def word_of_word
      split: option.splits)

lemma andthen_Inr [simp]: "andthen (Inr a) f = f a"
  by (simp add: andthen_def)

lemma map_of_zip_Cons: "map_of (zip (c # cs) (v # vs)) k = (if k = c then Some v else map_of (zip cs vs) k)"
  by simp

lemma document_from_row: "document_from_row (zip DOCUMENT_COLUMNS (document_values d)) = Inr d"
  by (simp add: document_from_row_def DOCUMENT_COLUMNS_def document_values_def column_reads word_of_word)

lemma run_from_row: "run_from_row (zip RUN_COLUMNS (run_values r)) = Inr r"
  by (simp add: run_from_row_def RUN_COLUMNS_def run_values_def column_reads word_of_word)

lemma key_columns:
  "map_of (zip DOCUMENT_COLUMNS (document_values d)) ''job_id'' = Some (SqlText (doc_job d))"
  "map_of (zip DOCUMENT_COLUMNS (document_values d)) ''source'' = Some (SqlText (doc_source d))"
  "map_of (zip RUN_COLUMNS (run_values r)) ''run_id'' = Some (SqlText (run_id r))"
  by (simp_all add: DOCUMENT_COLUMNS_def document_values_def RUN_COLUMNS_def run_values_def)

lemma set_columns_run:
  "run_id q = run_id r \<Longrightarrow> set_columns (zip UPDATE_RUN_COLUMNS (update_run_values r)) (zip RUN_COLUMNS (run_values q)) =
     zip RUN_COLUMNS (run_values (set_run r q))"
  by (simp add: set_columns_def UPDATE_RUN_COLUMNS_def update_run_values_def RUN_COLUMNS_def run_values_def set_run_def)

lemma find_map: "find P (map f xs) = map_option f (find (P \<circ> f) xs)"
  by (induction xs) auto

lemma columns_exist:
  "map_option (map fst \<circ> fst) (map_of (sm_tables schema_v2) ''documents'') = Some DOCUMENT_COLUMNS"
  "map_option (map fst \<circ> fst) (map_of (sm_tables schema_v2) ''runs'') = Some RUN_COLUMNS"
  by code_simp+

text \<open>C33: The statements on rows are the operations on the typed tables: what is inserted, replaced or
  updated row by row reads back as the typed operation says, and the
  columns are exactly the ones the migrations create.\<close>
theorem rows_refine:
  "insert_document d (table_rows db) = table_rows (upsert_document d db) \<and>
   select_document (table_rows db) jid src = Inr (get_document db jid src) \<and>
   insert_run r (table_rows db) = (fst (create_run r db), table_rows (snd (create_run r db))) \<and>
   update_run_row r (table_rows db) = table_rows (update_run r db) \<and>
   select_run (table_rows db) rid = Inr (get_run db rid) \<and>
   map_option (map fst \<circ> fst) (map_of (sm_tables schema_v2) ''documents'') = Some DOCUMENT_COLUMNS \<and>
   map_option (map fst \<circ> fst) (map_of (sm_tables schema_v2) ''runs'') = Some RUN_COLUMNS"
proof (intro conjI)
  show "insert_document d (table_rows db) = table_rows (upsert_document d db)"
    by (simp add: insert_document_def table_rows_def upsert_document_def same_columns_def key_columns filter_map o_def)
  show "select_document (table_rows db) jid src = Inr (get_document db jid src)"
    by (simp add: select_document_def table_rows_def get_document_def find_map o_def key_columns document_from_row
        split: option.split)
  show "insert_run r (table_rows db) = (fst (create_run r db), table_rows (snd (create_run r db)))"
    by (auto simp: insert_run_def table_rows_def create_run_def same_columns_def key_columns list_ex_iff)
  show "update_run_row r (table_rows db) = table_rows (update_run r db)"
    by (simp add: update_run_row_def table_rows_def update_run_def key_columns set_columns_run)
  show "select_run (table_rows db) rid = Inr (get_run db rid)"
    by (simp add: select_run_def table_rows_def get_run_def find_map o_def key_columns run_from_row split: option.split)
qed (rule columns_exist)+

end
