(* ===== verification/Metrics.thy ===== *)
theory Metrics
  imports StateDb
begin

text \<open>
  The Prometheus metrics, \<open>src/src/api/metrics.py\<close>: counters by label values, the gauge of the loaded
  jobs, and \<open>record_run\<close>, which the engine calls after a run. A counter is an integer (the library
  has a float, exact up to 2 to the power 53) and refuses a negative increment.
\<close>

record metrics =
  mx_runs :: "string \<times> string \<rightharpoonup> int"
  mx_docs_indexed :: "string \<rightharpoonup> int"
  mx_docs_failed :: "string \<rightharpoonup> int"
  mx_chunks_upserted :: "string \<rightharpoonup> int"
  mx_jobs_loaded :: int

definition new_metrics :: metrics where
  "new_metrics = \<lparr>mx_runs = Map.empty, mx_docs_indexed = Map.empty, mx_docs_failed = Map.empty,
     mx_chunks_upserted = Map.empty, mx_jobs_loaded = 0\<rparr>"

definition counter_value :: "('k \<rightharpoonup> int) \<Rightarrow> 'k \<Rightarrow> int" where
  "counter_value c k = (case c k of None \<Rightarrow> 0 | Some n \<Rightarrow> n)"

text \<open>\<open>counter.labels(k).inc(n)\<close>, as the new counter.\<close>

definition increased :: "int \<Rightarrow> 'k \<Rightarrow> ('k \<rightharpoonup> int) \<Rightarrow> exc + ('k \<rightharpoonup> int)" where
  "increased n k c =
     (if n < 0 then Inl (PyError ''ValueError'' ''Counters can only be incremented by non-negative amounts.'')
      else Inr (c(k \<mapsto> counter_value c k + n)))"

definition record_run :: "run_row \<Rightarrow> (metrics, unit) eff" where
  "record_run r =
     bindE (gets mx_runs) (\<lambda>c. bindE (of_sum (increased 1 (run_job_id r, run_status_str (run_status r)) c)) (\<lambda>c.
     seqE (modify (\<lambda>m. m\<lparr>mx_runs := c\<rparr>))
    (seqE (whenE (run_docs_indexed r \<noteq> 0)
       (bindE (gets mx_docs_indexed) (\<lambda>c. bindE (of_sum (increased (run_docs_indexed r) (run_job_id r) c)) (\<lambda>c.
          modify (\<lambda>m. m\<lparr>mx_docs_indexed := c\<rparr>)))))
    (seqE (whenE (run_docs_failed r \<noteq> 0)
       (bindE (gets mx_docs_failed) (\<lambda>c. bindE (of_sum (increased (run_docs_failed r) (run_job_id r) c)) (\<lambda>c.
          modify (\<lambda>m. m\<lparr>mx_docs_failed := c\<rparr>)))))
       (whenE (run_chunks_upserted r \<noteq> 0)
       (bindE (gets mx_chunks_upserted) (\<lambda>c. bindE (of_sum (increased (run_chunks_upserted r) (run_job_id r) c)) (\<lambda>c.
          modify (\<lambda>m. m\<lparr>mx_chunks_upserted := c\<rparr>)))))))))"

text \<open>The metrics beside the rest of the world.\<close>

definition in_metrics :: "(metrics, 'a) eff \<Rightarrow> (metrics \<times> 'v, 'a) eff" where
  "in_metrics m w = (case m (fst w) of (r, x) \<Rightarrow> (r, (x, snd w)))"

section \<open>What the counters say\<close>

definition counts :: "run_row list \<Rightarrow> metrics \<Rightarrow> bool" where
  "counts rs m \<longleftrightarrow>
     (\<forall>j s. counter_value (mx_runs m) (j, s) =
        int (length (filter (\<lambda>r. run_job_id r = j \<and> run_status_str (run_status r) = s) rs))) \<and>
     (\<forall>j. counter_value (mx_docs_indexed m) j = (\<Sum>r\<leftarrow>filter (\<lambda>r. run_job_id r = j) rs. run_docs_indexed r)) \<and>
     (\<forall>j. counter_value (mx_docs_failed m) j = (\<Sum>r\<leftarrow>filter (\<lambda>r. run_job_id r = j) rs. run_docs_failed r)) \<and>
     (\<forall>j. counter_value (mx_chunks_upserted m) j = (\<Sum>r\<leftarrow>filter (\<lambda>r. run_job_id r = j) rs. run_chunks_upserted r))"

definition row_counters_ok :: "run_row \<Rightarrow> bool" where
  "row_counters_ok r \<longleftrightarrow> 0 \<le> run_docs_indexed r \<and> 0 \<le> run_docs_failed r \<and> 0 \<le> run_chunks_upserted r"

lemma counter_value_upd: "counter_value (c(k \<mapsto> n)) k' = (if k' = k then n else counter_value c k')"
  by (simp add: counter_value_def)

lemma record_run_result:
  assumes "row_counters_ok r"
  shows "\<exists>m'. record_run r m = (Inr (), m') \<and> mx_jobs_loaded m' = mx_jobs_loaded m \<and>
    (\<forall>k. counter_value (mx_runs m') k =
       counter_value (mx_runs m) k + (if k = (run_job_id r, run_status_str (run_status r)) then 1 else 0)) \<and>
    (\<forall>j. counter_value (mx_docs_indexed m') j =
       counter_value (mx_docs_indexed m) j + (if j = run_job_id r then run_docs_indexed r else 0)) \<and>
    (\<forall>j. counter_value (mx_docs_failed m') j =
       counter_value (mx_docs_failed m) j + (if j = run_job_id r then run_docs_failed r else 0)) \<and>
    (\<forall>j. counter_value (mx_chunks_upserted m') j =
       counter_value (mx_chunks_upserted m) j + (if j = run_job_id r then run_chunks_upserted r else 0))"
  using assms
  by (simp add: record_run_def bindE_def seqE_def gets_def of_sum_def modify_def whenE_def ret_def increased_def
      row_counters_ok_def counter_value_upd)

lemma counts_record_run:
  assumes "row_counters_ok r" and "counts rs m"
  shows "\<exists>m'. record_run r m = (Inr (), m') \<and> counts (rs @ [r]) m' \<and> mx_jobs_loaded m' = mx_jobs_loaded m"
  using record_run_result [OF assms(1), of m] assms(2) by (auto simp: counts_def)

text \<open>The counters are the sums over the runs that were recorded: a job's runs by status, and the
  documents and chunks of all its runs.\<close>
theorem metrics_count_runs:
  assumes "list_all row_counters_ok rs"
  shows "\<exists>m. for_each rs record_run new_metrics = (Inr (), m) \<and> mx_jobs_loaded m = 0 \<and>
    counter_value (mx_runs m) (j, s) =
      int (length (filter (\<lambda>r. run_job_id r = j \<and> run_status_str (run_status r) = s) rs)) \<and>
    counter_value (mx_docs_indexed m) j = (\<Sum>r\<leftarrow>filter (\<lambda>r. run_job_id r = j) rs. run_docs_indexed r) \<and>
    counter_value (mx_docs_failed m) j = (\<Sum>r\<leftarrow>filter (\<lambda>r. run_job_id r = j) rs. run_docs_failed r) \<and>
    counter_value (mx_chunks_upserted m) j = (\<Sum>r\<leftarrow>filter (\<lambda>r. run_job_id r = j) rs. run_chunks_upserted r)"
proof -
  have "\<exists>m'. for_each rs record_run m = (Inr (), m') \<and> counts (before @ rs) m' \<and> mx_jobs_loaded m' = mx_jobs_loaded m"
    if "list_all row_counters_ok rs" and "counts before m" for rs before and m :: metrics
    using that
  proof (induction rs arbitrary: before m)
    case (Cons r rs)
    then obtain m1 where m1: "record_run r m = (Inr (), m1)" "counts (before @ [r]) m1" "mx_jobs_loaded m1 = mx_jobs_loaded m"
      using counts_record_run [of r before m] by auto
    with Cons.IH [of "before @ [r]" m1] Cons.prems show ?case by (auto simp: seqE_def bindE_def)
  qed (simp add: ret_def)
  from this [OF assms, of "[]" new_metrics] show ?thesis by (auto simp: counts_def new_metrics_def counter_value_def)
qed

theorem metrics_count_runs_witness:
  "\<exists>m. for_each [(sample_run ''r1'' ''t'' Success)\<lparr>run_docs_indexed := 2\<rparr>, sample_run ''r2'' ''t'' Failed] record_run new_metrics =
       (Inr (), m) \<and> counter_value (mx_runs m) (''acme'', ''success'') = 1 \<and> counter_value (mx_docs_indexed m) ''acme'' = 2"
  using metrics_count_runs [of "[(sample_run ''r1'' ''t'' Success)\<lparr>run_docs_indexed := 2\<rparr>, sample_run ''r2'' ''t'' Failed]"
      "''acme''" "''success''"]
  by (auto simp: row_counters_ok_def sample_run_def)

end
