(* ===== verification/Rest.thy ===== *)
theory Rest
  imports ServiceInv Metrics Access
begin

text \<open>
  The REST surface, \<open>src/src/api/rest.py\<close> with the request bodies of \<open>src/src/api/models.py\<close>: one
  constructor per route with its decoded parameters, one clause per handler, and \<open>serve\<close>, which
  checks the token, then the declared constraints of the parameters, then runs the handler. An answer
  is its status and a typed body; its JSON form is not modelled. The routing, the decoding and the
  answers 422 and 500 for an invalid parameter and an uncaught exception are FastAPI's, and the text
  of the metrics is \<open>render\<close>, the Prometheus client's.
\<close>

section \<open>Requests and answers\<close>

record run_body =
  rb_mode :: "mode option"
  rb_full_scope :: "full_scope option"
  rb_dry_run :: bool
  rb_skip_sync :: bool
  rb_force :: bool
  rb_queue :: bool
  rb_delete_vanished :: bool

definition default_body :: run_body where
  "default_body = \<lparr>rb_mode = None, rb_full_scope = None, rb_dry_run = False, rb_skip_sync = False,
     rb_force = False, rb_queue = False, rb_delete_vanished = True\<rparr>"

datatype rest_route =
    GetHealth
  | GetMetrics
  | ListJobs
  | GetJob string
  | RunJob string "run_body option"
  | PauseJob string
  | ResumeJob string
  | PreviewJob string int
  | JobDocuments string "string option" "string option" "string option" string int int
  | DeleteJobRuns string "string option" "string option" bool bool
  | ListRuns "string option" "string option" int "string option"
  | GetRun string
  | CancelRun string
  | ListCollections
  | GetConfig
  | PostReload
  | PostValidate string
  | ListOrphans
  | RemoveOrphan string bool

datatype rest_body =
    HealthBody health
  | TextBody string
  | JobsBody "job_summary list"
  | JobBody job_detail
  | TriggerBody trigger_answer
  | EnabledBody bool
  | PreviewBody "preview_item list" nat
  | DocumentsBody document_page
  | DeletedRunsBody delete_report bool
  | RunsBody "run_row list"
  | RunBody run_row "run_event list"
  | AbortingBody string
  | CollectionsBody "collection_entry list"
  | ConfigBody config_info
  | ValidationBody validation
  | OrphansBody "(orphan \<times> nat) list"
  | DeletedOrphanBody nat nat
  | ProblemBody string
  | AlreadyRunningBody "string option"

record rest_answer =
  an_status :: int
  an_body :: rest_body

definition answer :: "rest_body \<Rightarrow> rest_answer" where
  "answer b = \<lparr>an_status = 200, an_body = b\<rparr>"

definition accepted_answer :: "rest_body \<Rightarrow> rest_answer" where
  "accepted_answer b = \<lparr>an_status = 202, an_body = b\<rparr>"

definition problem :: "int \<Rightarrow> string \<Rightarrow> rest_answer" where
  "problem status detail = \<lparr>an_status = status, an_body = ProblemBody detail\<rparr>"

text \<open>The constraints the signatures declare.\<close>

fun query_ok :: "rest_route \<Rightarrow> bool" where
  "query_ok (PreviewJob jid limit) \<longleftrightarrow> 1 \<le> limit \<and> limit \<le> 1000"
| "query_ok (JobDocuments jid status q run order limit offset) \<longleftrightarrow>
     (case q of None \<Rightarrow> True | Some t \<Rightarrow> length t \<le> 200) \<and> 1 \<le> limit \<and> limit \<le> 500 \<and> 0 \<le> offset"
| "query_ok (ListRuns jid status limit since) \<longleftrightarrow> 1 \<le> limit \<and> limit \<le> 1000"
| "query_ok (PostValidate raw) \<longleftrightarrow> length raw \<le> 2000000"
| "query_ok r \<longleftrightarrow> True"

section \<open>Handlers\<close>

type_synonym ('s, 'w) handler = "('s, 'w, rest_answer) engine_eff"

definition job_or_404 :: "string \<Rightarrow> (job \<Rightarrow> ('s, 'w) handler) \<Rightarrow> ('s, 'w) handler" where
  "job_or_404 jid k =
     bindE (gets (\<lambda>g. map_of (eg_jobs g) jid)) (\<lambda>j. case j of
       None \<Rightarrow> ret (problem 404 (''unknown job '' @ quoted jid))
     | Some j \<Rightarrow> k j)"

text \<open>\<open>except ValueError\<close>, answered with 422.\<close>

definition value_error_422 :: "('s, 'w) handler \<Rightarrow> ('s, 'w) handler" where
  "value_error_422 m = catchE m (\<lambda>e. if exc_name e = ''ValueError'' then ret (problem 422 (exc_str e)) else raise e)"

definition body_request :: "run_body \<Rightarrow> run_request" where
  "body_request b = \<lparr>rq_mode = rb_mode b, rq_full_scope = rb_full_scope b, rq_dry_run = rb_dry_run b,
     rq_skip_sync = rb_skip_sync b, rq_force = rb_force b, rq_delete_vanished = rb_delete_vanished b\<rparr>"

definition post_run :: "('s, 'w) engine_env \<Rightarrow> string \<Rightarrow> run_body option \<Rightarrow> ('s, 'w) handler" where
  "post_run ng jid body =
     job_or_404 jid (\<lambda>j.
       let request = (case body of None \<Rightarrow> default_body | Some b \<Rightarrow> b) in
       if \<not> rb_delete_vanished request \<and> (case rb_mode request of None \<Rightarrow> job_mode j | Some m \<Rightarrow> m) \<noteq> Upsert
       then ret (problem 422 (''delete_vanished: false is only valid for mode '' @ quoted ''upsert''))
       else catchE
         (bindE (trigger_run ng jid TrigRest (body_request request) (rb_queue request))
           (\<lambda>a. ret (accepted_answer (TriggerBody a))))
         (\<lambda>e. if exc_name e = ''RunRejectedError''
              then bindE (gets (\<lambda>g. active_run_id (state_db g) jid))
                (\<lambda>active. ret \<lparr>an_status = 409, an_body = AlreadyRunningBody active\<rparr>)
              else raise e))"

definition status_filter :: "string option \<Rightarrow> (run_status option \<Rightarrow> run_row list) \<Rightarrow> run_row list" where
  "status_filter status rows =
     (case status of None \<Rightarrow> rows None
      | Some t \<Rightarrow> (case find (\<lambda>s. run_status_str s = t) RUN_STATUSES of None \<Rightarrow> [] | Some s \<Rightarrow> rows (Some s)))"

fun v1 :: "('s, 'w) engine_env \<Rightarrow> rest_route \<Rightarrow> ('s, 'w) handler" where
  "v1 ng ListJobs = gets (\<lambda>g. answer (JobsBody (map (job_summary ng g) (engine_jobs g))))"
| "v1 ng (GetJob jid) = job_or_404 jid (\<lambda>j. gets (\<lambda>g. answer (JobBody (job_detail ng g j))))"
| "v1 ng (RunJob jid body) = post_run ng jid body"
| "v1 ng (PauseJob jid) = job_or_404 jid (\<lambda>j. bindE (pause_job ng jid) (\<lambda>_. ret (answer (EnabledBody False))))"
| "v1 ng (ResumeJob jid) = job_or_404 jid (\<lambda>j. bindE (resume_job ng jid) (\<lambda>_. ret (answer (EnabledBody True))))"
| "v1 ng (PreviewJob jid limit) =
     job_or_404 jid (\<lambda>j. bindE (preview ng jid limit) (\<lambda>es. ret (answer (PreviewBody es (length es)))))"
| "v1 ng (JobDocuments jid status q run order limit offset) =
     job_or_404 jid (\<lambda>j. value_error_422
       (bindE (documents ng jid status (or_else q None) run order limit offset) (\<lambda>p. ret (answer (DocumentsBody p)))))"
| "v1 ng (DeleteJobRuns jid since until dry_run confirm) =
     (if \<not> (confirm \<or> dry_run)
      then ret (problem 400 ''pass ?confirm=true to delete, or ?dry_run=true to count'')
      else value_error_422
        (bindE (engine_delete_runs ng jid (or_else since None) (or_else until None) dry_run)
          (\<lambda>counts. ret (answer (DeletedRunsBody counts dry_run)))))"
| "v1 ng (ListRuns jid status limit since) =
     gets (\<lambda>g. answer (RunsBody (status_filter status (\<lambda>s. engine_list_runs g jid s limit since))))"
| "v1 ng (GetRun rid) =
     gets (\<lambda>g. case run_detail g rid of
       None \<Rightarrow> problem 404 (''unknown run '' @ quoted rid)
     | Some (r, es) \<Rightarrow> answer (RunBody r es))"
| "v1 ng (CancelRun rid) =
     bindE (request_abort rid) (\<lambda>ok.
       if \<not> ok then ret (problem 409 ''run is not running (or unknown)'')
       else ret (accepted_answer (AbortingBody rid)))"
| "v1 ng ListCollections = bindE (collections ng) (\<lambda>cs. ret (answer (CollectionsBody cs)))"
| "v1 ng GetConfig = gets (\<lambda>g. answer (ConfigBody (config_info ng g)))"
| "v1 ng PostReload = bindE (reload_config ng False) (\<lambda>_. gets (\<lambda>g. answer (ConfigBody (config_info ng g))))"
| "v1 ng (PostValidate raw) = bindE (validate_catalog ng raw) (\<lambda>v. ret (answer (ValidationBody v)))"
| "v1 ng ListOrphans = bindE (orphans ng) (\<lambda>os. ret (answer (OrphansBody os)))"
| "v1 ng (RemoveOrphan jid confirm) =
     (if \<not> confirm then ret (problem 400 ''pass ?confirm=true to delete'')
      else catchE
        (bindE (delete_orphan ng jid) (\<lambda>(points, rows). ret (answer (DeletedOrphanBody points rows))))
        (\<lambda>e. if exc_name e = ''JobStillActiveError''
             then ret (problem 409 (''job '' @ quoted jid @ '' is still in the catalog'')) else raise e))"
| "v1 ng r = ret (problem 404 ''Not Found'')"

definition report_metrics_page :: "(metrics \<Rightarrow> string) \<Rightarrow> ('s, metrics \<times> 'v) handler" where
  "report_metrics_page render =
     bindE (gets (\<lambda>g. length (engine_jobs g))) (\<lambda>n.
     seqE (on_world (in_metrics (modify (\<lambda>m. m\<lparr>mx_jobs_loaded := int n\<rparr>))))
       (on_world (in_metrics (gets (\<lambda>m. answer (TextBody (render m)))))))"

definition metrics_endpoint ::
  "('s, metrics \<times> 'v) engine_env \<Rightarrow> (metrics \<Rightarrow> string) \<Rightarrow> string option \<Rightarrow> ('s, metrics \<times> 'v) handler" where
  "metrics_endpoint ng render header =
     (if \<not> set_metrics_enabled (ng_settings ng) then ret (problem 404 ''metrics disabled'')
      else if set_metrics_auth (ng_settings ng) then
        (case check_bearer (ng_settings ng) header of
           Inl e \<Rightarrow> ret (problem (he_status e) (he_detail e))
         | Inr ok \<Rightarrow> report_metrics_page render)
      else report_metrics_page render)"

definition route_answer ::
  "('s, metrics \<times> 'v) engine_env \<Rightarrow> (metrics \<Rightarrow> string) \<Rightarrow> string option \<Rightarrow> rest_route \<Rightarrow> ('s, metrics \<times> 'v) handler" where
  "route_answer ng render header r =
     (case r of
        GetHealth \<Rightarrow> bindE (health ng) (\<lambda>h. ret (answer (HealthBody h)))
      | GetMetrics \<Rightarrow> metrics_endpoint ng render header
      | _ \<Rightarrow> (case check_bearer (ng_settings ng) header of
          Inl e \<Rightarrow> ret (problem (he_status e) (he_detail e))
        | Inr ok \<Rightarrow> if \<not> query_ok r then ret (problem 422 ''invalid parameter'') else v1 ng r))"

definition serve ::
  "('s, metrics \<times> 'v) engine_env \<Rightarrow> (metrics \<Rightarrow> string) \<Rightarrow> string option \<Rightarrow> rest_route \<Rightarrow> ('s, metrics \<times> 'v) handler" where
  "serve ng render header r =
     catchE (route_answer ng render header r) (\<lambda>e. ret (problem 500 ''Internal Server Error''))"

end
