(* ===== verification/RestSafety.thy ===== *)
theory RestSafety
  imports Rest
begin

text \<open>
  What a request over REST can do: nothing without the token, no deletion without a confirmation, and
  nothing but steps of the engine. The last holds for every handler, so the invariants of the engine
  hold over every sequence of requests.
\<close>

section \<open>Reading handlers\<close>

lemma look_collections: "steps looks (collections ng)"
proof -
  have w: "steps looks (writer_for_collection ng c)" for c
    unfolding writer_for_collection_def by (intro look.steps_rules look_registry_writer)
  have e: "steps looks (collection_entry ng c ids)" for c ids
    unfolding collection_entry_def Let_def by (intro look.steps_rules w look_on_world)
  have "steps looks (collection_entries ng es)" for es
    by (induction es) (auto intro!: look.steps_rules e)
  then show ?thesis unfolding collections_def by (intro look.steps_rules)
qed

lemma look_orphans: "steps looks (orphans ng)"
proof -
  have "steps looks (all_writers ng ns)" for ns
    by (induction ns) (auto intro!: look.steps_rules look_registry_writer)
  then show ?thesis unfolding orphans_def registry_writers_def by (intro look.steps_rules look_on_world)
qed

lemma look_readers:
  "steps looks (validate_catalog ng raw)" "steps looks (preview ng jid limit)"
  "steps looks (documents ng jid status q run order l off)" "steps looks (health ng)"
  unfolding validate_catalog_def preview_def documents_def health_def engine_config_error_def now_iso_def Let_def
  by (intro look.steps_rules look_on_world look_get_job)+

section \<open>Handlers are steps of the engine\<close>

interpretation stepping: frame "\<lambda>g g'. (engine_step ng)\<^sup>*\<^sup>* (g, fs) (g', fs)" for ng fs
  by unfold_locales auto

definition stepped :: "('s, 'w) engine_env \<Rightarrow> job list \<Rightarrow> ('s, 'w, 'a) engine_eff \<Rightarrow> bool" where
  "stepped ng fs m \<longleftrightarrow> steps (\<lambda>g g'. (engine_step ng)\<^sup>*\<^sup>* (g, fs) (g', fs)) m"

lemma stepped_look: "steps looks m \<Longrightarrow> stepped ng fs m"
  unfolding stepped_def by (erule steps_mono) (blast intro: Look)

lemma stepped_ops:
  "stepped ng fs (reload_config ng False)" "stepped ng fs (pause_job ng jid)" "stepped ng fs (resume_job ng jid)"
  "stepped ng fs (trigger_run ng jid trigger rq queue)" "stepped ng fs (request_abort rid)"
  "stepped ng fs (engine_delete_runs ng jid since until dry)" "stepped ng fs (delete_orphan ng jid)"
  unfolding stepped_def by (rule stepsI, blast intro: engine_step.intros)+

lemmas stepped_rules = stepping.steps_rules [folded stepped_def] stepping.steps_catchE [folded stepped_def]
  stepping.steps_option [folded stepped_def] stepping.steps_if [folded stepped_def]

lemmas stepped_looks = look_collections [THEN stepped_look] look_orphans [THEN stepped_look]
  look_readers [THEN stepped_look] look_on_world [THEN stepped_look]

lemma stepped_v1: "stepped ng fs (v1 ng r)"
  by (cases r; simp only: v1.simps job_or_404_def post_run_def value_error_422_def Let_def case_prod_unfold;
      (rule stepped_rules stepped_ops stepped_looks)+)

lemma stepped_serve: "stepped ng fs (serve ng render header r)"
proof -
  have m: "stepped ng fs (metrics_endpoint ng render header)"
    unfolding metrics_endpoint_def report_metrics_page_def
    by (rule stepped_rules stepping.steps_sum [folded stepped_def] stepped_looks)+
  show ?thesis unfolding serve_def route_answer_def
    by (cases r; simp only: rest_route.case;
        (rule stepped_rules stepping.steps_sum [folded stepped_def] stepped_v1 stepped_looks m)+)
qed

section \<open>The database\<close>

definition same_db :: "('s, 'w) job_engine \<Rightarrow> ('s, 'w) job_engine \<Rightarrow> bool" where
  "same_db g g' \<longleftrightarrow> state_db g' = state_db g"

interpretation kept_db: frame same_db
  by unfold_locales (simp_all add: same_db_def)

lemma db_look: "steps looks m \<Longrightarrow> steps same_db m"
  by (erule steps_mono) (simp add: looks_def same_db_def)

lemma db_scheduler: "steps same_db (on_scheduler m)"
  by (rule stepsI) (simp add: on_scheduler_def same_db_def state_db_def split: prod.split)

lemma db_modify: "(\<And>g. eg_core (f g) = eg_core g) \<Longrightarrow> steps same_db (modify f)"
  by (rule kept_db.steps_modify) (simp add: same_db_def state_db_def)

lemma db_on_locks: "steps same_db (on_core (on_locks f))"
  by (rule stepsI) (simp add: on_core_def on_locks_def modify_def same_db_def state_db_def)

lemma db_begin_run: "steps same_db (on_core (begin_run j))"
  by (rule stepsI) (simp add: on_core_def begin_run_def bindE_def gets_def raise_def on_locks_def modify_def same_db_def
      state_db_def split: prod.split)

lemmas db_rules = kept_db.steps_rules look_on_world [THEN db_look] look_get_job [THEN db_look] db_scheduler db_begin_run

lemma db_reload_config: "steps same_db (reload_config ng initial)"
  unfolding reload_config_def read_catalog_def apply_jobs_def now_iso_def case_prod_unfold
  by (rule db_rules db_modify | simp add: Let_def)+

lemma db_ops:
  "steps same_db (pause_job ng jid)" "steps same_db (resume_job ng jid)"
  "steps same_db (trigger_run ng jid trigger rq queue)" "steps same_db (request_abort rid)"
  unfolding pause_job_def resume_job_def trigger_run_def queue_followup_def request_abort_def
  by (rule db_rules db_modify | simp)+

lemma db_dry_run: "steps same_db (engine_delete_runs ng jid since until True)"
  unfolding engine_delete_runs_def
  by (rule db_rules | rule stepsI, simp add: db_change_def delete_runs_def Let_def on_core_def on_run_def seqE_def bindE_def
      in_world_def same_db_def state_db_def split: prod.split sum.split)+

lemma orphan_still_active:
  "map_of (eg_jobs g) jid \<noteq> None \<Longrightarrow> delete_orphan ng jid g = (Inl (JobStillActiveError jid), g)"
  by (auto simp: delete_orphan_def bindE_def gets_def raise_def map_of_eq_None_iff)

lemmas db_looks = look_collections [THEN db_look] look_orphans [THEN db_look] look_readers [THEN db_look]

lemma db_v1:
  assumes "\<nexists>jid since until. r = DeleteJobRuns jid since until False True" and "\<nexists>jid. r = RemoveOrphan jid True"
  shows "steps same_db (v1 ng r)"
  using assms
proof (cases r)
  case (DeleteJobRuns jid since until dry_run confirm)
  with assms(1) have "dry_run \<or> \<not> (confirm \<or> dry_run)" by (cases dry_run; cases confirm) auto
  then show ?thesis unfolding DeleteJobRuns v1.simps value_error_422_def
    by (cases dry_run) (simp_all only: simp_thms if_True if_False, (rule db_rules db_dry_run)+)
next
  case (RemoveOrphan jid confirm)
  with assms(2) have "\<not> confirm" by auto
  then show ?thesis unfolding RemoveOrphan v1.simps by (simp add: kept_db.steps_ret)
qed (simp only: v1.simps job_or_404_def post_run_def value_error_422_def Let_def case_prod_unfold,
    (rule db_rules db_ops db_reload_config db_looks)+)+

lemma db_route:
  assumes "steps same_db (v1 ng r)"
  shows "steps same_db (serve ng render header r)"
proof -
  have m: "steps same_db (metrics_endpoint ng render header)"
    unfolding metrics_endpoint_def report_metrics_page_def by (rule db_rules)+
  show ?thesis unfolding serve_def route_answer_def
    by (insert assms, cases r; simp only: rest_route.case; (rule db_rules db_looks m | assumption)+)
qed

section \<open>Properties\<close>

text \<open>C23: Behind the token: a request to any route but the two free ones runs its handler only when a token is
  configured and the header presents it, and is otherwise answered with 401 and changes nothing.\<close>
theorem rest_needs_token:
  "r = GetHealth \<or> r = GetMetrics \<or>
    (set_api_token (ng_settings ng) \<noteq> [] \<and>
      (\<exists>scheme. py_lower scheme = ''bearer'' \<and> header = Some (scheme @ '' '' @ set_api_token (ng_settings ng)))) \<or>
    (\<exists>detail. serve ng render header r g = (Inr (problem 401 detail), g))"
proof (cases "check_bearer (ng_settings ng) header")
  case (Inl e)
  then have "he_status e = 401" by (auto simp: check_bearer_def unauthorized_def split: if_splits prod.splits)
  moreover have "r = GetHealth \<or> r = GetMetrics \<or>
      route_answer ng render header r = ret (problem (he_status e) (he_detail e))"
    using Inl by (cases r) (simp_all add: route_answer_def)
  ultimately show ?thesis by (auto simp: serve_def catchE_def ret_def)
next
  case (Inr ok)
  then show ?thesis using check_bearer_exactly [of "ng_settings ng" header] by simp
qed

text \<open>C11: No deletion without a word: a request that changes the database was \<open>DELETE /jobs/id/runs\<close> with
  \<open>confirm\<close> and no \<open>dry_run\<close>, or \<open>DELETE /orphans/id\<close> with \<open>confirm\<close> for a job that is not in the catalog.\<close>
theorem deletions_confirmed:
  "state_db (snd (serve ng render header r g)) = state_db g \<or>
   (\<exists>jid since until. r = DeleteJobRuns jid since until False True) \<or>
   (\<exists>jid. r = RemoveOrphan jid True \<and> map_of (eg_jobs g) jid = None)"
proof -
  consider jid since until where "r = DeleteJobRuns jid since until False True"
    | jid where "r = RemoveOrphan jid True" "map_of (eg_jobs g) jid \<noteq> None"
    | jid where "r = RemoveOrphan jid True" "map_of (eg_jobs g) jid = None"
    | "\<nexists>jid since until. r = DeleteJobRuns jid since until False True" "\<nexists>jid. r = RemoveOrphan jid True" by blast
  then show ?thesis
  proof cases
    case (2 jid)
    have v: "v1 ng r g = (Inr (problem 409 (''job '' @ quoted jid @ '' is still in the catalog'')), g)"
      by (simp add: 2(1) catchE_def bindE_def orphan_still_active [OF 2(2)] JobStillActiveError_def ret_def)
    have "snd (serve ng render header r g) = g"
      using v by (cases "check_bearer (ng_settings ng) header")
        (simp_all add: 2(1) serve_def route_answer_def catchE_def ret_def del: v1.simps)
    then show ?thesis by simp
  next
    case 4
    then have "steps same_db (serve ng render header r)" by (intro db_route db_v1)
    then have "same_db g (snd (serve ng render header r g))" by (rule stepsD)
    then show ?thesis by (simp add: same_db_def)
  qed blast+
qed

text \<open>\<open>POST /jobs/id/run\<close>, branch by branch: an unknown job, a flag that is valid for upsert runs only, a job
  whose lock is held (refused with the id of the active run, or queued once when asked), and else a
  new run thread that carries exactly what the body says.\<close>
theorem post_run_answers:
  assumes "run_laws ng" and "plan_ok ng g"
  shows "case map_of (eg_jobs g) jid of
      None \<Rightarrow> post_run ng jid body g = (Inr (problem 404 (''unknown job '' @ quoted jid)), g)
    | Some j \<Rightarrow>
        let b = (case body of None \<Rightarrow> default_body | Some b \<Rightarrow> b) in
        if \<not> rb_delete_vanished b \<and> (case rb_mode b of None \<Rightarrow> job_mode j | Some m \<Rightarrow> m) \<noteq> Upsert
        then \<exists>detail. post_run ng jid body g = (Inr (problem 422 detail), g)
        else if jid \<in> held_jobs g \<and> \<not> rb_queue b
        then post_run ng jid body g =
          (Inr \<lparr>an_status = 409, an_body = AlreadyRunningBody (active_run_id (state_db g) jid)\<rparr>, g)
        else if jid \<in> held_jobs g
        then post_run ng jid body g =
          (Inr (accepted_answer (TriggerBody \<lparr>ta_run_id = None, ta_queued = True\<rparr>)),
           if eg_queued g jid = None then g\<lparr>eg_queued := (eg_queued g)(jid \<mapsto> body_request b)\<rparr> else g)
        else \<exists>rid c. post_run ng jid body g =
          (Inr (accepted_answer (TriggerBody \<lparr>ta_run_id = Some rid, ta_queued = False\<rparr>)),
           g\<lparr>eg_threads := eg_threads g @
               [\<lparr>th_job = j, th_trigger = TrigRest, th_run_id = rid, th_request = body_request b\<rparr>],
             eg_core := c\<rparr>)"
proof (cases "map_of (eg_jobs g) jid")
  case None
  then show ?thesis by (simp add: post_run_def job_or_404_def bindE_def gets_def ret_def)
next
  case (Some j)
  have id: "job_id j = jid" using get_job_id [OF assms(2) Some] .
  define b where "b = (case body of None \<Rightarrow> default_body | Some b \<Rightarrow> b)"
  let ?bad = "\<not> rb_delete_vanished b \<and> (case rb_mode b of None \<Rightarrow> job_mode j | Some m \<Rightarrow> m) \<noteq> Upsert"
  have p: "post_run ng jid body g =
      (if ?bad then ret (problem 422 (''delete_vanished: false is only valid for mode '' @ quoted ''upsert''))
       else catchE (bindE (trigger_run ng jid TrigRest (body_request b) (rb_queue b))
           (\<lambda>a. ret (accepted_answer (TriggerBody a))))
         (\<lambda>e. if exc_name e = ''RunRejectedError''
              then bindE (gets (\<lambda>g. active_run_id (state_db g) jid))
                (\<lambda>active. ret \<lparr>an_status = 409, an_body = AlreadyRunningBody active\<rparr>)
              else raise e)) g"
    by (simp add: post_run_def job_or_404_def bindE_def gets_def Some b_def Let_def)
  consider "?bad" | "\<not> ?bad" "jid \<in> held_jobs g" | "\<not> ?bad" "jid \<notin> held_jobs g" by blast
  then show ?thesis
  proof cases
    case 1
    then show ?thesis unfolding Some option.case Let_def b_def [symmetric] p by (simp add: ret_def problem_def)
  next
    case 2
    have "job_id j \<in> held_jobs g" using 2(2) id by simp
    note t = trigger_run_busy [OF Some this, of ng TrigRest "body_request b", unfolded id]
    show ?thesis using 2 unfolding Some option.case Let_def b_def [symmetric] p
      by (auto simp: catchE_def bindE_def t ret_def gets_def RunRejectedError_def)
  next
    case 3
    obtain rid c where t: "trigger_run ng jid TrigRest (body_request b) (rb_queue b) g =
        (Inr \<lparr>ta_run_id = Some rid, ta_queued = False\<rparr>, g\<lparr>eg_threads := eg_threads g @
          [\<lparr>th_job = j, th_trigger = TrigRest, th_run_id = rid, th_request = body_request b\<rparr>], eg_core := c\<rparr>)"
      using trigger_run_starts [OF assms(1) Some] 3(2) id by blast
    show ?thesis using 3 unfolding Some option.case Let_def b_def [symmetric] p
      by (auto simp: catchE_def bindE_def t ret_def)
  qed
qed

theorem post_run_answers_witness:
  "\<exists>active. post_run (sample_engine [sample_job] False) ''acme'' None sample_running =
     (Inr \<lparr>an_status = 409, an_body = AlreadyRunningBody active\<rparr>, sample_running)"
  using post_run_answers [OF sample_laws(2) sample_running_ok(1), of "''acme''" None]
  by (simp add: sample_running_def sample_core_def new_engine_def held_jobs_def default_body_def)

end
