(* ===== verification/Tools.thy ===== *)
theory Tools
  imports RestSafety
begin

text \<open>
  The MCP surface: the tools of \<open>src/src/mcp_app/tools.py\<close> with one constructor and one clause per
  tool, and the server of \<open>src/src/mcp_app/server.py\<close>, which answers a refused request itself and
  hands the others to the tools. FastMCP's protocol, which turns a request into a tool call, is not
  modelled. A tool that raises is answered with an error by FastMCP.
\<close>

section \<open>The tools\<close>

datatype tool_call =
    ListIngestJobs
  | GetIngestJob string
  | TriggerReindex string "mode option"
  | GetIngestStatus "string option"
  | ListIngestRuns "string option" int
  | GetIngestRun string
  | ListIngestCollections
  | ReloadIngestConfig

datatype tool_result =
    ToolJobs "job_summary list" nat
  | ToolJob job_detail
  | ToolModeNotAllowed string string
  | ToolAlreadyRunning string "string option"
  | ToolStarted string mode "string option"
  | ToolStatus health "job_summary list"
  | ToolRuns "run_row list" nat
  | ToolRun run_row "run_event list"
  | ToolCollections "collection_entry list" nat
  | ToolConfig config_info

definition tool_job :: "string \<Rightarrow> ('s, 'w, job) engine_eff" where
  "tool_job jid =
     catchE (get_job jid)
       (\<lambda>e. if exc_name e = ''UnknownJobError'' then raise (ValueError (''unknown job '' @ quoted jid)) else raise e)"

definition trigger_reindex ::
  "('s, 'w) engine_env \<Rightarrow> string \<Rightarrow> mode option \<Rightarrow> ('s, 'w, tool_result) engine_eff" where
  "trigger_reindex ng jid requested =
     bindE (tool_job jid) (\<lambda>j.
       case resolve_trigger_mode j requested of
         Inl e \<Rightarrow> if exc_name e = ''ModeNotAllowedError'' then ret (ToolModeNotAllowed jid (exc_str e)) else raise e
       | Inr effective \<Rightarrow>
           catchE
             (bindE (trigger_run ng jid TrigMcp (default_request\<lparr>rq_mode := Some effective\<rparr>) False)
               (\<lambda>a. ret (ToolStarted jid effective (ta_run_id a))))
             (\<lambda>e. if exc_name e = ''RunRejectedError''
                  then bindE (gets (\<lambda>g. active_run_id (state_db g) jid)) (\<lambda>active. ret (ToolAlreadyRunning jid active))
                  else raise e))"

text \<open>An empty job id counts as none.\<close>

fun call_tool :: "('s, 'w) engine_env \<Rightarrow> tool_call \<Rightarrow> ('s, 'w, tool_result) engine_eff" where
  "call_tool ng ListIngestJobs =
     gets (\<lambda>g. let js = map (job_summary ng g) (engine_jobs g) in ToolJobs js (length js))"
| "call_tool ng (GetIngestJob jid) = bindE (tool_job jid) (\<lambda>j. gets (\<lambda>g. ToolJob (job_detail ng g j)))"
| "call_tool ng (TriggerReindex jid requested) = trigger_reindex ng jid requested"
| "call_tool ng (GetIngestStatus jid) =
     bindE (case or_else jid None of
         None \<Rightarrow> gets engine_jobs
       | Some i \<Rightarrow> bindE (tool_job i) (\<lambda>j. ret [j])) (\<lambda>js.
     bindE (health ng) (\<lambda>h. gets (\<lambda>g. ToolStatus h (map (job_summary ng g) js))))"
| "call_tool ng (ListIngestRuns jid limit) =
     gets (\<lambda>g. let rs = engine_list_runs g jid None (max 1 (min limit 100)) None in ToolRuns rs (length rs))"
| "call_tool ng (GetIngestRun rid) =
     bindE (gets (\<lambda>g. run_detail g rid)) (\<lambda>d. case d of
       None \<Rightarrow> raise (ValueError (''unknown run '' @ quoted rid))
     | Some x \<Rightarrow> ret (ToolRun (fst x) (snd x)))"
| "call_tool ng ListIngestCollections = bindE (collections ng) (\<lambda>cs. ret (ToolCollections cs (length cs)))"
| "call_tool ng ReloadIngestConfig =
     bindE (reload_config ng False) (\<lambda>result. gets (\<lambda>g. ToolConfig (config_info ng g)))"

section \<open>The server\<close>

datatype asgi_message =
    ResponseStart int "(string \<times> string) list"
  | ResponseBody string

text \<open>\<open>json.dumps\<close> of the one-key object; the error words need no escape.\<close>

definition error_json :: "string \<Rightarrow> string" where
  "error_json e = ''{\"error\": \"'' @ e @ ''\"}''"

definition respond_json :: "int \<Rightarrow> string \<Rightarrow> asgi_message list" where
  "respond_json status e =
     (let payload = error_json e;
          headers = [(''content-type'', ''application/json''), (''content-length'', str_of_nat (length payload))] @
            (if status = 401 then [(''www-authenticate'', ''Bearer realm=\"mcp\", error=\"invalid_token\"'')] else [])
      in [ResponseStart status headers, ResponseBody payload])"

datatype mcp_answer =
    Denied "asgi_message list"
  | Answered "exc + tool_result"

text \<open>A request over HTTP: the gate over its own state, then the tool over the engine.\<close>

definition mcp_request ::
  "('s, 'w) engine_env \<Rightarrow> string \<Rightarrow> (string \<Rightarrow> ('o, oidc_claims) eff) \<Rightarrow> scope \<Rightarrow> tool_call \<Rightarrow>
   ('o \<times> ('s, 'w) job_engine, mcp_answer) eff" where
  "mcp_request ng operator_role validate sc t s =
     (case oidc_gate operator_role validate sc (fst s) of
        (Inl e, d) \<Rightarrow> (Inl e, (d, snd s))
      | (Inr (Refused status e), d) \<Rightarrow> (Inr (Denied (respond_json status e)), (d, snd s))
      | (Inr (Passed claims), d) \<Rightarrow>
          (case call_tool ng t (snd s) of (r, g) \<Rightarrow> (Inr (Answered r), (d, g))))"

section \<open>What the tools leave alone\<close>

definition tool_frame :: "('s, 'w) job_engine \<Rightarrow> ('s, 'w) job_engine \<Rightarrow> bool" where
  "tool_frame g g' \<longleftrightarrow>
     state_db g' = state_db g \<and> eg_aborted g' = eg_aborted g \<and> eg_queued g' = eg_queued g \<and>
     eg_shutdown g' = eg_shutdown g \<and> eg_threads g' = eg_threads g"

definition same_plan :: "('s, 'w) job_engine \<Rightarrow> ('s, 'w) job_engine \<Rightarrow> bool" where
  "same_plan g g' \<longleftrightarrow> eg_jobs g' = eg_jobs g \<and> eg_paused g' = eg_paused g \<and> eg_scheduler g' = eg_scheduler g"

interpretation tool: frame tool_frame
  by unfold_locales (auto simp: tool_frame_def)

lemma tool_look: "steps looks m \<Longrightarrow> steps tool_frame m"
  by (erule steps_mono) (simp add: looks_def tool_frame_def)

lemma tool_scheduler: "steps tool_frame (on_scheduler k)"
  by (rule stepsI) (simp add: on_scheduler_def tool_frame_def state_db_def split: prod.split)

lemma tool_reload_config: "steps tool_frame (reload_config ng initial)"
  unfolding reload_config_def read_catalog_def apply_jobs_def now_iso_def case_prod_unfold
  by (rule tool.steps_rules look_on_world [THEN tool_look] tool_scheduler tool.steps_modify
      | simp add: Let_def tool_frame_def state_db_def)+

lemma resolved_mode:
  assumes "resolve_trigger_mode j requested = Inr m"
  shows "if m = Full then full_allowed j else destructiveness m \<le> destructiveness (job_mode j)"
  using assms by (cases "job_mode j"; cases m)
    (auto simp: resolve_trigger_mode_def split: option.splits if_splits mode.splits)

lemma look_tool_job: "steps looks (tool_job jid)"
  unfolding tool_job_def by (intro look.steps_rules look_get_job)

lemma tool_job_Inr: "tool_job jid g = (Inr j, g') \<longleftrightarrow> map_of (eg_jobs g) jid = Some j \<and> g' = g"
  by (auto simp: tool_job_def get_job_def catchE_def bindE_def gets_def ret_def raise_def split: option.splits)

lemma look_call_tool:
  assumes "\<nexists>jid requested. t = TriggerReindex jid requested" and "t \<noteq> ReloadIngestConfig"
  shows "steps looks (call_tool ng t)"
  using assms
proof (cases t)
  case (TriggerReindex jid requested)
  with assms show ?thesis by blast
next
  case ReloadIngestConfig
  with assms show ?thesis by blast
qed (simp only: call_tool.simps Let_def,
    (rule look.steps_rules look_readers(4) look_collections look_tool_job)+)+

lemma stepped_tool: "stepped ng fs (call_tool ng t)"
proof -
  have j: "stepped ng fs (tool_job jid)" for jid by (rule look_tool_job [THEN stepped_look])
  show ?thesis
    by (cases t; simp only: call_tool.simps trigger_reindex_def Let_def;
        (rule stepped_rules stepping.steps_sum [folded stepped_def] stepped_ops stepped_looks j)+)
qed

lemma trigger_reindex_effect:
  "snd (trigger_reindex ng jid requested g) = g \<or>
   (\<exists>j m. map_of (eg_jobs g) jid = Some j \<and> resolve_trigger_mode j requested = Inr m \<and>
      snd (trigger_reindex ng jid requested g) =
        snd (trigger_run ng jid TrigMcp (default_request\<lparr>rq_mode := Some m\<rparr>) False g))"
proof (cases "map_of (eg_jobs g) jid")
  case None
  then have "tool_job jid g = (Inl (ValueError (''unknown job '' @ quoted jid)), g)"
    by (simp add: tool_job_def get_job_def catchE_def bindE_def gets_def raise_def UnknownJobError_def)
  then show ?thesis by (simp add: trigger_reindex_def bindE_def)
next
  case (Some j)
  then have t: "tool_job jid g = (Inr j, g)" by (simp add: tool_job_Inr)
  show ?thesis
  proof (cases "resolve_trigger_mode j requested")
    case (Inl e)
    then show ?thesis by (simp add: trigger_reindex_def bindE_def t ret_def raise_def)
  next
    case (Inr m)
    then show ?thesis using Some
      by (auto simp: trigger_reindex_def bindE_def t catchE_def ret_def raise_def gets_def split: prod.split sum.split)
  qed
qed

lemma trigger_run_effect:
  assumes "map_of (eg_jobs g) jid = Some j"
  shows "\<exists>threads c. snd (trigger_run ng jid trigger rq False g) = g\<lparr>eg_threads := eg_threads g @ threads, eg_core := c\<rparr> \<and>
    rs_db (es_run c) = state_db g \<and>
    (threads = [] \<or> (\<exists>rid. threads = [\<lparr>th_job = j, th_trigger = trigger, th_run_id = rid, th_request = rq\<rparr>]))"
proof -
  obtain b c where b: "on_core (begin_run j) g = (b, g\<lparr>eg_core := c\<rparr>)" "rs_db (es_run c) = state_db g"
    using stepsD [OF db_begin_run, of g j] on_core_fields
    by (cases "begin_run j (eg_core g)") (auto simp: on_core_def same_db_def state_db_def)
  show ?thesis
  proof (cases b)
    case (Inl e)
    then show ?thesis using b assms
      by (intro exI [of _ "[]"] exI [of _ c])
        (simp add: trigger_run_def get_job_def bindE_def gets_def ret_def seqE_def catchE_def raise_def)
  next
    case (Inr x)
    obtain r w where u: "re_uuid4 (ng_run ng) (rs_world (es_run c)) = (r, w)" by fastforce
    let ?d = "c\<lparr>es_run := (es_run c)\<lparr>rs_world := w\<rparr>\<rparr>"
    have i: "on_world (re_uuid4 (ng_run ng)) (g\<lparr>eg_core := c\<rparr>) = (r, g\<lparr>eg_core := ?d\<rparr>)"
      using u by (simp add: on_world_def on_core_def on_run_def in_world_def)
    have t: "trigger_run ng jid trigger rq False g =
        (case r of Inl e \<Rightarrow> (Inl e, g\<lparr>eg_core := ?d\<rparr>)
         | Inr rid \<Rightarrow> (Inr \<lparr>ta_run_id = Some rid, ta_queued = False\<rparr>, g\<lparr>eg_core := ?d, eg_threads := eg_threads g @
             [\<lparr>th_job = j, th_trigger = trigger, th_run_id = rid, th_request = rq\<rparr>]\<rparr>))"
      using b assms Inr i
      by (cases r) (simp_all add: trigger_run_def get_job_def bindE_def gets_def ret_def seqE_def catchE_def modify_def)
    show ?thesis
    proof (cases r)
      case (Inl e)
      then show ?thesis by (intro exI [of _ "[]"] exI [of _ ?d]) (simp add: t b(2))
    next
      case (Inr rid)
      then show ?thesis 
        by (intro exI [of _ "[\<lparr>th_job = j, th_trigger = trigger, th_run_id = rid, th_request = rq\<rparr>]"] exI [of _ ?d])
          (simp add: t b(2))
    qed
  qed
qed

section \<open>Properties\<close>

text \<open>C10: The tools destroy nothing: no call changes the state database, aborts a run, queues or stops anything,
  and only the reload touches the catalog, the pauses or the scheduler. A call adds at most one run
  thread, for \<open>trigger_reindex\<close>, with a mode that is full only for a job that allows it and otherwise no more
  destructive than the configured one.\<close>
theorem mcp_tools_never_destroy:
  "tool_frame g (snd (call_tool ng t g)) \<and> (t = ReloadIngestConfig \<or> same_plan g (snd (call_tool ng t g))) \<or>
   (\<exists>jid requested j m rid c. t = TriggerReindex jid requested \<and> map_of (eg_jobs g) jid = Some j \<and>
      snd (call_tool ng t g) = g\<lparr>eg_threads := eg_threads g @
        [\<lparr>th_job = j, th_trigger = TrigMcp, th_run_id = rid, th_request = default_request\<lparr>rq_mode := Some m\<rparr>\<rparr>],
        eg_core := c\<rparr> \<and> rs_db (es_run c) = state_db g \<and>
      (if m = Full then full_allowed j else destructiveness m \<le> destructiveness (job_mode j)))"
proof -
  consider (trigger) jid requested where "t = TriggerReindex jid requested" | (reload) "t = ReloadIngestConfig"
    | (reads) "steps looks (call_tool ng t)"
    using look_call_tool by blast
  then show ?thesis
  proof cases
    case reads
    from stepsD [OF this, of g] show ?thesis by (simp add: looks_def tool_frame_def same_plan_def)
  next
    case reload
    then show ?thesis using stepsD [OF tool.steps_bindE [OF tool_reload_config tool.steps_gets], of g ng False] by simp
  next
    case trigger
    consider "snd (call_tool ng t g) = g"
      | j m where "map_of (eg_jobs g) jid = Some j" "resolve_trigger_mode j requested = Inr m"
          "snd (call_tool ng t g) = snd (trigger_run ng jid TrigMcp (default_request\<lparr>rq_mode := Some m\<rparr>) False g)"
      using trigger_reindex_effect [of ng jid requested g] trigger by auto
    then show ?thesis
    proof cases
      case 1
      then show ?thesis by (simp add: tool_frame_def same_plan_def)
    next
      case (2 j m)
      then obtain threads c where e: "snd (call_tool ng t g) = g\<lparr>eg_threads := eg_threads g @ threads, eg_core := c\<rparr>"
        "rs_db (es_run c) = state_db g" and th: "threads = [] \<or> (\<exists>rid. threads = [\<lparr>th_job = j, th_trigger = TrigMcp,
          th_run_id = rid, th_request = default_request\<lparr>rq_mode := Some m\<rparr>\<rparr>])"
        using trigger_run_effect [OF 2(1)] by metis
      from th show ?thesis
      proof
        assume "threads = []"
        then show ?thesis using e by (simp add: tool_frame_def same_plan_def state_db_def)
      next
        assume "\<exists>rid. threads = [\<lparr>th_job = j, th_trigger = TrigMcp, th_run_id = rid,
          th_request = default_request\<lparr>rq_mode := Some m\<rparr>\<rparr>]"
        then show ?thesis using e trigger 2(1) resolved_mode [OF 2(2)] by blast
      qed
    qed
  qed
qed

text \<open>The surfaces add nothing to the engine: what a REST request or a tool call does is a sequence of steps
  of the engine, so the invariants of those steps hold over every mix of requests and calls.\<close>
theorem surfaces_are_steps:
  "(engine_step ng)\<^sup>*\<^sup>* (g, fs) (snd (serve ng render header r g), fs) \<and>
   (engine_step ng)\<^sup>*\<^sup>* (g, fs) (snd (call_tool ng t g), fs)"
  using stepsD [OF stepped_serve [unfolded stepped_def]] stepsD [OF stepped_tool [unfolded stepped_def]] by blast

lemma tool_runs_bounded:
  "\<exists>rs. fst (call_tool ng (ListIngestRuns jid limit) g) = Inr (ToolRuns rs (length rs)) \<and> length rs \<le> 100"
  by (simp add: gets_def Let_def engine_list_runs_def list_runs_def sql_limit_def)

text \<open>A refused request reaches no tool and is answered by the server.\<close>

lemma denied_changes_nothing:
  "mcp_request ng operator_role validate sc t s = (Inr (Denied ms), s') \<Longrightarrow>
   snd s' = snd s \<and> (\<exists>status e. ms = respond_json status e)"
  by (auto simp: mcp_request_def split: prod.splits sum.splits gate_answer.splits)

end
