(* ===== verification/Wiring.thy ===== *)
theory Wiring
  imports Tools Rclone Tika
begin

text \<open>
  The process, \<open>src/src/main.py\<close>: the choice of the catalog file, the wiring of the settings, the state
  store, the registry, the secret store, Tika, the embedding clients with their one limiter and the
  metrics into an engine, the decision about the MCP endpoint, and the life of the process. The
  memory of the process is the metrics, the cached secret store, the limiter and the embedding
  clients by model; the world outside is a parameter. What the libraries do is \<open>outside\<close> (over the
  world outside) and, for the parts that the wiring does not touch, an \<open>engine_env\<close> over the whole.
\<close>

section \<open>The catalog file\<close>

definition resolve_catalog_setting :: "(string \<Rightarrow> bool) \<Rightarrow> settings \<Rightarrow> settings" where
  "resolve_catalog_setting is_file st =
     (let location = resolve_location is_file st in
      if cl_path location \<noteq> set_jobs_file st then st\<lparr>set_jobs_file := cl_path location\<rparr> else st)"

section \<open>The memory of the process\<close>

text \<open>What an \<open>EmbeddingClient\<close> is built from.\<close>

record client_config =
  ec_base_url :: string
  ec_api_key :: string
  ec_model :: string
  ec_retries :: int

record memory =
  my_store :: secret_store
  my_limiter :: limiter
  my_clients :: "string \<rightharpoonup> client_config"

type_synonym 'v process = "metrics \<times> memory \<times> 'v"

record 'v outside =
  ou_secret_lib :: secret_lib
  ou_secrets_file :: "('v, file_view) eff"
  ou_base_environ :: "(string \<times> string) list"
  ou_embeddings :: "client_config \<Rightarrow> 'v embed_http"
  ou_retry_delay :: rat
  ou_clock :: "('v, rat) eff"
  ou_sleep :: "rat \<Rightarrow> (limiter \<times> 'v, unit) eff"
  ou_permit_wait :: "(limiter \<times> 'v, unit) eff"
  ou_token_fuel :: nat
  ou_tika :: "string \<Rightarrow> rat \<Rightarrow> 'v tika_env"
  ou_rclone :: "'v rclone_env"

definition in_outside :: "('v, 'a) eff \<Rightarrow> ('v process, 'a) eff" where
  "in_outside m s = (case s of (x, y, v) \<Rightarrow> (case m v of (r, v') \<Rightarrow> (r, (x, y, v'))))"

definition in_memory :: "(memory, 'a) eff \<Rightarrow> ('v process, 'a) eff" where
  "in_memory m s = (case s of (x, y, v) \<Rightarrow> (case m y of (r, y') \<Rightarrow> (r, (x, y', v))))"

definition in_limiter :: "(limiter \<times> 'v, 'a) eff \<Rightarrow> ('v process, 'a) eff" where
  "in_limiter m s = (case s of (x, y, v) \<Rightarrow>
     (case m (my_limiter y, v) of (r, (l, v')) \<Rightarrow> (r, (x, y\<lparr>my_limiter := l\<rparr>, v'))))"

section \<open>Secrets\<close>

text \<open>One look at the store, through its cache; the environment lays the process environment over it.\<close>

definition secret_state_now :: "'v outside \<Rightarrow> settings \<Rightarrow> ('v process, secret_state) eff" where
  "secret_state_now ou st =
     bindE (in_outside (ou_secrets_file ou)) (\<lambda>view.
       in_memory (\<lambda>y. case store_state (ou_secret_lib ou) (path_name (set_secrets_file st)) (set_connections_secret st)
           view (my_store y) of (state, store) \<Rightarrow> (Inr state, y\<lparr>my_store := store\<rparr>)))"

definition default_environ :: "'v outside \<Rightarrow> settings \<Rightarrow> ('v process, environ) eff" where
  "default_environ ou st =
     bindE (secret_state_now ou st) (\<lambda>state. ret (layered_environ (ou_base_environ ou) state))"

section \<open>Embedding clients\<close>

definition new_client :: "settings \<Rightarrow> string \<Rightarrow> client_config" where
  "new_client st model =
     \<lparr>ec_base_url = set_embedding_api_url st, ec_api_key = set_embedding_api_key st, ec_model = model,
       ec_retries = set_embed_retries st\<rparr>"

definition raw_client :: "settings \<Rightarrow> string \<Rightarrow> (memory, client_config) eff" where
  "raw_client st model y =
     (case my_clients y model of
        Some c \<Rightarrow> (Inr c, y)
      | None \<Rightarrow> (Inr (new_client st model), y\<lparr>my_clients := (my_clients y)(model \<mapsto> new_client st model)\<rparr>))"

definition limited_embedder :: "'v outside \<Rightarrow> client_config \<Rightarrow> 'v process embedder" where
  "limited_embedder ou c =
     (let client = embedding_client (ou_embeddings ou c) (ou_retry_delay ou) (ec_retries c) in
      \<lparr>eb_probe_dimension = in_limiter
         (limited_probe (ou_permit_wait ou) (ou_clock ou) (ou_sleep ou) (ou_token_fuel ou) client),
       eb_embed_all = (\<lambda>texts batch_size. in_limiter
         (limited_embed_all (ou_permit_wait ou) (ou_clock ou) (ou_sleep ou) (ou_token_fuel ou) client texts batch_size))\<rparr>)"

definition embedder_for :: "'v outside \<Rightarrow> settings \<Rightarrow> string \<Rightarrow> ('v process, 'v process embedder) eff" where
  "embedder_for ou st model = bindE (in_memory (raw_client st model)) (\<lambda>c. ret (limited_embedder ou c))"

section \<open>The engine\<close>

definition tika_client :: "'v outside \<Rightarrow> settings \<Rightarrow> 'v tika_env" where
  "tika_client ou st =
     (ou_tika ou (set_tika_url st) (set_tika_timeout st))
       \<lparr>tk_ocr_language := set_tika_ocr_language st, tk_pdf_ocr_strategy := set_tika_pdf_ocr_strategy st\<rparr>"

definition probe_embeddings :: "'v outside \<Rightarrow> settings \<Rightarrow> ('v process, bool) eff" where
  "probe_embeddings ou st =
     bindE (in_memory (raw_client st ''_probe'')) (\<lambda>c. in_outside (embed_ping (ou_embeddings ou c)))"

text \<open>\<open>sync_job\<close> with its default binary and timeout; the environment is the one of the moment it starts.\<close>

definition sync_with_secrets :: "'v outside \<Rightarrow> settings \<Rightarrow> job \<Rightarrow> settings \<Rightarrow> ('v process, sync_result) eff" where
  "sync_with_secrets ou st j settings =
     bindE (default_environ ou st) (\<lambda>environ. in_outside (sync_job (ou_rclone ou) ''rclone'' 3600 environ j settings))"

definition wired_run :: "'v outside \<Rightarrow> settings \<Rightarrow> 'v process run_env \<Rightarrow> 'v process run_env" where
  "wired_run ou st env =
     env\<lparr>re_settings := st,
       re_extract := (re_extract env)\<lparr>ee_tika_extract := (\<lambda>path name. in_outside (tika_extract (tika_client ou st) path name))\<rparr>,
       re_embedder_factory := embedder_for ou st,
       re_sync := sync_with_secrets ou st\<rparr>"

definition whole_seconds :: "rat \<Rightarrow> int" where
  "whole_seconds x = (case quotient_of x of (p, d) \<Rightarrow> int (round_half_even (nat p) (nat d)))"

definition build_engine ::
  "'v outside \<Rightarrow> settings \<Rightarrow> ('s, 'v process) engine_env \<Rightarrow> ('s, 'v process) engine_env" where
  "build_engine ou st lib =
     lib\<lparr>ng_settings := st,
       ng_run := wired_run ou st (ng_run lib),
       ng_environ := default_environ ou st,
       ng_secret_problem := Some (bindE (secret_state_now ou st) (\<lambda>state. ret (store_problem state))),
       ng_probes := [(''embeddings'', probe_embeddings ou st), (''tika'', in_outside (tika_ping (tika_client ou st)))],
       ng_metrics := Some (\<lambda>run. in_metrics (record_run run)),
       ng_lock_seconds := whole_seconds (set_lock_timeout st)\<rparr>"

text \<open>What the components start from: empty caches, an idle limiter, no lock taken.\<close>

definition first_memory :: "settings \<Rightarrow> rat \<Rightarrow> memory" where
  "first_memory st now =
     \<lparr>my_store = new_store, my_limiter = new_limiter (set_embed_concurrency st) (set_embed_rps st) now,
       my_clients = Map.empty\<rparr>"

section \<open>The application\<close>

record mcp_setup =
  ms_issuer :: string
  ms_audience :: string
  ms_cache_ttl :: int
  ms_operator_role :: string
  ms_path :: string

text \<open>Without an issuer there is no MCP endpoint.\<close>

definition mcp_app :: "settings \<Rightarrow> mcp_setup option" where
  "mcp_app st =
     (if set_oidc_issuer st = [] then None
      else Some \<lparr>ms_issuer = set_oidc_issuer st, ms_audience = set_oidc_audience st,
        ms_cache_ttl = set_oidc_jwks_cache_ttl st, ms_operator_role = set_oidc_operator_role st,
        ms_path = set_mcp_path st\<rparr>)"

text \<open>What reaches the application: a REST request, or a request on the exact path of the MCP endpoint
  that passed the gate and carries a tool call.\<close>

datatype request =
    RestRequest "string option" rest_route
  | McpRequest string scope tool_call

record ('o, 's, 'v) served =
  sv_gate :: 'o
  sv_engine :: "('s, 'v process) job_engine"

definition handle ::
  "('s, 'v process) engine_env \<Rightarrow> (metrics \<Rightarrow> string) \<Rightarrow> (string \<Rightarrow> ('o, oidc_claims) eff) \<Rightarrow> request \<Rightarrow>
   (('o, 's, 'v) served, unit) eff" where
  "handle ng render validate r s =
     (case r of
        RestRequest header route \<Rightarrow> (Inr (), s\<lparr>sv_engine := snd (serve ng render header route (sv_engine s))\<rparr>)
      | McpRequest path sc t \<Rightarrow>
          (case mcp_app (ng_settings ng) of
             None \<Rightarrow> (Inr (), s)
           | Some m \<Rightarrow>
               if path \<noteq> ms_path m then (Inr (), s)
               else (case mcp_request ng (ms_operator_role m) validate sc t (sv_gate s, sv_engine s) of
                 (a, (d, g)) \<Rightarrow> (Inr (), s\<lparr>sv_gate := d, sv_engine := g\<rparr>))))"

definition on_engine :: "(('s, 'v process) job_engine, 'a) eff \<Rightarrow> (('o, 's, 'v) served, 'a) eff" where
  "on_engine m s = (case m (sv_engine s) of (r, g) \<Rightarrow> (r, s\<lparr>sv_engine := g\<rparr>))"

text \<open>\<open>main\<close>: start, serve the requests until the server stops, shut down. The wait for running jobs changes
  none of this state.\<close>

definition main ::
  "('s, 'v process) engine_env \<Rightarrow> (metrics \<Rightarrow> string) \<Rightarrow> (string \<Rightarrow> ('o, oidc_claims) eff) \<Rightarrow> request list \<Rightarrow>
   (('o, 's, 'v) served, unit) eff" where
  "main ng render validate requests =
     seqE (on_engine (startup ng True))
       (finallyE (for_each requests (handle ng render validate)) (on_engine shutdown))"

section \<open>Secrets and clients\<close>

text \<open>The loader and the sync ask the same environment: a reference the loader does not complain about resolves.\<close>

lemma validated_secret_resolves:
  assumes "validate_secrets j env = []" and "(field, name) \<in> set (secret_env_names (job_source j))"
  shows "\<exists>v. resolve_secret name env = Inr v \<and> v \<noteq> [] \<and> en_get env name = Some v"
proof -
  from assms have "env_truthy env name" by (fastforce simp: validate_secrets_def split: if_splits)
  then show ?thesis by (auto simp: env_truthy_def resolve_secret_def or_else_def split: option.splits)
qed

definition no_secret_error :: "('w, 'a) eff \<Rightarrow> bool" where
  "no_secret_error m \<longleftrightarrow> (\<forall>w e w'. m w = (Inl e, w') \<longrightarrow> exc_name e \<noteq> ''SecretResolutionError'')"

lemma no_secret_error_rules:
  "no_secret_error (ret x)"
  "no_secret_error m \<Longrightarrow> (\<And>x. no_secret_error (f x)) \<Longrightarrow> no_secret_error (bindE m f)"
  "exc_name e \<noteq> ''SecretResolutionError'' \<Longrightarrow> no_secret_error (raise e)"
  by (auto simp: no_secret_error_def ret_def raise_def bindE_def split: prod.splits sum.splits)

lemma no_secret_error_line:
  assumes "\<And>v. no_secret_error (convert v)" and "ref \<noteq> None \<Longrightarrow> \<exists>v. resolve_secret (the ref) env = Inr v"
  shows "no_secret_error (secret_line env convert key ref)"
proof (cases "or_else ref None")
  case None
  then show ?thesis by (simp add: secret_line_def no_secret_error_rules)
next
  case (Some name)
  then have "ref = Some name" by (auto simp: or_else_def split: option.splits if_splits)
  with assms(2) obtain v where "resolve_secret name env = Inr v" by auto
  then have "no_secret_error (resolved env name)" by (simp add: resolved_def no_secret_error_def of_sum_def)
  with Some show ?thesis by (auto simp: secret_line_def intro!: no_secret_error_rules assms(1))
qed

lemma secret_names_of_fields:
  "(f, Some name) \<in> set (secret_fields (src_kind src)) \<Longrightarrow> (f, name) \<in> set (secret_env_names src)"
  by (force simp: secret_env_names_def)

lemma remote_lines_no_secret_error:
  assumes "\<And>v. no_secret_error (obscure v)"
    and "\<And>f name. (f, Some name) \<in> set (secret_fields kind) \<Longrightarrow> \<exists>v. resolve_secret name env = Inr v"
  shows "no_secret_error (remote_lines env obscure kind)"
proof -
  have l: "no_secret_error (secret_line env convert key ref)"
    if "\<And>v. no_secret_error (convert v)" and "ref \<in> snd ` set (secret_fields kind)" for convert key ref
    using that assms(2) by (intro no_secret_error_line) force+
  show ?thesis
    using assms(1) by (cases kind) (auto simp: with_lines_def both_lines_def intro!: no_secret_error_rules l)
qed

text \<open>C32: A credential the loader found is found when the job syncs: over the same environment, the rclone
  configuration of a job without a secret issue is never refused for a missing secret.\<close>
theorem validated_job_finds_its_secrets:
  assumes "validate_secrets j env = []" and "\<And>v. no_secret_error (obscure v)"
    and "build_remote_config (job_source j) env obscure w = (Inl e, w')"
  shows "exc_name e \<noteq> ''SecretResolutionError''"
proof -
  have "\<exists>v. resolve_secret name env = Inr v" if "(f, Some name) \<in> set (secret_fields (src_kind (job_source j)))" for f name
    using validated_secret_resolves [OF assms(1) secret_names_of_fields [OF that]] by blast
  with assms(2) have "no_secret_error (build_remote_config (job_source j) env obscure)"
    unfolding build_remote_config_def by (intro no_secret_error_rules remote_lines_no_secret_error)
  then show ?thesis using assms(3) unfolding no_secret_error_def by blast
qed

text \<open>The clients that were built are the ones of the settings, so a lookup never shows which of them were.\<close>

definition clients_ok :: "settings \<Rightarrow> memory \<Rightarrow> bool" where
  "clients_ok st y \<longleftrightarrow> (\<forall>model c. my_clients y model = Some c \<longrightarrow> c = new_client st model)"

lemma raw_client_memo:
  "clients_ok st y \<Longrightarrow> fst (raw_client st model y) = Inr (new_client st model) \<and> clients_ok st (snd (raw_client st model y))"
  by (auto simp: raw_client_def clients_ok_def split: option.split)

lemma embedder_for_memo:
  assumes "clients_ok st y"
  shows "\<exists>y'. embedder_for ou st model (x, y, v) = (Inr (limited_embedder ou (new_client st model)), (x, y', v)) \<and>
    clients_ok st y' \<and> my_limiter y' = my_limiter y"
  using assms
  by (auto simp: embedder_for_def bindE_def in_memory_def raw_client_def clients_ok_def ret_def split: option.split)

section \<open>The life of the process\<close>

lemma mcp_request_engine:
  "snd (snd (mcp_request ng operator_role validate sc t s)) = snd s \<or>
   snd (snd (mcp_request ng operator_role validate sc t s)) = snd (call_tool ng t (snd s))"
  by (auto simp: mcp_request_def split: prod.split sum.split gate_answer.split)

lemma handle_steps:
  "(engine_step ng)\<^sup>*\<^sup>* (sv_engine s, fs) (sv_engine (snd (handle ng render validate r s)), fs)"
proof (cases r)
  case (RestRequest header route)
  then show ?thesis using stepsD [OF stepped_serve [unfolded stepped_def], of ng "sv_engine s" fs render header route]
    by (simp add: handle_def)
next
  case (McpRequest path sc t)
  have t: "(engine_step ng)\<^sup>*\<^sup>* (sv_engine s, fs) (snd (call_tool ng t (sv_engine s)), fs)"
    using stepsD [OF stepped_tool [unfolded stepped_def], of ng "sv_engine s" fs t] .
  show ?thesis
  proof (cases "mcp_app (ng_settings ng)")
    case (Some m)
    then show ?thesis
      using t mcp_request_engine [of ng "ms_operator_role m" validate sc t "(sv_gate s, sv_engine s)"] McpRequest
      by (cases "mcp_request ng (ms_operator_role m) validate sc t (sv_gate s, sv_engine s)") (auto simp: handle_def)
  qed (simp add: McpRequest handle_def)
qed

lemma handle_returns: "fst (handle ng render validate r s) = Inr ()"
  by (cases r) (simp_all add: handle_def split: option.split prod.split)

lemma handle_all_steps:
  "fst (for_each rs (handle ng render validate) s) = Inr () \<and>
   (engine_step ng)\<^sup>*\<^sup>* (sv_engine s, fs) (sv_engine (snd (for_each rs (handle ng render validate) s)), fs)"
proof (induction rs arbitrary: s)
  case (Cons r rs)
  obtain s' where h: "handle ng render validate r s = (Inr (), s')"
    using handle_returns [of ng render validate r s] by (cases "handle ng render validate r s") simp
  then have "(engine_step ng)\<^sup>*\<^sup>* (sv_engine s, fs) (sv_engine s', fs)"
    using handle_steps [of ng s fs render validate r] by simp
  with Cons.IH [of s'] show ?case by (auto simp: seqE_def bindE_def h)
qed (simp add: ret_def)

lemma main_run:
  "\<exists>r g. startup ng True (sv_engine s) = (r, g) \<and>
     (case r of
        Inl e \<Rightarrow> main ng render validate rs s = (Inl e, s\<lparr>sv_engine := g\<rparr>)
      | Inr x \<Rightarrow> \<exists>s'. main ng render validate rs s = (Inr (), s') \<and>
          (engine_step ng)\<^sup>*\<^sup>* (g, fs) (sv_engine s', fs) \<and> eg_shutdown (sv_engine s'))"
proof -
  obtain r g where st: "startup ng True (sv_engine s) = (r, g)" by fastforce
  show ?thesis
  proof (cases r)
    case (Inl e)
    with st show ?thesis by (simp add: main_def seqE_def bindE_def on_engine_def)
  next
    case (Inr x)
    obtain s1 where s1: "for_each rs (handle ng render validate) (s\<lparr>sv_engine := g\<rparr>) = (Inr (), s1)"
      "(engine_step ng)\<^sup>*\<^sup>* (g, fs) (sv_engine s1, fs)"
      using handle_all_steps [of rs ng render validate "s\<lparr>sv_engine := g\<rparr>" fs] by (metis prod.collapse job_engine.select_convs served.select_convs(2) served.update_convs(2) served.surjective)
    have "engine_step ng (sv_engine s1, fs) (snd (shutdown (sv_engine s1)), fs)" by (rule Stop)
    with s1 show ?thesis using st Inr
      by (auto simp: main_def seqE_def bindE_def on_engine_def finallyE_def shutdown_def modify_def)
  qed
qed


text \<open>A library around the fake store, for the witness.\<close>

definition sample_client :: "fake_qdrant process qclient" where
  "sample_client = \<lparr>qc_get_collections = in_outside fq_get_collections,
     qc_create_collection = (\<lambda>c d. in_outside (fq_create_collection c d)),
     qc_delete_collection = (\<lambda>c. in_outside (fq_delete_collection c)),
     qc_get_collection = (\<lambda>c. in_outside (fq_get_collection c)),
     qc_create_payload_index = (\<lambda>c f. in_outside (fq_create_payload_index c f)),
     qc_upsert = (\<lambda>c ps. in_outside (fq_upsert c ps)), qc_delete = (\<lambda>c f. in_outside (fq_delete c f)),
     qc_retrieve = (\<lambda>c ids. in_outside (fq_retrieve c ids)), qc_count = (\<lambda>c f. in_outside (fq_count c f)),
     qc_facet = (\<lambda>c k f n. in_outside (fq_facet c k f n))\<rparr>"

definition sample_run_env :: "fake_qdrant process run_env" where
  "sample_run_env = \<lparr>re_settings = sample_settings, re_writer_factory = (\<lambda>c. raise (PyError ''KeyError'' c)),
     re_extract = \<lparr>ee_tika_extract = (\<lambda>p n. raise (TikaError ''no tika'' True)),
       ee_read_text = (\<lambda>p. in_outside (fake_read [] p)), ee_json_pretty = Inr, ee_yaml_load = (\<lambda>s. Inr JNull),
       ee_yaml_dump = (\<lambda>v. Inr [])\<rparr>,
     re_embedder_factory = (\<lambda>m. raise (PyError ''KeyError'' m)),
     re_sync = (\<lambda>j st. raise (PyError ''KeyError'' [])),
     re_interval = 2, re_clock = ret 0, re_now = ret ''2026-01-05T00:00:00+00:00'', re_uuid4 = ret ''run-1'',
     re_begin = ret (),
     re_fs = \<lparr>fs_is_dir = (\<lambda>p. ret False), fs_rglob = (\<lambda>p. ret []), fs_is_file = (\<lambda>p. ret False),
       fs_stat = (\<lambda>p. raise (PyError ''FileNotFoundError'' p))\<rparr>,
     re_read_bytes = (\<lambda>p. in_outside (fake_read [] p)), re_mtime_iso = (\<lambda>n. Inr ''mtime''), re_sha256 = id\<rparr>"

definition sample_library :: "((string \<times> entry) list, fake_qdrant process) engine_env" where
  "sample_library =
     \<lparr>ng_settings = sample_settings, ng_run = sample_run_env, ng_aps = list_aps\<lparr>ap_trigger_error := (\<lambda>t. None)\<rparr>,
       ng_startup = \<lparr>su_cron_gap = (\<lambda>c z m. None), su_elapsed = (\<lambda>f m. Inr 0)\<rparr>,
       ng_catalog = plain_lib [hourly], ng_connections = sample_connections,
       ng_connect = (\<lambda>u k. \<lparr>qw_client = sample_client, qw_meta_collection = ''_collection_meta'', qw_uuid5 = fake_uuid5\<rparr>),
       ng_file = (\<lambda>p. ret (True, Inr [])), ng_stat = (\<lambda>p. ret None),
       ng_environ = ret (plain_environ Map.empty), ng_secret_problem = None, ng_probes = [], ng_metrics = None,
       ng_wait = ret (), ng_wakeups = 0, ng_lock_seconds = 0,
       ng_fromisoformat = (\<lambda>t. Inr (sample_instant, None)), ng_dump = (\<lambda>j. [])\<rparr>"

definition sample_outside :: "fake_qdrant outside" where
  "sample_outside =
     \<lparr>ou_secret_lib = sample_lib, ou_secrets_file = ret \<lparr>fv_signature = None, fv_content = Inr []\<rparr>,
       ou_base_environ = [],
       ou_embeddings = (\<lambda>c. \<lparr>eh_post = (\<lambda>ts. raise (HTTPError ''down'')), eh_get_models = ret 200, eh_sleep = (\<lambda>d. ret ())\<rparr>),
       ou_retry_delay = 5, ou_clock = ret 0, ou_sleep = (\<lambda>d. ret ()), ou_permit_wait = ret (), ou_token_fuel = 2,
       ou_tika = (\<lambda>u t. \<lparr>tk_put = (\<lambda>p h. raise (HTTPError ''down'')), tk_get = ret 200, tk_sleep = (\<lambda>d. ret ()),
         tk_nfkd_ascii = id, tk_str = (\<lambda>v. []), tk_ocr_language = [], tk_pdf_ocr_strategy = []\<rparr>),
       ou_rclone = \<lparr>rc_fs = \<lparr>fs_is_dir = (\<lambda>p. ret False), fs_rglob = (\<lambda>p. ret []), fs_is_file = (\<lambda>p. ret False),
           fs_stat = (\<lambda>p. raise (PyError ''FileNotFoundError'' p))\<rparr>,
         rc_mkdir = (\<lambda>p. ret ()), rc_write_text = (\<lambda>p t. ret ()), rc_chmod = (\<lambda>p m. ret ()), rc_monotonic = ret 0,
         rc_run = (\<lambda>args inp t. ret \<lparr>pr_returncode = 0, pr_stdout = [], pr_stderr = []\<rparr>)\<rparr>\<rparr>"

definition sample_memory_core :: "fake_qdrant process engine_state" where
  "sample_memory_core = \<lparr>es_locks = \<lparr>lk_jobs = {}, lk_collections = (\<lambda>c. new_rw_lock)\<rparr>,
     es_run = \<lparr>rs_world = (new_metrics, first_memory sample_settings 0, rs_world fake_start), rs_db = empty_db,
       rs_run = rs_run fake_start, rs_last_flush = 0\<rparr>\<rparr>"

lemma sample_library_laws:
  "scheduler_laws (build_engine sample_outside sample_settings sample_library)"
  "run_laws (build_engine sample_outside sample_settings sample_library)"
proof -
  have "aps_laws (list_aps\<lparr>ap_trigger_error := (\<lambda>t. None)\<rparr>)" using list_aps_laws by (simp add: aps_laws_def)
  then show "scheduler_laws (build_engine sample_outside sample_settings sample_library)"
    by (simp add: scheduler_laws_def build_engine_def sample_library_def)
  show "run_laws (build_engine sample_outside sample_settings sample_library)"
    by (simp add: run_laws_def build_engine_def wired_run_def sample_library_def sample_run_env_def ret_def)
qed


text \<open>A WebDAV job whose password is in the environment, and rclone failing to obscure it.\<close>

definition sample_dav :: job where
  "sample_dav = sample_job\<lparr>job_source := \<lparr>src_label = ''docs'', src_rclone_flags = [],
     src_kind = WebdavSource ''http://x'' ''other'' ''me'' (Some ''QI_SECRET_X'')\<rparr>\<rparr>"

theorem validated_job_finds_its_secrets_witness:
  "\<exists>e. build_remote_config (job_source sample_dav) (plain_environ [''QI_SECRET_X'' \<mapsto> ''pw''])
       (\<lambda>v. raise (CalledProcessError 1)) () = (Inl e, ()) \<and> exc_name e \<noteq> ''SecretResolutionError''"
proof -
  let ?env = "plain_environ [''QI_SECRET_X'' \<mapsto> ''pw'']" and ?obscure = "\<lambda>v. raise (CalledProcessError 1)"
  have v: "validate_secrets sample_dav ?env = []"
    by (simp add: validate_secrets_def sample_dav_def secret_env_names_def env_truthy_def plain_environ_def)
  have o: "no_secret_error (?obscure v)" for v :: string
    by (rule no_secret_error_rules) (simp add: CalledProcessError_def)
  have b: "build_remote_config (job_source sample_dav) ?env ?obscure () = (Inl (CalledProcessError 1), ())"
    by (simp add: sample_dav_def build_remote_config_def with_lines_def secret_line_def or_else_def resolved_def
        resolve_secret_def plain_environ_def bindE_def of_sum_def raise_def)
  show ?thesis using b validated_job_finds_its_secrets [OF v o b] by blast
qed

end
