(* ===== verification/Declared.thy ===== *)
theory Declared
  imports Catalog "HOL-Library.Monad_Syntax"
begin

text \<open>
  The declarations of \<open>src/src/catalog/schema.py\<close> read as a parser: which keys a section accepts, which are
  required, their types, aliases and defaults, and the choice of a source class by its \<open>type\<close>. The
  declared bounds, patterns and validators are \<open>job_valid\<close>. How pydantic turns a scalar of another
  type into a number or a flag is a parameter (\<open>scalars\<close>); that it takes a value of the declared
  type as it is, is the locale's assumption. What it says about a document it refuses is not modelled.
\<close>

section \<open>Readers\<close>

type_synonym 'a reader = "jval \<Rightarrow> 'a option"

type_synonym obj = "(string \<times> jval) list"

record scalars =
  px_int :: "int reader"
  px_bool :: "bool reader"
  px_float :: "rat reader"

fun read_str :: "string reader" where
  "read_str (JStr s) = Some s"
| "read_str v = None"

fun read_list :: "'a reader \<Rightarrow> 'a list reader" where
  "read_list rd (JList vs) = those (map rd vs)"
| "read_list rd v = None"

fun read_dict :: "obj reader" where
  "read_dict (JObj kvs) = Some kvs"
| "read_dict v = None"

text \<open>\<open>int\<close> with \<open>ge=0\<close>, as a natural number.\<close>

definition read_nat :: "scalars \<Rightarrow> nat reader" where
  "read_nat px v = (case px_int px v of None \<Rightarrow> None | Some i \<Rightarrow> if 0 \<le> i then Some (nat i) else None)"

text \<open>\<open>T | None\<close>, \<open>Literal[...]\<close> and \<open>SecretRef\<close>.\<close>

definition nullable :: "'a reader \<Rightarrow> 'a option reader" where
  "nullable rd v = (if v = JNull then Some None else map_option Some (rd v))"

fun one_of :: "('a \<Rightarrow> string) \<Rightarrow> 'a list \<Rightarrow> 'a reader" where
  "one_of f ws (JStr s) = find (\<lambda>w. f w = s) ws"
| "one_of f ws v = None"

definition read_secret :: "string reader" where
  "read_secret v = (case parse_secret_ref v of Inl e \<Rightarrow> None | Inr name \<Rightarrow> Some name)"

text \<open>A field without and with a default, and a field with an alias, which may be given by its own name.\<close>

definition required :: "'a reader \<Rightarrow> string \<Rightarrow> obj \<Rightarrow> 'a option" where
  "required rd k kvs = Option.bind (map_of kvs k) rd"

definition defaulted :: "'a reader \<Rightarrow> string \<Rightarrow> 'a \<Rightarrow> obj \<Rightarrow> 'a option" where
  "defaulted rd k d kvs = (case map_of kvs k of None \<Rightarrow> Some d | Some v \<Rightarrow> rd v)"

definition alias_key :: "string \<Rightarrow> string \<Rightarrow> obj \<Rightarrow> string" where
  "alias_key alias name kvs = (if map_of kvs alias = None then name else alias)"

text \<open>\<open>_StrictModel\<close>: a mapping without other keys than the declared ones.\<close>

definition strict :: "(obj \<Rightarrow> string list) \<Rightarrow> (obj \<Rightarrow> 'a option) \<Rightarrow> 'a reader" where
  "strict keys rd v = (case v of
     JObj kvs \<Rightarrow> if list_all (\<lambda>(k, w). k \<in> set (keys kvs)) kvs then rd kvs else None
   | _ \<Rightarrow> None)"

section \<open>Sources\<close>

definition source_of :: "(obj \<Rightarrow> source_kind option) \<Rightarrow> obj \<Rightarrow> source option" where
  "source_of kind kvs = do {
     label \<leftarrow> required read_str ''label'' kvs;
     flags \<leftarrow> defaulted (read_list read_str) ''rclone_flags'' [] kvs;
     k \<leftarrow> kind kvs;
     Some \<lparr>src_label = label, src_rclone_flags = flags, src_kind = k\<rparr>
   }"

definition source_class :: "(obj \<Rightarrow> string list) \<Rightarrow> (obj \<Rightarrow> source_kind option) \<Rightarrow> source reader" where
  "source_class keys kind = strict (\<lambda>kvs. [''label'', ''rclone_flags'', ''type''] @ keys kvs) (source_of kind)"

abbreviation secret_field :: "string \<Rightarrow> obj \<Rightarrow> string option option" where
  "secret_field k \<equiv> defaulted (nullable read_secret) k None"

abbreviation text_field :: "string \<Rightarrow> string \<Rightarrow> obj \<Rightarrow> string option" where
  "text_field k d \<equiv> defaulted read_str k d"

abbreviation pass_key :: "obj \<Rightarrow> string" where
  "pass_key kvs \<equiv> alias_key ''pass'' ''password'' kvs"

definition read_s3 :: "source reader" where
  "read_s3 = source_class
     (\<lambda>kvs. [''bucket'', ''prefix'', ''provider'', ''region'', ''endpoint'', ''access_key_id'', ''secret_access_key''])
     (\<lambda>kvs. do {
       b \<leftarrow> required read_str ''bucket'' kvs;
       p \<leftarrow> text_field ''prefix'' [] kvs;
       pr \<leftarrow> text_field ''provider'' ''AWS'' kvs;
       r \<leftarrow> text_field ''region'' [] kvs;
       e \<leftarrow> text_field ''endpoint'' [] kvs;
       a \<leftarrow> secret_field ''access_key_id'' kvs;
       s \<leftarrow> secret_field ''secret_access_key'' kvs;
       Some (S3Source b p pr r e a s)
     })"

definition read_webdav :: "source reader" where
  "read_webdav = source_class (\<lambda>kvs. [''url'', ''vendor'', ''user'', pass_key kvs])
     (\<lambda>kvs. do {
       u \<leftarrow> required read_str ''url'' kvs;
       v \<leftarrow> text_field ''vendor'' ''other'' kvs;
       us \<leftarrow> text_field ''user'' [] kvs;
       p \<leftarrow> secret_field (pass_key kvs) kvs;
       Some (WebdavSource u v us p)
     })"

definition read_sftp :: "scalars \<Rightarrow> source reader" where
  "read_sftp px = source_class (\<lambda>kvs. [''host'', ''port'', ''user'', pass_key kvs, ''key_file'', ''path''])
     (\<lambda>kvs. do {
       h \<leftarrow> required read_str ''host'' kvs;
       po \<leftarrow> defaulted (px_int px) ''port'' 22 kvs;
       u \<leftarrow> text_field ''user'' [] kvs;
       pw \<leftarrow> secret_field (pass_key kvs) kvs;
       k \<leftarrow> secret_field ''key_file'' kvs;
       pa \<leftarrow> text_field ''path'' ''/'' kvs;
       Some (SftpSource h po u pw k pa)
     })"

definition read_smb :: "source reader" where
  "read_smb = source_class (\<lambda>kvs. [''host'', ''share'', ''user'', pass_key kvs, ''path''])
     (\<lambda>kvs. do {
       h \<leftarrow> required read_str ''host'' kvs;
       s \<leftarrow> required read_str ''share'' kvs;
       u \<leftarrow> text_field ''user'' [] kvs;
       p \<leftarrow> secret_field (pass_key kvs) kvs;
       pa \<leftarrow> text_field ''path'' [] kvs;
       Some (SmbSource h s u p pa)
     })"

definition read_ftp :: "scalars \<Rightarrow> source reader" where
  "read_ftp px = source_class (\<lambda>kvs. [''host'', ''port'', ''user'', pass_key kvs, ''path'', ''tls''])
     (\<lambda>kvs. do {
       h \<leftarrow> required read_str ''host'' kvs;
       po \<leftarrow> defaulted (px_int px) ''port'' 21 kvs;
       u \<leftarrow> text_field ''user'' [] kvs;
       pw \<leftarrow> secret_field (pass_key kvs) kvs;
       pa \<leftarrow> text_field ''path'' [] kvs;
       t \<leftarrow> defaulted (px_bool px) ''tls'' False kvs;
       Some (FtpSource h po u pw pa t)
     })"

definition read_local :: "source reader" where
  "read_local = source_class (\<lambda>kvs. [''path''])
     (\<lambda>kvs. do { p \<leftarrow> required read_str ''path'' kvs; Some (LocalSource p) })"

definition read_gdrive :: "source reader" where
  "read_gdrive = source_class (\<lambda>kvs. [''service_account_json'', ''token'', ''root_folder_id''])
     (\<lambda>kvs. do {
       s \<leftarrow> secret_field ''service_account_json'' kvs;
       t \<leftarrow> secret_field ''token'' kvs;
       r \<leftarrow> text_field ''root_folder_id'' [] kvs;
       Some (GdriveSource s t r)
     })"

definition read_azureblob :: "source reader" where
  "read_azureblob = source_class (\<lambda>kvs. [''account'', ''container'', ''key'', ''sas_url'', ''prefix''])
     (\<lambda>kvs. do {
       a \<leftarrow> required read_str ''account'' kvs;
       c \<leftarrow> required read_str ''container'' kvs;
       k \<leftarrow> secret_field ''key'' kvs;
       s \<leftarrow> secret_field ''sas_url'' kvs;
       p \<leftarrow> text_field ''prefix'' [] kvs;
       Some (AzureBlobSource a c k s p)
     })"

definition read_http :: "source reader" where
  "read_http = source_class (\<lambda>kvs. [''url''])
     (\<lambda>kvs. do { u \<leftarrow> required read_str ''url'' kvs; Some (HttpSource u) })"

text \<open>\<open>SourceConfig\<close>: the class is chosen by \<open>type\<close>.\<close>

definition source_readers :: "scalars \<Rightarrow> (string \<times> source reader) list" where
  "source_readers px =
     [(''s3'', read_s3), (''webdav'', read_webdav), (''sftp'', read_sftp px), (''smb'', read_smb), (''ftp'', read_ftp px),
      (''local'', read_local), (''gdrive'', read_gdrive), (''azureblob'', read_azureblob), (''http'', read_http)]"

definition read_source :: "scalars \<Rightarrow> source reader" where
  "read_source px v = (case v of
     JObj kvs \<Rightarrow> (case map_of kvs ''type'' of
         Some (JStr t) \<Rightarrow> (case map_of (source_readers px) t of None \<Rightarrow> None | Some rd \<Rightarrow> rd v)
       | _ \<Rightarrow> None)
   | _ \<Rightarrow> None)"

section \<open>Job sections\<close>

fun policy_str :: "startup_policy \<Rightarrow> string" where
  "policy_str Never = ''never''"
| "policy_str IfMissed = ''if_missed''"
| "policy_str Always = ''always''"

fun probe_str :: "append_probe \<Rightarrow> string" where
  "probe_str ProbeAuto = ''auto''"
| "probe_str ProbeState = ''state''"
| "probe_str ProbeQdrant = ''qdrant''"

definition read_filters :: "scalars \<Rightarrow> filters_config reader" where
  "read_filters px = strict (\<lambda>kvs. [''include'', ''exclude'', ''max_file_bytes'']) (\<lambda>kvs. do {
     i \<leftarrow> defaulted (read_list read_str) ''include'' [] kvs;
     e \<leftarrow> defaulted (read_list read_str) ''exclude'' [] kvs;
     m \<leftarrow> defaulted (nullable (px_int px)) ''max_file_bytes'' None kvs;
     Some \<lparr>flt_include = i, flt_exclude = e, flt_max_file_bytes = m\<rparr>
   })"

definition read_target :: "target_config reader" where
  "read_target = strict (\<lambda>kvs. [''collection'', ''connection'', ''acl_tags'', ''extra_payload'']) (\<lambda>kvs. do {
     c \<leftarrow> required read_str ''collection'' kvs;
     n \<leftarrow> required read_str ''connection'' kvs;
     a \<leftarrow> defaulted (read_list read_str) ''acl_tags'' [] kvs;
     x \<leftarrow> defaulted read_dict ''extra_payload'' [] kvs;
     Some \<lparr>tgt_collection = c, tgt_connection = n, tgt_acl_tags = a, tgt_extra_payload = x\<rparr>
   })"

definition default_schedule :: schedule_config where
  "default_schedule = \<lparr>sch_cron = None, sch_every = None, sch_timezone = None, sch_jitter_seconds = 30,
     sch_misfire_grace_seconds = 300, sch_run_on_startup = IfMissed\<rparr>"

definition read_schedule :: "scalars \<Rightarrow> schedule_config reader" where
  "read_schedule px = strict
     (\<lambda>kvs. [''cron'', ''every'', ''timezone'', ''jitter_seconds'', ''misfire_grace_seconds'', ''run_on_startup'']) (\<lambda>kvs. do {
     c \<leftarrow> defaulted (nullable read_str) ''cron'' None kvs;
     e \<leftarrow> defaulted (nullable read_str) ''every'' None kvs;
     t \<leftarrow> defaulted (nullable read_str) ''timezone'' None kvs;
     j \<leftarrow> defaulted (read_nat px) ''jitter_seconds'' 30 kvs;
     m \<leftarrow> defaulted (read_nat px) ''misfire_grace_seconds'' 300 kvs;
     r \<leftarrow> defaulted (one_of policy_str [Never, IfMissed, Always]) ''run_on_startup'' IfMissed kvs;
     Some \<lparr>sch_cron = c, sch_every = e, sch_timezone = t, sch_jitter_seconds = j, sch_misfire_grace_seconds = m,
       sch_run_on_startup = r\<rparr>
   })"

definition default_chunking :: chunking_config where
  "default_chunking = \<lparr>chk_strategy = StratAuto, chk_words = 400, chk_overlap = 50\<rparr>"

definition read_chunking :: "scalars \<Rightarrow> chunking_config reader" where
  "read_chunking px = strict (\<lambda>kvs. [''strategy'', ''words'', ''overlap'']) (\<lambda>kvs. do {
     s \<leftarrow> defaulted (one_of strategy_str [StratAuto, StratMarkdown, StratParagraph, StratSheetRows, StratSlide])
       ''strategy'' StratAuto kvs;
     w \<leftarrow> defaulted (read_nat px) ''words'' 400 kvs;
     v \<leftarrow> defaulted (read_nat px) ''overlap'' 50 kvs;
     Some \<lparr>chk_strategy = s, chk_words = w, chk_overlap = v\<rparr>
   })"

definition read_embedding :: "scalars \<Rightarrow> embedding_config reader" where
  "read_embedding px = strict (\<lambda>kvs. [''model'', ''batch_size'']) (\<lambda>kvs. do {
     m \<leftarrow> defaulted (nullable read_str) ''model'' None kvs;
     b \<leftarrow> defaulted (nullable (px_int px)) ''batch_size'' None kvs;
     Some \<lparr>emb_model = m, emb_batch_size = b\<rparr>
   })"

definition default_safety :: safety_config where
  "default_safety = \<lparr>saf_max_delete_ratio = 1 / 4, saf_empty_source_guard = True\<rparr>"

definition read_safety :: "scalars \<Rightarrow> safety_config reader" where
  "read_safety px = strict (\<lambda>kvs. [''max_delete_ratio'', ''empty_source_guard'']) (\<lambda>kvs. do {
     r \<leftarrow> defaulted (px_float px) ''max_delete_ratio'' (1 / 4) kvs;
     g \<leftarrow> defaulted (px_bool px) ''empty_source_guard'' True kvs;
     Some \<lparr>saf_max_delete_ratio = r, saf_empty_source_guard = g\<rparr>
   })"

definition JOB_KEYS :: "string list" where
  "JOB_KEYS = [''id'', ''enabled'', ''description'', ''source'', ''filters'', ''target'', ''mode'', ''full_scope'',
     ''append_probe'', ''schedule'', ''chunking'', ''embedding'', ''safety'', ''mcp_allow_full'', ''expand_embedded'',
     ''source_template'']"

definition read_job :: "scalars \<Rightarrow> job reader" where
  "read_job px = strict (\<lambda>kvs. JOB_KEYS) (\<lambda>kvs. do {
     i \<leftarrow> required read_str ''id'' kvs;
     en \<leftarrow> defaulted (px_bool px) ''enabled'' True kvs;
     d \<leftarrow> text_field ''description'' [] kvs;
     so \<leftarrow> required (read_source px) ''source'' kvs;
     fi \<leftarrow> defaulted (read_filters px) ''filters'' \<lparr>flt_include = [], flt_exclude = [], flt_max_file_bytes = None\<rparr> kvs;
     ta \<leftarrow> required read_target ''target'' kvs;
     m \<leftarrow> required (one_of mode_str [Full, Append, Upsert]) ''mode'' kvs;
     fs \<leftarrow> defaulted (one_of scope_str [ScopeJob, ScopeCollection]) ''full_scope'' ScopeJob kvs;
     ap \<leftarrow> defaulted (one_of probe_str [ProbeAuto, ProbeState, ProbeQdrant]) ''append_probe'' ProbeAuto kvs;
     sc \<leftarrow> defaulted (read_schedule px) ''schedule'' default_schedule kvs;
     ch \<leftarrow> defaulted (read_chunking px) ''chunking'' default_chunking kvs;
     em \<leftarrow> defaulted (read_embedding px) ''embedding'' \<lparr>emb_model = None, emb_batch_size = None\<rparr> kvs;
     sa \<leftarrow> defaulted (read_safety px) ''safety'' default_safety kvs;
     mc \<leftarrow> defaulted (px_bool px) ''mcp_allow_full'' False kvs;
     ex \<leftarrow> defaulted (px_bool px) ''expand_embedded'' False kvs;
     te \<leftarrow> text_field ''source_template'' default_template kvs;
     Some \<lparr>job_id = i, job_enabled = en, job_description = d, job_source = so, job_filters = fi, job_target = ta,
       job_mode = m, job_full_scope = fs, job_append_probe = ap, job_schedule = sc, job_chunking = ch,
       job_embedding = em, job_safety = sa, job_mcp_allow_full = mc, job_expand_embedded = ex,
       job_source_template = te\<rparr>
   })"

text \<open>What the loader gets from pydantic: the job, or the errors of \<open>errs\<close>.\<close>

definition declared_fields :: "scalars \<Rightarrow> (jval \<Rightarrow> (string \<times> string) list) \<Rightarrow> jval \<Rightarrow> (string \<times> string) list + job" where
  "declared_fields px errs v = (case read_job px v of None \<Rightarrow> Inl (errs v) | Some j \<Rightarrow> Inr j)"

section \<open>Writing a job\<close>

text \<open>\<open>model_dump(mode="json", by_alias=True)\<close>: every field in the order of its class, the base class first;
  \<open>ref\<close> is how a secret field is written, as the bare name in a dump, as a reference in the file.\<close>

definition json_opt :: "('a \<Rightarrow> jval) \<Rightarrow> 'a option \<Rightarrow> jval" where
  "json_opt f x = (case x of None \<Rightarrow> JNull | Some y \<Rightarrow> f y)"

definition json_strs :: "string list \<Rightarrow> jval" where
  "json_strs xs = JList (map JStr xs)"

fun kind_json :: "(string \<Rightarrow> string) \<Rightarrow> source_kind \<Rightarrow> obj" where
  "kind_json ref (S3Source b p pr r e a s) =
     [(''bucket'', JStr b), (''prefix'', JStr p), (''provider'', JStr pr), (''region'', JStr r), (''endpoint'', JStr e),
      (''access_key_id'', json_opt (\<lambda>n. JStr (ref n)) a), (''secret_access_key'', json_opt (\<lambda>n. JStr (ref n)) s)]"
| "kind_json ref (WebdavSource u v us p) =
     [(''url'', JStr u), (''vendor'', JStr v), (''user'', JStr us), (''pass'', json_opt (\<lambda>n. JStr (ref n)) p)]"
| "kind_json ref (SftpSource h po u pw k pa) =
     [(''host'', JStr h), (''port'', JInt po), (''user'', JStr u), (''pass'', json_opt (\<lambda>n. JStr (ref n)) pw),
      (''key_file'', json_opt (\<lambda>n. JStr (ref n)) k), (''path'', JStr pa)]"
| "kind_json ref (SmbSource h s u p pa) =
     [(''host'', JStr h), (''share'', JStr s), (''user'', JStr u), (''pass'', json_opt (\<lambda>n. JStr (ref n)) p),
      (''path'', JStr pa)]"
| "kind_json ref (FtpSource h po u pw pa t) =
     [(''host'', JStr h), (''port'', JInt po), (''user'', JStr u), (''pass'', json_opt (\<lambda>n. JStr (ref n)) pw),
      (''path'', JStr pa), (''tls'', JBool t)]"
| "kind_json ref (LocalSource p) = [(''path'', JStr p)]"
| "kind_json ref (GdriveSource s t r) =
     [(''service_account_json'', json_opt (\<lambda>n. JStr (ref n)) s), (''token'', json_opt (\<lambda>n. JStr (ref n)) t),
      (''root_folder_id'', JStr r)]"
| "kind_json ref (AzureBlobSource a c k s p) =
     [(''account'', JStr a), (''container'', JStr c), (''key'', json_opt (\<lambda>n. JStr (ref n)) k),
      (''sas_url'', json_opt (\<lambda>n. JStr (ref n)) s), (''prefix'', JStr p)]"
| "kind_json ref (HttpSource u) = [(''url'', JStr u)]"

definition source_json :: "(string \<Rightarrow> string) \<Rightarrow> source \<Rightarrow> jval" where
  "source_json ref s =
     JObj ([(''label'', JStr (src_label s)), (''rclone_flags'', json_strs (src_rclone_flags s)),
       (''type'', JStr (kind_type (src_kind s)))] @ kind_json ref (src_kind s))"

definition filters_json :: "filters_config \<Rightarrow> jval" where
  "filters_json f = JObj [(''include'', json_strs (flt_include f)), (''exclude'', json_strs (flt_exclude f)),
     (''max_file_bytes'', json_opt JInt (flt_max_file_bytes f))]"

definition target_json :: "target_config \<Rightarrow> jval" where
  "target_json t = JObj [(''collection'', JStr (tgt_collection t)), (''connection'', JStr (tgt_connection t)),
     (''acl_tags'', json_strs (tgt_acl_tags t)), (''extra_payload'', JObj (tgt_extra_payload t))]"

definition schedule_json :: "schedule_config \<Rightarrow> jval" where
  "schedule_json s = JObj [(''cron'', json_opt JStr (sch_cron s)), (''every'', json_opt JStr (sch_every s)),
     (''timezone'', json_opt JStr (sch_timezone s)), (''jitter_seconds'', JInt (int (sch_jitter_seconds s))),
     (''misfire_grace_seconds'', JInt (int (sch_misfire_grace_seconds s))),
     (''run_on_startup'', JStr (policy_str (sch_run_on_startup s)))]"

definition chunking_json :: "chunking_config \<Rightarrow> jval" where
  "chunking_json c = JObj [(''strategy'', JStr (strategy_str (chk_strategy c))), (''words'', JInt (int (chk_words c))),
     (''overlap'', JInt (int (chk_overlap c)))]"

definition embedding_json :: "embedding_config \<Rightarrow> jval" where
  "embedding_json e = JObj [(''model'', json_opt JStr (emb_model e)), (''batch_size'', json_opt JInt (emb_batch_size e))]"

definition safety_json :: "safety_config \<Rightarrow> jval" where
  "safety_json s = JObj [(''max_delete_ratio'', JFloat (saf_max_delete_ratio s)),
     (''empty_source_guard'', JBool (saf_empty_source_guard s))]"

definition job_json :: "(string \<Rightarrow> string) \<Rightarrow> job \<Rightarrow> obj" where
  "job_json ref j =
     [(''id'', JStr (job_id j)), (''enabled'', JBool (job_enabled j)), (''description'', JStr (job_description j)),
      (''source'', source_json ref (job_source j)), (''filters'', filters_json (job_filters j)),
      (''target'', target_json (job_target j)), (''mode'', JStr (mode_str (job_mode j))),
      (''full_scope'', JStr (scope_str (job_full_scope j))), (''append_probe'', JStr (probe_str (job_append_probe j))),
      (''schedule'', schedule_json (job_schedule j)), (''chunking'', chunking_json (job_chunking j)),
      (''embedding'', embedding_json (job_embedding j)), (''safety'', safety_json (job_safety j)),
      (''mcp_allow_full'', JBool (job_mcp_allow_full j)), (''expand_embedded'', JBool (job_expand_embedded j)),
      (''source_template'', JStr (job_source_template j))]"

definition file_ref :: "string \<Rightarrow> string" where
  "file_ref name = ref_prefix @ name @ ''}''"

section \<open>What is written is read back\<close>

locale scalar_reading =
  fixes px :: scalars
  assumes int_read [simp]: "px_int px (JInt i) = Some i"
    and bool_read [simp]: "px_bool px (JBool b) = Some b"
    and float_read [simp]: "px_float px (JFloat x) = Some x"

text \<open>The exact values, and a flag or a whole number for each other.\<close>

definition lax_scalars :: scalars where
  "lax_scalars = \<lparr>
     px_int = (\<lambda>v. case v of JInt i \<Rightarrow> Some i | JBool b \<Rightarrow> Some (of_bool b)
        | JFloat x \<Rightarrow> if x = of_int \<lfloor>x\<rfloor> then Some \<lfloor>x\<rfloor> else None | _ \<Rightarrow> None),
     px_bool = (\<lambda>v. case v of JBool b \<Rightarrow> Some b | JInt i \<Rightarrow> if i = 0 then Some False else if i = 1 then Some True else None
        | _ \<Rightarrow> None),
     px_float = (\<lambda>v. case v of JFloat x \<Rightarrow> Some x | JInt i \<Rightarrow> Some (of_int i) | JBool b \<Rightarrow> Some (of_bool b) | _ \<Rightarrow> None)\<rparr>"

interpretation lax: scalar_reading lax_scalars
  by unfold_locales (simp_all add: lax_scalars_def)

named_theorems readers

lemmas reader_defs = read_s3_def read_webdav_def read_sftp_def read_smb_def read_ftp_def read_local_def read_gdrive_def
  read_azureblob_def read_http_def

lemma those_map_Some: "those (map (\<lambda>x. Some (f x)) xs) = Some (map f xs)"
  by (induction xs) simp_all

lemma read_strs [readers]: "read_list read_str (json_strs xs) = Some xs"
  by (simp add: json_strs_def o_def those_map_Some)

lemma read_nullable [readers]:
  "(\<And>y. x = Some y \<Longrightarrow> f y \<noteq> JNull \<and> rd (f y) = Some y) \<Longrightarrow> nullable rd (json_opt f x) = Some x"
  by (cases x) (auto simp: nullable_def json_opt_def)

lemma read_words [readers]:
  "one_of mode_str [Full, Append, Upsert] (JStr (mode_str md)) = Some md"
  "one_of scope_str [ScopeJob, ScopeCollection] (JStr (scope_str sc)) = Some sc"
  "one_of probe_str [ProbeAuto, ProbeState, ProbeQdrant] (JStr (probe_str ap)) = Some ap"
  "one_of policy_str [Never, IfMissed, Always] (JStr (policy_str p)) = Some p"
  "one_of strategy_str [StratAuto, StratMarkdown, StratParagraph, StratSheetRows, StratSlide] (JStr (strategy_str s)) = Some s"
  by (cases md, simp_all) ((cases sc, simp_all)[1], (cases ap, simp_all)[1], (cases p, simp_all)[1], (cases s, simp_all)[1])

declare one_of.simps [simp del]

lemma file_ref_read [readers]: "credential_name n \<Longrightarrow> read_secret (JStr (file_ref n)) = Some n"
proof -
  assume "credential_name n"
  moreover have "py_strip (file_ref n) = file_ref n"
    by (simp add: py_strip_def py_lstrip_def py_rstrip_def file_ref_def ref_prefix_def is_space_def)
  ultimately have "parse_secret_ref (JStr (file_ref n)) = Inr n"
    by (simp add: parse_secret_ref_exactly file_ref_def)
  then show ?thesis by (simp add: read_secret_def)
qed

lemma read_ref [readers]:
  "(\<forall>n. p = Some n \<longrightarrow> credential_name n) \<Longrightarrow> nullable read_secret (json_opt (\<lambda>n. JStr (file_ref n)) p) = Some p"
  by (cases p) (simp_all add: nullable_def json_opt_def file_ref_read)

lemma named_secrets:
  "list_all credential_name (map snd (if \<exists>y. p = Some y then [(f, the p)] else [])) \<longleftrightarrow>
   (\<forall>n. p = Some n \<longrightarrow> credential_name n)"
  by (cases p) simp_all

lemma read_fields [readers]:
  "defaulted rd k d ((k', v) # kvs) = (if k' = k then rd v else defaulted rd k d kvs)"
  "required rd k ((k', v) # kvs) = (if k' = k then rd v else required rd k kvs)"
  by (simp_all add: defaulted_def required_def)

context scalar_reading
begin

lemma read_nat_int [readers]: "read_nat px (JInt (int n)) = Some n"
  by (simp add: read_nat_def)

lemma sections_read [readers]:
  "read_filters px (filters_json f) = Some f" "read_target (target_json t) = Some t"
  "read_schedule px (schedule_json s) = Some s" "read_chunking px (chunking_json c) = Some c"
  "read_embedding px (embedding_json e) = Some e" "read_safety px (safety_json sa) = Some sa"
  by (simp_all add: read_filters_def read_target_def read_schedule_def read_chunking_def read_embedding_def read_safety_def
      filters_json_def target_json_def schedule_json_def chunking_json_def embedding_json_def safety_json_def
      strict_def readers)

lemma source_read:
  assumes "list_all credential_name (map snd (secret_env_names s))"
  shows "read_source px (source_json file_ref s) = Some s"
  using assms
  by (cases s; cases "src_kind s")
    (simp_all add: read_source_def source_json_def source_readers_def reader_defs source_class_def source_of_def
      strict_def alias_key_def secret_env_names_def named_secrets readers)

lemma job_read:
  assumes "list_all credential_name (map snd (secret_env_names (job_source j)))"
  shows "read_job px (JObj (job_json file_ref j)) = Some j"
  by (cases j) (use assms in \<open>simp add: read_job_def strict_def JOB_KEYS_def job_json_def readers sections_read source_read\<close>)

end

section \<open>A compatible catalog loads in full\<close>

lemma no_duplicate_ids:
  "distinct (map job_id js) \<Longrightarrow> set seen \<inter> job_id ` set js = {} \<Longrightarrow> duplicate_id_issues seen js = []"
  by (induction js arbitrary: seen) auto

lemma no_label_issues:
  "distinct (map (\<lambda>j. (job_collection j, job_label j)) js) \<Longrightarrow>
   \<forall>j \<in> set js. labels (job_collection j, job_label j) = None \<Longrightarrow> label_issues labels js = []"
proof (induction js arbitrary: labels)
  case (Cons j js)
  from Cons.prems have "\<forall>k \<in> set js. (labels((job_collection j, job_label j) \<mapsto> job_id j)) (job_collection k, job_label k) = None"
    by (auto simp: image_iff)
  with Cons show ?case by simp
qed simp

text \<open>A collection's jobs agree with what its dictionary entry says, if there is one.\<close>

definition agrees :: "(job \<Rightarrow> string) \<Rightarrow> (string \<rightharpoonup> string \<times> string) \<Rightarrow> job list \<Rightarrow> bool" where
  "agrees f d js \<longleftrightarrow>
     (\<forall>j \<in> set js. \<forall>v i. d (job_collection j) = Some (v, i) \<longrightarrow> v = f j) \<and>
     (\<forall>j \<in> set js. \<forall>k \<in> set js. job_collection j = job_collection k \<longrightarrow> f j = f k)"

lemma agrees_Cons:
  assumes "agrees f d (j # js)"
  shows "agrees f d js" and "agrees f (d(job_collection j \<mapsto> (f j, i))) js"
    and "d (job_collection j) = Some (v, l) \<Longrightarrow> v = f j"
proof -
  from assms show "agrees f d js" and "d (job_collection j) = Some (v, l) \<Longrightarrow> v = f j"
    unfolding agrees_def by (meson list.set_intros)+
  have "w = f k" if "k \<in> set js" "(d(job_collection j \<mapsto> (f j, i))) (job_collection k) = Some (w, l)" for k w l
  proof (cases "job_collection k = job_collection j")
    case True
    with that(2) have "w = f j" by simp
    moreover have "f j = f k" using assms True that(1) unfolding agrees_def by (metis list.set_intros)
    ultimately show ?thesis by simp
  next
    case False
    with assms that show ?thesis unfolding agrees_def by (metis fun_upd_other list.set_intros(2))
  qed
  with \<open>agrees f d js\<close> show "agrees f (d(job_collection j \<mapsto> (f j, i))) js" unfolding agrees_def by blast
qed

lemma no_model_issues:
  "\<forall>j \<in> set js. emb_model (job_embedding j) \<noteq> None \<Longrightarrow> agrees (\<lambda>j. the (emb_model (job_embedding j))) models js \<Longrightarrow>
   model_issues models js = []"
proof (induction js arbitrary: models)
  case (Cons j js)
  have "emb_model (job_embedding j) \<noteq> None" by (rule bspec [OF Cons.prems(1)]) simp
  then obtain m where m: "emb_model (job_embedding j) = Some m" by blast
  note agree = agrees_Cons [OF Cons.prems(2)]
  show ?case
  proof (cases "models (job_collection j)")
    case None
    from agree(2) [of "job_id j"]
    have "agrees (\<lambda>j. the (emb_model (job_embedding j))) (models(job_collection j \<mapsto> (m, job_id j))) js"
      by (simp only: m option.sel)
    then have "model_issues (models(job_collection j \<mapsto> (m, job_id j))) js = []"
      by (rule Cons.IH [rotated]) (use Cons.prems(1) in simp)
    then show ?thesis by (simp only: model_issues.simps m None option.case)
  next
    case (Some p)
    obtain v i where p: "p = (v, i)" by fastforce
    have "model_issues models js = []" by (rule Cons.IH [OF _ agree(1)]) (use Cons.prems(1) in simp)
    with agree(3) [OF Some [unfolded p]] m show ?thesis by (simp add: Some p)
  qed
qed simp

lemma no_connection_issues: "agrees job_connection conns js \<Longrightarrow> connection_issues conns js = []"
proof (induction js arbitrary: conns)
  case (Cons j js)
  note agree = agrees_Cons [OF Cons.prems]
  show ?case
  proof (cases "conns (job_collection j)")
    case None
    show ?thesis by (simp only: connection_issues.simps None option.case Cons.IH [OF agree(2)])
  next
    case (Some p)
    obtain v i where p: "p = (v, i)" by fastforce
    from agree(3) [OF Some [unfolded p]] Cons.IH [OF agree(1)] show ?thesis by (simp add: Some p)
  qed
qed simp

lemma accepted_no_issues:
  assumes "job_accepted lib st env known j"
  shows "job_issues lib st env known j = []"
  using assms unfolding job_accepted_def job_issues_def
  by (simp add: validate_secrets_Nil validate_embedding_model_Nil validate_connection_ref_Nil)

lemma compatible_agrees:
  assumes "jobs_compatible js"
  shows "agrees job_connection Map.empty (filter job_enabled js)"
    and "agrees (\<lambda>j. the (emb_model (job_embedding j))) Map.empty (filter job_enabled js)"
proof -
  from assms have "job_connection j = job_connection k \<and> emb_model (job_embedding j) = emb_model (job_embedding k)"
    if "j \<in> set (filter job_enabled js)" "k \<in> set (filter job_enabled js)" "job_collection j = job_collection k" for j k
    using that unfolding jobs_compatible_def by (auto simp: set_filter)
  then show "agrees job_connection Map.empty (filter job_enabled js)"
    and "agrees (\<lambda>j. the (emb_model (job_embedding j))) Map.empty (filter job_enabled js)"
    unfolding agrees_def by (metis option.distinct(1))+
qed

lemma compatible_no_issues:
  assumes "list_all (job_accepted lib st env known) js" and "jobs_compatible js"
  shows "cross_job_issues js st = []"
proof -
  let ?on = "filter job_enabled js"
  have "system_collection_issues st js = []"
    using assms(1) by (simp add: system_collection_issues_def job_accepted_def list_all_iff)
  moreover have "duplicate_id_issues [] js = []"
    using assms(2) by (simp add: jobs_compatible_def no_duplicate_ids)
  moreover have "label_issues Map.empty ?on = []"
    by (rule no_label_issues) (use assms(2) in \<open>simp_all add: jobs_compatible_def\<close>)
  moreover have "\<forall>j \<in> set ?on. emb_model (job_embedding j) \<noteq> None"
    using assms(1) by (auto simp: list_all_iff job_accepted_def)
  ultimately show ?thesis unfolding cross_job_issues_def Let_def
    using no_model_issues compatible_agrees [OF assms(2)] no_connection_issues by simp
qed

lemma deep_merge_new: "distinct (map fst (acc @ kvs)) \<Longrightarrow> deep_merge acc kvs = acc @ kvs"
proof (induction kvs arbitrary: acc)
  case (Cons kv kvs)
  obtain k v where kv: "kv = (k, v)" by fastforce
  from Cons.prems have new: "map_of acc k = None" by (auto simp: kv map_of_eq_None_iff)
  from new have "obj_set k v acc = acc @ [(k, v)]" by (induction acc) (auto split: if_splits)
  moreover have "(case (v, map_of acc k) of (JObj o', Some (JObj b)) \<Rightarrow> JObj (deep_merge b o') | _ \<Rightarrow> v) = v"
    by (cases v) (simp_all add: new)
  moreover have "deep_merge (acc @ [(k, v)]) kvs = (acc @ [(k, v)]) @ kvs"
    by (rule Cons.IH) (use Cons.prems in \<open>simp add: kv\<close>)
  ultimately show ?case by (simp only: kv deep_merge.simps append_assoc append_Cons append_Nil)
qed simp

lemma load_jobs_clean:
  assumes "\<forall>j \<in> set js. model_validate lib (JObj (doc j)) = Inr j \<and> distinct (map fst (doc j)) \<and>
    job_issues lib st env known j = []"
  shows "load_jobs lib st env known [] i (map (\<lambda>j. JObj (doc j)) js) r = r\<lparr>lr_jobs := lr_jobs r @ js\<rparr>"
  using assms
proof (induction js arbitrary: i r)
  case (Cons j js)
  from Cons.prems have "load_job lib st env known [] i (JObj (doc j)) r = r\<lparr>lr_jobs := lr_jobs r @ [j]\<rparr>"
    by (simp add: load_job_def known_defaults_def deep_merge_new)
  with Cons show ?case by simp
qed simp

text \<open>The file that declares the jobs \<open>js\<close>.\<close>

definition catalog_json :: "job list \<Rightarrow> jval" where
  "catalog_json js = JObj [(''version'', JInt 1), (''jobs'', JList (map (\<lambda>j. JObj (job_json file_ref j)) js))]"

definition names_secrets :: "job \<Rightarrow> bool" where
  "names_secrets j \<longleftrightarrow> list_all credential_name (map snd (secret_env_names (job_source j)))"

lemma validate_document_catalog:
  assumes "cg_yaml lib raw = Inr (catalog_json js)"
  shows "validate_document lib r raw st env known = finish_jobs st
    (load_jobs lib st env known [] 0 (map (\<lambda>j. JObj (job_json file_ref j)) js) (r\<lparr>lr_checksum := Some (cg_sha256 lib raw)\<rparr>))"
  by (cases js) (simp_all add: validate_document_def assms catalog_json_def validate_jobs_def obj_get_def version_one_def)

text \<open>C20: The converse of what a load guarantees. Take any jobs that satisfy the per-job checks and can run
  together, whose secrets name credentials, and write them down as a document, every field with its key,
  each secret as its reference. The loader reads exactly these jobs back: no field is lost, renamed or replaced by
  a default, no other check refuses one.\<close>
theorem catalog_roundtrip:
  assumes "scalar_reading px" and "cg_fields lib = declared_fields px errs" and "cg_yaml lib raw = Inr (catalog_json js)"
    and "list_all (job_accepted lib st env known) js" and "jobs_compatible js" and "list_all names_secrets js"
  shows "validate_document lib (new_result path now) raw st env known =
    \<lparr>lr_path = path, lr_jobs = js, lr_errors = [], lr_checksum = Some (cg_sha256 lib raw), lr_loaded_at = now\<rparr>"
proof -
  have "\<forall>j \<in> set js. model_validate lib (JObj (job_json file_ref j)) = Inr j \<and>
      distinct (map fst (job_json file_ref j)) \<and> job_issues lib st env known j = []"
  proof
    fix j
    assume "j \<in> set js"
    with assms(4,6) have j: "job_accepted lib st env known j" "names_secrets j" by (simp_all add: list_all_iff)
    from j(2) have "read_job px (JObj (job_json file_ref j)) = Some j"
      unfolding names_secrets_def by (rule scalar_reading.job_read [OF assms(1)])
    then have "model_validate lib (JObj (job_json file_ref j)) = Inr j"
      using j(1) by (simp add: model_validate_def assms(2) declared_fields_def job_accepted_def)
    then show "model_validate lib (JObj (job_json file_ref j)) = Inr j \<and>
        distinct (map fst (job_json file_ref j)) \<and> job_issues lib st env known j = []"
      using accepted_no_issues [OF j(1)] by (simp add: job_json_def)
  qed
  note load = load_jobs_clean [OF this]
  show ?thesis
    by (simp add: validate_document_catalog [OF assms(3)] load finish_jobs_def Let_def new_result_def
        compatible_no_issues [OF assms(4,5)])
qed

definition sample_webdav :: job where
  "sample_webdav = sample_job\<lparr>job_source := \<lparr>src_label = ''docs'', src_rclone_flags = [''--fast-list''],
     src_kind = WebdavSource ''http://x'' ''other'' ''u'' (Some ''QI_SECRET_X'')\<rparr>\<rparr>"

theorem catalog_roundtrip_witness:
  "lr_jobs (validate_document ((plain_lib [])\<lparr>cg_fields := declared_fields lax_scalars (\<lambda>v. []),
       cg_yaml := \<lambda>raw. Inr (catalog_json [sample_webdav])\<rparr>) (new_result [] []) [] sample_settings
     (plain_environ [''QI_SECRET_X'' \<mapsto> ''pw'']) (Some [''primary''])) = [sample_webdav]"
proof -
  let ?env = "plain_environ [''QI_SECRET_X'' \<mapsto> ''pw'']"
  let ?lib = "(plain_lib [])\<lparr>cg_fields := declared_fields lax_scalars (\<lambda>v. []),
       cg_yaml := \<lambda>raw. Inr (catalog_json [sample_webdav])\<rparr>"
  have "list_all (job_accepted ?lib sample_settings ?env (Some [''primary''])) [sample_webdav]" by code_simp
  moreover have "jobs_compatible [sample_webdav]" by (simp add: jobs_compatible_def)
  moreover have "list_all names_secrets [sample_webdav]" by code_simp
  ultimately have "validate_document ?lib (new_result [] []) [] sample_settings ?env (Some [''primary'']) =
      \<lparr>lr_path = [], lr_jobs = [sample_webdav], lr_errors = [], lr_checksum = Some (cg_sha256 ?lib []), lr_loaded_at = []\<rparr>"
    by (intro catalog_roundtrip [OF lax.scalar_reading_axioms]) simp_all
  then show ?thesis by simp
qed

section \<open>No literal credential\<close>

text \<open>The key a secret field is read under.\<close>

definition secret_key :: "string \<Rightarrow> obj \<Rightarrow> string" where
  "secret_key f src = (if f = ''password'' then pass_key src else f)"

text \<open>What a secret field makes of its value: nothing, or the name in a reference.\<close>

definition only_reference :: "string option \<Rightarrow> jval option \<Rightarrow> bool" where
  "only_reference ref v \<longleftrightarrow> (case ref of
     None \<Rightarrow> v = None \<or> v = Some JNull
   | Some n \<Rightarrow> credential_name n \<and> (\<exists>s. v = Some (JStr s) \<and> py_strip s = ref_prefix @ n @ ''}''))"

lemma secret_field_only_reference:
  "secret_field k kvs = Some ref \<Longrightarrow> only_reference ref (map_of kvs k)"
  by (cases "map_of kvs k"; cases ref)
    (auto simp: defaulted_def nullable_def only_reference_def read_secret_def parse_secret_ref_exactly
      split: if_splits sum.splits)

lemma strictE:
  assumes "strict keys rd v = Some x"
  obtains kvs where "v = JObj kvs" "rd kvs = Some x" "set (map fst kvs) \<subseteq> set (keys kvs)"
proof -
  from assms obtain kvs where "v = JObj kvs" "list_all (\<lambda>(k, w). k \<in> set (keys kvs)) kvs" "rd kvs = Some x"
    by (auto simp: strict_def split: jval.splits if_splits)
  moreover from this(2) have "set (map fst kvs) \<subseteq> set (keys kvs)" by (auto simp: list_all_iff)
  ultimately show thesis using that by blast
qed

lemma source_classE:
  assumes "source_class keys kind v = Some s"
  obtains kvs where "v = JObj kvs" "kind kvs = Some (src_kind s)"
    "set (map fst kvs) \<subseteq> set ([''label'', ''rclone_flags'', ''type''] @ keys kvs)"
proof -
  from assms obtain kvs where kvs: "v = JObj kvs" "source_of kind kvs = Some s"
    "set (map fst kvs) \<subseteq> set ([''label'', ''rclone_flags'', ''type''] @ keys kvs)"
    unfolding source_class_def by (rule strictE)
  then have "kind kvs = Some (src_kind s)" by (auto simp: source_of_def split: Option.bind_splits)
  with kvs that show thesis by blast
qed

definition kind_referenced :: "source_kind \<Rightarrow> obj \<Rightarrow> bool" where
  "kind_referenced k kvs \<longleftrightarrow> list_all (\<lambda>(f, ref). only_reference ref (map_of kvs (secret_key f kvs))) (secret_fields k)"

definition secrets_referenced :: "source \<Rightarrow> obj \<Rightarrow> bool" where
  "secrets_referenced s kvs \<longleftrightarrow> kind_referenced (src_kind s) kvs"

lemma source_class_referenced:
  assumes "\<And>k. kind kvs = Some k \<Longrightarrow> kind_referenced k kvs" and "source_class keys kind (JObj kvs) = Some s"
  shows "secrets_referenced s kvs"
  using assms by (auto simp: secrets_referenced_def elim: source_classE)

lemma readers_referenced:
  "read_s3 (JObj kvs) = Some s \<Longrightarrow> secrets_referenced s kvs"
  "read_webdav (JObj kvs) = Some s \<Longrightarrow> secrets_referenced s kvs"
  "read_sftp px (JObj kvs) = Some s \<Longrightarrow> secrets_referenced s kvs"
  "read_smb (JObj kvs) = Some s \<Longrightarrow> secrets_referenced s kvs"
  "read_ftp px (JObj kvs) = Some s \<Longrightarrow> secrets_referenced s kvs"
  "read_local (JObj kvs) = Some s \<Longrightarrow> secrets_referenced s kvs"
  "read_gdrive (JObj kvs) = Some s \<Longrightarrow> secrets_referenced s kvs"
  "read_azureblob (JObj kvs) = Some s \<Longrightarrow> secrets_referenced s kvs"
  "read_http (JObj kvs) = Some s \<Longrightarrow> secrets_referenced s kvs"
  unfolding reader_defs
  by (erule source_class_referenced [rotated]; auto simp: kind_referenced_def secret_key_def split: Option.bind_splits
      intro: secret_field_only_reference)+

lemma source_reader_referenced:
  "rd \<in> snd ` set (source_readers px) \<Longrightarrow> rd (JObj kvs) = Some s \<Longrightarrow> secrets_referenced s kvs"
  unfolding source_readers_def by (auto dest: readers_referenced)

text \<open>C21: A job read from a catalog never holds a literal credential. In the object of its source, the value
  under a secret field's key is absent, null, or a string that is, up to surrounding whitespace, the reference
  \<open>${env:N}\<close> of a name N that starts with \<open>QI_SECRET_\<close>, and the field then holds N; whatever
  the class of the source, and for a password under either of its keys.\<close>
theorem secrets_never_literal:
  assumes "read_job px v = Some j"
  shows "\<exists>kvs src. v = JObj kvs \<and> map_of kvs ''source'' = Some (JObj src) \<and> secrets_referenced (job_source j) src"
proof -
  from assms obtain kvs where v: "v = JObj kvs" and s: "required (read_source px) ''source'' kvs = Some (job_source j)"
    unfolding read_job_def by (rule strictE) (auto split: Option.bind_splits)
  then obtain src t rd where "map_of kvs ''source'' = Some (JObj src)" "map_of (source_readers px) t = Some rd"
    "rd (JObj src) = Some (job_source j)"
    by (auto simp: required_def read_source_def split: Option.bind_splits jval.splits option.splits)
  moreover from this(2) have "rd \<in> snd ` set (source_readers px)" by (force dest: map_of_SomeD)
  ultimately show ?thesis using v source_reader_referenced by blast
qed

theorem secrets_never_literal_witness:
  "secrets_referenced (job_source sample_webdav) [(''label'', JStr ''docs''), (''rclone_flags'', json_strs [''--fast-list'']),
     (''type'', JStr ''webdav''), (''url'', JStr ''http://x''), (''vendor'', JStr ''other''), (''user'', JStr ''u''),
     (''pass'', JStr (file_ref ''QI_SECRET_X''))]"
proof -
  have "names_secrets sample_webdav" by code_simp
  then have "read_job lax_scalars (JObj (job_json file_ref sample_webdav)) = Some sample_webdav"
    unfolding names_secrets_def by (rule lax.job_read)
  from secrets_never_literal [OF this] show ?thesis
    by (simp add: job_json_def source_json_def sample_webdav_def json_opt_def)
qed

end
