(* ===== verification/Config.thy ===== *)
theory Config
  imports Declared
begin

text \<open>
  The settings, \<open>src/src/config.py\<close>: the defaults and how pydantic-settings reads them from the environment of
  the process. A variable is looked up without regard to case as \<open>QI_\<close> and the field's name, the issuer as
  \<open>OIDC_ISSUER\<close>; every other variable is ignored. What pydantic makes of a text that stands for a number
  or a flag is the parameter \<open>scalars\<close>.
\<close>

definition default_settings :: settings where
  "default_settings = \<lparr>set_embedding_api_url = ''http://litellm:4000/v1'', set_embedding_api_key = [],
     set_embed_meta_collection = ''_collection_meta'', set_rbac_acl_collection = ''_rbac_acl'',
     set_embed_batch_size = 32, set_embed_retries = 3, set_embed_concurrency = 2, set_embed_rps = 0,
     set_connections_file = ''/config/catalog/connections.yaml'', set_connections_secret = [],
     set_secrets_file = ''/config/catalog/secrets.yaml'', set_jobs_file = ''/config/catalog/jobs.yaml'',
     set_jobs_file_legacy = ''/config/jobs.yaml'', set_jobs_reload_interval = 30,
     set_tika_url = ''http://qdrant-ingest-tika:9998'', set_tika_timeout = 300,
     set_tika_ocr_language = ''deu+eng'', set_tika_pdf_ocr_strategy = ''auto'',
     set_tika_sniff_unknown = False, set_min_chars_per_page = 100, set_max_file_bytes = 209715200,
     set_sheet_rows = 40, set_max_concurrent_jobs = 2, set_timezone = ''UTC'', set_misfire_grace = 300,
     set_cron_jitter = 30, set_lock_timeout = 60, set_run_history_limit = 200, set_shutdown_grace = 30,
     set_rest_auth = ''token'', set_api_token = [], set_http_host = ''0.0.0.0'', set_http_port = 8300,
     set_mcp_path = ''/mcp'', set_metrics_enabled = True, set_metrics_auth = True, set_log_level = ''INFO'',
     set_oidc_issuer = [], set_oidc_audience = ''mcp-qdrant-ingest'',
     set_oidc_operator_role = ''qdrant-ingest-operator'', set_oidc_jwks_cache_ttl = 3600,
     set_state_dir = ''/data/state'', set_cache_dir = ''/data/cache'', set_local_dir = ''/data/local''\<rparr>"

text \<open>\<open>case_sensitive=False\<close>: the names in lower case; of two that become one, the later variable counts.\<close>

definition lower_environ :: "(string \<times> string) list \<Rightarrow> string \<rightharpoonup> string" where
  "lower_environ vars = map_of (rev (map (\<lambda>(k, v). (py_lower k, v)) vars))"

definition from_env :: "'a reader \<Rightarrow> string \<Rightarrow> 'a \<Rightarrow> (string \<rightharpoonup> string) \<Rightarrow> 'a option" where
  "from_env rd name d env = (case env name of None \<Rightarrow> Some d | Some v \<Rightarrow> rd (JStr v))"

definition env_prefix :: string where
  "env_prefix = ''qi_''"

definition setting :: "'a reader \<Rightarrow> string \<Rightarrow> (settings \<Rightarrow> 'a) \<Rightarrow> (string \<rightharpoonup> string) \<Rightarrow> 'a option" where
  "setting rd field d env = from_env rd (env_prefix @ field) (d default_settings) env"

abbreviation str_setting :: "string \<Rightarrow> (settings \<Rightarrow> string) \<Rightarrow> (string \<rightharpoonup> string) \<Rightarrow> string option" where
  "str_setting \<equiv> setting read_str"

abbreviation int_setting :: "scalars \<Rightarrow> string \<Rightarrow> (settings \<Rightarrow> int) \<Rightarrow> (string \<rightharpoonup> string) \<Rightarrow> int option" where
  "int_setting px \<equiv> setting (px_int px)"

abbreviation float_setting :: "scalars \<Rightarrow> string \<Rightarrow> (settings \<Rightarrow> rat) \<Rightarrow> (string \<rightharpoonup> string) \<Rightarrow> rat option" where
  "float_setting px \<equiv> setting (px_float px)"

abbreviation bool_setting :: "scalars \<Rightarrow> string \<Rightarrow> (settings \<Rightarrow> bool) \<Rightarrow> (string \<rightharpoonup> string) \<Rightarrow> bool option" where
  "bool_setting px \<equiv> setting (px_bool px)"

definition settings_of_environ :: "scalars \<Rightarrow> (string \<times> string) list \<Rightarrow> settings option" where
  "settings_of_environ px vars = (let env = lower_environ vars in do {
     embedding_api_url \<leftarrow> str_setting ''embedding_api_url'' set_embedding_api_url env;
     embedding_api_key \<leftarrow> str_setting ''embedding_api_key'' set_embedding_api_key env;
     embed_meta_collection \<leftarrow> str_setting ''embed_meta_collection'' set_embed_meta_collection env;
     rbac_acl_collection \<leftarrow> str_setting ''rbac_acl_collection'' set_rbac_acl_collection env;
     embed_batch_size \<leftarrow> int_setting px ''embed_batch_size'' set_embed_batch_size env;
     embed_retries \<leftarrow> int_setting px ''embed_retries'' set_embed_retries env;
     embed_concurrency \<leftarrow> int_setting px ''embed_concurrency'' set_embed_concurrency env;
     embed_rps \<leftarrow> float_setting px ''embed_rps'' set_embed_rps env;
     connections_file \<leftarrow> str_setting ''connections_file'' set_connections_file env;
     connections_secret \<leftarrow> str_setting ''connections_secret'' set_connections_secret env;
     secrets_file \<leftarrow> str_setting ''secrets_file'' set_secrets_file env;
     jobs_file \<leftarrow> str_setting ''jobs_file'' set_jobs_file env;
     jobs_file_legacy \<leftarrow> str_setting ''jobs_file_legacy'' set_jobs_file_legacy env;
     jobs_reload_interval \<leftarrow> int_setting px ''jobs_reload_interval'' set_jobs_reload_interval env;
     tika_url \<leftarrow> str_setting ''tika_url'' set_tika_url env;
     tika_timeout \<leftarrow> float_setting px ''tika_timeout'' set_tika_timeout env;
     tika_ocr_language \<leftarrow> str_setting ''tika_ocr_language'' set_tika_ocr_language env;
     tika_pdf_ocr_strategy \<leftarrow> str_setting ''tika_pdf_ocr_strategy'' set_tika_pdf_ocr_strategy env;
     tika_sniff_unknown \<leftarrow> bool_setting px ''tika_sniff_unknown'' set_tika_sniff_unknown env;
     min_chars_per_page \<leftarrow> int_setting px ''min_chars_per_page'' set_min_chars_per_page env;
     max_file_bytes \<leftarrow> int_setting px ''max_file_bytes'' set_max_file_bytes env;
     sheet_rows \<leftarrow> int_setting px ''sheet_rows'' set_sheet_rows env;
     max_concurrent_jobs \<leftarrow> int_setting px ''max_concurrent_jobs'' set_max_concurrent_jobs env;
     timezone \<leftarrow> str_setting ''timezone'' set_timezone env;
     misfire_grace \<leftarrow> int_setting px ''misfire_grace'' set_misfire_grace env;
     cron_jitter \<leftarrow> int_setting px ''cron_jitter'' set_cron_jitter env;
     lock_timeout \<leftarrow> float_setting px ''lock_timeout'' set_lock_timeout env;
     run_history_limit \<leftarrow> int_setting px ''run_history_limit'' set_run_history_limit env;
     shutdown_grace \<leftarrow> float_setting px ''shutdown_grace'' set_shutdown_grace env;
     rest_auth \<leftarrow> str_setting ''rest_auth'' set_rest_auth env;
     api_token \<leftarrow> str_setting ''api_token'' set_api_token env;
     http_host \<leftarrow> str_setting ''http_host'' set_http_host env;
     http_port \<leftarrow> int_setting px ''http_port'' set_http_port env;
     mcp_path \<leftarrow> str_setting ''mcp_path'' set_mcp_path env;
     metrics_enabled \<leftarrow> bool_setting px ''metrics_enabled'' set_metrics_enabled env;
     metrics_auth \<leftarrow> bool_setting px ''metrics_auth'' set_metrics_auth env;
     log_level \<leftarrow> str_setting ''log_level'' set_log_level env;
     oidc_issuer \<leftarrow> from_env read_str ''oidc_issuer'' (set_oidc_issuer default_settings) env;
     oidc_audience \<leftarrow> str_setting ''oidc_audience'' set_oidc_audience env;
     oidc_operator_role \<leftarrow> str_setting ''oidc_operator_role'' set_oidc_operator_role env;
     oidc_jwks_cache_ttl \<leftarrow> int_setting px ''oidc_jwks_cache_ttl'' set_oidc_jwks_cache_ttl env;
     state_dir \<leftarrow> str_setting ''state_dir'' set_state_dir env;
     cache_dir \<leftarrow> str_setting ''cache_dir'' set_cache_dir env;
     local_dir \<leftarrow> str_setting ''local_dir'' set_local_dir env;
     Some \<lparr>set_embedding_api_url = embedding_api_url, set_embedding_api_key = embedding_api_key, set_embed_meta_collection = embed_meta_collection,
       set_rbac_acl_collection = rbac_acl_collection, set_embed_batch_size = embed_batch_size, set_embed_retries = embed_retries,
       set_embed_concurrency = embed_concurrency, set_embed_rps = embed_rps, set_connections_file = connections_file,
       set_connections_secret = connections_secret, set_secrets_file = secrets_file, set_jobs_file = jobs_file,
       set_jobs_file_legacy = jobs_file_legacy, set_jobs_reload_interval = jobs_reload_interval, set_tika_url = tika_url,
       set_tika_timeout = tika_timeout, set_tika_ocr_language = tika_ocr_language, set_tika_pdf_ocr_strategy = tika_pdf_ocr_strategy,
       set_tika_sniff_unknown = tika_sniff_unknown, set_min_chars_per_page = min_chars_per_page, set_max_file_bytes = max_file_bytes,
       set_sheet_rows = sheet_rows, set_max_concurrent_jobs = max_concurrent_jobs, set_timezone = timezone,
       set_misfire_grace = misfire_grace, set_cron_jitter = cron_jitter, set_lock_timeout = lock_timeout,
       set_run_history_limit = run_history_limit, set_shutdown_grace = shutdown_grace, set_rest_auth = rest_auth,
       set_api_token = api_token, set_http_host = http_host, set_http_port = http_port,
       set_mcp_path = mcp_path, set_metrics_enabled = metrics_enabled, set_metrics_auth = metrics_auth,
       set_log_level = log_level, set_oidc_issuer = oidc_issuer, set_oidc_audience = oidc_audience,
       set_oidc_operator_role = oidc_operator_role, set_oidc_jwks_cache_ttl = oidc_jwks_cache_ttl, set_state_dir = state_dir,
       set_cache_dir = cache_dir, set_local_dir = local_dir\<rparr>
   })"

section \<open>What the environment decides\<close>

text \<open>A text field takes the value of its variable as it is.\<close>

lemma str_setting_total: "str_setting f d env = Some (case env (env_prefix @ f) of None \<Rightarrow> d default_settings | Some v \<Rightarrow> v)"
  by (simp add: setting_def from_env_def split: option.split)

lemma setting_empty: "setting rd f d Map.empty = Some (d default_settings)"
  by (simp add: setting_def from_env_def)

lemma default_when_unset: "settings_of_environ px [] = Some default_settings"
  by (simp add: settings_of_environ_def lower_environ_def setting_empty from_env_def)

lemma setting_cong:
  "env (env_prefix @ f) = env' (env_prefix @ f) \<Longrightarrow> setting rd f d env = setting rd f d env'"
  by (simp add: setting_def from_env_def)

text \<open>Only the prefixed variables and the issuer count.\<close>

lemma other_variables_ignored:
  assumes "\<And>f. lower_environ vars (env_prefix @ f) = lower_environ vars' (env_prefix @ f)"
    and "lower_environ vars ''oidc_issuer'' = lower_environ vars' ''oidc_issuer''"
  shows "settings_of_environ px vars = settings_of_environ px vars'"
  by (simp only: settings_of_environ_def Let_def setting_def from_env_def assms)

lemma settings_credentials:
  assumes "settings_of_environ px vars = Some st"
  shows "set_api_token st = (case lower_environ vars ''qi_api_token'' of None \<Rightarrow> [] | Some v \<Rightarrow> v)"
    and "set_oidc_issuer st = (case lower_environ vars ''oidc_issuer'' of None \<Rightarrow> [] | Some v \<Rightarrow> v)"
proof -
  from assms have "set_api_token st = (case lower_environ vars (env_prefix @ ''api_token'') of
        None \<Rightarrow> set_api_token default_settings | Some v \<Rightarrow> v) \<and>
      set_oidc_issuer st = (case lower_environ vars ''oidc_issuer'' of
        None \<Rightarrow> set_oidc_issuer default_settings | Some v \<Rightarrow> v)"
    unfolding settings_of_environ_def Let_def str_setting_total from_env_def read_str.simps Option.bind_eq_Some_conv
      option.inject
    by (elim exE conjE) (hypsubst, simp split: option.split_asm)
  then show "set_api_token st = (case lower_environ vars ''qi_api_token'' of None \<Rightarrow> [] | Some v \<Rightarrow> v)"
    and "set_oidc_issuer st = (case lower_environ vars ''oidc_issuer'' of None \<Rightarrow> [] | Some v \<Rightarrow> v)"
    by (simp_all add: env_prefix_def default_settings_def split: option.split)
qed

end
