(* ===== verification/Boot.thy ===== *)
theory Boot
  imports Wiring Config
begin

text \<open>
  The start of the process, the first lines of \<open>main\<close> in \<open>src/src/main.py\<close>: the settings from the
  environment, with the catalog file that is there. And what the service does when nobody configured it.
\<close>

definition process_settings :: "scalars \<Rightarrow> (string \<Rightarrow> bool) \<Rightarrow> (string \<times> string) list \<Rightarrow> settings option" where
  "process_settings px is_file vars = map_option (resolve_catalog_setting is_file) (settings_of_environ px vars)"

text \<open>No spelling of the variable is set, or the last one is empty.\<close>

definition not_set :: "string \<Rightarrow> (string \<times> string) list \<Rightarrow> bool" where
  "not_set name vars \<longleftrightarrow> (case lower_environ vars name of None \<Rightarrow> True | Some v \<Rightarrow> v = [])"

lemma resolve_catalog_setting_keeps [simp]:
  "set_api_token (resolve_catalog_setting is_file st) = set_api_token st"
  "set_oidc_issuer (resolve_catalog_setting is_file st) = set_oidc_issuer st"
  by (simp_all add: resolve_catalog_setting_def Let_def)

lemma process_without_credentials:
  assumes "process_settings px is_file vars = Some st"
    and "not_set ''qi_api_token'' vars" and "not_set ''oidc_issuer'' vars"
  shows "set_api_token st = [] \<and> set_oidc_issuer st = []"
proof -
  from assms(1) obtain st0 where s: "settings_of_environ px vars = Some st0" "st = resolve_catalog_setting is_file st0"
    by (auto simp: process_settings_def)
  from settings_credentials [OF s(1)] assms(2,3) show ?thesis by (simp add: s(2) not_set_def split: option.splits)
qed

text \<open>Every request but the two routes outside the token check.\<close>

definition guarded :: "request \<Rightarrow> bool" where
  "guarded r \<longleftrightarrow> (case r of RestRequest header route \<Rightarrow> route \<noteq> GetHealth \<and> route \<noteq> GetMetrics | _ \<Rightarrow> True)"

lemma locked_route:
  assumes "set_api_token (ng_settings ng) = []" and "route \<noteq> GetHealth" and "route \<noteq> GetMetrics"
  shows "serve ng render header route g = (Inr (problem 401 ''api token not configured''), g)"
proof -
  have "check_bearer (ng_settings ng) header = Inl (unauthorized ''api token not configured'')"
    by (simp add: check_bearer_def assms(1))
  then have "route_answer ng render header route = ret (problem 401 ''api token not configured'')"
    using assms(2,3) by (cases route) (simp_all add: route_answer_def unauthorized_def)
  then show ?thesis by (simp add: serve_def catchE_def ret_def)
qed

lemma locked_request:
  assumes "set_api_token (ng_settings ng) = []" and "set_oidc_issuer (ng_settings ng) = []" and "guarded r"
  shows "handle ng render validate r s = (Inr (), s)"
proof (cases r)
  case (RestRequest header route)
  with assms(3) have "route \<noteq> GetHealth" "route \<noteq> GetMetrics" by (simp_all add: guarded_def)
  from locked_route [OF assms(1) this] show ?thesis by (simp add: handle_def RestRequest)
qed (simp add: handle_def mcp_app_def assms(2))

lemma locked_requests:
  assumes "set_api_token (ng_settings ng) = []" and "set_oidc_issuer (ng_settings ng) = []" and "list_all guarded rs"
  shows "for_each rs (handle ng render validate) s = (Inr (), s)"
  using assms(3) by (induction rs) (simp_all add: locked_request [OF assms(1,2)] ret_def bindE_def seqE_def)

text \<open>C24: Closed by default. A process started from an environment that sets neither the REST token nor the OIDC issuer,
  in any spelling and whatever else it holds, does in its whole life what it does when nobody asks it anything: any
  sequence of REST and MCP requests, with any header or token, the health and metrics routes aside, leaves the
  engine, the database and the world as the start and the shutdown alone would.\<close>
theorem unconfigured_process_closed:
  assumes "process_settings px is_file vars = Some st"
    and "not_set ''qi_api_token'' vars" and "not_set ''oidc_issuer'' vars" and "list_all guarded requests"
  shows "main (build_engine ou st lib) render validate requests s = main (build_engine ou st lib) render validate [] s"
proof -
  have st: "set_api_token (ng_settings (build_engine ou st lib)) = []"
    "set_oidc_issuer (ng_settings (build_engine ou st lib)) = []"
    using process_without_credentials [OF assms(1-3)] by (simp_all add: build_engine_def)
  have "for_each requests (handle (build_engine ou st lib) render validate) =
      for_each [] (handle (build_engine ou st lib) render validate)"
    by (rule ext) (simp add: locked_requests [OF st assms(4)] ret_def)
  then show ?thesis unfolding main_def by (simp only:)
qed

theorem unconfigured_process_closed_witness:
  "let vars = [(''PATH'', ''/bin''), (''qi_jobs_file'', ''/x.yaml''), (''QI_API_TOKEN'', [])];
       st = default_settings\<lparr>set_jobs_file := ''/x.yaml''\<rparr>;
       ng = build_engine sample_outside st sample_library
   in process_settings lax_scalars (\<lambda>p. False) vars = Some st \<and>
      main ng (\<lambda>m. []) (\<lambda>token. raise (InvalidTokenError token)) [RestRequest (Some ''Bearer '') PostReload,
          McpRequest ''/mcp'' sample_scope ListIngestJobs] \<lparr>sv_gate = (), sv_engine = new_engine ng [] sample_memory_core\<rparr> =
      main ng (\<lambda>m. []) (\<lambda>token. raise (InvalidTokenError token)) [] \<lparr>sv_gate = (), sv_engine = new_engine ng [] sample_memory_core\<rparr>"
proof -
  let ?vars = "[(''PATH'', ''/bin''), (''qi_jobs_file'', ''/x.yaml''), (''QI_API_TOKEN'', [])]"
  have p: "process_settings lax_scalars (\<lambda>p. False) ?vars = Some (default_settings\<lparr>set_jobs_file := ''/x.yaml''\<rparr>)"
    by code_simp
  moreover have "not_set ''qi_api_token'' ?vars" "not_set ''oidc_issuer'' ?vars" by code_simp+
  ultimately show ?thesis unfolding Let_def
    by (intro conjI unconfigured_process_closed [OF p]) (simp_all add: guarded_def)
qed

end
