(* ===== verification/Dump.thy ===== *)
theory Dump
  imports Service Declared
begin

text \<open>
  What \<open>job_detail\<close> of \<open>src/src/engine/service.py\<close> makes of the dump of a job that its class declares: the
  masked fields are all of the secret fields and nothing else.
\<close>

lemma json_opt_cases: "json_opt f None = JNull" "json_opt f (Some x) = f x"
  by (simp_all add: json_opt_def)

lemma kind_masked:
  "fold mask_secret (map fst (secret_fields k)) ([(''label'', l), (''rclone_flags'', fl), (''type'', t)] @ kind_json ref k) =
   [(''label'', l), (''rclone_flags'', fl), (''type'', t)] @ kind_json (\<lambda>n. ''***'') k"
proof (cases k)
  case (S3Source b p pr r e a s)
  show ?thesis by (cases a; cases s) (simp_all add: S3Source mask_secret_def secret_alias_def obj_get_def json_opt_cases)
next
  case (WebdavSource u v us p)
  show ?thesis by (cases p) (simp_all add: WebdavSource mask_secret_def secret_alias_def obj_get_def json_opt_cases)
next
  case (SftpSource h po u pw kf pa)
  show ?thesis
    by (cases pw; cases kf) (simp_all add: SftpSource mask_secret_def secret_alias_def obj_get_def json_opt_cases)
next
  case (SmbSource h s u p pa)
  show ?thesis by (cases p) (simp_all add: SmbSource mask_secret_def secret_alias_def obj_get_def json_opt_cases)
next
  case (FtpSource h po u pw pa t)
  show ?thesis by (cases pw) (simp_all add: FtpSource mask_secret_def secret_alias_def obj_get_def json_opt_cases)
next
  case (GdriveSource s t r)
  show ?thesis by (cases s; cases t) (simp_all add: GdriveSource mask_secret_def secret_alias_def obj_get_def json_opt_cases)
next
  case (AzureBlobSource a c kf s p)
  show ?thesis
    by (cases kf; cases s) (simp_all add: AzureBlobSource mask_secret_def secret_alias_def obj_get_def json_opt_cases)
qed simp_all

text \<open>C26: The detail of a job is exactly the dump of the job with three stars for every secret name: whatever its source
  class, no name of a credential is shown, a secret that is not set stays null, and every other field is shown as
  it is. Two jobs that differ only in the names of their secrets give the same answer.\<close>
theorem job_detail_masks_exactly:
  "jd_config (job_detail (ng\<lparr>ng_dump := job_json (\<lambda>n. n)\<rparr>) g j) = job_json (\<lambda>n. ''***'') j"
proof -
  have "obj_get (job_json (\<lambda>n. n) j) ''source'' = source_json (\<lambda>n. n) (job_source j)"
    by (simp add: job_json_def obj_get_def)
  then show ?thesis
    using kind_masked [of "src_kind (job_source j)" "JStr (src_label (job_source j))"
        "json_strs (src_rclone_flags (job_source j))" "JStr (kind_type (src_kind (job_source j)))" "\<lambda>n. n"]
    by (simp add: job_detail_def redacted_def source_json_def) (simp add: job_json_def source_json_def)
qed

end
