(* ===== verification/Spec2Isabelle.thy ===== *)
theory Spec2Isabelle
  imports RunFull RunChange LockSteps LimiterSteps Rclone Connections Migrations Tika Access ServiceLimits Rows Boot Dump
begin

text \<open>
  A model of qdrant-ingest, the service that keeps Qdrant collections in step with document sources.

  The program. A catalog of jobs (\<open>jobs.yaml\<close>) names sources, filters, target collections and
  schedules. A run of a job syncs its source with rclone, scans the landing directory, extracts the
  text of each new or changed file (natively or through Tika), chunks and embeds it, writes the
  points to Qdrant and commits a row to the SQLite state database, and at the end deletes what is
  gone: the vanished sources of an upsert run under a guard, or the older generations of a full run.
  The engine serves REST and MCP, runs jobs on a schedule or in threads of their own, and serialises
  them by locks.

  Conventions. A stateful operation of the code is a function from the state to an outcome and the
  new state (\<open>eff\<close> in \<open>Prelude\<close>): \<open>Inl\<close> is the exception that left it, with the state it left behind,
  so every raise, \<open>except\<close> and \<open>finally\<close> is a branch. Third-party libraries, services and the
  operating system are parameters: a record of operations over a world of any type, with their documented laws as
  named hypotheses: the locales \<open>qdrant\<close> and \<open>scalar_reading\<close>, \<open>scheduler_laws\<close> (the job store of APScheduler; a
  trigger may fail to build), \<open>crypto_laws\<close>, \<open>run_laws\<close> (the id generator does not fail), \<open>honest\<close> (the embeddings
  endpoint, which may fail), and a concrete instance for each: the in-memory Qdrant of \<open>src/tests/fakes\<close> (\<open>FakeQdrant\<close>), a scheduler as an association list, a letter
  cipher. Python integers are \<open>int\<close>, floats are rationals (with the rounding written out where a comparison
  rests on it, in \<open>Guards\<close> and \<open>Rclone\<close>), dicts are association lists or maps, characters are code points
  up to 255. All paths below are under \<open>src/src\<close>.

  Theories and code.

  \<^item> Base: \<open>Prelude\<close> (exceptions, effects, the locale \<open>frame\<close> for what a step may change, Hoare triples), \<open>PyStr\<close>
    (the methods of \<open>str\<close>).
  \<^item> Documents: \<open>Chunk\<close> (\<open>chunk/\<close>), \<open>Router\<close> (\<open>extract/router.py\<close>, \<open>native.py\<close>, \<open>engine/modes.py\<close>), \<open>Tika\<close>
    (\<open>extract/tika.py\<close>), \<open>Embed\<close> (\<open>embed/\<close>) with
    \<open>LimiterSteps\<close> (the limiter as a step relation over its threads), \<open>Sources\<close> (\<open>sources/filters.py\<close>, \<open>local.py\<close>), \<open>Rclone\<close>
    (\<open>sources/rclone.py\<close>).
  \<^item> Configuration: \<open>Schema\<close> (\<open>catalog/schema.py\<close>: the records and validators), \<open>Declared\<close> (its classes as a parser of
    documents, and the writer \<open>model_dump\<close>), \<open>Config\<close> (\<open>config.py\<close>: the defaults and the reading of the environment), \<open>Catalog\<close> (\<open>catalog/loader.py\<close>, \<open>location.py\<close>),
    \<open>Secrets\<close> (\<open>catalog/secrets.py\<close>, \<open>secret_store.py\<close>, \<open>connections/crypto.py\<close>), \<open>Connections\<close> (\<open>connections/\<close>).
  \<^item> State: \<open>StateDb\<close> (\<open>state/models.py\<close>, \<open>state/db.py\<close>, every operation over tables as lists), \<open>Rows\<close> (its statements
    as SQL rows, which the typed tables abstract), \<open>Instants\<close> (its instants), \<open>Migrations\<close>
    (\<open>state/migrations.py\<close>).
  \<^item> Store: \<open>Qdrant\<close> (the client interface), \<open>Store\<close> (\<open>store/\<close>), \<open>FakeQdrant\<close>, \<open>StoreScope\<close> (what the writer
    can touch).
  \<^item> Runs: \<open>Guards\<close> (\<open>engine/guards.py\<close>), \<open>Runner\<close> (\<open>engine/runner.py\<close>, \<open>engine/progress.py\<close>), and its lemmas by
    subject: \<open>RunFrame\<close>, \<open>RunSafety\<close>, \<open>RunResult\<close>, \<open>RunDelete\<close>, \<open>RunRow\<close>, \<open>RunFull\<close>, \<open>RunChange\<close>. \<open>Locks\<close> and \<open>LockSteps\<close>
    (\<open>engine/locks.py\<close>, as one thread runs it and as a step relation over all threads).
  \<^item> Service: \<open>Scheduler\<close> (\<open>scheduler/\<close>), \<open>Service\<close> (\<open>engine/service.py\<close>) with \<open>ServiceInv\<close> (its step relation
    and invariant) and \<open>ServiceLimits\<close>.
  \<^item> Surfaces: \<open>Access\<close> (\<open>api/auth.py\<close>, \<open>mcp_app/oidc.py\<close>, the gate and the mode rule), \<open>Metrics\<close>, \<open>Rest\<close> and
    \<open>RestSafety\<close> (\<open>api/\<close>), \<open>Tools\<close> (\<open>mcp_app/tools.py\<close>, \<open>server.py\<close>), \<open>Dump\<close> (what a job's detail
    shows), \<open>Wiring\<close> (\<open>main.py\<close>) and \<open>Boot\<close> (its settings, and the process nobody configured).

  State and operations. A run works on \<open>run_state\<close>: the world, the database, its own run row and the time
  of the last progress flush. The engine works on \<open>job_engine\<close>: the jobs by id, the paused ids, the queued
  follow-ups, the run threads that have not run yet, the aborted ids, the scheduler, the registry of connections, the
  last load, and \<open>engine_state\<close>, the run state with the locks. An operation of \<open>JobEngine\<close> is one definition of the
  same name; a run thread is a value of \<open>run_thread\<close> that \<open>trigger_run\<close> appends and \<open>run_target\<close> carries out, so the
  interleavings of triggers, thread ends, scheduled runs, reloads and requests are the paths of \<open>engine_step\<close>.
  \<open>Wiring.main\<close> composes everything.

  What the lemmas show.

  \<^item> Runs: a run touches only points and rows of its own job (\<open>RunSafety\<close>), a dry run writes nothing, a document is committed
    after its points and its old points are purged first (\<open>RunResult\<close>), deletion happens under the
    guard and exactly for what vanished (\<open>RunDelete\<close>), the change detection follows its documented table (\<open>RunChange\<close>), a full run that succeeds
    without a failed document leaves one generation (\<open>RunFull\<close>), and
    every run ends in a settled row with consistent counters (\<open>RunRow\<close>).
  \<^item> Engine: every entry of the scheduler belongs to a scheduled job and has the trigger that was applied for it, the
    scheduler is a function of the catalog and the pauses when every schedule builds (a reload that meets a timezone
    nobody knows is left half done, \<open>ServiceLimits\<close>), the held job locks are those of the run
    threads, a refused reload changes nothing, follow-ups are started; all of it over every sequence of
    steps, REST requests and tool calls, from \<open>main\<close> on (\<open>ServiceInv\<close>, \<open>Wiring\<close>).
  \<^item> Locks: mutual exclusion, progress and release on every path, also over all interleavings; a run takes its collection
    at the first wakeup that finds it free, whatever the others did meanwhile.
  \<^item> Surfaces: nothing without the token or the role, where a token is one that was verified with a key and an issuer the
    provider served (\<open>Access\<close>), no deletion without confirmation, no destructive tool, and a job's
    detail is its dump with every secret name masked.
  \<^item> Configuration: what a load accepts can run together (\<open>Catalog\<close>), and jobs that can are read back from their own
    document exactly; a literal credential is never accepted (\<open>Declared\<close>); without a token and an issuer in the environment
    the process stays closed (\<open>Boot\<close>).
  \<^item> Components: chunkers keep every word within the budget, the compiled filters decide as the glob dialect does,
    embedding in batches with retries, behind the limiter or not, is the map or gives up, the permits of the limiter
    bound the requests in flight in every interleaving, the secret
    cache is invisible, encrypted secrets are found, migrations are forward-only and agree with the fresh schema,
    rows and typed tables agree, texts of instants sort as the instants.

  Bounds and fuel. Every recursion of the model terminates, except for the waits. The wait for a collection lock has a number
  of wakeups (\<open>ng_wakeups\<close>) in place of a clock, and what the others do at each is a parameter;
  \<open>execute_locked_releases\<close> holds for every number of them, and \<open>locks_drain\<close> shows that the unbounded relation makes
  progress. In \<open>engine_step\<close> a run has no wakeup: its waiting is the steps the others take before its own. The
  wait for a token of the limiter has fuel for its passes; without pacing, the default, none is used, and with it
  \<open>token_loop_returns\<close> gives the fuel that is enough when the other threads overtake this one only finitely often, which
  the code does not promise. The exact bound on the pace (\<open>tokens_paced\<close>) is about rationals; \<open>embed_slots_bounded\<close> does not
  rest on the arithmetic of the bucket. The retries of Tika, the embeddings and the claims are bounded by the code itself.
  What the database and Qdrant hold is finite but not bounded.

  Not modelled, and why.

  \<^item> Libraries: pydantic's conversion of a scalar of another type (\<open>scalars\<close>) and its error texts, YAML,
    SQLite's engine, FastAPI and Starlette (routing, decoding, the JSON form of an answer), FastMCP's
    protocol, uvicorn, APScheduler's clock, the Prometheus text format, rclone and Tika themselves.
    Each is a parameter, or sits outside the boundary the model starts at.
  \<^item> Threads below the granularity of an operation: an operation of the engine is one step, except that a run thread
    is started and runs in two; connections per thread and the WAL of SQLite are one \<open>BEGIN IMMEDIATE\<close> that may
    fail; joining threads at shutdown changes no modelled state.
  \<^item> Logging, and text that only reaches a log.
\<close>

end
